(* ===== verification/Prelude.thy ===== *)
theory Prelude
  imports Main "HOL-Library.Word" "HOL-Library.Monad_Syntax"
begin

text \<open>
  Shared vocabulary of the development: machine words, captured bytes, bounds-checked access to
  memory, and the little/big endian codecs of the structures the program copies out of a capture.

  The program is C++; reading outside an object, dereferencing a null pointer and letting an
  unsigned subtraction go below zero are the failures its bounds checks exist to prevent.  Every
  operation of the code that could do one of these returns an \<^typ>\<open>'a option\<close> here, with \<open>None\<close>
  for that failure, and the operations are chained with the option monad.  A theorem that an
  operation returns \<open>Some\<close> is therefore a memory safety theorem about the code.
\<close>

unbundle bit_operations_syntax

named_theorems bounds \<open>checked accesses that are in bounds succeed\<close>
named_theorems codec \<open>decoding what has been encoded\<close>

section \<open>Words and bytes\<close>

type_synonym byte = "8 word"
type_synonym u8 = "8 word"
type_synonym u16 = "16 word"
type_synonym u32 = "32 word"
type_synonym u64 = "64 word"

lemma unat_word_of_nat_small [simp]:
  "n < 2 ^ LENGTH('a) \<Longrightarrow> unat (word_of_nat n :: 'a::len word) = n"
  by (simp add: unat_of_nat take_bit_nat_eq_self)

lemma unat_bound: "unat (w :: 'a::len word) < 2 ^ LENGTH('a)"
  by (rule unsigned_less)

section \<open>Checked memory access\<close>

text \<open>The bytes \<open>p[off .. off + n)\<close> of the object that \<open>p\<close> points to.\<close>

definition subspan :: "nat \<Rightarrow> nat \<Rightarrow> 'a list \<Rightarrow> 'a list option" where
  "subspan off n xs = (if off + n \<le> length xs then Some (take n (drop off xs)) else None)"

text \<open>The pointer \<open>p + n\<close>, with the rest of the object behind it.\<close>

definition advance :: "nat \<Rightarrow> 'a list \<Rightarrow> 'a list option" where
  "advance n xs = (if n \<le> length xs then Some (drop n xs) else None)"

text \<open>The element \<open>p[i]\<close>.\<close>

definition elem_at :: "nat \<Rightarrow> 'a list \<Rightarrow> 'a option" where
  "elem_at i xs = (if i < length xs then Some (xs ! i) else None)"

text \<open>The difference of two \<open>size_t\<close>; \<open>None\<close> where C++ would wrap around.\<close>

definition size_sub :: "nat \<Rightarrow> nat \<Rightarrow> nat option" where
  "size_sub a b = (if b \<le> a then Some (a - b) else None)"

lemma subspan_ok [simp, bounds]: "off + n \<le> length xs \<Longrightarrow> subspan off n xs = Some (take n (drop off xs))"
  by (simp add: subspan_def)

lemma subspan_Some: "subspan off n xs = Some ys \<longleftrightarrow> off + n \<le> length xs \<and> ys = take n (drop off xs)"
  by (auto simp: subspan_def)

lemma advance_ok [simp, bounds]: "n \<le> length xs \<Longrightarrow> advance n xs = Some (drop n xs)"
  by (simp add: advance_def)

lemma elem_at_ok [simp, bounds]: "i < length xs \<Longrightarrow> elem_at i xs = Some (xs ! i)"
  by (simp add: elem_at_def)

lemma elem_at_0 [simp]: "numeral k \<le> length xs \<Longrightarrow> elem_at 0 xs = Some (xs ! 0)"
  by (cases xs) (auto simp: elem_at_def)

lemma elem_at_0' [simp]: "xs \<noteq> [] \<Longrightarrow> elem_at 0 xs = Some (xs ! 0)"
  by (simp add: elem_at_def)

lemma size_sub_ok [simp, bounds]: "b \<le> a \<Longrightarrow> size_sub a b = Some (a - b)"
  by (simp add: size_sub_def)

section \<open>Codecs\<close>

text \<open>The value of a little endian byte string, and the \<open>n\<close> low bytes of a value.\<close>

primrec le_nat :: "byte list \<Rightarrow> nat" where
  "le_nat [] = 0"
| "le_nat (b # bs) = unat b + 256 * le_nat bs"

primrec le_bytes :: "nat \<Rightarrow> nat \<Rightarrow> byte list" where
  "le_bytes 0 v = []"
| "le_bytes (Suc n) v = word_of_nat v # le_bytes n (v div 256)"

lemma length_le_bytes [simp]: "length (le_bytes n v) = n"
  by (induction n arbitrary: v) auto

lemma le_nat_bound: "le_nat bs < 256 ^ length bs"
proof (induction bs)
  case Nil
  then show ?case by simp
next
  case (Cons b bs)
  have "unat b < 256" using unat_bound [of b] by simp
  with Cons show ?case by simp
qed

lemma le_nat_le_bytes [codec]: "le_nat (le_bytes n v) = v mod 256 ^ n"
proof (induction n arbitrary: v)
  case 0
  then show ?case by simp
next
  case (Suc n)
  have "unat (word_of_nat v :: byte) = v mod 256"
    by (simp add: unat_of_nat take_bit_eq_mod)
  with Suc show ?case
    by (simp add: mod_mult2_eq mult.commute add.commute)
qed

lemma le_bytes_le_nat [codec]: "le_bytes (length bs) (le_nat bs) = bs"
proof (induction bs)
  case Nil
  then show ?case by simp
next
  case (Cons b bs)
  have b: "unat b < 256" using unat_bound [of b] by simp
  have "unat (word_of_nat (unat b + 256 * le_nat bs) :: byte) = unat b"
    using b by (simp add: unat_of_nat take_bit_eq_mod del: of_nat_add of_nat_mult)
  then have "word_of_nat (unat b + 256 * le_nat bs) = b"
    by (rule word_unat_eq_iff [THEN iffD2])
  with Cons b show ?case by simp
qed

lemma le_nat_inj: "length xs = length ys \<Longrightarrow> le_nat xs = le_nat ys \<Longrightarrow> xs = ys"
  by (metis le_bytes_le_nat)

text \<open>
  A field of a structure copied out of capture memory: \<open>n\<close> bytes at offset \<open>off\<close>, read on a little
  endian host.  \<open>n\<close> is the width of the word in bytes.
\<close>

definition field :: "nat \<Rightarrow> nat \<Rightarrow> byte list \<Rightarrow> 'a::len word" where
  "field off n bs = word_of_nat (le_nat (take n (drop off bs)))"

abbreviation (input) field8 :: "nat \<Rightarrow> byte list \<Rightarrow> u8" where "field8 off bs \<equiv> field off 1 bs"
abbreviation (input) field16 :: "nat \<Rightarrow> byte list \<Rightarrow> u16" where "field16 off bs \<equiv> field off 2 bs"
abbreviation (input) field32 :: "nat \<Rightarrow> byte list \<Rightarrow> u32" where "field32 off bs \<equiv> field off 4 bs"
abbreviation (input) field64 :: "nat \<Rightarrow> byte list \<Rightarrow> u64" where "field64 off bs \<equiv> field off 8 bs"

abbreviation (input) enc8 :: "u8 \<Rightarrow> byte list" where "enc8 w \<equiv> le_bytes 1 (unat w)"
abbreviation (input) enc16 :: "u16 \<Rightarrow> byte list" where "enc16 w \<equiv> le_bytes 2 (unat w)"
abbreviation (input) enc32 :: "u32 \<Rightarrow> byte list" where "enc32 w \<equiv> le_bytes 4 (unat w)"
abbreviation (input) enc64 :: "u64 \<Rightarrow> byte list" where "enc64 w \<equiv> le_bytes 8 (unat w)"

text \<open>Reading back a word that was laid out at the offset, for the four widths in use.\<close>

lemma field_append_here:
  "length pre = off \<Longrightarrow> 256 ^ n = (2::nat) ^ LENGTH('a) \<Longrightarrow>
   field off n (pre @ le_bytes n (unat (w :: 'a::len word)) @ post) = w"
proof -
  assume len: "length pre = off" and width: "256 ^ n = (2::nat) ^ LENGTH('a)"
  have "unat w < 256 ^ n" using unat_bound [of w] width by simp
  then show ?thesis using len by (simp add: field_def le_nat_le_bytes)
qed

lemma field_here:
  "256 ^ n = (2::nat) ^ LENGTH('a) \<Longrightarrow> field 0 n (le_bytes n (unat (w :: 'a::len word)) @ post) = w"
  using field_append_here [of "[]" 0 n w post] by simp

lemma field_skip: "length pre \<le> off \<Longrightarrow> field off n (pre @ post) = field (off - length pre) n post"
  by (simp add: field_def)

lemma field_take: "off + n \<le> m \<Longrightarrow> field off n (take m bs) = field off n bs"
  by (simp add: field_def take_drop min_def)

lemma field_prefix: "off + n \<le> length bs \<Longrightarrow> field off n (bs @ post) = field off n bs"
  by (simp add: field_def)

lemma enc_field:
  "off + n \<le> length bs \<Longrightarrow> 256 ^ n = (2::nat) ^ LENGTH('a::len) \<Longrightarrow>
   le_bytes n (unat (field off n bs :: 'a word)) = take n (drop off bs)"
proof -
  assume in_range: "off + n \<le> length bs" and width: "256 ^ n = (2::nat) ^ LENGTH('a)"
  let ?f = "take n (drop off bs)"
  have len: "length ?f = n" using in_range by simp
  then have "le_nat ?f < 2 ^ LENGTH('a)" using le_nat_bound [of ?f] width by simp
  then show ?thesis using le_bytes_le_nat [of ?f] len by (simp add: field_def)
qed

section \<open>Byte order\<close>

text \<open>
  \<open>boost::endian::endian_reverse\<close>, and \<open>big_to_native\<close> on the little endian host, reverse the bytes
  of a word.
\<close>

definition endian_reverse32 :: "u32 \<Rightarrow> u32" where
  "endian_reverse32 w = word_of_nat (le_nat (rev (le_bytes 4 (unat w))))"

definition endian_reverse16 :: "u16 \<Rightarrow> u16" where
  "endian_reverse16 w = word_of_nat (le_nat (rev (le_bytes 2 (unat w))))"

definition enc_be32 :: "u32 \<Rightarrow> byte list" where
  "enc_be32 w = rev (le_bytes 4 (unat w))"

definition enc_be16 :: "u16 \<Rightarrow> byte list" where
  "enc_be16 w = rev (le_bytes 2 (unat w))"

lemma length_enc_be [simp]: "length (enc_be32 w) = 4" "length (enc_be16 v) = 2"
  by (simp_all add: enc_be32_def enc_be16_def)

lemma le_nat_rev_enc32: "le_nat (le_bytes 4 (unat (w :: u32))) = unat w"
  using unat_bound [of w] by (simp add: le_nat_le_bytes)

lemma le_nat_rev_enc16: "le_nat (le_bytes 2 (unat (w :: u16))) = unat w"
  using unat_bound [of w] by (simp add: le_nat_le_bytes)

lemma unat_le_nat4: "length bs = 4 \<Longrightarrow> unat (word_of_nat (le_nat bs) :: u32) = le_nat bs"
  using le_nat_bound [of bs] by simp

lemma unat_le_nat2: "length bs = 2 \<Longrightarrow> unat (word_of_nat (le_nat bs) :: u16) = le_nat bs"
  using le_nat_bound [of bs] by simp

lemma le_bytes4_le_nat: "length bs = 4 \<Longrightarrow> le_bytes 4 (le_nat bs) = bs"
  using le_bytes_le_nat [of bs] by simp

lemma le_bytes2_le_nat: "length bs = 2 \<Longrightarrow> le_bytes 2 (le_nat bs) = bs"
  using le_bytes_le_nat [of bs] by simp

lemma endian_reverse32_involutive [simp]: "endian_reverse32 (endian_reverse32 w) = w"
  by (simp add: endian_reverse32_def unat_le_nat4 le_bytes4_le_nat le_nat_rev_enc32)

lemma endian_reverse16_involutive [simp]: "endian_reverse16 (endian_reverse16 w) = w"
  by (simp add: endian_reverse16_def unat_le_nat2 le_bytes2_le_nat le_nat_rev_enc16)

lemma enc32_endian_reverse32: "le_bytes 4 (unat (endian_reverse32 w)) = rev (le_bytes 4 (unat w))"
  by (simp add: endian_reverse32_def unat_le_nat4 le_bytes4_le_nat)

lemma enc16_endian_reverse16: "le_bytes 2 (unat (endian_reverse16 w)) = rev (le_bytes 2 (unat w))"
  by (simp add: endian_reverse16_def unat_le_nat2 le_bytes2_le_nat)

text \<open>
  \<open>readBigEndian32\<close> (defined alike in \<open>MuxStream.cpp\<close> and \<open>USBMUXInterfaceExpert.cpp\<close>): four bytes
  copied into a word, then \<open>big_to_native\<close>.
\<close>

definition readBigEndian32 :: "byte list \<Rightarrow> u32 option" where
  "readBigEndian32 p = do { value \<leftarrow> subspan 0 4 p; Some (endian_reverse32 (field32 0 value)) }"

definition be32 :: "byte list \<Rightarrow> u32" where
  "be32 p = endian_reverse32 (field32 0 (take 4 p))"

lemma readBigEndian32_ok [simp, bounds]: "4 \<le> length p \<Longrightarrow> readBigEndian32 p = Some (be32 p)"
  by (simp add: readBigEndian32_def be32_def)

lemma be32_enc [codec, simp]: "be32 (enc_be32 w @ post) = w"
proof -
  have "take 4 (enc_be32 w @ post) = le_bytes 4 (unat (endian_reverse32 w))"
    by (simp add: enc_be32_def enc32_endian_reverse32)
  then show ?thesis using field_here [of 4 "endian_reverse32 w" "[]"] by (simp add: be32_def)
qed

lemma be32_append [simp]: "4 \<le> length p \<Longrightarrow> be32 (p @ q) = be32 p"
  by (simp add: be32_def)

text \<open>The bytes of a big endian field, for concrete values.\<close>

lemma enc_be32_eq: "enc_be32 w = [ucast (drop_bit 24 w), ucast (drop_bit 16 w), ucast (drop_bit 8 w), ucast w]"
proof -
  have four: "(4::nat) = Suc (Suc (Suc (Suc 0)))" by simp
  have b: "word_of_nat (unat w div 2 ^ n) = (ucast (drop_bit n w) :: byte)" for n
    by (metis drop_bit_eq_div unat_drop_bit_eq of_int_of_nat_eq ucast_eq uint_nat)
  show ?thesis
    unfolding enc_be32_def four le_bytes.simps
    using b [of 24] b [of 16] b [of 8] b [of 0] by (simp add: div_mult2_eq [symmetric])
qed

lemma enc_be16_eq: "enc_be16 w = [ucast (drop_bit 8 w), ucast w]"
proof -
  have two: "(2::nat) = Suc (Suc 0)" by simp
  have b: "word_of_nat (unat w div 2 ^ n) = (ucast (drop_bit n w) :: byte)" for n
    by (metis drop_bit_eq_div unat_drop_bit_eq of_int_of_nat_eq ucast_eq uint_nat)
  show ?thesis
    unfolding enc_be16_def two le_bytes.simps
    using b [of 8] b [of 0] by simp
qed

section \<open>Reading structures\<close>

text \<open>
  \<open>readStruct\<close> of \<open>demuxusb.hpp\<close>: copies \<open>n\<close> bytes when that many are available, and otherwise
  reports \<open>false\<close> (here \<open>None\<close>) without touching memory.  The null pointer of the code only ever comes
  with a length of zero, which the length test covers, every structure having a positive size.
\<close>

definition readStruct :: "nat \<Rightarrow> (byte list \<Rightarrow> 'a) \<Rightarrow> byte list \<Rightarrow> 'a option" where
  "readStruct n decode data = (if length data < n then None else Some (decode (take n data)))"

lemma readStruct_None [simp]: "readStruct n d bs = None \<longleftrightarrow> length bs < n"
  by (simp add: readStruct_def)

lemma readStruct_Some: "readStruct n d bs = Some x \<longleftrightarrow> n \<le> length bs \<and> x = d (take n bs)"
  by (auto simp: readStruct_def)

lemma readStruct_ok [simp]: "n \<le> length bs \<Longrightarrow> readStruct n d bs = Some (d (take n bs))"
  by (simp add: readStruct_def)

section \<open>Success of checked computations\<close>

text \<open>A bind succeeds when its first part does and the rest does on its result.\<close>

lemma bind_success [intro]:
  "m = Some x \<Longrightarrow> \<exists>r. f x = Some r \<Longrightarrow> \<exists>r. Option.bind m f = Some r"
  by simp

lemma bind_Some_elim:
  assumes "Option.bind m f = Some r"
  obtains x where "m = Some x" and "f x = Some r"
  using assms by (cases m) auto

section \<open>Runs\<close>

text \<open>A sequence of operations on a state, each of which may fail.\<close>

fun run_opt :: "('a \<Rightarrow> 's \<Rightarrow> 's option) \<Rightarrow> 'a list \<Rightarrow> 's \<Rightarrow> 's option" where
  "run_opt f [] s = Some s"
| "run_opt f (x # xs) s = do { s' \<leftarrow> f x s; run_opt f xs s' }"

lemma run_opt_append: "run_opt f (xs @ ys) s = Option.bind (run_opt f xs s) (run_opt f ys)"
  by (induction xs arbitrary: s) (auto split: Option.bind_split)

text \<open>An invariant under which every operation succeeds carries a run to its end.\<close>

lemma run_opt_safe:
  assumes step: "\<And>x s. x \<in> set xs \<Longrightarrow> I s \<Longrightarrow> \<exists>s'. f x s = Some s' \<and> I s'"
    and start: "I s"
  shows "\<exists>s'. run_opt f xs s = Some s' \<and> I s'"
  using assms
proof (induction xs arbitrary: s)
  case Nil
  then show ?case by simp
next
  case (Cons x xs)
  from Cons.prems obtain s1 where s1: "f x s = Some s1" "I s1" by force
  have "\<exists>s'. run_opt f xs s1 = Some s' \<and> I s'"
    using Cons.prems(1) s1(2) by (intro Cons.IH) auto
  with s1 show ?case by simp
qed

text \<open>
  A machine that never fails: every operation succeeds in every state that is in order, and leaves one.  The components
  promise this to those that call them; what follows for sequences of operations is proved here once.
\<close>

locale safe_machine =
  fixes ok :: "'s \<Rightarrow> bool" and step :: "'x \<Rightarrow> 's \<Rightarrow> 's option"
  assumes safe_step: "ok s \<Longrightarrow> \<exists>s'. step x s = Some s' \<and> ok s'"
begin

lemma safe_step_ok: "ok s \<Longrightarrow> step x s = Some s' \<Longrightarrow> ok s'"
  using safe_step [of s x] by auto

lemma safe_run: "ok s \<Longrightarrow> \<exists>s'. run_opt step xs s = Some s' \<and> ok s'"
  by (rule run_opt_safe) (use safe_step in blast, simp)

lemma safe_run_ok: "ok s \<Longrightarrow> run_opt step xs s = Some s' \<Longrightarrow> ok s'"
  using safe_run [of s xs] by auto

end

lemma run_opt_total: "run_opt (\<lambda>x s. Some (f x s)) xs s = Some (fold f xs s)"
  by (induction xs arbitrary: s) auto

end
