(* ===== verification/Layouts.thy ===== *)
theory Layouts
  imports Prelude
begin

text \<open>
  The structures of \<open>ext/pcapng.h\<close>, \<open>ext/usb.h\<close> and \<open>ext/usbmux.h\<close> that the program copies out of
  untrusted memory, each as a record with the fields of the C structure, its size, and the decoder
  that \<open>memcpy\<close> into the structure amounts to on a little endian host: the offsets are those of the
  packed structures, and of the natural alignment for the others (which the header's static asserts
  pin down).  USB descriptors all begin with \<open>usb_descriptor_header\<close>, so their records extend it.
\<close>

section \<open>Container formats\<close>

abbreviation (input) TYPE_SECTION_HEADER :: u32 where "TYPE_SECTION_HEADER \<equiv> 0x0A0D0D0A"
abbreviation (input) TIME_INTERFACE_DESCRIPTOR_BLOCK :: u32 where "TIME_INTERFACE_DESCRIPTOR_BLOCK \<equiv> 1"
abbreviation (input) TYPE_SIMPLE_PACKET_BLOCK :: u32 where "TYPE_SIMPLE_PACKET_BLOCK \<equiv> 3"
abbreviation (input) TYPE_ENHANCED_PACKET_BLOCK :: u32 where "TYPE_ENHANCED_PACKET_BLOCK \<equiv> 6"
abbreviation (input) PCAPNG_BYTE_ORDER_MAGIC :: u32 where "PCAPNG_BYTE_ORDER_MAGIC \<equiv> 0x1A2B3C4D"
abbreviation (input) PCAPNG_BYTE_ORDER_MAGIC_SWAPPED :: u32 where "PCAPNG_BYTE_ORDER_MAGIC_SWAPPED \<equiv> 0x4D3C2B1A"
abbreviation (input) PCAP_MAGIC_MICROSECONDS :: u32 where "PCAP_MAGIC_MICROSECONDS \<equiv> 0xA1B2C3D4"
abbreviation (input) PCAP_MAGIC_NANOSECONDS :: u32 where "PCAP_MAGIC_NANOSECONDS \<equiv> 0xA1B23C4D"
abbreviation (input) PCAP_MAGIC_MICROSECONDS_SWAPPED :: u32 where "PCAP_MAGIC_MICROSECONDS_SWAPPED \<equiv> 0xD4C3B2A1"
abbreviation (input) PCAP_MAGIC_NANOSECONDS_SWAPPED :: u32 where "PCAP_MAGIC_NANOSECONDS_SWAPPED \<equiv> 0x4D3CB2A1"

abbreviation (input) LINKTYPE_USB_LINUX :: u32 where "LINKTYPE_USB_LINUX \<equiv> 189"
abbreviation (input) LINKTYPE_USB_LINUX_MMAPPED :: u32 where "LINKTYPE_USB_LINUX_MMAPPED \<equiv> 220"
abbreviation (input) LINKTYPE_USBPCAP :: u32 where "LINKTYPE_USBPCAP \<equiv> 249"
abbreviation (input) LINKTYPE_USB_DARWIN :: u32 where "LINKTYPE_USB_DARWIN \<equiv> 266"

record block_t =
  block_type :: u32
  block_length :: u32

definition block_size :: nat where "block_size = 8"

definition decode_block :: "byte list \<Rightarrow> block_t" where
  "decode_block bs = \<lparr>block_type = field32 0 bs, block_length = field32 4 bs\<rparr>"

record pcapng_shb_t =
  byte_order_magic :: u32
  major_version :: u16
  minor_version :: u16
  section_length :: u64

definition shb_size :: nat where "shb_size = 16"

definition decode_shb :: "byte list \<Rightarrow> pcapng_shb_t" where
  "decode_shb bs = \<lparr>byte_order_magic = field32 0 bs, major_version = field16 4 bs,
     minor_version = field16 6 bs, section_length = field64 8 bs\<rparr>"

record pcapng_epb_t =
  interface_id :: u32
  timestamp_high :: u32
  timestamp_low :: u32
  captured_len :: u32
  epb_packet_len :: u32

definition epb_size :: nat where "epb_size = 20"

definition decode_epb :: "byte list \<Rightarrow> pcapng_epb_t" where
  "decode_epb bs = \<lparr>interface_id = field32 0 bs, timestamp_high = field32 4 bs,
     timestamp_low = field32 8 bs, captured_len = field32 12 bs, epb_packet_len = field32 16 bs\<rparr>"

record pcapng_spb_t =
  packet_len :: u32

definition spb_size :: nat where "spb_size = 4"

definition decode_spb :: "byte list \<Rightarrow> pcapng_spb_t" where
  "decode_spb bs = \<lparr>packet_len = field32 0 bs\<rparr>"

record pcap_interface_descriptor_t =
  idb_linktype :: u16
  idb_reserved :: u16
  idb_snaplen :: u32

definition idb_size :: nat where "idb_size = 8"

definition decode_idb :: "byte list \<Rightarrow> pcap_interface_descriptor_t" where
  "decode_idb bs = \<lparr>idb_linktype = field16 0 bs, idb_reserved = field16 2 bs, idb_snaplen = field32 4 bs\<rparr>"

record pcap_file_header_t =
  pcap_magic :: u32
  version_major :: u16
  version_minor :: u16
  thiszone :: u32
  sigfigs :: u32
  pcap_snaplen :: u32
  pcap_linktype :: u32

definition pcap_header_size :: nat where "pcap_header_size = 24"

definition decode_pcap_header :: "byte list \<Rightarrow> pcap_file_header_t" where
  "decode_pcap_header bs = \<lparr>pcap_magic = field32 0 bs, version_major = field16 4 bs,
     version_minor = field16 6 bs, thiszone = field32 8 bs, sigfigs = field32 12 bs,
     pcap_snaplen = field32 16 bs, pcap_linktype = field32 20 bs\<rparr>"

record pcap_record_header_t =
  ts_sec :: u32
  ts_usec :: u32
  incl_len :: u32
  orig_len :: u32

definition pcap_record_size :: nat where "pcap_record_size = 16"

definition decode_pcap_record :: "byte list \<Rightarrow> pcap_record_header_t" where
  "decode_pcap_record bs = \<lparr>ts_sec = field32 0 bs, ts_usec = field32 4 bs,
     incl_len = field32 8 bs, orig_len = field32 12 bs\<rparr>"

section \<open>Captured USB packets\<close>

record usb_setup_t =
  bmRequestType :: u8
  bRequest :: u8
  wValue :: u16
  wIndex :: u16
  wLength :: u16

definition setup_size :: nat where "setup_size = 8"

definition decode_setup :: "byte list \<Rightarrow> usb_setup_t" where
  "decode_setup bs = \<lparr>bmRequestType = field8 0 bs, bRequest = field8 1 bs, wValue = field16 2 bs,
     wIndex = field16 4 bs, wLength = field16 6 bs\<rparr>"

definition zero_setup :: usb_setup_t where
  "zero_setup = \<lparr>bmRequestType = 0, bRequest = 0, wValue = 0, wIndex = 0, wLength = 0\<rparr>"

record darwin_usb_header =
  darwin_version :: u16
  darwin_headerLength :: u8
  darwin_type :: u8
  darwin_length :: u32
  darwin_status :: u32
  darwin_isoFrames :: u32
  darwin_uniqueId :: u64
  darwin_locationId :: u32
  darwin_speed :: u8
  darwin_deviceId :: u8
  darwin_endpointId :: u8
  darwin_endpointType :: u8

definition darwin_header_size :: nat where "darwin_header_size = 32"

definition decode_darwin_header :: "byte list \<Rightarrow> darwin_usb_header" where
  "decode_darwin_header bs = \<lparr>darwin_version = field16 0 bs, darwin_headerLength = field8 2 bs,
     darwin_type = field8 3 bs, darwin_length = field32 4 bs, darwin_status = field32 8 bs,
     darwin_isoFrames = field32 12 bs, darwin_uniqueId = field64 16 bs, darwin_locationId = field32 24 bs,
     darwin_speed = field8 28 bs, darwin_deviceId = field8 29 bs, darwin_endpointId = field8 30 bs,
     darwin_endpointType = field8 31 bs\<rparr>"

record usbmon_header =
  mon_id :: u64
  event_type :: u8
  transfer_type :: u8
  endpoint_number :: u8
  device_address :: u8
  bus_id :: u16
  setup_flag :: u8
  data_flag :: u8
  mon_ts_sec :: u64
  mon_ts_usec :: u32
  mon_status :: u32
  urb_len :: u32
  data_len :: u32
  mon_setup :: usb_setup_t

definition usbmon_header_size :: nat where "usbmon_header_size = 48"
definition usbmon_mmapped_header_size :: nat where "usbmon_mmapped_header_size = 64"

definition decode_usbmon_header :: "byte list \<Rightarrow> usbmon_header" where
  "decode_usbmon_header bs = \<lparr>mon_id = field64 0 bs, event_type = field8 8 bs, transfer_type = field8 9 bs,
     endpoint_number = field8 10 bs, device_address = field8 11 bs, bus_id = field16 12 bs,
     setup_flag = field8 14 bs, data_flag = field8 15 bs, mon_ts_sec = field64 16 bs,
     mon_ts_usec = field32 24 bs, mon_status = field32 28 bs, urb_len = field32 32 bs,
     data_len = field32 36 bs, mon_setup = decode_setup (take 8 (drop 40 bs))\<rparr>"

record usbpcap_packet_header =
  headerLen :: u16
  irpId :: u64
  pcap_status :: u32
  pcap_function :: u16
  pcap_info :: u8
  pcap_bus :: u16
  pcap_device :: u16
  pcap_endpoint :: u8
  pcap_transfer :: u8
  dataLength :: u32

definition usbpcap_header_size :: nat where "usbpcap_header_size = 27"

definition decode_usbpcap_header :: "byte list \<Rightarrow> usbpcap_packet_header" where
  "decode_usbpcap_header bs = \<lparr>headerLen = field16 0 bs, irpId = field64 2 bs, pcap_status = field32 10 bs,
     pcap_function = field16 14 bs, pcap_info = field8 16 bs, pcap_bus = field16 17 bs,
     pcap_device = field16 19 bs, pcap_endpoint = field8 21 bs, pcap_transfer = field8 22 bs,
     dataLength = field32 23 bs\<rparr>"

record usbpcap_control_header =
  control_header :: usbpcap_packet_header
  control_stage :: u8

definition usbpcap_control_header_size :: nat where "usbpcap_control_header_size = 28"

definition decode_usbpcap_control_header :: "byte list \<Rightarrow> usbpcap_control_header" where
  "decode_usbpcap_control_header bs =
     \<lparr>control_header = decode_usbpcap_header (take 27 bs), control_stage = field8 27 bs\<rparr>"

lemmas container_sizes = block_size_def shb_size_def epb_size_def spb_size_def idb_size_def
  pcap_header_size_def pcap_record_size_def

lemmas packet_sizes = setup_size_def darwin_header_size_def usbmon_header_size_def
  usbmon_mmapped_header_size_def usbpcap_header_size_def usbpcap_control_header_size_def

end
