(* ===== verification/Usb_Descriptors.thy ===== *)
theory Usb_Descriptors
  imports Layouts
begin

text \<open>
  The USB chapter 9 structures of \<open>ext/usb.h\<close>.  Every descriptor begins with its length and type, so
  the records extend \<open>usb_descriptor_header\<close>.
\<close>

abbreviation (input) USB_DIR_IN :: u8 where "USB_DIR_IN \<equiv> 0x80"
abbreviation (input) USB_TYPE_MASK :: u8 where "USB_TYPE_MASK \<equiv> 0x60"
abbreviation (input) USB_TYPE_STANDARD :: u8 where "USB_TYPE_STANDARD \<equiv> 0x00"
abbreviation (input) USB_TYPE_CLASS :: u8 where "USB_TYPE_CLASS \<equiv> 0x20"
abbreviation (input) USB_RECIP_MASK :: u8 where "USB_RECIP_MASK \<equiv> 0x1F"
abbreviation (input) USB_RECIP_DEVICE :: u8 where "USB_RECIP_DEVICE \<equiv> 0"
abbreviation (input) USB_RECIP_INTERFACE :: u8 where "USB_RECIP_INTERFACE \<equiv> 1"
abbreviation (input) USB_REQ_GET_DESCRIPTOR :: u8 where "USB_REQ_GET_DESCRIPTOR \<equiv> 6"
abbreviation (input) USB_REQ_SET_CONFIGURATION :: u8 where "USB_REQ_SET_CONFIGURATION \<equiv> 9"
abbreviation (input) USB_REQ_SET_INTERFACE :: u8 where "USB_REQ_SET_INTERFACE \<equiv> 11"

abbreviation (input) USB_DT_DEVICE :: u8 where "USB_DT_DEVICE \<equiv> 1"
abbreviation (input) USB_DT_CONFIG :: u8 where "USB_DT_CONFIG \<equiv> 2"
abbreviation (input) USB_DT_STRING :: u8 where "USB_DT_STRING \<equiv> 3"
abbreviation (input) USB_DT_INTERFACE :: u8 where "USB_DT_INTERFACE \<equiv> 4"
abbreviation (input) USB_DT_ENDPOINT :: u8 where "USB_DT_ENDPOINT \<equiv> 5"
abbreviation (input) USB_DT_BOS :: u8 where "USB_DT_BOS \<equiv> 15"
abbreviation (input) USB_DT_DFU_FUNCTIONAL :: u8 where "USB_DT_DFU_FUNCTIONAL \<equiv> 0x21"

abbreviation (input) USB_CLASS_DFU :: u8 where "USB_CLASS_DFU \<equiv> 0xFE"
abbreviation (input) USB_SUBCLASS_DFU :: u8 where "USB_SUBCLASS_DFU \<equiv> 1"
abbreviation (input) USB_CLASS_APPLICATION_SPECIFIC :: u8 where "USB_CLASS_APPLICATION_SPECIFIC \<equiv> 0xFF"
abbreviation (input) APPLE_SUBCLASS_USBMUX :: u8 where "APPLE_SUBCLASS_USBMUX \<equiv> 0xFE"
abbreviation (input) APPLE_PROTOCOL_USBMUX2 :: u8 where "APPLE_PROTOCOL_USBMUX2 \<equiv> 2"

abbreviation (input) APPLE_VID :: u16 where "APPLE_VID \<equiv> 0x05AC"
abbreviation (input) IRECV_K_RECOVERY_MODE_1 :: u16 where "IRECV_K_RECOVERY_MODE_1 \<equiv> 0x1280"
abbreviation (input) IRECV_K_RECOVERY_MODE_2 :: u16 where "IRECV_K_RECOVERY_MODE_2 \<equiv> 0x1281"
abbreviation (input) IRECV_K_RECOVERY_MODE_3 :: u16 where "IRECV_K_RECOVERY_MODE_3 \<equiv> 0x1282"
abbreviation (input) IRECV_K_RECOVERY_MODE_4 :: u16 where "IRECV_K_RECOVERY_MODE_4 \<equiv> 0x1283"
abbreviation (input) IRECV_K_WTF_MODE :: u16 where "IRECV_K_WTF_MODE \<equiv> 0x1222"
abbreviation (input) IRECV_K_DFU_MODE :: u16 where "IRECV_K_DFU_MODE \<equiv> 0x1227"

abbreviation (input) USB_ENDPOINT_ID :: "u8 \<Rightarrow> u8" where "USB_ENDPOINT_ID ep \<equiv> ep AND 0x7F"
abbreviation (input) USB_ENDPOINT_IN :: "u8 \<Rightarrow> bool" where "USB_ENDPOINT_IN ep \<equiv> ep AND 0x80 \<noteq> 0"
abbreviation (input) USB_ENDPOINT_OUT :: "u8 \<Rightarrow> bool" where "USB_ENDPOINT_OUT ep \<equiv> ep AND 0x80 = 0"

record usb_descriptor_header =
  bLength :: u8
  bDescriptorType :: u8

definition descriptor_header_size :: nat where "descriptor_header_size = 2"

definition decode_descriptor_header :: "byte list \<Rightarrow> usb_descriptor_header" where
  "decode_descriptor_header bs = \<lparr>bLength = field8 0 bs, bDescriptorType = field8 1 bs\<rparr>"

record usb_device_descriptor = usb_descriptor_header +
  bcdUSB :: u16
  bDeviceClass :: u8
  bDeviceSubClass :: u8
  bDeviceProtocol :: u8
  bMaxPacketSize0 :: u8
  idVendor :: u16
  idProduct :: u16
  bcdDevice :: u16
  iManufacturer :: u8
  iProduct :: u8
  iSerialNumber :: u8
  bNumConfigurations :: u8

definition USB_DT_DEVICE_SIZE :: nat where "USB_DT_DEVICE_SIZE = 18"

definition decode_device_descriptor :: "byte list \<Rightarrow> usb_device_descriptor" where
  "decode_device_descriptor bs = \<lparr>bLength = field8 0 bs, bDescriptorType = field8 1 bs,
     bcdUSB = field16 2 bs, bDeviceClass = field8 4 bs, bDeviceSubClass = field8 5 bs,
     bDeviceProtocol = field8 6 bs, bMaxPacketSize0 = field8 7 bs, idVendor = field16 8 bs,
     idProduct = field16 10 bs, bcdDevice = field16 12 bs, iManufacturer = field8 14 bs,
     iProduct = field8 15 bs, iSerialNumber = field8 16 bs, bNumConfigurations = field8 17 bs\<rparr>"

text \<open>The object representation of a device descriptor, which \<open>memcmp\<close> compares.\<close>

definition encode_device_descriptor :: "usb_device_descriptor \<Rightarrow> byte list" where
  "encode_device_descriptor d = enc8 (bLength d) @ enc8 (bDescriptorType d) @ enc16 (bcdUSB d) @
     enc8 (bDeviceClass d) @ enc8 (bDeviceSubClass d) @ enc8 (bDeviceProtocol d) @
     enc8 (bMaxPacketSize0 d) @ enc16 (idVendor d) @ enc16 (idProduct d) @ enc16 (bcdDevice d) @
     enc8 (iManufacturer d) @ enc8 (iProduct d) @ enc8 (iSerialNumber d) @ enc8 (bNumConfigurations d)"

definition zero_device_descriptor :: usb_device_descriptor where
  "zero_device_descriptor = decode_device_descriptor (replicate 18 0)"

record usb_config_descriptor = usb_descriptor_header +
  wTotalLength :: u16
  bNumInterfaces :: u8
  bConfigurationValue :: u8
  iConfiguration :: u8
  bmAttributes_config :: u8
  bMaxPower :: u8

definition USB_DT_CONFIG_SIZE :: nat where "USB_DT_CONFIG_SIZE = 9"

definition decode_config_descriptor :: "byte list \<Rightarrow> usb_config_descriptor" where
  "decode_config_descriptor bs = \<lparr>bLength = field8 0 bs, bDescriptorType = field8 1 bs,
     wTotalLength = field16 2 bs, bNumInterfaces = field8 4 bs, bConfigurationValue = field8 5 bs,
     iConfiguration = field8 6 bs, bmAttributes_config = field8 7 bs, bMaxPower = field8 8 bs\<rparr>"

record usb_interface_descriptor = usb_descriptor_header +
  bInterfaceNumber :: u8
  bAlternateSetting :: u8
  bNumEndpoints :: u8
  bInterfaceClass :: u8
  bInterfaceSubClass :: u8
  bInterfaceProtocol :: u8
  iInterface :: u8

definition USB_DT_INTERFACE_SIZE :: nat where "USB_DT_INTERFACE_SIZE = 9"

definition decode_interface_descriptor :: "byte list \<Rightarrow> usb_interface_descriptor" where
  "decode_interface_descriptor bs = \<lparr>bLength = field8 0 bs, bDescriptorType = field8 1 bs,
     bInterfaceNumber = field8 2 bs, bAlternateSetting = field8 3 bs, bNumEndpoints = field8 4 bs,
     bInterfaceClass = field8 5 bs, bInterfaceSubClass = field8 6 bs, bInterfaceProtocol = field8 7 bs,
     iInterface = field8 8 bs\<rparr>"

record usb_endpoint_descriptor = usb_descriptor_header +
  bEndpointAddress :: u8
  bmAttributes_endpoint :: u8
  wMaxPacketSize :: u16
  bInterval :: u8
  bRefresh :: u8
  bSynchAddress :: u8

definition USB_DT_ENDPOINT_SIZE :: nat where "USB_DT_ENDPOINT_SIZE = 7"
definition endpoint_descriptor_sizeof :: nat where "endpoint_descriptor_sizeof = 9"

definition decode_endpoint_descriptor :: "byte list \<Rightarrow> usb_endpoint_descriptor" where
  "decode_endpoint_descriptor bs = \<lparr>bLength = field8 0 bs, bDescriptorType = field8 1 bs,
     bEndpointAddress = field8 2 bs, bmAttributes_endpoint = field8 3 bs, wMaxPacketSize = field16 4 bs,
     bInterval = field8 6 bs, bRefresh = field8 7 bs, bSynchAddress = field8 8 bs\<rparr>"

record usb_bos_descriptor = usb_descriptor_header +
  bos_wTotalLength :: u16
  bNumDeviceCaps :: u8

definition USB_DT_BOS_SIZE :: nat where "USB_DT_BOS_SIZE = 5"

definition decode_bos_descriptor :: "byte list \<Rightarrow> usb_bos_descriptor" where
  "decode_bos_descriptor bs = \<lparr>bLength = field8 0 bs, bDescriptorType = field8 1 bs,
     bos_wTotalLength = field16 2 bs, bNumDeviceCaps = field8 4 bs\<rparr>"

text \<open>
  The DFU functional descriptor is the one structure the program fills by a \<open>memcpy\<close> of a device
  supplied length over its old contents, so the configuration keeps its seven bytes and reads the
  fields out of them.
\<close>

definition dfu_descriptor_sizeof :: nat where "dfu_descriptor_sizeof = 7"

record usb_dfu_functional_descriptor = usb_descriptor_header +
  bmAttributes_dfu :: u8
  wDetachTimeOut :: u16
  wTransferSize :: u16

definition decode_dfu_descriptor :: "byte list \<Rightarrow> usb_dfu_functional_descriptor" where
  "decode_dfu_descriptor bs = \<lparr>bLength = field8 0 bs, bDescriptorType = field8 1 bs,
     bmAttributes_dfu = field8 2 bs, wDetachTimeOut = field16 3 bs, wTransferSize = field16 5 bs\<rparr>"

lemmas descriptor_sizes = descriptor_header_size_def USB_DT_DEVICE_SIZE_def USB_DT_CONFIG_SIZE_def
  USB_DT_INTERFACE_SIZE_def USB_DT_ENDPOINT_SIZE_def endpoint_descriptor_sizeof_def USB_DT_BOS_SIZE_def
  dfu_descriptor_sizeof_def

lemma length_encode_device_descriptor [simp]: "length (encode_device_descriptor d) = 18"
  by (simp add: encode_device_descriptor_def)

lemma decode_encode_device_descriptor [codec]:
  "decode_device_descriptor (encode_device_descriptor d) = d"
  by (cases d) (simp add: decode_device_descriptor_def encode_device_descriptor_def field_skip field_here field_here [where post = "[]", simplified] del: One_nat_def)

lemma take_drop_glue: "m = k + n \<Longrightarrow> take n (drop k xs) @ drop m xs = drop k xs"
  by (metis append_take_drop_id drop_drop add.commute)

lemma encode_decode_device_descriptor [codec]:
  "length bs = 18 \<Longrightarrow> encode_device_descriptor (decode_device_descriptor bs) = bs"
  by (simp add: decode_device_descriptor_def encode_device_descriptor_def enc_field take_drop_glue
      del: One_nat_def)

end
