(* ===== verification/Ordered_Map.thy ===== *)
theory Ordered_Map
  imports Prelude
begin

text \<open>
  \<open>std::map\<close> as the program uses it: \<open>find\<close>/\<open>contains\<close>, insertion or assignment through
  \<open>operator[]\<close>, \<open>erase\<close>, \<open>clear\<close>, \<open>begin\<close> and iteration in ascending key order.  The
  representation is the list of entries in that order.  The lookup laws hold of every list; the
  ordering laws hold of the lists the operations build (\<^term>\<open>om_wf\<close>).  The locale \<open>ordered_map\<close>
  is the contract of \<open>std::map\<close> the other theories rely on, interpreted at the end of the theory.
\<close>

type_synonym ('k, 'v) omap = "('k \<times> 'v) list"

definition om_empty :: "('k, 'v) omap" where
  "om_empty = []"

fun om_find :: "('k, 'v) omap \<Rightarrow> 'k \<Rightarrow> 'v option" where
  "om_find [] k = None"
| "om_find ((k', v) # m) k = (if k = k' then Some v else om_find m k)"

fun om_put :: "'k::linorder \<Rightarrow> 'v \<Rightarrow> ('k, 'v) omap \<Rightarrow> ('k, 'v) omap" where
  "om_put k v [] = [(k, v)]"
| "om_put k v ((k', v') # m) =
     (if k < k' then (k, v) # (k', v') # m
      else if k = k' then (k, v) # m
      else (k', v') # om_put k v m)"

definition om_erase :: "'k \<Rightarrow> ('k, 'v) omap \<Rightarrow> ('k, 'v) omap" where
  "om_erase k m = filter (\<lambda>(k', v). k' \<noteq> k) m"

definition om_contains :: "('k, 'v) omap \<Rightarrow> 'k \<Rightarrow> bool" where
  "om_contains m k = (om_find m k \<noteq> None)"

definition om_keys :: "('k, 'v) omap \<Rightarrow> 'k list" where
  "om_keys m = map fst m"

definition om_values :: "('k, 'v) omap \<Rightarrow> 'v list" where
  "om_values m = map snd m"

definition om_wf :: "('k::linorder, 'v) omap \<Rightarrow> bool" where
  "om_wf m = sorted_wrt (<) (map fst m)"

text \<open>\<open>m[k]\<close> on a value type with a default: the entry, or the default if there is none.\<close>

definition om_get :: "'v \<Rightarrow> ('k, 'v) omap \<Rightarrow> 'k \<Rightarrow> 'v" where
  "om_get d m k = (case om_find m k of None \<Rightarrow> d | Some v \<Rightarrow> v)"

section \<open>Laws\<close>

lemma om_find_empty: "om_find om_empty k = None"
  by (simp add: om_empty_def)

lemma om_find_put: "om_find (om_put k v m) k' = (if k' = k then Some v else om_find m k')"
  by (induction m) auto

lemma om_find_erase: "om_find (om_erase k m) k' = (if k' = k then None else om_find m k')"
  by (induction m) (auto simp: om_erase_def)

lemma om_find_Some_in: "om_find m k = Some v \<Longrightarrow> (k, v) \<in> set m"
  by (induction m) (auto split: if_splits)

lemma om_keys_Nil [simp]: "om_keys [] = []"
  by (simp add: om_keys_def)

lemma om_keys_Cons [simp]: "om_keys ((k, v) # m) = k # om_keys m"
  by (simp add: om_keys_def)

lemma om_find_None_iff: "om_find m k = None \<longleftrightarrow> k \<notin> set (om_keys m)"
  by (induction m k rule: om_find.induct) auto

lemma om_keys_in_iff: "k \<in> set (om_keys m) \<longleftrightarrow> om_find m k \<noteq> None"
  by (simp add: om_find_None_iff)

lemma om_wf_empty: "om_wf om_empty"
  by (simp add: om_wf_def om_empty_def)

lemma om_keys_put: "set (om_keys (om_put k v m)) = insert k (set (om_keys m))"
  by (induction k v m rule: om_put.induct) auto

lemma om_wf_Cons: "om_wf ((k, v) # m) \<longleftrightarrow> (\<forall>x \<in> set (om_keys m). k < x) \<and> om_wf m"
  by (simp add: om_wf_def om_keys_def)

lemma om_wf_put: "om_wf m \<Longrightarrow> om_wf (om_put k v m)"
proof (induction m)
  case Nil
  then show ?case by (simp add: om_wf_def)
next
  case (Cons e m)
  obtain k' v' where e: "e = (k', v')" by (cases e)
  from Cons.prems e have wf: "om_wf m" and above: "\<forall>x \<in> set (om_keys m). k' < x"
    by (auto simp: om_wf_Cons)
  consider "k < k'" | "k = k'" | "k' < k" by (rule linorder_cases)
  then show ?case
  proof cases
    case 1
    then have "om_wf ((k, v) # (k', v') # m)"
      using wf above by (auto simp: om_wf_Cons om_keys_def)
    with 1 e show ?thesis by simp
  next
    case 2
    with wf above e show ?thesis by (simp add: om_wf_Cons)
  next
    case 3
    then have "om_wf ((k', v') # om_put k v m)"
      using Cons.IH [OF wf] above by (simp add: om_wf_Cons om_keys_put)
    with 3 e show ?thesis by auto
  qed
qed

lemma om_keys_erase: "om_keys (om_erase k m) = filter (\<lambda>x. x \<noteq> k) (om_keys m)"
  by (induction m) (auto simp: om_keys_def om_erase_def)

lemma om_wf_erase: "om_wf m \<Longrightarrow> om_wf (om_erase k m)"
  using om_keys_erase [of k m] by (simp add: om_wf_def om_keys_def sorted_wrt_filter)

lemma om_wf_distinct: "om_wf m \<Longrightarrow> distinct (om_keys m)"
  by (simp add: om_wf_def om_keys_def strict_sorted_iff)

lemma om_wf_sorted: "om_wf m \<Longrightarrow> sorted (om_keys m)"
  by (simp add: om_wf_def om_keys_def strict_sorted_iff)

lemma om_find_in_wf: "om_wf m \<Longrightarrow> (k, v) \<in> set m \<Longrightarrow> om_find m k = Some v"
proof (induction m)
  case Nil
  then show ?case by simp
next
  case (Cons e m)
  then show ?case by (cases e) (force simp: om_wf_def)
qed

lemma om_wf_ext:
  assumes "om_wf m" and "om_wf m'" and "\<And>k. om_find m k = om_find m' k"
  shows "m = m'"
proof -
  have "set m = set m'"
    using assms by (metis om_find_Some_in om_find_in_wf subset_antisym subrelI)
  moreover have "inj_on fst (set m)"
    using om_wf_distinct [OF assms(1)] by (simp add: om_keys_def distinct_map)
  ultimately show ?thesis
    using assms(1,2) by (intro map_sorted_distinct_set_unique [of fst])
      (auto simp: om_wf_def strict_sorted_iff)
qed

section \<open>The contract of \<open>std::map\<close>\<close>

locale ordered_map =
  fixes empty :: "'m"
    and find :: "'m \<Rightarrow> 'k::linorder \<Rightarrow> 'v option"
    and put :: "'k \<Rightarrow> 'v \<Rightarrow> 'm \<Rightarrow> 'm"
    and erase :: "'k \<Rightarrow> 'm \<Rightarrow> 'm"
    and keys :: "'m \<Rightarrow> 'k list"
    and wf :: "'m \<Rightarrow> bool"
  assumes find_empty: "find empty k = None"
    and find_put: "find (put k v m) k' = (if k' = k then Some v else find m k')"
    and find_erase: "find (erase k m) k' = (if k' = k then None else find m k')"
    and in_keys: "k \<in> set (keys m) \<longleftrightarrow> find m k \<noteq> None"
    and wf_empty: "wf empty"
    and wf_put: "wf m \<Longrightarrow> wf (put k v m)"
    and wf_erase: "wf m \<Longrightarrow> wf (erase k m)"
    and keys_ascending: "wf m \<Longrightarrow> sorted (keys m) \<and> distinct (keys m)"
    and ext: "wf m \<Longrightarrow> wf m' \<Longrightarrow> (\<And>k. find m k = find m' k) \<Longrightarrow> m = m'"
begin

lemma find_put_same [simp]: "find (put k v m) k = Some v"
  by (simp add: find_put)

lemma find_put_other [simp]: "k' \<noteq> k \<Longrightarrow> find (put k v m) k' = find m k'"
  by (simp add: find_put)

lemma find_erase_same [simp]: "find (erase k m) k = None"
  by (simp add: find_erase)

lemma find_erase_other [simp]: "k' \<noteq> k \<Longrightarrow> find (erase k m) k' = find m k'"
  by (simp add: find_erase)

lemma put_put_same: "wf m \<Longrightarrow> put k v (put k v' m) = put k v m"
  by (rule ext) (auto simp: wf_put find_put)

lemma put_commute: "wf m \<Longrightarrow> k \<noteq> k' \<Longrightarrow> put k v (put k' v' m) = put k' v' (put k v m)"
  by (rule ext) (auto simp: wf_put find_put)

lemma erase_put_fresh: "wf m \<Longrightarrow> find m k = None \<Longrightarrow> erase k (put k v m) = m"
  by (rule ext) (auto simp: wf_put wf_erase find_put find_erase)

lemma erase_absent: "wf m \<Longrightarrow> find m k = None \<Longrightarrow> erase k m = m"
  by (rule ext) (auto simp: wf_erase find_erase)

lemma keys_put: "set (keys (put k v m)) = insert k (set (keys m))"
  by (auto simp: in_keys find_put split: if_splits)

lemma keys_erase: "set (keys (erase k m)) = set (keys m) - {k}"
  by (auto simp: in_keys find_erase split: if_splits)

lemma keys_empty: "keys empty = []"
  using in_keys [of _ empty] by (simp add: find_empty) (metis list.set_intros(1) neq_Nil_conv)

end

interpretation om: ordered_map om_empty om_find om_put om_erase om_keys om_wf
  by unfold_locales
    (auto simp: om_find_empty om_find_put om_find_erase om_keys_in_iff om_wf_empty om_wf_put
      om_wf_erase om_wf_sorted om_wf_distinct intro: om_wf_ext)

declare om.find_empty [simp] om.wf_empty [simp] om.wf_put [simp] om.wf_erase [simp]

lemma om_contains_put [simp]: "om_contains (om_put k v m) k' \<longleftrightarrow> k' = k \<or> om_contains m k'"
  by (simp add: om_contains_def om_find_put)

lemma om_get_put [simp]: "om_get d (om_put k v m) k' = (if k' = k then v else om_get d m k')"
  by (simp add: om_get_def om_find_put)

lemma om_get_empty [simp]: "om_get d om_empty k = d"
  by (simp add: om_get_def om_find_empty)

end
