(* ===== verification/Text_Format.thy ===== *)
theory Text_Format
  imports Prelude
begin

text \<open>
  Text as the program produces it.  A \<open>std::string\<close> is a list of characters, one per byte.  The
  directives of \<open>boost::format\<close> the program uses insert a value with \<open>operator<<\<close>: \<open>%N%\<close> in decimal,
  \<open>%N$x\<close> in lower case hexadecimal, \<open>%N$02x\<close>, \<open>%N$04x\<close> and \<open>%N$016x\<close> padded with zeros to a width.
\<close>

definition char_of_byte :: "byte \<Rightarrow> char" where
  "char_of_byte b = char_of (unat b)"

definition byte_of_char :: "char \<Rightarrow> byte" where
  "byte_of_char c = word_of_nat (of_char c)"

definition text_of :: "byte list \<Rightarrow> string" where
  "text_of bs = map char_of_byte bs"

definition bytes_of :: "string \<Rightarrow> byte list" where
  "bytes_of s = map byte_of_char s"

lemma byte_of_char_of_byte [simp]: "byte_of_char (char_of_byte b) = b"
  using unat_bound [of b]
  by (simp add: byte_of_char_def char_of_byte_def take_bit_nat_eq_self)

lemma char_of_byte_of_char [simp]: "char_of_byte (byte_of_char c) = c"
  by (simp add: byte_of_char_def char_of_byte_def)

lemma bytes_of_text_of [simp]: "bytes_of (text_of bs) = bs"
  by (simp add: bytes_of_def text_of_def comp_def)

lemma text_of_bytes_of [simp]: "text_of (bytes_of s) = s"
  by (simp add: bytes_of_def text_of_def comp_def)

lemma length_text_of [simp]: "length (text_of bs) = length bs"
  by (simp add: text_of_def)

lemma length_bytes_of [simp]: "length (bytes_of s) = length s"
  by (simp add: bytes_of_def)

lemma text_of_append [simp]: "text_of (xs @ ys) = text_of xs @ text_of ys"
  by (simp add: text_of_def)

lemma text_of_Nil [simp]: "text_of [] = []"
  by (simp add: text_of_def)

section \<open>Numbers\<close>

definition digit :: "nat \<Rightarrow> char" where
  "digit n = (if n < 10 then char_of (48 + n) else char_of (87 + n))"

fun numeral_text :: "nat \<Rightarrow> nat \<Rightarrow> string" where
  "numeral_text base n =
     (if base < 2 \<or> n < base then [digit n] else numeral_text base (n div base) @ [digit (n mod base)])"

declare numeral_text.simps [simp del]

definition dec :: "nat \<Rightarrow> string" where
  "dec n = numeral_text 10 n"

definition hex :: "nat \<Rightarrow> string" where
  "hex n = numeral_text 16 n"

definition zero_pad :: "nat \<Rightarrow> string \<Rightarrow> string" where
  "zero_pad w s = replicate (w - length s) CHR ''0'' @ s"

definition dec_int :: "int \<Rightarrow> string" where
  "dec_int i = (if i < 0 then CHR ''-'' # dec (nat (- i)) else dec (nat i))"

text \<open>Reading a numeral back; it makes the rendering injective.\<close>

definition undigit :: "char \<Rightarrow> nat" where
  "undigit c = (let n = of_char c in if n < 58 then n - 48 else n - 87)"

definition numeral_value :: "nat \<Rightarrow> string \<Rightarrow> nat" where
  "numeral_value base s = foldl (\<lambda>a c. a * base + undigit c) 0 s"

lemma undigit_digit: "n < 16 \<Longrightarrow> undigit (digit n) = n"
  by (simp add: undigit_def digit_def Let_def take_bit_nat_eq_self)

lemma numeral_value_text: "2 \<le> base \<Longrightarrow> base \<le> 16 \<Longrightarrow> numeral_value base (numeral_text base n) = n"
proof (induction base n rule: numeral_text.induct)
  case (1 base n)
  show ?case
  proof (cases "n < base")
    case True
    with 1 show ?thesis by (simp add: numeral_text.simps [of base n] numeral_value_def undigit_digit)
  next
    case False
    then have rec: "numeral_text base n = numeral_text base (n div base) @ [digit (n mod base)]"
      using 1 by (simp add: numeral_text.simps [of base n])
    have d: "n mod base < 16" using 1 by (meson less_le_trans mod_less_divisor not_numeral_le_zero not_less le_less_trans zero_less_iff_neq_zero)
    have "numeral_value base (numeral_text base (n div base)) = n div base"
      using 1 False by simp
    with rec d show ?thesis by (simp add: numeral_value_def undigit_digit)
  qed
qed

lemma value_dec: "numeral_value 10 (dec n) = n"
  unfolding dec_def by (rule numeral_value_text) simp_all

lemma value_hex: "numeral_value 16 (hex n) = n"
  unfolding hex_def by (rule numeral_value_text) simp_all

lemma dec_inj [simp]: "dec m = dec n \<longleftrightarrow> m = n"
  by (metis value_dec)

lemma hex_inj [simp]: "hex m = hex n \<longleftrightarrow> m = n"
  by (metis value_hex)

text \<open>A decimal numeral has no dash in it.\<close>

lemma digit_not_dash: "n < 16 \<Longrightarrow> digit n \<noteq> CHR ''-''"
proof
  assume n: "n < 16" and eq: "digit n = CHR ''-''"
  have "of_char (digit n) = (45 :: nat)" by (simp add: eq)
  with n show False by (simp add: digit_def take_bit_nat_eq_self split: if_splits)
qed

lemma numeral_text_not_dash: "2 \<le> base \<Longrightarrow> base \<le> 16 \<Longrightarrow> CHR ''-'' \<notin> set (numeral_text base n)"
proof (induction base n rule: numeral_text.induct)
  case (1 base n)
  have "n mod base < 16" using 1 by (meson less_le_trans mod_less_divisor not_numeral_le_zero not_less le_less_trans zero_less_iff_neq_zero)
  with 1 show ?case
    by (subst numeral_text.simps) (auto simp: digit_not_dash [symmetric] dest: digit_not_dash)
qed

lemma dec_not_dash: "CHR ''-'' \<notin> set (dec n)"
  unfolding dec_def by (rule numeral_text_not_dash) simp_all

end
