(* ===== verification/Interface_Expert.thy ===== *)
theory Interface_Expert
  imports Usb_Descriptors Ordered_Map Text_Format
begin

text \<open>
  The base class \<open>InterfaceExpert\<close> (\<open>src/protocol/InterfaceExpert.h\<close>, \<open>.cpp\<close>).  The derived classes
  extend its record, and every override begins with the base operation, as the C++ ones do.  The
  locale \<open>interface_expert_contract\<close> is the interface through which a device drives an expert; each
  derived class interprets it in its own theory.
\<close>

record extracted_artifact =
  artifact_name :: string
  artifact_data :: "byte list"

record interface_expert =
  m_configuration :: u8
  m_interface :: u8
  m_controlPackets :: u32
  m_packets :: u32
  m_controlBytes :: u64
  m_bytes :: u64

definition new_interface_expert :: "u8 \<Rightarrow> u8 \<Rightarrow> interface_expert" where
  "new_interface_expert configuration interface =
     \<lparr>m_configuration = configuration, m_interface = interface, m_controlPackets = 0, m_packets = 0,
      m_controlBytes = 0, m_bytes = 0\<rparr>"

definition base_processControlOut ::
  "usb_setup_t \<Rightarrow> byte list \<Rightarrow> 'a interface_expert_scheme \<Rightarrow> 'a interface_expert_scheme" where
  "base_processControlOut setup data e =
     e\<lparr>m_controlPackets := m_controlPackets e + 1,
       m_controlBytes := m_controlBytes e + word_of_nat (length data)\<rparr>"

definition base_processControlIn ::
  "usb_setup_t \<Rightarrow> byte list \<Rightarrow> 'a interface_expert_scheme \<Rightarrow> 'a interface_expert_scheme" where
  "base_processControlIn setup data e =
     e\<lparr>m_controlPackets := m_controlPackets e + 1,
       m_controlBytes := m_controlBytes e + word_of_nat (length data)\<rparr>"

definition base_processBulkOut ::
  "byte list \<Rightarrow> 'a interface_expert_scheme \<Rightarrow> 'a interface_expert_scheme" where
  "base_processBulkOut data e =
     e\<lparr>m_packets := m_packets e + 1, m_bytes := m_bytes e + word_of_nat (length data)\<rparr>"

definition base_processBulkIn ::
  "byte list \<Rightarrow> 'a interface_expert_scheme \<Rightarrow> 'a interface_expert_scheme" where
  "base_processBulkIn data e =
     e\<lparr>m_packets := m_packets e + 1, m_bytes := m_bytes e + word_of_nat (length data)\<rparr>"

definition base_isEmpty :: "'a interface_expert_scheme \<Rightarrow> bool" where
  "base_isEmpty e \<longleftrightarrow> m_controlPackets e = 0 \<and> m_packets e = 0"

definition base_toString :: "'a interface_expert_scheme \<Rightarrow> string" where
  "base_toString e =
     ''InterfaceExpert (config='' @ dec (unat (m_configuration e)) @
     '', int='' @ dec (unat (m_interface e)) @ '') - '' @ dec (unat (m_controlPackets e)) @
     '' control packets ('' @ dec (unat (m_controlBytes e)) @ '' bytes) and '' @
     dec (unat (m_packets e)) @ '' packets ('' @ dec (unat (m_bytes e)) @ '' bytes)''"

lemmas base_defs = base_processControlOut_def base_processControlIn_def base_processBulkOut_def
  base_processBulkIn_def

section \<open>The contract of an expert\<close>

text \<open>The four virtual functions a device calls, as a type of events, and their dispatch.\<close>

datatype expert_event =
    ControlOut usb_setup_t "byte list"
  | ControlIn usb_setup_t "byte list"
  | BulkOut "byte list"
  | BulkIn "byte list"

fun expert_step ::
  "(usb_setup_t \<Rightarrow> byte list \<Rightarrow> 'e \<Rightarrow> 'e option) \<Rightarrow> (usb_setup_t \<Rightarrow> byte list \<Rightarrow> 'e \<Rightarrow> 'e option) \<Rightarrow>
   (byte list \<Rightarrow> 'e \<Rightarrow> 'e option) \<Rightarrow> (byte list \<Rightarrow> 'e \<Rightarrow> 'e option) \<Rightarrow>
   expert_event \<Rightarrow> 'e \<Rightarrow> 'e option" where
  "expert_step co ci bo bi (ControlOut setup data) e = co setup data e"
| "expert_step co ci bo bi (ControlIn setup data) e = ci setup data e"
| "expert_step co ci bo bi (BulkOut data) e = bo data e"
| "expert_step co ci bo bi (BulkIn data) e = bi data e"

text \<open>What the base class counts for an event.\<close>

fun base_count :: "expert_event \<Rightarrow> 'a interface_expert_scheme \<Rightarrow> 'a interface_expert_scheme" where
  "base_count (ControlOut setup data) e = base_processControlOut setup data e"
| "base_count (ControlIn setup data) e = base_processControlIn setup data e"
| "base_count (BulkOut data) e = base_processBulkOut data e"
| "base_count (BulkIn data) e = base_processBulkIn data e"

fun event_data :: "expert_event \<Rightarrow> byte list" where
  "event_data (ControlOut setup data) = data"
| "event_data (ControlIn setup data) = data"
| "event_data (BulkOut data) = data"
| "event_data (BulkIn data) = data"

fun is_bulk :: "expert_event \<Rightarrow> bool" where
  "is_bulk (BulkOut data) = True"
| "is_bulk (BulkIn data) = True"
| "is_bulk (ControlOut setup data) = False"
| "is_bulk (ControlIn setup data) = False"

definition bulk_bytes :: "expert_event list \<Rightarrow> byte list" where
  "bulk_bytes evs = concat (map event_data (filter is_bulk evs))"

lemma base_count_counters:
  "m_packets (base_count ev e) = m_packets e + (if is_bulk ev then 1 else 0)"
  "m_controlPackets (base_count ev e) = m_controlPackets e + (if is_bulk ev then 0 else 1)"
  "m_bytes (base_count ev e) = m_bytes e + (if is_bulk ev then word_of_nat (length (event_data ev)) else 0)"
  "m_configuration (base_count ev e) = m_configuration e"
  "m_interface (base_count ev e) = m_interface e"
  by (cases ev; simp add: base_defs)+

locale interface_expert_contract =
  fixes ok :: "'e \<Rightarrow> bool"
    and control_out :: "usb_setup_t \<Rightarrow> byte list \<Rightarrow> 'e \<Rightarrow> 'e option"
    and control_in :: "usb_setup_t \<Rightarrow> byte list \<Rightarrow> 'e \<Rightarrow> 'e option"
    and bulk_out :: "byte list \<Rightarrow> 'e \<Rightarrow> 'e option"
    and bulk_in :: "byte list \<Rightarrow> 'e \<Rightarrow> 'e option"
    and base :: "'e \<Rightarrow> interface_expert"
  assumes step_ok: "ok e \<Longrightarrow> \<exists>e'. expert_step control_out control_in bulk_out bulk_in ev e = Some e' \<and>
      ok e' \<and> base e' = base_count ev (base e)"
begin

abbreviation step where "step \<equiv> expert_step control_out control_in bulk_out bulk_in"

lemma step_inv: "ok e \<Longrightarrow> step ev e = Some e' \<Longrightarrow> ok e'"
  using step_ok [of e ev] by auto

lemma step_base: "ok e \<Longrightarrow> step ev e = Some e' \<Longrightarrow> base e' = base_count ev (base e)"
  using step_ok [of e ev] by auto

lemma run_ok:
  "ok e \<Longrightarrow> \<exists>e'. run_opt step evs e = Some e' \<and> ok e' \<and> base e' = fold base_count evs (base e)"
proof (induction evs arbitrary: e)
  case Nil
  then show ?case by simp
next
  case (Cons ev evs)
  from step_ok [OF Cons.prems, of ev] obtain e1 where
    e1: "step ev e = Some e1" "ok e1" "base e1 = base_count ev (base e)" by blast
  from Cons.IH [OF e1(2)] e1 show ?case by simp
qed

lemma run_packets:
  assumes "ok e" and "run_opt step evs e = Some e'"
  shows "m_packets (base e') = m_packets (base e) + word_of_nat (length (filter is_bulk evs))"
    and "m_controlPackets (base e') =
           m_controlPackets (base e) + word_of_nat (length (filter (\<lambda>ev. \<not> is_bulk ev) evs))"
    and "m_bytes (base e') = m_bytes (base e) + word_of_nat (length (bulk_bytes evs))"
    and "m_configuration (base e') = m_configuration (base e)"
    and "m_interface (base e') = m_interface (base e)"
proof -
  have b: "base e' = fold base_count evs (base e)"
    using run_ok [OF assms(1), of evs] assms(2) by auto
  have "m_packets (fold base_count evs x) = m_packets x + word_of_nat (length (filter is_bulk evs))"
    and "m_controlPackets (fold base_count evs x) =
      m_controlPackets x + word_of_nat (length (filter (\<lambda>ev. \<not> is_bulk ev) evs))"
    and "m_bytes (fold base_count evs x) = m_bytes x + word_of_nat (length (bulk_bytes evs))"
    and "m_configuration (fold base_count evs x) = m_configuration x"
    and "m_interface (fold base_count evs x) = m_interface x" for x :: interface_expert
    by (induction evs arbitrary: x) (simp_all add: base_count_counters bulk_bytes_def)
  then show "m_packets (base e') = m_packets (base e) + word_of_nat (length (filter is_bulk evs))"
    and "m_controlPackets (base e') =
           m_controlPackets (base e) + word_of_nat (length (filter (\<lambda>ev. \<not> is_bulk ev) evs))"
    and "m_bytes (base e') = m_bytes (base e) + word_of_nat (length (bulk_bytes evs))"
    and "m_configuration (base e') = m_configuration (base e)"
    and "m_interface (base e') = m_interface (base e)"
    by (simp_all add: b)
qed

end

text \<open>An expert that keeps the contract is a machine that never fails.\<close>

sublocale interface_expert_contract \<subseteq> safe: safe_machine ok step
  by unfold_locales (use step_ok in blast)

text \<open>The base class itself meets the contract.\<close>

interpretation base_expert: interface_expert_contract
  "\<lambda>_. True" "\<lambda>setup data e. Some (base_processControlOut setup data e)"
  "\<lambda>setup data e. Some (base_processControlIn setup data e)"
  "\<lambda>data e. Some (base_processBulkOut data e)" "\<lambda>data e. Some (base_processBulkIn data e)"
  "interface_expert.truncate"
proof unfold_locales
  fix e :: "'a interface_expert_scheme" and ev
  show "\<exists>e'. expert_step (\<lambda>setup data e. Some (base_processControlOut setup data e))
      (\<lambda>setup data e. Some (base_processControlIn setup data e))
      (\<lambda>data e. Some (base_processBulkOut data e)) (\<lambda>data e. Some (base_processBulkIn data e)) ev e = Some e' \<and>
    True \<and> interface_expert.truncate e' = base_count ev (interface_expert.truncate e)"
    by (cases ev) (simp_all add: base_defs interface_expert.defs)
qed

end
