(* ===== verification/DFU_Expert.thy ===== *)
theory DFU_Expert
  imports Interface_Expert
begin

text \<open>
  \<open>DFUInterfaceExpert\<close> (\<open>src/protocol/DFUInterfaceExpert.h\<close>, \<open>.cpp\<close>): reassembly of downloaded images,
  the device state from status responses, and protocol anomalies.
\<close>

section \<open>State and operations\<close>

record dfu_expert = interface_expert +
  m_transferSize :: u16
  m_images :: "byte list list"
  m_currentImage :: "byte list"
  m_uploadBytes :: u64
  m_requestCounts :: "(u8, u32) omap"
  m_dfuAnomalies :: "string list"
  m_lastState :: int
  m_lastStatus :: int

abbreviation (input) DFU_DETACH :: u8 where "DFU_DETACH \<equiv> 0"
abbreviation (input) DFU_DNLOAD :: u8 where "DFU_DNLOAD \<equiv> 1"
abbreviation (input) DFU_UPLOAD :: u8 where "DFU_UPLOAD \<equiv> 2"
abbreviation (input) DFU_GETSTATUS :: u8 where "DFU_GETSTATUS \<equiv> 3"
abbreviation (input) DFU_CLRSTATUS :: u8 where "DFU_CLRSTATUS \<equiv> 4"
abbreviation (input) DFU_GETSTATE :: u8 where "DFU_GETSTATE \<equiv> 5"
abbreviation (input) DFU_ABORT :: u8 where "DFU_ABORT \<equiv> 6"

definition new_dfu_expert :: "u8 \<Rightarrow> u8 \<Rightarrow> dfu_expert" where
  "new_dfu_expert configuration interface =
     interface_expert.extend (new_interface_expert configuration interface)
       (dfu_expert.fields 0 [] [] 0 om_empty [] (-1) (-1))"

definition setTransferSize :: "u16 \<Rightarrow> dfu_expert \<Rightarrow> dfu_expert" where
  "setTransferSize transferSize e = e\<lparr>m_transferSize := transferSize\<rparr>"

definition requestName :: "u8 \<Rightarrow> string" where
  "requestName request =
     (if request = DFU_DETACH then ''DETACH''
      else if request = DFU_DNLOAD then ''DNLOAD''
      else if request = DFU_UPLOAD then ''UPLOAD''
      else if request = DFU_GETSTATUS then ''GETSTATUS''
      else if request = DFU_CLRSTATUS then ''CLRSTATUS''
      else if request = DFU_GETSTATE then ''GETSTATE''
      else if request = DFU_ABORT then ''ABORT''
      else ''UNKNOWN'')"

definition stateName :: "int \<Rightarrow> string" where
  "stateName state =
     (if state = 0 then ''appIDLE''
      else if state = 1 then ''appDETACH''
      else if state = 2 then ''dfuIDLE''
      else if state = 3 then ''dfuDNLOAD-SYNC''
      else if state = 4 then ''dfuDNBUSY''
      else if state = 5 then ''dfuDNLOAD-IDLE''
      else if state = 6 then ''dfuMANIFEST-SYNC''
      else if state = 7 then ''dfuMANIFEST''
      else if state = 8 then ''dfuMANIFEST-WAIT-RESET''
      else if state = 9 then ''dfuUPLOAD-IDLE''
      else if state = 10 then ''dfuERROR''
      else if state = -1 then ''unknown''
      else ''state('' @ dec_int state @ '')'')"

definition anomaly :: "string \<Rightarrow> dfu_expert \<Rightarrow> dfu_expert" where
  "anomaly description e = e\<lparr>m_dfuAnomalies := m_dfuAnomalies e @ [description]\<rparr>"

definition count_request :: "u8 \<Rightarrow> dfu_expert \<Rightarrow> dfu_expert" where
  "count_request request e =
     e\<lparr>m_requestCounts := om_put request (om_get 0 (m_requestCounts e) request + 1) (m_requestCounts e)\<rparr>"

definition is_class_request :: "usb_setup_t \<Rightarrow> bool" where
  "is_class_request setup \<longleftrightarrow> bmRequestType setup AND USB_TYPE_MASK = USB_TYPE_CLASS"

text \<open>The texts of the anomalies.\<close>

definition length_mismatch :: "usb_setup_t \<Rightarrow> nat \<Rightarrow> string" where
  "length_mismatch setup n = requestName (bRequest setup) @ '' carried '' @ dec n @
     '' bytes but wLength was '' @ dec (unat (wLength setup))"

definition oversized_download :: "u16 \<Rightarrow> u16 \<Rightarrow> string" where
  "oversized_download n transferSize = ''DNLOAD of '' @ dec (unat n) @
     '' bytes exceeds wTransferSize '' @ dec (unat transferSize)"

definition aborted_download :: "nat \<Rightarrow> string" where
  "aborted_download n = ''ABORT after a partial download of '' @ dec n @ '' bytes''"

definition unexpected_out :: "u8 \<Rightarrow> string" where
  "unexpected_out request = ''Unexpected class OUT request 0x'' @ zero_pad 2 (hex (unat request))"

definition unexpected_in :: "u8 \<Rightarrow> string" where
  "unexpected_in request = ''Unexpected class IN request 0x'' @ zero_pad 2 (hex (unat request))"

definition dfu_processControlOut :: "usb_setup_t \<Rightarrow> byte list \<Rightarrow> dfu_expert \<Rightarrow> dfu_expert" where
  "dfu_processControlOut setup data e =
     (let e = base_processControlOut setup data e in
      if \<not> is_class_request setup then e
      else
        let e = count_request (bRequest setup) e;
            e = (if length data \<noteq> unat (wLength setup)
                 then anomaly (length_mismatch setup (length data)) e else e)
        in
          if bRequest setup = DFU_DNLOAD then
            if wLength setup = 0 then
              (if m_currentImage e \<noteq> []
               then e\<lparr>m_images := m_images e @ [m_currentImage e], m_currentImage := []\<rparr> else e)
            else
              (let e = (if m_transferSize e \<noteq> 0 \<and> m_transferSize e < wLength setup
                        then anomaly (oversized_download (wLength setup) (m_transferSize e)) e else e)
               in e\<lparr>m_currentImage := m_currentImage e @ data\<rparr>)
          else if bRequest setup = DFU_ABORT then
            (if m_currentImage e \<noteq> [] then
               let e = anomaly (aborted_download (length (m_currentImage e))) e
               in e\<lparr>m_images := m_images e @ [m_currentImage e], m_currentImage := []\<rparr>
             else e)
          else if bRequest setup = DFU_DETACH \<or> bRequest setup = DFU_CLRSTATUS then e
          else anomaly (unexpected_out (bRequest setup)) e)"

definition dfu_processControlIn :: "usb_setup_t \<Rightarrow> byte list \<Rightarrow> dfu_expert \<Rightarrow> dfu_expert option" where
  "dfu_processControlIn setup data e =
     (let e = base_processControlIn setup data e in
      if \<not> is_class_request setup then Some e
      else
        let e = count_request (bRequest setup) e in
        if bRequest setup = DFU_GETSTATUS then
          if 5 \<le> length data then do {
            status \<leftarrow> elem_at 0 data;
            state \<leftarrow> elem_at 4 data;
            Some (e\<lparr>m_lastStatus := uint status, m_lastState := uint state\<rparr>)
          } else Some e
        else if bRequest setup = DFU_GETSTATE then
          if 1 \<le> length data then do {
            state \<leftarrow> elem_at 0 data;
            Some (e\<lparr>m_lastState := uint state\<rparr>)
          } else Some e
        else if bRequest setup = DFU_UPLOAD then
          Some (e\<lparr>m_uploadBytes := m_uploadBytes e + word_of_nat (length data)\<rparr>)
        else Some (anomaly (unexpected_in (bRequest setup)) e))"

definition getImages :: "dfu_expert \<Rightarrow> byte list list" where
  "getImages e = (if m_currentImage e \<noteq> [] then m_images e @ [m_currentImage e] else m_images e)"

definition dfu_artifact :: "dfu_expert \<Rightarrow> nat \<Rightarrow> byte list \<Rightarrow> extracted_artifact" where
  "dfu_artifact e i img =
     \<lparr>artifact_name = ''dfu-image-'' @ dec i @ (if i = length (m_images e) then ''-partial'' else '''') @ ''.bin'',
      artifact_data = img\<rparr>"

definition dfu_getArtifacts :: "dfu_expert \<Rightarrow> extracted_artifact list" where
  "dfu_getArtifacts e = map (\<lambda>(i, img). dfu_artifact e i img) (enumerate 0 (getImages e))"

definition dfu_toString :: "dfu_expert \<Rightarrow> string" where
  "dfu_toString e =
     (let images = getImages e;
          imageBytes = sum_list (map length images)
      in ''DFUInterfaceExpert (config='' @ dec (unat (m_configuration e)) @
         '', int='' @ dec (unat (m_interface e)) @ '') - '' @ dec (unat (m_controlPackets e)) @
         '' control packets ('' @ dec (unat (m_controlBytes e)) @ '' bytes), '' @ dec (length images) @
         '' images downloaded ('' @ dec imageBytes @ '' bytes), '' @ dec (unat (m_uploadBytes e)) @
         '' bytes uploaded, last state '' @ stateName (m_lastState e) @ '', '' @
         dec (length (m_dfuAnomalies e)) @ '' anomalies'')"

definition dfu_details :: "dfu_expert \<Rightarrow> string" where
  "dfu_details e =
     concat (map (\<lambda>(request, count). ''      '' @ requestName request @ '': '' @ dec (unat count) @ [CHR 0x0A])
       (m_requestCounts e)) @
     concat (map (\<lambda>a. ''      ! '' @ a @ [CHR 0x0A]) (m_dfuAnomalies e))"

section \<open>The contract of an expert\<close>

text \<open>
  Every image kept is non-empty, the last state and status are the initial \<open>-1\<close> or a byte, and the
  request counts are a well-formed map.
\<close>

definition dfu_wf :: "dfu_expert \<Rightarrow> bool" where
  "dfu_wf e \<longleftrightarrow> [] \<notin> set (m_images e) \<and> -1 \<le> m_lastState e \<and> m_lastState e < 256 \<and>
     -1 \<le> m_lastStatus e \<and> m_lastStatus e < 256 \<and> om_wf (m_requestCounts e)"

lemma uint_byte: "-1 \<le> uint (b :: byte)" "uint (b :: byte) < 256"
proof -
  have "0 \<le> uint b" by (rule unsigned_greater_eq)
  then show "-1 \<le> uint b" by linarith
  show "uint b < 256" using uint_bounded [of b] by simp
qed

lemma new_dfu_expert_wf [simp]: "dfu_wf (new_dfu_expert c i)"
  by (simp add: dfu_wf_def new_dfu_expert_def new_interface_expert_def interface_expert.defs dfu_expert.defs)

lemma setTransferSize_wf [simp]: "dfu_wf (setTransferSize n e) = dfu_wf e"
  by (simp add: dfu_wf_def setTransferSize_def)

lemmas dfu_step_defs = dfu_processControlOut_def dfu_processControlIn_def base_defs anomaly_def
  count_request_def

lemma dfu_processControlOut_wf: "dfu_wf e \<Longrightarrow> dfu_wf (dfu_processControlOut setup data e)"
  by (auto simp: dfu_wf_def dfu_step_defs Let_def)

lemma dfu_processControlIn_ok:
  "dfu_wf e \<Longrightarrow> \<exists>e'. dfu_processControlIn setup data e = Some e' \<and> dfu_wf e'"
  by (auto simp: dfu_wf_def dfu_step_defs Let_def uint_byte Suc_le_eq)

lemma dfu_processControlOut_base:
  "interface_expert.truncate (dfu_processControlOut setup data e) =
   base_processControlOut setup data (interface_expert.truncate e)"
  by (simp add: dfu_step_defs Let_def interface_expert.defs)

lemma dfu_processControlIn_base:
  "dfu_processControlIn setup data e = Some e' \<Longrightarrow>
   interface_expert.truncate e' = base_processControlIn setup data (interface_expert.truncate e)"
  by (auto simp: dfu_step_defs Let_def interface_expert.defs Suc_le_eq split: if_splits)

definition dfu_step :: "expert_event \<Rightarrow> dfu_expert \<Rightarrow> dfu_expert option" where
  "dfu_step = expert_step (\<lambda>setup data e. Some (dfu_processControlOut setup data e)) dfu_processControlIn
     (\<lambda>data e. Some (base_processBulkOut data e)) (\<lambda>data e. Some (base_processBulkIn data e))"

interpretation dfu: interface_expert_contract
  dfu_wf "\<lambda>setup data e. Some (dfu_processControlOut setup data e)" dfu_processControlIn
  "\<lambda>data e. Some (base_processBulkOut data e)" "\<lambda>data e. Some (base_processBulkIn data e)"
  interface_expert.truncate
  rewrites "expert_step (\<lambda>setup data e. Some (dfu_processControlOut setup data e)) dfu_processControlIn
     (\<lambda>data e. Some (base_processBulkOut data e)) (\<lambda>data e. Some (base_processBulkIn data e)) = dfu_step"
proof -
  show "interface_expert_contract dfu_wf (\<lambda>setup data e. Some (dfu_processControlOut setup data e))
      dfu_processControlIn (\<lambda>data e. Some (base_processBulkOut data e))
      (\<lambda>data e. Some (base_processBulkIn data e)) interface_expert.truncate"
  proof
    fix e ev
    assume e: "dfu_wf e"
    show "\<exists>e'. expert_step (\<lambda>setup data e. Some (dfu_processControlOut setup data e)) dfu_processControlIn
        (\<lambda>data e. Some (base_processBulkOut data e)) (\<lambda>data e. Some (base_processBulkIn data e)) ev e = Some e' \<and>
      dfu_wf e' \<and> interface_expert.truncate e' = base_count ev (interface_expert.truncate e)"
    proof (cases ev)
      case (ControlOut s data)
      with e show ?thesis by (simp add: dfu_processControlOut_wf dfu_processControlOut_base)
    next
      case (ControlIn s data)
      then show ?thesis
        using dfu_processControlIn_ok [OF e, of s data] by (auto simp: dfu_processControlIn_base)
    next
      case (BulkOut data)
      with e show ?thesis by (simp add: base_defs dfu_wf_def interface_expert.defs)
    next
      case (BulkIn data)
      with e show ?thesis by (simp add: base_defs dfu_wf_def interface_expert.defs)
    qed
  qed
qed (simp add: dfu_step_def)

section \<open>What an image is made of\<close>

text \<open>The bytes a transfer contributes to an image, and the transfers that do not end an image.\<close>

fun downloaded :: "expert_event \<Rightarrow> byte list" where
  "downloaded (ControlOut setup data) =
     (if is_class_request setup \<and> bRequest setup = DFU_DNLOAD \<and> wLength setup \<noteq> 0 then data else [])"
| "downloaded _ = []"

fun ends_image :: "expert_event \<Rightarrow> bool" where
  "ends_image (ControlOut setup data) \<longleftrightarrow> is_class_request setup \<and>
     (bRequest setup = DFU_ABORT \<or> bRequest setup = DFU_DNLOAD \<and> wLength setup = 0)"
| "ends_image _ \<longleftrightarrow> False"

lemma concat_getImages: "concat (getImages e) = concat (m_images e) @ m_currentImage e"
  by (simp add: getImages_def)

lemma dfu_out_images:
  "m_images (dfu_processControlOut setup data e) = m_images e @
     (if ends_image (ControlOut setup data) \<and> m_currentImage e \<noteq> [] then [m_currentImage e] else [])"
  "m_currentImage (dfu_processControlOut setup data e) =
     (if ends_image (ControlOut setup data) then [] else m_currentImage e @ downloaded (ControlOut setup data))"
  by (simp_all add: dfu_step_defs Let_def)

lemma dfu_in_images:
  "dfu_processControlIn setup data e = Some e' \<Longrightarrow>
   m_images e' = m_images e \<and> m_currentImage e' = m_currentImage e"
  by (auto simp: dfu_step_defs Let_def Suc_le_eq split: if_splits)

lemma dfu_step_images:
  assumes "dfu_step ev e = Some e'"
  shows "\<not> ends_image ev \<Longrightarrow> m_images e' = m_images e \<and> m_currentImage e' = m_currentImage e @ downloaded ev"
    and "ends_image ev \<Longrightarrow> m_images e' = m_images e @ (if m_currentImage e = [] then [] else [m_currentImage e]) \<and>
           m_currentImage e' = []"
  using assms
  by (cases ev; force simp: dfu_step_def dfu_out_images dfu_in_images base_defs
      simp del: ends_image.simps(1) downloaded.simps(1))+

lemma dfu_step_bytes:
  "dfu_step ev e = Some e' \<Longrightarrow> concat (getImages e') = concat (getImages e) @ downloaded ev"
  using dfu_step_images [of ev e e']
  by (cases "ends_image ev") (cases ev; auto simp: concat_getImages split: if_splits)+

lemma dfu_run_bytes:
  "run_opt dfu_step evs e = Some e' \<Longrightarrow>
   concat (getImages e') = concat (getImages e) @ concat (map downloaded evs)"
proof (induction evs arbitrary: e)
  case Nil
  then show ?case by simp
next
  case (Cons ev evs)
  then show ?case by (auto simp: dfu_step_bytes elim!: bind_Some_elim)
qed

lemma dfu_run_open_image:
  "run_opt dfu_step evs e = Some e' \<Longrightarrow> \<forall>ev \<in> set evs. \<not> ends_image ev \<Longrightarrow>
   m_images e' = m_images e \<and> m_currentImage e' = m_currentImage e @ concat (map downloaded evs)"
proof (induction evs arbitrary: e)
  case Nil
  then show ?case by simp
next
  case (Cons ev evs)
  then show ?case by (auto simp: dfu_step_images(1) elim!: bind_Some_elim)
qed

lemma dfu_wf_images: "dfu_wf e \<Longrightarrow> [] \<notin> set (getImages e)"
  by (auto simp: dfu_wf_def getImages_def)

section \<open>Anomalies\<close>

text \<open>A class request that the protocol allows in the expert's state.\<close>

definition conforming_out :: "usb_setup_t \<Rightarrow> byte list \<Rightarrow> dfu_expert \<Rightarrow> bool" where
  "conforming_out setup data e \<longleftrightarrow> length data = unat (wLength setup) \<and>
     (bRequest setup = DFU_DNLOAD \<and> (m_transferSize e = 0 \<or> wLength setup \<le> m_transferSize e) \<or>
      bRequest setup = DFU_ABORT \<and> m_currentImage e = [] \<or>
      bRequest setup = DFU_DETACH \<or> bRequest setup = DFU_CLRSTATUS)"

lemma dfu_out_anomalies:
  "m_dfuAnomalies (dfu_processControlOut setup data e) = m_dfuAnomalies e \<longleftrightarrow>
   \<not> is_class_request setup \<or> conforming_out setup data e"
  by (auto simp: dfu_step_defs Let_def conforming_out_def not_less)

section \<open>Artifacts\<close>

lemma length_dfu_getArtifacts [simp]: "length (dfu_getArtifacts e) = length (getImages e)"
  by (simp add: dfu_getArtifacts_def)

lemma nth_dfu_getArtifacts:
  "i < length (getImages e) \<Longrightarrow> dfu_getArtifacts e ! i = dfu_artifact e i (getImages e ! i)"
  by (simp add: dfu_getArtifacts_def nth_enumerate_eq)

lemma map_artifact_data_dfu: "map artifact_data (dfu_getArtifacts e) = getImages e"
  by (rule nth_equalityI) (simp_all add: nth_dfu_getArtifacts dfu_artifact_def)

definition dfu_artifact_name :: "nat \<Rightarrow> nat \<Rightarrow> string" where
  "dfu_artifact_name k i = ''dfu-image-'' @ dec i @ (if i = k then ''-partial'' else '''') @ ''.bin''"

lemma dfu_artifact_name_inj: "inj (dfu_artifact_name k)"
proof (rule injI)
  fix i j
  assume eq: "dfu_artifact_name k i = dfu_artifact_name k j"
  have no: "dec a @ ''-partial'' \<noteq> dec b" for a b
  proof
    assume "dec a @ ''-partial'' = dec b"
    then have "CHR ''-'' \<in> set (dec b)" by (metis Un_iff list.set_intros(1) set_append)
    then show False by (simp add: dec_not_dash)
  qed
  have "dec i @ (if i = k then ''-partial'' else '''') = dec j @ (if j = k then ''-partial'' else '''')"
    using eq by (simp add: dfu_artifact_name_def)
  then show "i = j"
    using no [of i j] no [of j i] by (auto split: if_splits)
qed

lemma dfu_artifact_names: "map artifact_name (dfu_getArtifacts e) =
    map (dfu_artifact_name (length (m_images e))) [0..<length (getImages e)]"
  by (rule nth_equalityI) (simp_all add: nth_dfu_getArtifacts dfu_artifact_def dfu_artifact_name_def)

lemma dfu_names_distinct: "distinct (map artifact_name (dfu_getArtifacts e))"
  unfolding dfu_artifact_names
  using dfu_artifact_name_inj by (auto simp: distinct_map inj_on_def)

section \<open>Properties\<close>

text \<open>
  C31: No byte of a firmware download is lost, duplicated or reordered.  Whatever class and vendor
  requests and bulk transfers a DFU expert sees from its creation on, it never reads outside a
  transfer, and the images it reports (completed, aborted and still in flight, in this order) are
  together exactly the payloads of the non-empty \<open>DFU_DNLOAD\<close> requests in order; no image is empty.
\<close>

theorem dfu_conserves_downloads:
  "\<exists>e. run_opt dfu_step evs (new_dfu_expert configuration interface) = Some e \<and>
       concat (getImages e) = concat (map downloaded evs) \<and> [] \<notin> set (getImages e)"
proof -
  obtain e where e: "run_opt dfu_step evs (new_dfu_expert configuration interface) = Some e" "dfu_wf e"
    using dfu.run_ok [OF new_dfu_expert_wf, of evs configuration interface] by blast
  have "concat (getImages (new_dfu_expert configuration interface)) = []"
    by (simp add: getImages_def new_dfu_expert_def interface_expert.defs dfu_expert.defs new_interface_expert_def)
  with e show ?thesis by (simp add: dfu_run_bytes dfu_wf_images)
qed

text \<open>
  A zero length \<open>DFU_DNLOAD\<close> completes an image: after any run of transfers that neither aborts nor
  completes a download (status polls may be interleaved), it appends to the completed images the one
  image made of what was already downloaded and all the blocks of the run, and leaves nothing in
  flight; when no byte was downloaded no image is added.
\<close>

theorem dfu_download_completes:
  assumes "dfu_wf e" and "\<forall>ev \<in> set evs. \<not> ends_image ev"
    and "is_class_request z" and "bRequest z = DFU_DNLOAD" and "wLength z = 0"
  shows "\<exists>e'. run_opt dfu_step (evs @ [ControlOut z []]) e = Some e' \<and> m_currentImage e' = [] \<and>
     m_images e' = m_images e @
       (let img = m_currentImage e @ concat (map downloaded evs) in if img = [] then [] else [img])"
proof -
  obtain e1 where e1: "run_opt dfu_step evs e = Some e1" using dfu.run_ok [OF assms(1)] by blast
  note open_image = dfu_run_open_image [OF e1 assms(2)]
  have "dfu_step (ControlOut z []) e1 = Some (dfu_processControlOut z [] e1)" by (simp add: dfu_step_def)
  with e1 open_image assms(3-5) show ?thesis
    by (auto simp: run_opt_append dfu_out_images Let_def)
qed

definition dnload_setup :: "u16 \<Rightarrow> usb_setup_t" where
  "dnload_setup n = \<lparr>bmRequestType = 0x21, bRequest = DFU_DNLOAD, wValue = 0, wIndex = 0, wLength = n\<rparr>"

lemma dfu_download_completes_witness:
  "\<exists>e'. run_opt dfu_step ([ControlOut (dnload_setup 2) [1, 2], ControlOut (dnload_setup 1) [3]] @
          [ControlOut (dnload_setup 0) []]) (new_dfu_expert 1 0) = Some e' \<and>
        m_currentImage e' = [] \<and> m_images e' = [[1, 2, 3]]"
  using dfu_download_completes [of "new_dfu_expert 1 0"
      "[ControlOut (dnload_setup 2) [1, 2], ControlOut (dnload_setup 1) [3]]" "dnload_setup 0"]
  by (simp add: dnload_setup_def is_class_request_def new_dfu_expert_def interface_expert.defs
      dfu_expert.defs new_interface_expert_def dfu_wf_def)

text \<open>
  The anomaly list is exact for requests to the device: a class OUT request adds an entry if and
  only if it does not conform, that is unless its payload has the announced length and it is a
  download within the advertised transfer size, an abort with nothing in flight, a detach or a status
  clear.  Requests that are not class requests never add one.
\<close>

theorem dfu_anomalies_exact:
  "m_dfuAnomalies (dfu_processControlOut setup data e) \<noteq> m_dfuAnomalies e \<longleftrightarrow>
   is_class_request setup \<and> \<not> conforming_out setup data e"
  using dfu_out_anomalies by blast

text \<open>
  The files extracted from a DFU expert are exactly its images, in order and one file each, under
  pairwise different names, so that writing them to one directory overwrites nothing.
\<close>

theorem dfu_artifacts_faithful:
  "map artifact_data (dfu_getArtifacts e) = getImages e \<and> distinct (map artifact_name (dfu_getArtifacts e))"
  by (simp add: map_artifact_data_dfu dfu_names_distinct)

text \<open>
  C39: An aborted download is kept among the completed images: an abort with data in flight moves the
  partial image to the end of the images, and its file is then named like that of a completed image,
  without the \<open>-partial\<close> mark.
\<close>

theorem dfu_abort_keeps_partial:
  assumes "is_class_request a" and "bRequest a = DFU_ABORT" and "m_currentImage e \<noteq> []"
  shows "getImages (dfu_processControlOut a data e) = m_images e @ [m_currentImage e] \<and>
    map artifact_name (dfu_getArtifacts (dfu_processControlOut a data e)) ! length (m_images e) =
      ''dfu-image-'' @ dec (length (m_images e)) @ ''.bin''"
proof -
  have imgs: "m_images (dfu_processControlOut a data e) = m_images e @ [m_currentImage e]"
    "m_currentImage (dfu_processControlOut a data e) = []"
    using assms by (simp_all add: dfu_out_images)
  then have "getImages (dfu_processControlOut a data e) = m_images e @ [m_currentImage e]"
    by (simp add: getImages_def)
  with imgs show ?thesis
    by (simp add: dfu_artifact_names dfu_artifact_name_def nth_append)
qed

definition abort_setup :: usb_setup_t where
  "abort_setup = \<lparr>bmRequestType = 0x21, bRequest = DFU_ABORT, wValue = 0, wIndex = 0, wLength = 0\<rparr>"

lemma dfu_abort_keeps_partial_witness:
  "getImages (dfu_processControlOut abort_setup []
      (dfu_processControlOut (dnload_setup 1) [7] (new_dfu_expert 1 0))) = [[7]]"
proof -
  let ?e = "dfu_processControlOut (dnload_setup 1) [7] (new_dfu_expert 1 0)"
  have new: "m_images (new_dfu_expert 1 0) = []" "m_currentImage (new_dfu_expert 1 0) = []"
    by (simp_all add: new_dfu_expert_def interface_expert.defs dfu_expert.defs new_interface_expert_def)
  have e: "m_images ?e = []" "m_currentImage ?e = [7]"
    by (simp_all add: dfu_out_images new dnload_setup_def is_class_request_def)
  show ?thesis
    using dfu_abort_keeps_partial [of abort_setup ?e "[]"]
    by (simp add: e abort_setup_def is_class_request_def)
qed

end
