(* ===== verification/Recovery_Expert.thy ===== *)
theory Recovery_Expert
  imports Interface_Expert
begin

text \<open>
  \<open>RecoveryInterfaceExpert\<close> (\<open>src/protocol/RecoveryInterfaceExpert.h\<close>, \<open>.cpp\<close>): the commands and
  responses exchanged with iBoot, the files uploaded to it, and its console.
\<close>

section \<open>State and operations\<close>

datatype recovery_payload_kind = Command | Response | Upload

record recovery_payload =
  kind :: recovery_payload_kind
  request :: u8
  payload_text :: string
  payload_data :: "byte list"

record recovery_expert = interface_expert +
  m_payloads :: "recovery_payload list"
  m_uploadOpen :: bool
  m_console :: string

definition new_recovery_expert :: "u8 \<Rightarrow> u8 \<Rightarrow> recovery_expert" where
  "new_recovery_expert configuration interface =
     interface_expert.extend (new_interface_expert configuration interface) (recovery_expert.fields [] False [])"

text \<open>\<open>strnlen\<close> stops at the first NUL or at the end of the transfer.\<close>

definition cString :: "byte list \<Rightarrow> string" where
  "cString data = text_of (takeWhile (\<lambda>b. b \<noteq> 0) data)"

definition printable :: "string \<Rightarrow> string" where
  "printable value = concat (map (\<lambda>c.
     if c = CHR 0x0A then [CHR 0x5C, CHR ''n'']
     else if (of_char c :: nat) < 0x20 \<or> c = CHR 0x7F then
       [CHR 0x5C, CHR ''x''] @ zero_pad 2 (hex (of_char c))
     else [c]) value)"

definition new_upload :: "u8 \<Rightarrow> recovery_payload" where
  "new_upload r = \<lparr>kind = Upload, request = r, payload_text = [], payload_data = []\<rparr>"

definition push_payload :: "recovery_payload \<Rightarrow> recovery_expert \<Rightarrow> recovery_expert" where
  "push_payload p e = e\<lparr>m_payloads := m_payloads e @ [p]\<rparr>"

definition recovery_processControlOut :: "usb_setup_t \<Rightarrow> byte list \<Rightarrow> recovery_expert \<Rightarrow> recovery_expert" where
  "recovery_processControlOut setup data e =
     (let e = base_processControlOut setup data e in
      if bmRequestType setup = 0x40 \<and> 0 < length data then
        push_payload \<lparr>kind = Command, request = bRequest setup, payload_text = cString data, payload_data = []\<rparr> e
      else if bmRequestType setup = 0x41 \<and> bRequest setup = 0 then
        (push_payload (new_upload (bRequest setup)) e)\<lparr>m_uploadOpen := True\<rparr>
      else e)"

definition recovery_processControlIn :: "usb_setup_t \<Rightarrow> byte list \<Rightarrow> recovery_expert \<Rightarrow> recovery_expert" where
  "recovery_processControlIn setup data e =
     (let e = base_processControlIn setup data e in
      if bmRequestType setup = 0xC0 \<and> 0 < length data then
        push_payload \<lparr>kind = Response, request = bRequest setup, payload_text = cString data, payload_data = []\<rparr> e
      else e)"

text \<open>The reverse iteration of \<open>currentUpload\<close>: the last upload among the first \<open>n\<close> payloads.\<close>

fun last_upload :: "recovery_payload list \<Rightarrow> nat \<Rightarrow> nat option" where
  "last_upload ps 0 = None"
| "last_upload ps (Suc n) = (if kind (ps ! n) = Upload then Some n else last_upload ps n)"

text \<open>The reference \<open>currentUpload\<close> returns is the index of a payload.\<close>

definition currentUpload :: "recovery_expert \<Rightarrow> recovery_expert \<times> nat" where
  "currentUpload e =
     (let e = (if \<not> m_uploadOpen e then (push_payload (new_upload 0) e)\<lparr>m_uploadOpen := True\<rparr> else e) in
      case last_upload (m_payloads e) (length (m_payloads e)) of
        Some i \<Rightarrow> (e, i)
      | None \<Rightarrow> (push_payload (new_upload 0) e, length (m_payloads e)))"

definition append_payload :: "nat \<Rightarrow> byte list \<Rightarrow> recovery_payload list \<Rightarrow> recovery_payload list" where
  "append_payload i data ps = ps[i := (ps ! i)\<lparr>payload_data := payload_data (ps ! i) @ data\<rparr>]"

definition recovery_processBulkOut :: "byte list \<Rightarrow> recovery_expert \<Rightarrow> recovery_expert" where
  "recovery_processBulkOut data e =
     (let e = base_processBulkOut data e in
      if length data = 0 then e
      else let (e, i) = currentUpload e in e\<lparr>m_payloads := append_payload i data (m_payloads e)\<rparr>)"

definition recovery_processBulkIn :: "byte list \<Rightarrow> recovery_expert \<Rightarrow> recovery_expert" where
  "recovery_processBulkIn data e =
     (let e = base_processBulkIn data e in e\<lparr>m_console := m_console e @ text_of data\<rparr>)"

definition recovery_isEmpty :: "recovery_expert \<Rightarrow> bool" where
  "recovery_isEmpty e \<longleftrightarrow> m_payloads e = [] \<and> base_isEmpty e"

definition getCommands :: "recovery_expert \<Rightarrow> string list" where
  "getCommands e = map payload_text (filter (\<lambda>p. kind p = Command) (m_payloads e))"

fun upload_artifacts :: "nat \<Rightarrow> recovery_payload list \<Rightarrow> extracted_artifact list" where
  "upload_artifacts index [] = []"
| "upload_artifacts index (p # ps) =
     (if kind p = Upload \<and> payload_data p \<noteq> [] then
        \<lparr>artifact_name = ''recovery-upload-'' @ dec index @ ''.bin'', artifact_data = payload_data p\<rparr> #
        upload_artifacts (Suc index) ps
      else upload_artifacts index ps)"

definition recovery_getArtifacts :: "recovery_expert \<Rightarrow> extracted_artifact list" where
  "recovery_getArtifacts e = upload_artifacts 0 (m_payloads e) @
     (if m_console e \<noteq> [] then
        [\<lparr>artifact_name = ''recovery-console.txt'', artifact_data = bytes_of (m_console e)\<rparr>] else [])"

definition uploads :: "recovery_payload list \<Rightarrow> byte list list" where
  "uploads ps = map payload_data (filter (\<lambda>p. kind p = Upload) ps)"

definition recovery_toString :: "recovery_expert \<Rightarrow> string" where
  "recovery_toString e =
     (let commands = length (filter (\<lambda>p. kind p = Command) (m_payloads e));
          ups = filter (\<lambda>p. kind p = Upload) (m_payloads e);
          uploadBytes = sum_list (map (\<lambda>p. length (payload_data p)) ups)
      in ''RecoveryInterfaceExpert (config='' @ dec (unat (m_configuration e)) @
         '', int='' @ dec (unat (m_interface e)) @ '') - '' @ dec commands @ '' commands, '' @
         dec (length ups) @ '' uploads ('' @ dec uploadBytes @ '' bytes), '' @
         dec (length (m_console e)) @ '' console bytes; '' @ dec (unat (m_controlPackets e)) @
         '' control packets ('' @ dec (unat (m_controlBytes e)) @ '' bytes) and '' @
         dec (unat (m_packets e)) @ '' bulk packets ('' @ dec (unat (m_bytes e)) @ '' bytes)'')"

definition payload_line :: "recovery_payload \<Rightarrow> string" where
  "payload_line p =
     (case kind p of
        Command \<Rightarrow> ''      > '' @ printable (payload_text p) @ [CHR 0x0A]
      | Response \<Rightarrow> ''      < '' @ printable (payload_text p) @ [CHR 0x0A]
      | Upload \<Rightarrow> ''      ^ upload of '' @ dec (length (payload_data p)) @ '' bytes'' @ [CHR 0x0A])"

definition recovery_details :: "recovery_expert \<Rightarrow> string" where
  "recovery_details e = concat (map payload_line (m_payloads e))"

section \<open>Uploads\<close>

lemma uploads_append [simp]: "uploads (ps @ qs) = uploads ps @ uploads qs"
  by (simp add: uploads_def)

lemma uploads_Nil [simp]: "uploads [] = []"
  by (simp add: uploads_def)

lemma uploads_single [simp]: "uploads [p] = (if kind p = Upload then [payload_data p] else [])"
  by (simp add: uploads_def)

lemma last_upload_Some:
  "last_upload ps n = Some i \<Longrightarrow>
   i < n \<and> kind (ps ! i) = Upload \<and> (\<forall>j. i < j \<and> j < n \<longrightarrow> kind (ps ! j) \<noteq> Upload)"
  by (induction n) (auto simp: less_Suc_eq split: if_splits)

lemma last_upload_none_after:
  assumes "\<forall>j. i < j \<and> j < length ps \<longrightarrow> kind (ps ! j) \<noteq> k"
  shows "k \<notin> kind ` set (drop (Suc i) ps)"
proof
  assume "k \<in> kind ` set (drop (Suc i) ps)"
  then obtain j where j: "j < length ps - Suc i" "kind (ps ! (Suc i + j)) = k"
    by (auto simp: in_set_conv_nth)
  then have "Suc i + j < length ps" "i < Suc i + j" by simp_all
  with assms j(2) show False by blast
qed

lemma last_upload_None: "last_upload ps n = None \<Longrightarrow> \<forall>j < n. kind (ps ! j) \<noteq> Upload"
  by (induction n) (auto simp: less_Suc_eq split: if_splits)

text \<open>Appending to the last upload appends to the last element of \<open>uploads\<close>.\<close>

lemma uploads_append_payload:
  assumes "last_upload ps (length ps) = Some i"
  shows "uploads (append_payload i data ps) = butlast (uploads ps) @ [last (uploads ps) @ data] \<and> uploads ps \<noteq> []"
proof -
  note i = last_upload_Some [OF assms]
  let ?p = "(ps ! i)\<lparr>payload_data := payload_data (ps ! i) @ data\<rparr>"
  have split: "ps = take i ps @ ps ! i # drop (Suc i) ps" using i by (simp add: id_take_nth_drop)
  have upd: "append_payload i data ps = take i ps @ ?p # drop (Suc i) ps"
    using i by (simp add: append_payload_def upd_conv_take_nth_drop)
  have none: "uploads (drop (Suc i) ps) = []"
    unfolding uploads_def using i by (auto simp: filter_empty_conv in_set_conv_nth)
  have "uploads ps = uploads (take i ps) @ [payload_data (ps ! i)]"
    using none i by (subst split) (simp add: uploads_def)
  moreover have "uploads (append_payload i data ps) = uploads (take i ps) @ [payload_data (ps ! i) @ data]"
    using none i by (simp add: upd uploads_def)
  ultimately show ?thesis by simp
qed

section \<open>The contract of an expert\<close>

text \<open>The flag \<open>m_uploadOpen\<close> says that there is an upload to continue.\<close>

definition recovery_wf :: "recovery_expert \<Rightarrow> bool" where
  "recovery_wf e \<longleftrightarrow> (m_uploadOpen e \<longleftrightarrow> uploads (m_payloads e) \<noteq> [])"

lemma new_recovery_expert_wf [simp]: "recovery_wf (new_recovery_expert c i)"
  by (simp add: recovery_wf_def new_recovery_expert_def interface_expert.defs recovery_expert.defs
      new_interface_expert_def)

lemmas recovery_step_defs = recovery_processControlOut_def recovery_processControlIn_def
  recovery_processBulkIn_def base_defs push_payload_def new_upload_def

lemma last_upload_exists: "uploads ps \<noteq> [] \<Longrightarrow> \<exists>i. last_upload ps (length ps) = Some i"
proof (rule ccontr)
  assume up: "uploads ps \<noteq> []" and "\<nexists>i. last_upload ps (length ps) = Some i"
  then have "\<forall>j < length ps. kind (ps ! j) \<noteq> Upload" by (intro last_upload_None) auto
  then have "uploads ps = []" by (auto simp: uploads_def filter_empty_conv in_set_conv_nth)
  with up show False by simp
qed

text \<open>
  What \<open>currentUpload\<close> does under the invariant: it opens an upload if none is open, and the search
  finds the last one.
\<close>

lemma currentUpload_wf:
  assumes "recovery_wf e"
  defines "e1 \<equiv> (if m_uploadOpen e then e else (push_payload (new_upload 0) e)\<lparr>m_uploadOpen := True\<rparr>)"
  shows "\<exists>i. last_upload (m_payloads e1) (length (m_payloads e1)) = Some i \<and> currentUpload e = (e1, i)"
proof -
  have "uploads (m_payloads e1) \<noteq> []"
    using assms by (auto simp: recovery_wf_def push_payload_def new_upload_def)
  then obtain i where "last_upload (m_payloads e1) (length (m_payloads e1)) = Some i"
    using last_upload_exists by blast
  then show ?thesis
    unfolding e1_def by (auto simp: currentUpload_def Let_def split: if_splits)
qed

lemma append_payload_other:
  assumes "last_upload ps (length ps) = Some i"
  shows "filter (\<lambda>p. kind p \<noteq> Upload) (append_payload i data ps) = filter (\<lambda>p. kind p \<noteq> Upload) ps"
proof -
  note i = last_upload_Some [OF assms]
  then have split: "ps = take i ps @ ps ! i # drop (Suc i) ps" by (simp add: id_take_nth_drop)
  have "filter (\<lambda>p. kind p \<noteq> Upload) ps =
      filter (\<lambda>p. kind p \<noteq> Upload) (take i ps) @ filter (\<lambda>p. kind p \<noteq> Upload) (drop (Suc i) ps)"
    using i by (subst split) simp
  with i show ?thesis by (simp add: append_payload_def upd_conv_take_nth_drop)
qed

abbreviation others :: "recovery_payload list \<Rightarrow> recovery_payload list" where
  "others ps \<equiv> filter (\<lambda>p. kind p \<noteq> Upload) ps"

lemma bulk_out_wf_cong: "recovery_wf (base_processBulkOut data e) = recovery_wf e"
  by (simp add: recovery_wf_def base_defs)

lemma recovery_bulk_out:
  fixes data :: "byte list"
  assumes "recovery_wf e"
  defines "e' \<equiv> recovery_processBulkOut data e"
  shows "uploads (m_payloads e') =
      (if data = [] then uploads (m_payloads e)
       else if m_uploadOpen e then butlast (uploads (m_payloads e)) @ [last (uploads (m_payloads e)) @ data]
       else uploads (m_payloads e) @ [data]) \<and>
    others (m_payloads e') = others (m_payloads e) \<and> m_console e' = m_console e \<and> recovery_wf e' \<and>
    interface_expert.truncate e' = base_processBulkOut data (interface_expert.truncate e)"
proof (cases "data = []")
  case True
  then show ?thesis
    using assms by (simp add: e'_def recovery_processBulkOut_def base_defs recovery_wf_def interface_expert.defs)
next
  case False
  define b where "b = base_processBulkOut data e"
  define e1 where "e1 = (if m_uploadOpen b then b else (push_payload (new_upload 0) b)\<lparr>m_uploadOpen := True\<rparr>)"
  have wf: "recovery_wf b" using assms(1) by (simp add: b_def bulk_out_wf_cong)
  from currentUpload_wf [OF wf] obtain i where
    i: "last_upload (m_payloads e1) (length (m_payloads e1)) = Some i" and cur: "currentUpload b = (e1, i)"
    unfolding e1_def by blast
  have e': "e' = e1\<lparr>m_payloads := append_payload i data (m_payloads e1)\<rparr>"
    using False by (simp add: e'_def recovery_processBulkOut_def b_def [symmetric] cur)
  have e1_uploads: "uploads (m_payloads e1) =
      (if m_uploadOpen e then uploads (m_payloads e) else uploads (m_payloads e) @ [[]])"
    and e1_others: "others (m_payloads e1) = others (m_payloads e)"
    and rest: "m_uploadOpen e1" "m_console e1 = m_console e"
      "interface_expert.truncate e1 = base_processBulkOut data (interface_expert.truncate e)"
    by (auto simp: e1_def b_def base_defs push_payload_def new_upload_def interface_expert.defs)
  have "interface_expert.truncate e' = interface_expert.truncate e1"
    by (simp add: e' interface_expert.defs)
  moreover note uploads_append_payload [OF i, of data] append_payload_other [OF i, of data]
  ultimately show ?thesis
    using False by (simp add: e' e1_uploads e1_others rest recovery_wf_def)
qed

definition recovery_step :: "expert_event \<Rightarrow> recovery_expert \<Rightarrow> recovery_expert option" where
  "recovery_step = expert_step (\<lambda>setup data e. Some (recovery_processControlOut setup data e))
     (\<lambda>setup data e. Some (recovery_processControlIn setup data e))
     (\<lambda>data e. Some (recovery_processBulkOut data e)) (\<lambda>data e. Some (recovery_processBulkIn data e))"

interpretation recovery: interface_expert_contract
  recovery_wf "\<lambda>setup data e. Some (recovery_processControlOut setup data e)"
  "\<lambda>setup data e. Some (recovery_processControlIn setup data e)"
  "\<lambda>data e. Some (recovery_processBulkOut data e)" "\<lambda>data e. Some (recovery_processBulkIn data e)"
  interface_expert.truncate
  rewrites "expert_step (\<lambda>setup data e. Some (recovery_processControlOut setup data e))
     (\<lambda>setup data e. Some (recovery_processControlIn setup data e))
     (\<lambda>data e. Some (recovery_processBulkOut data e)) (\<lambda>data e. Some (recovery_processBulkIn data e)) =
     recovery_step"
proof -
  show "interface_expert_contract recovery_wf (\<lambda>setup data e. Some (recovery_processControlOut setup data e))
    (\<lambda>setup data e. Some (recovery_processControlIn setup data e))
    (\<lambda>data e. Some (recovery_processBulkOut data e)) (\<lambda>data e. Some (recovery_processBulkIn data e))
    interface_expert.truncate"
  proof
    fix e ev
    assume e: "recovery_wf e"
    show "\<exists>e'. expert_step (\<lambda>setup data e. Some (recovery_processControlOut setup data e))
        (\<lambda>setup data e. Some (recovery_processControlIn setup data e))
        (\<lambda>data e. Some (recovery_processBulkOut data e)) (\<lambda>data e. Some (recovery_processBulkIn data e)) ev e =
        Some e' \<and> recovery_wf e' \<and> interface_expert.truncate e' = base_count ev (interface_expert.truncate e)"
      using e recovery_bulk_out [OF e]
      by (cases ev) (auto simp: recovery_step_defs Let_def recovery_wf_def interface_expert.defs)
  qed
qed (simp add: recovery_step_def)

section \<open>What a session is made of\<close>

fun uploaded :: "expert_event \<Rightarrow> byte list" where
  "uploaded (BulkOut data) = data"
| "uploaded _ = []"

fun console_bytes :: "expert_event \<Rightarrow> byte list" where
  "console_bytes (BulkIn data) = data"
| "console_bytes _ = []"

fun announces :: "expert_event \<Rightarrow> bool" where
  "announces (ControlOut setup data) \<longleftrightarrow> bmRequestType setup = 0x41 \<and> bRequest setup = 0"
| "announces _ \<longleftrightarrow> False"

fun command_of :: "expert_event \<Rightarrow> string list" where
  "command_of (ControlOut setup data) =
     (if bmRequestType setup = 0x40 \<and> data \<noteq> [] then [cString data] else [])"
| "command_of _ = []"

lemma getCommands_others: "getCommands e = map payload_text (filter (\<lambda>p. kind p = Command) (others (m_payloads e)))"
  by (auto simp: getCommands_def intro!: arg_cong [of _ _ "map payload_text"] filter_cong)

lemma recovery_step_session:
  assumes "recovery_wf e" and "recovery_step ev e = Some e'"
  shows "uploads (m_payloads e') =
      (if announces ev then uploads (m_payloads e) @ [[]]
       else if uploaded ev = [] then uploads (m_payloads e)
       else if m_uploadOpen e then butlast (uploads (m_payloads e)) @ [last (uploads (m_payloads e)) @ uploaded ev]
       else uploads (m_payloads e) @ [uploaded ev])"
    and "m_console e' = m_console e @ text_of (console_bytes ev)"
    and "getCommands e' = getCommands e @ command_of ev"
proof -
  have "uploads (m_payloads e') =
      (if announces ev then uploads (m_payloads e) @ [[]]
       else if uploaded ev = [] then uploads (m_payloads e)
       else if m_uploadOpen e then butlast (uploads (m_payloads e)) @ [last (uploads (m_payloads e)) @ uploaded ev]
       else uploads (m_payloads e) @ [uploaded ev]) \<and>
    m_console e' = m_console e @ text_of (console_bytes ev) \<and>
    getCommands e' = getCommands e @ command_of ev"
  proof (cases ev)
    case (BulkOut data)
    then show ?thesis
      using assms(2) recovery_bulk_out [OF assms(1), of data]
      by (auto simp: recovery_step_def getCommands_others)
  qed (use assms(2) in \<open>auto simp: recovery_step_def recovery_step_defs Let_def getCommands_def\<close>)
  then show "uploads (m_payloads e') =
      (if announces ev then uploads (m_payloads e) @ [[]]
       else if uploaded ev = [] then uploads (m_payloads e)
       else if m_uploadOpen e then butlast (uploads (m_payloads e)) @ [last (uploads (m_payloads e)) @ uploaded ev]
       else uploads (m_payloads e) @ [uploaded ev])"
    and "m_console e' = m_console e @ text_of (console_bytes ev)"
    and "getCommands e' = getCommands e @ command_of ev" by blast+
qed

lemma concat_extend_last:
  "xss \<noteq> [] \<Longrightarrow> concat (butlast xss @ [last xss @ ys]) = concat xss @ ys"
  by (induction xss rule: rev_induct) auto

lemma recovery_step_bytes:
  assumes "recovery_wf e" and "recovery_step ev e = Some e'"
  shows "concat (uploads (m_payloads e')) = concat (uploads (m_payloads e)) @ uploaded ev"
proof -
  have "announces ev \<Longrightarrow> uploaded ev = []" by (cases ev) auto
  moreover have "m_uploadOpen e \<Longrightarrow> uploads (m_payloads e) \<noteq> []" using assms(1) by (simp add: recovery_wf_def)
  ultimately show ?thesis
    using recovery_step_session(1) [OF assms] by (auto simp: concat_extend_last simp del: concat_append) (simp_all add: concat_extend_last)
qed

lemma recovery_run_session:
  "recovery_wf e \<Longrightarrow> run_opt recovery_step evs e = Some e' \<Longrightarrow>
   concat (uploads (m_payloads e')) = concat (uploads (m_payloads e)) @ concat (map uploaded evs) \<and>
   m_console e' = m_console e @ text_of (concat (map console_bytes evs)) \<and>
   getCommands e' = getCommands e @ concat (map command_of evs)"
proof (induction evs arbitrary: e)
  case Nil
  then show ?case by simp
next
  case (Cons ev evs)
  from Cons.prems(2) obtain e1 where e1: "recovery_step ev e = Some e1" "run_opt recovery_step evs e1 = Some e'"
    by (auto elim: bind_Some_elim)
  have "recovery_wf e1" using recovery.step_inv Cons.prems(1) e1(1) by blast
  from Cons.IH [OF this e1(2)] show ?case
    using recovery_step_bytes [OF Cons.prems(1) e1(1)] recovery_step_session(2,3) [OF Cons.prems(1) e1(1)]
    by simp
qed

text \<open>A run that announces no upload extends the open one.\<close>

lemma recovery_run_open_upload:
  "recovery_wf e \<Longrightarrow> m_uploadOpen e \<Longrightarrow> run_opt recovery_step evs e = Some e' \<Longrightarrow>
   \<forall>ev \<in> set evs. \<not> announces ev \<Longrightarrow>
   uploads (m_payloads e') =
     butlast (uploads (m_payloads e)) @ [last (uploads (m_payloads e)) @ concat (map uploaded evs)]"
proof (induction evs arbitrary: e)
  case Nil
  then show ?case by (simp add: recovery_wf_def)
next
  case (Cons ev evs)
  from Cons.prems(3) obtain e1 where e1: "recovery_step ev e = Some e1" "run_opt recovery_step evs e1 = Some e'"
    by (auto elim: bind_Some_elim)
  have wf1: "recovery_wf e1" using recovery.step_inv Cons.prems(1) e1(1) by blast
  have u: "uploads (m_payloads e) \<noteq> []" using Cons.prems(1,2) by (simp add: recovery_wf_def)
  have u1: "uploads (m_payloads e1) = butlast (uploads (m_payloads e)) @ [last (uploads (m_payloads e)) @ uploaded ev]"
    using recovery_step_session(1) [OF Cons.prems(1) e1(1)] Cons.prems(2,4) u by auto
  then have "m_uploadOpen e1" using wf1 by (simp add: recovery_wf_def)
  from Cons.IH [OF wf1 this e1(2)] Cons.prems(4) show ?case by (simp add: u1)
qed

section \<open>Properties\<close>

text \<open>
  C32: A recovery session is reconstructed without loss.  From its creation on, whatever it is fed, the
  expert's uploads are together exactly the bytes sent over bulk OUT in order, its console exactly the
  bytes read over bulk IN, and its commands exactly the strings of the non-empty \<open>0x40\<close> requests, each
  cut at its first NUL.
\<close>

theorem recovery_session_faithful:
  "\<exists>e. run_opt recovery_step evs (new_recovery_expert configuration interface) = Some e \<and>
       concat (uploads (m_payloads e)) = concat (map uploaded evs) \<and>
       m_console e = text_of (concat (map console_bytes evs)) \<and>
       getCommands e = concat (map command_of evs)"
proof -
  let ?n = "new_recovery_expert configuration interface"
  obtain e where e: "run_opt recovery_step evs ?n = Some e"
    using recovery.run_ok [OF new_recovery_expert_wf, of evs configuration interface] by blast
  have "m_payloads ?n = []" "m_console ?n = []"
    by (simp_all add: new_recovery_expert_def interface_expert.defs recovery_expert.defs new_interface_expert_def)
  then show ?thesis
    using recovery_run_session [OF new_recovery_expert_wf e] e by (simp add: getCommands_def)
qed

text \<open>
  An announced file is one upload: a \<open>0x41\<close> request followed by any run of transfers without a
  further announcement (commands, responses and console reads may be interleaved) adds one upload, whose
  contents are the bulk OUT bytes of the run, and leaves the earlier uploads as they were.
\<close>

theorem recovery_announced_upload:
  assumes "recovery_wf e" and "announces announcement" and "\<forall>ev \<in> set evs. \<not> announces ev"
  shows "\<exists>e'. run_opt recovery_step (announcement # evs) e = Some e' \<and>
     uploads (m_payloads e') = uploads (m_payloads e) @ [concat (map uploaded evs)]"
proof -
  obtain e1 where e1: "recovery_step announcement e = Some e1" "recovery_wf e1"
    using recovery.step_ok [OF assms(1)] by blast
  obtain e' where e': "run_opt recovery_step evs e1 = Some e'" using recovery.run_ok [OF e1(2)] by blast
  have u: "uploads (m_payloads e1) = uploads (m_payloads e) @ [[]]"
    using recovery_step_session(1) [OF assms(1) e1(1)] assms(2) by simp
  then have "m_uploadOpen e1" using e1(2) by (simp add: recovery_wf_def)
  from recovery_run_open_upload [OF e1(2) this e' assms(3)] show ?thesis using e1(1) e' by (simp add: u)
qed

definition announce_setup :: usb_setup_t where
  "announce_setup = \<lparr>bmRequestType = 0x41, bRequest = 0, wValue = 0, wIndex = 0, wLength = 0\<rparr>"

lemma recovery_announced_upload_witness:
  "\<exists>e'. run_opt recovery_step [ControlOut announce_setup [], BulkOut [1, 2], BulkIn [65], BulkOut [3]]
          (new_recovery_expert 1 0) = Some e' \<and> uploads (m_payloads e') = [[1, 2, 3]]"
  using recovery_announced_upload [of "new_recovery_expert 1 0" "ControlOut announce_setup []"
      "[BulkOut [1, 2], BulkIn [65], BulkOut [3]]"]
  by (simp add: announce_setup_def new_recovery_expert_def interface_expert.defs recovery_expert.defs
      new_interface_expert_def recovery_wf_def)

text \<open>
  The branch that \<open>currentUpload\<close> calls unreachable is: in every state a session can reach the
  reference it returns is to an existing payload of kind \<open>Upload\<close>, the last such payload, and at most
  one payload (the upload it opens) has been added.
\<close>

theorem recovery_upload_reference_valid:
  "\<exists>e. run_opt recovery_step evs (new_recovery_expert configuration interface) = Some e \<and>
       (case currentUpload e of (e', i) \<Rightarrow>
          i < length (m_payloads e') \<and> kind (m_payloads e' ! i) = Upload \<and>
          Upload \<notin> kind ` set (drop (Suc i) (m_payloads e')) \<and>
          m_payloads e' = m_payloads e @ (if m_uploadOpen e then [] else [new_upload 0]))"
proof -
  obtain e where e: "run_opt recovery_step evs (new_recovery_expert configuration interface) = Some e" "recovery_wf e"
    using recovery.run_ok [OF new_recovery_expert_wf, of evs configuration interface] by blast
  from currentUpload_wf [OF e(2)] obtain i where
    i: "last_upload (m_payloads (fst (currentUpload e))) (length (m_payloads (fst (currentUpload e)))) = Some i"
    and cur: "currentUpload e =
      (if m_uploadOpen e then e else (push_payload (new_upload 0) e)\<lparr>m_uploadOpen := True\<rparr>, i)"
    by (auto split: if_splits)
  have "m_payloads (fst (currentUpload e)) = m_payloads e @ (if m_uploadOpen e then [] else [new_upload 0])"
    by (simp add: cur push_payload_def)
  moreover have "Upload \<notin> kind ` set (drop (Suc i) (m_payloads (fst (currentUpload e))))"
    using last_upload_Some [OF i] last_upload_none_after by blast
  ultimately show ?thesis using last_upload_Some [OF i] cur e(1) by auto
qed

text \<open>
  C37: Once an upload has been opened it is never closed: \<open>m_uploadOpen\<close> stays set whatever happens later.  So without a
  further announcement no upload is begun, and every byte of the bulk OUT transfers that follow, in order, ends up at
  the end of the last upload, also after that file was finished and commands were exchanged; the uploads before it stay
  as they are.
\<close>

theorem recovery_unannounced_upload_merged:
  assumes "recovery_wf e" and "m_uploadOpen e" and "\<forall>ev \<in> set evs. \<not> announces ev"
  shows "\<exists>e' us u. run_opt recovery_step (evs @ [BulkOut data]) e = Some e' \<and> m_uploadOpen e' \<and>
     uploads (m_payloads e) = us @ [u] \<and>
     uploads (m_payloads e') = us @ [u @ concat (map uploaded evs) @ data]"
proof -
  obtain e' where e': "run_opt recovery_step (evs @ [BulkOut data]) e = Some e'" "recovery_wf e'"
    using recovery.run_ok [OF assms(1)] by blast
  have u: "uploads (m_payloads e) \<noteq> []" using assms(1,2) by (simp add: recovery_wf_def)
  have "uploads (m_payloads e') = butlast (uploads (m_payloads e)) @
      [last (uploads (m_payloads e)) @ concat (map uploaded (evs @ [BulkOut data]))]"
    using recovery_run_open_upload [OF assms(1,2) e'(1)] assms(3) by auto
  moreover from this have "m_uploadOpen e'" using e'(2) by (simp add: recovery_wf_def)
  moreover have "uploads (m_payloads e) = butlast (uploads (m_payloads e)) @ [last (uploads (m_payloads e))]" using u by simp
  ultimately show ?thesis using e'(1) by auto
qed

lemma recovery_unannounced_upload_merged_witness:
  "\<exists>e'. run_opt recovery_step ([BulkOut [7, 8],
        ControlOut \<lparr>bmRequestType = 0x40, bRequest = 1, wValue = 0, wIndex = 0, wLength = 3\<rparr> [103, 111, 0]] @ [BulkOut [9]])
        (recovery_processControlOut announce_setup [] (new_recovery_expert 1 0)) = Some e' \<and>
      uploads (m_payloads e') = [[7, 8, 9]]"
proof -
  let ?e = "recovery_processControlOut announce_setup [] (new_recovery_expert 1 0)"
  have e: "recovery_wf ?e" "m_uploadOpen ?e" "uploads (m_payloads ?e) = [[]]"
    by (simp_all add: announce_setup_def new_recovery_expert_def interface_expert.defs recovery_expert.defs
      new_interface_expert_def recovery_wf_def recovery_step_defs)
  show ?thesis
    using recovery_unannounced_upload_merged [OF e(1,2), of "[BulkOut [7, 8],
        ControlOut \<lparr>bmRequestType = 0x40, bRequest = 1, wValue = 0, wIndex = 0, wLength = 3\<rparr> [103, 111, 0]]" "[9]"] e(3)
    by auto
qed

end
