(* ===== verification/Mux_Stream.thy ===== *)
theory Mux_Stream
  imports Text_Format
begin

text \<open>
  \<open>MuxStream\<close> and \<open>MuxMessage\<close> (\<open>src/protocol/MuxStream.h\<close>, \<open>.cpp\<close>): one TCP connection tunnelled
  over usbmux, whose two directions are reassembled into length-prefixed property lists until they turn
  out to be something else.

  \<open>libplist\<close> is not part of the repository.  The functions of it that the code calls are the fields of
  the record \<open>plist_api\<close>, an argument of every definition that uses one; \<open>'p\<close> is its node type, and a
  null \<open>plist_t\<close> is \<open>None\<close>.
\<close>

section \<open>The property list library\<close>

datatype plist_type = PLIST_DICT | PLIST_STRING | PLIST_UINT | PLIST_OTHER

record 'p plist_api =
  plist_from_bin :: "byte list \<Rightarrow> 'p option"
  plist_from_xml :: "byte list \<Rightarrow> 'p option"
  plist_to_xml :: "'p \<Rightarrow> string option"
  plist_get_node_type :: "'p \<Rightarrow> plist_type"
  plist_dict_get_item :: "'p \<Rightarrow> string \<Rightarrow> 'p option"
  plist_get_string_ptr :: "'p \<Rightarrow> string option"
  plist_get_uint_val :: "'p \<Rightarrow> u64"

section \<open>Messages\<close>

record 'p mux_message =
  outbound :: bool
  msg_size :: u32
  plist :: "'p option"

definition xml :: "'p plist_api \<Rightarrow> 'p mux_message \<Rightarrow> string" where
  "xml api m =
     (case plist m of
        None \<Rightarrow> []
      | Some p \<Rightarrow> (case plist_to_xml api p of None \<Rightarrow> [] | Some text \<Rightarrow> text))"

definition stringValue :: "'p plist_api \<Rightarrow> string \<Rightarrow> 'p mux_message \<Rightarrow> string" where
  "stringValue api key m =
     (case plist m of
        None \<Rightarrow> []
      | Some p \<Rightarrow>
          if plist_get_node_type api p \<noteq> PLIST_DICT then []
          else (case plist_dict_get_item api p key of
                  None \<Rightarrow> []
                | Some item \<Rightarrow>
                    if plist_get_node_type api item \<noteq> PLIST_STRING then []
                    else (case plist_get_string_ptr api item of None \<Rightarrow> [] | Some v \<Rightarrow> v)))"

text \<open>The unsigned value of the node is cast to \<open>int64_t\<close>.\<close>

definition uintValue :: "'p plist_api \<Rightarrow> string \<Rightarrow> 'p mux_message \<Rightarrow> int" where
  "uintValue api key m =
     (case plist m of
        None \<Rightarrow> -1
      | Some p \<Rightarrow>
          if plist_get_node_type api p \<noteq> PLIST_DICT then -1
          else (case plist_dict_get_item api p key of
                  None \<Rightarrow> -1
                | Some item \<Rightarrow>
                    if plist_get_node_type api item \<noteq> PLIST_UINT then -1
                    else sint (plist_get_uint_val api item)))"

definition append_entry :: "string \<Rightarrow> string \<Rightarrow> string" where
  "append_entry entry result = (if result \<noteq> [] then result @ '', '' @ entry else result @ entry)"

fun summary_keys :: "'p plist_api \<Rightarrow> 'p mux_message \<Rightarrow> string list \<Rightarrow> string \<Rightarrow> string" where
  "summary_keys api m [] result = result"
| "summary_keys api m (key # keys) result =
     (let v = stringValue api key m in
      summary_keys api m keys (if v \<noteq> [] then append_entry (key @ ''='' @ v) result else result))"

definition summary :: "'p plist_api \<Rightarrow> 'p mux_message \<Rightarrow> string" where
  "summary api m =
     (case plist m of
        None \<Rightarrow> ''<undecodable plist>''
      | Some p \<Rightarrow>
          if plist_get_node_type api p \<noteq> PLIST_DICT then ''<non-dictionary plist>''
          else
            let result = summary_keys api m
                  [''Request'', ''Type'', ''Service'', ''Key'', ''Domain'', ''Error'', ''Result'',
                   ''MessageType'', ''Command''] [];
                port = uintValue api ''Port'' m;
                result = (if 0 \<le> port then append_entry (''Port='' @ dec_int port) result else result)
            in if result = [] then ''<dictionary>'' else result)"

section \<open>Streams\<close>

datatype stream_encoding = Unknown | Plist | Raw | TLS

definition encodingName :: "stream_encoding \<Rightarrow> string" where
  "encodingName e = (case e of Unknown \<Rightarrow> ''unknown'' | Plist \<Rightarrow> ''plist'' | Raw \<Rightarrow> ''raw'' | TLS \<Rightarrow> ''tls'')"

record direction =
  dir_outbound :: bool
  encoding :: stream_encoding
  dir_bytes :: u64
  buffer :: "byte list"

record 'p mux_stream =
  m_host :: u16
  m_device :: u16
  m_closed :: bool
  m_serviceName :: string
  m_in :: direction
  m_out :: direction
  m_messages :: "'p mux_message list"

abbreviation (input) LOCKDOWN_PORT :: u16 where "LOCKDOWN_PORT \<equiv> 62078"

definition new_direction :: "bool \<Rightarrow> direction" where
  "new_direction out = \<lparr>dir_outbound = out, encoding = Unknown, dir_bytes = 0, buffer = []\<rparr>"

definition new_mux_stream :: "u16 \<Rightarrow> u16 \<Rightarrow> 'p mux_stream" where
  "new_mux_stream host device =
     \<lparr>m_host = host, m_device = device, m_closed = False, m_serviceName = [],
      m_in = new_direction False, m_out = new_direction True, m_messages = []\<rparr>"

definition shouldMaterializePlist :: "'p mux_stream \<Rightarrow> bool" where
  "shouldMaterializePlist s \<longleftrightarrow> encoding (m_out s) = Unknown \<or> encoding (m_out s) = Plist"

definition close :: "'p mux_stream \<Rightarrow> 'p mux_stream" where
  "close s = s\<lparr>m_closed := True\<rparr>"

definition setServiceName :: "string \<Rightarrow> 'p mux_stream \<Rightarrow> 'p mux_stream" where
  "setServiceName name s = s\<lparr>m_serviceName := name\<rparr>"

definition MAX_PLIST_MESSAGE :: u32 where "MAX_PLIST_MESSAGE = 64 * 1024 * 1024"

definition XML_PLIST_PREFIX :: "byte list" where "XML_PLIST_PREFIX = [0x3C, 0x3F, 0x78, 0x6D, 0x6C]"

definition BINARY_PLIST_PREFIX :: "byte list" where
  "BINARY_PLIST_PREFIX = [0x62, 0x70, 0x6C, 0x69, 0x73, 0x74, 0x30, 0x30]"

lemma plist_prefixes: "XML_PLIST_PREFIX = bytes_of ''<?xml''" "BINARY_PLIST_PREFIX = bytes_of ''bplist00''"
  by (simp_all add: XML_PLIST_PREFIX_def BINARY_PLIST_PREFIX_def bytes_of_def byte_of_char_def)

text \<open>\<open>startsWith(data, n, prefix)\<close>: \<open>memcmp\<close> only after the length test.\<close>

definition startsWith :: "byte list \<Rightarrow> nat \<Rightarrow> byte list \<Rightarrow> bool option" where
  "startsWith data n prefix =
     (if length prefix \<le> n then do { head \<leftarrow> subspan 0 (length prefix) data; Some (head = prefix) }
      else Some False)"

definition looksLikeTLS :: "byte list \<Rightarrow> bool" where
  "looksLikeTLS buf \<longleftrightarrow> 3 \<le> length buf \<and> (buf ! 0 = 0x16 \<or> buf ! 0 = 0x17) \<and> buf ! 1 = 0x03 \<and> buf ! 2 \<le> 0x04"

text \<open>
  One round of the \<open>drain\<close> loop.  \<open>Stop\<close> is a \<open>return\<close>, \<open>Next\<close> the end of the body after a message has
  been pushed and its bytes erased.
\<close>

datatype 'p drain_result = Stop direction | Next direction "'p mux_message"

definition take_message :: "'p plist_api \<Rightarrow> direction \<Rightarrow> u32 \<Rightarrow> byte list \<Rightarrow> 'p drain_result option" where
  "take_message api d sz payload =
     (if length payload < unat sz then Some (Stop d)
      else do {
        binary \<leftarrow> startsWith payload (unat sz) BINARY_PLIST_PREFIX;
        body \<leftarrow> subspan 0 (unat sz) payload;
        rest \<leftarrow> advance (4 + unat sz) (buffer d);
        Some (Next (d\<lparr>buffer := rest\<rparr>)
          \<lparr>outbound = dir_outbound d, msg_size = sz,
           plist = (if binary then plist_from_bin api body else plist_from_xml api body)\<rparr>)
      })"

definition drain_body :: "'p plist_api \<Rightarrow> direction \<Rightarrow> 'p drain_result option" where
  "drain_body api d =
     (if looksLikeTLS (buffer d) then Some (Stop (d\<lparr>encoding := TLS, buffer := []\<rparr>))
      else do {
        sz \<leftarrow> readBigEndian32 (buffer d);
        if sz = 0 \<or> MAX_PLIST_MESSAGE < sz then Some (Stop (d\<lparr>encoding := Raw, buffer := []\<rparr>))
        else do {
          payload \<leftarrow> advance 4 (buffer d);
          if encoding d = Unknown then
            (if length payload < min (unat sz) (length BINARY_PLIST_PREFIX) then Some (Stop d)
             else do {
               is_xml \<leftarrow> startsWith payload (length payload) XML_PLIST_PREFIX;
               is_bin \<leftarrow> startsWith payload (length payload) BINARY_PLIST_PREFIX;
               if is_xml \<or> is_bin then take_message api (d\<lparr>encoding := Plist\<rparr>) sz payload
               else Some (Stop (d\<lparr>encoding := Raw, buffer := []\<rparr>))
             })
          else take_message api d sz payload
        }
      })"

lemma take_message_Next:
  "take_message api d sz payload = Some (Next d' m) \<Longrightarrow> buffer d' = drop (4 + unat sz) (buffer d) \<and> 4 + unat sz \<le> length (buffer d)"
  by (auto simp: take_message_def advance_def split: if_splits elim!: bind_Some_elim)

lemma take_message_shorter:
  "take_message api d sz payload = Some (Next d' m) \<Longrightarrow> length (buffer d') < length (buffer d)"
  by (drule take_message_Next) auto

lemma drain_body_Next_shorter:
  "drain_body api d = Some (Next d' m) \<Longrightarrow> length (buffer d') < length (buffer d)"
  by (auto simp: drain_body_def split: if_splits elim!: bind_Some_elim dest!: take_message_shorter)

function drain :: "'p plist_api \<Rightarrow> direction \<Rightarrow> 'p mux_message list \<Rightarrow> (direction \<times> 'p mux_message list) option" where
  "drain api d messages =
     (if length (buffer d) < 4 then Some (d, messages)
      else (case drain_body api d of
              None \<Rightarrow> None
            | Some (Stop d') \<Rightarrow> Some (d', messages)
            | Some (Next d' m) \<Rightarrow> drain api d' (messages @ [m])))"
  by pat_completeness auto
termination
  by (relation "measure (\<lambda>(api, d, messages). length (buffer d))") (auto dest: drain_body_Next_shorter)

declare drain.simps [simp del]

definition consume ::
  "'p plist_api \<Rightarrow> byte list \<Rightarrow> direction \<times> 'p mux_message list \<Rightarrow> (direction \<times> 'p mux_message list) option" where
  "consume api data = (\<lambda>(d, messages).
     let d = d\<lparr>dir_bytes := dir_bytes d + word_of_nat (length data)\<rparr> in
     if length data = 0 then Some (d, messages)
     else if encoding d = Raw \<or> encoding d = TLS then Some (d, messages)
     else drain api (d\<lparr>buffer := buffer d @ data\<rparr>) messages)"

definition receiveBytes :: "'p plist_api \<Rightarrow> byte list \<Rightarrow> 'p mux_stream \<Rightarrow> 'p mux_stream option" where
  "receiveBytes api data s = do {
     (d, messages) \<leftarrow> consume api data (m_in s, m_messages s);
     Some (s\<lparr>m_in := d, m_messages := messages\<rparr>)
   }"

definition sendBytes :: "'p plist_api \<Rightarrow> byte list \<Rightarrow> 'p mux_stream \<Rightarrow> 'p mux_stream option" where
  "sendBytes api data s = do {
     (d, messages) \<leftarrow> consume api data (m_out s, m_messages s);
     Some (s\<lparr>m_out := d, m_messages := messages\<rparr>)
   }"

section \<open>The loop body without its memory checks\<close>

lemma prefix_lengths [simp]: "length XML_PLIST_PREFIX = 5" "length BINARY_PLIST_PREFIX = 8"
  by (simp_all add: XML_PLIST_PREFIX_def BINARY_PLIST_PREFIX_def)

lemma startsWith_ok [bounds]:
  "n \<le> length data \<Longrightarrow> startsWith data n p = Some (length p \<le> n \<and> take (length p) data = p)"
  by (simp add: startsWith_def)

definition signature :: "byte list \<Rightarrow> bool" where
  "signature payload \<longleftrightarrow> take 5 payload = XML_PLIST_PREFIX \<or> take 8 payload = BINARY_PLIST_PREFIX"

definition decode_body :: "'p plist_api \<Rightarrow> byte list \<Rightarrow> 'p option" where
  "decode_body api body =
     (if take 8 body = BINARY_PLIST_PREFIX then plist_from_bin api body else plist_from_xml api body)"

definition message_of :: "'p plist_api \<Rightarrow> bool \<Rightarrow> byte list \<Rightarrow> 'p mux_message" where
  "message_of api out body =
     \<lparr>outbound = out, msg_size = word_of_nat (length body), plist = decode_body api body\<rparr>"

lemma take_length_eq: "take n xs = p \<Longrightarrow> length p = n \<Longrightarrow> n \<le> length xs"
  by auto

lemma signature_long: "8 \<le> length p \<Longrightarrow> signature (p @ q) = signature p"
  by (simp add: signature_def)

lemma take_message_eq:
  assumes "4 \<le> length (buffer d)"
  shows "take_message api d sz (drop 4 (buffer d)) = Some
     (if length (buffer d) < 4 + unat sz then Stop d
      else Next (d\<lparr>buffer := drop (4 + unat sz) (buffer d)\<rparr>)
        (message_of api (dir_outbound d) (take (unat sz) (drop 4 (buffer d)))))"
proof (cases "length (buffer d) < 4 + unat sz")
  case True
  with assms show ?thesis by (auto simp: take_message_def)
next
  case False
  have "(8 \<le> unat sz \<and> take 8 (drop 4 (buffer d)) = BINARY_PLIST_PREFIX) \<longleftrightarrow>
      take 8 (take (unat sz) (drop 4 (buffer d))) = BINARY_PLIST_PREFIX"
  proof (cases "8 \<le> unat sz")
    case False
    then have "length (take 8 (take (unat sz) (drop 4 (buffer d)))) \<noteq> length BINARY_PLIST_PREFIX" by simp
    with False show ?thesis by metis
  qed (simp add: min_def)
  with False show ?thesis
    by (simp add: take_message_def startsWith_ok message_of_def decode_body_def not_less le_diff_conv2 add.commute)
qed

lemma drain_body_eq:
  assumes "4 \<le> length (buffer d)"
  shows "drain_body api d =
     (if looksLikeTLS (buffer d) then Some (Stop (d\<lparr>encoding := TLS, buffer := []\<rparr>))
      else if be32 (buffer d) = 0 \<or> MAX_PLIST_MESSAGE < be32 (buffer d)
        then Some (Stop (d\<lparr>encoding := Raw, buffer := []\<rparr>))
      else if encoding d = Unknown then
        (if length (buffer d) < 4 + min (unat (be32 (buffer d))) 8 then Some (Stop d)
         else if signature (drop 4 (buffer d))
           then take_message api (d\<lparr>encoding := Plist\<rparr>) (be32 (buffer d)) (drop 4 (buffer d))
         else Some (Stop (d\<lparr>encoding := Raw, buffer := []\<rparr>)))
      else take_message api d (be32 (buffer d)) (drop 4 (buffer d)))"
proof -
  have "(5 \<le> length (drop 4 (buffer d)) \<and> take 5 (drop 4 (buffer d)) = XML_PLIST_PREFIX) \<or>
      (8 \<le> length (drop 4 (buffer d)) \<and> take 8 (drop 4 (buffer d)) = BINARY_PLIST_PREFIX) \<longleftrightarrow>
      signature (drop 4 (buffer d))"
    using take_length_eq [of 5 "drop 4 (buffer d)" XML_PLIST_PREFIX]
      take_length_eq [of 8 "drop 4 (buffer d)" BINARY_PLIST_PREFIX]
    unfolding signature_def by auto
  with assms show ?thesis
    by (auto simp: drain_body_def startsWith_ok signature_def)
qed

section \<open>Safety and termination\<close>

text \<open>No state and no data make \<open>drain\<close> read outside its buffer.\<close>

lemmas take_message_as_plist = take_message_eq [of "d\<lparr>encoding := Plist\<rparr>" for d, simplified]

lemma drain_body_safe: "4 \<le> length (buffer d) \<Longrightarrow> \<exists>r. drain_body api d = Some r"
  by (simp add: drain_body_eq take_message_eq take_message_as_plist)

lemma drain_safe: "\<exists>r. drain api d messages = Some r"
proof (induction api d messages rule: drain.induct)
  case (1 api d messages)
  show ?case
  proof (cases "length (buffer d) < 4")
    case True
    then show ?thesis by (subst drain.simps) simp
  next
    case False
    then obtain r where r: "drain_body api d = Some r" using drain_body_safe by force
    with 1 False show ?thesis by (cases r) (subst drain.simps; force)+
  qed
qed

lemma consume_safe: "\<exists>d' messages'. consume api data dm = Some (d', messages')"
proof (cases dm)
  case (Pair d messages)
  obtain r where "drain api (d\<lparr>dir_bytes := dir_bytes d + word_of_nat (length data), buffer := buffer d @ data\<rparr>)
      messages = Some r"
    using drain_safe by blast
  with Pair show ?thesis by (cases r) (auto simp: consume_def Let_def)
qed

lemma receiveBytes_safe: "\<exists>s'. receiveBytes api data s = Some s'"
  using consume_safe [of api data "(m_in s, m_messages s)"] by (auto simp: receiveBytes_def)

lemma sendBytes_safe: "\<exists>s'. sendBytes api data s = Some s'"
  using consume_safe [of api data "(m_out s, m_messages s)"] by (auto simp: sendBytes_def)

section \<open>How far a direction is drained\<close>

text \<open>
  Nothing complete stays in the buffer: a drained direction holds less than a length field, or the
  beginning of a plausible message; a direction that is raw or TLS holds nothing.
\<close>

definition drained :: "direction \<Rightarrow> bool" where
  "drained d \<longleftrightarrow>
     (encoding d = Raw \<or> encoding d = TLS) \<and> buffer d = [] \<or>
     (encoding d = Unknown \<or> encoding d = Plist) \<and>
       (length (buffer d) < 4 \<or>
        \<not> looksLikeTLS (buffer d) \<and> be32 (buffer d) \<noteq> 0 \<and> be32 (buffer d) \<le> MAX_PLIST_MESSAGE \<and>
        length (buffer d) < 4 + unat (be32 (buffer d)) \<and>
        (encoding d = Unknown \<longrightarrow> length (buffer d) < 4 + min (unat (be32 (buffer d))) 8))"

lemma drain_body_Stop_drained:
  assumes "drain_body api d = Some (Stop d')" and "4 \<le> length (buffer d)"
    and "encoding d = Unknown \<or> encoding d = Plist"
  shows "drained d'"
  using assms
  by (auto simp: drain_body_eq take_message_eq take_message_as_plist drained_def not_less
      split: if_splits)

lemma drain_body_Next_Plist:
  assumes "drain_body api d = Some (Next d' m)" and "4 \<le> length (buffer d)"
    and "encoding d = Unknown \<or> encoding d = Plist"
  shows "encoding d' = Plist"
  using assms
  by (auto simp: drain_body_eq take_message_eq take_message_as_plist split: if_splits)

lemma drain_drained:
  "drain api d messages = Some (d', messages') \<Longrightarrow> encoding d = Unknown \<or> encoding d = Plist \<Longrightarrow> drained d'"
proof (induction api d messages rule: drain.induct)
  case (1 api d messages)
  show ?case
  proof (cases "length (buffer d) < 4")
    case True
    with "1.prems" show ?thesis by (auto simp: drain.simps [of api d] drained_def)
  next
    case False
    then have len: "4 \<le> length (buffer d)" by simp
    from drain_body_safe [OF len] obtain r where r: "drain_body api d = Some r" by blast
    show ?thesis
    proof (cases r)
      case (Stop d1)
      with "1.prems"(1) False r have "d' = d1" by (simp add: drain.simps [of api d])
      with drain_body_Stop_drained [OF _ len "1.prems"(2)] r Stop show ?thesis by simp
    next
      case (Next d1 m)
      with "1.prems"(1) False r have "drain api d1 (messages @ [m]) = Some (d', messages')"
        by (simp add: drain.simps [of api d])
      moreover have "encoding d1 = Plist"
        using drain_body_Next_Plist [OF _ len "1.prems"(2)] r Next by blast
      ultimately show ?thesis using "1.IH" [OF False r Next] by simp
    qed
  qed
qed

lemma consume_drained:
  "drained d \<Longrightarrow> consume api data (d, messages) = Some (d', messages') \<Longrightarrow> drained d'"
proof -
  assume d: "drained d" and c: "consume api data (d, messages) = Some (d', messages')"
  let ?d = "d\<lparr>dir_bytes := dir_bytes d + word_of_nat (length data)\<rparr>"
  have bytes: "drained ?d" using d by (simp add: drained_def)
  show "drained d'"
  proof (cases "data = [] \<or> encoding d = Raw \<or> encoding d = TLS")
    case True
    with c have "d' = ?d" by (auto simp: consume_def Let_def split: if_splits)
    with bytes show ?thesis by simp
  next
    case False
    with c have "drain api (?d\<lparr>buffer := buffer d @ data\<rparr>) messages = Some (d', messages')"
      by (simp add: consume_def Let_def)
    moreover have "encoding (?d\<lparr>buffer := buffer d @ data\<rparr>) = Unknown \<or>
        encoding (?d\<lparr>buffer := buffer d @ data\<rparr>) = Plist"
      using False by (cases "encoding d") simp_all
    ultimately show ?thesis by (rule drain_drained)
  qed
qed

end
