(* ===== verification/Mux_Framing.thy ===== *)
theory Mux_Framing
  imports Mux_Stream
begin

text \<open>
  What the framing of a \<open>MuxStream\<close> guarantees: how the bytes of a direction were cut into segments does
  not matter, length-prefixed property lists come back message by message, and the two directions of a
  stream do not disturb each other.
\<close>

section \<open>Draining and the rest of the state\<close>

lemma drain_stop: "length (buffer d) < 4 \<Longrightarrow> drain api d ms = Some (d, ms)"
  by (simp add: drain.simps [of api d])

lemma drain_step:
  "4 \<le> length (buffer d) \<Longrightarrow> drain api d ms =
     (case drain_body api d of None \<Rightarrow> None | Some (Stop d') \<Rightarrow> Some (d', ms)
      | Some (Next d' m) \<Rightarrow> drain api d' (ms @ [m]))"
  by (simp add: drain.simps [of api d])

text \<open>Messages are only ever appended.\<close>

lemma drain_messages:
  "drain api d (ms @ ms') = map_option (\<lambda>(d', new). (d', ms @ new)) (drain api d ms')"
proof (induction api d ms' rule: drain.induct)
  case (1 api d ms')
  show ?case
  proof (cases "length (buffer d) < 4")
    case True
    then show ?thesis by (simp add: drain_stop)
  next
    case False
    then show ?thesis
      using "1.IH" by (auto simp: drain_step split: option.splits drain_result.splits)
  qed
qed

text \<open>The byte counter plays no part in framing.\<close>

definition set_bytes :: "u64 \<Rightarrow> 'p drain_result \<Rightarrow> 'p drain_result" where
  "set_bytes b r = (case r of Stop d \<Rightarrow> Stop (d\<lparr>dir_bytes := b\<rparr>) | Next d m \<Rightarrow> Next (d\<lparr>dir_bytes := b\<rparr>) m)"

lemma take_message_bytes:
  "take_message api (d\<lparr>dir_bytes := b\<rparr>) sz p = map_option (set_bytes b) (take_message api d sz p)"
  by (simp add: take_message_def set_bytes_def map_option_bind bind_eq_Some_conv split: Option.bind_split option.split)

lemma take_message_bytes_Plist:
  "take_message api (d\<lparr>dir_bytes := b, encoding := e\<rparr>) sz p =
     map_option (set_bytes b) (take_message api (d\<lparr>encoding := e\<rparr>) sz p)"
proof -
  have "d\<lparr>dir_bytes := b, encoding := e\<rparr> = d\<lparr>encoding := e, dir_bytes := b\<rparr>" by (cases d) simp
  then show ?thesis by (simp only: take_message_bytes)
qed

lemma drain_body_bytes:
  assumes "4 \<le> length (buffer d)"
  shows "drain_body api (d\<lparr>dir_bytes := b\<rparr>) = map_option (set_bytes b) (drain_body api d)"
  using assms by (simp add: drain_body_eq set_bytes_def take_message_bytes take_message_bytes_Plist)

lemma drain_bytes:
  "drain api (d\<lparr>dir_bytes := b\<rparr>) ms = map_option (\<lambda>(d', ms'). (d'\<lparr>dir_bytes := b\<rparr>, ms')) (drain api d ms)"
proof (induction api d ms rule: drain.induct)
  case (1 api d ms)
  show ?case
  proof (cases "length (buffer d) < 4")
    case True
    then show ?thesis by (simp add: drain_stop)
  next
    case False
    then show ?thesis
      using "1.IH"
      by (auto simp: drain_step drain_body_bytes set_bytes_def split: option.splits drain_result.splits)
  qed
qed

section \<open>More bytes in the buffer\<close>

text \<open>
  The encoding of a direction is decided on the bytes available, up to eight of them, and not on the
  bytes of the first message.  The decision is independent of how the bytes arrive unless the first
  length field announces fewer than eight bytes.
\<close>

definition unambiguous :: "direction \<Rightarrow> byte list \<Rightarrow> bool" where
  "unambiguous d data \<longleftrightarrow> encoding d = Unknown \<longrightarrow> length data < 4 \<or> looksLikeTLS data \<or>
     be32 data = 0 \<or> MAX_PLIST_MESSAGE < be32 data \<or> 8 \<le> unat (be32 data)"

lemma looksLikeTLS_append [simp]: "3 \<le> length xs \<Longrightarrow> looksLikeTLS (xs @ ys) = looksLikeTLS xs"
  by (cases xs) (auto simp: looksLikeTLS_def nth_append)

lemma unambiguous_append:
  "unambiguous d (xs @ ys) \<Longrightarrow> 4 \<le> length xs \<Longrightarrow> unambiguous d xs"
  by (auto simp: unambiguous_def)

definition collecting :: "direction \<Rightarrow> bool" where
  "collecting d \<longleftrightarrow> encoding d = Unknown \<or> encoding d = Plist"

lemma collecting_iff: "collecting d \<longleftrightarrow> encoding d \<noteq> Raw \<and> encoding d \<noteq> TLS"
  by (cases "encoding d") (simp_all add: collecting_def)

abbreviation extend :: "byte list \<Rightarrow> direction \<Rightarrow> direction" where
  "extend ys d \<equiv> d\<lparr>buffer := buffer d @ ys\<rparr>"

text \<open>Deciding that a direction carries property lists is a step of its own.\<close>

lemma drain_decided:
  assumes "4 \<le> length (buffer d)" and "\<not> looksLikeTLS (buffer d)"
    and "be32 (buffer d) \<noteq> 0" and "\<not> MAX_PLIST_MESSAGE < be32 (buffer d)"
    and "encoding d = Unknown" and "\<not> length (buffer d) < 4 + min (unat (be32 (buffer d))) 8"
    and "signature (drop 4 (buffer d))"
  shows "drain api d ms = drain api (d\<lparr>encoding := Plist\<rparr>) ms"
  using assms by (simp add: drain_step drain_body_eq)

text \<open>What it takes for a round to produce a message, and what the round then does.\<close>

definition complete_message :: "direction \<Rightarrow> bool" where
  "complete_message d \<longleftrightarrow> 4 \<le> length (buffer d) \<and> \<not> looksLikeTLS (buffer d) \<and> be32 (buffer d) \<noteq> 0 \<and>
     \<not> MAX_PLIST_MESSAGE < be32 (buffer d) \<and> 4 + unat (be32 (buffer d)) \<le> length (buffer d) \<and>
     collecting d \<and> (encoding d = Unknown \<longrightarrow> signature (drop 4 (buffer d)))"

lemma take_message_complete:
  "4 + unat sz \<le> length (buffer d) \<Longrightarrow> take_message api d sz (drop 4 (buffer d)) = Some
     (Next (d\<lparr>buffer := drop (4 + unat sz) (buffer d)\<rparr>)
        (message_of api (dir_outbound d) (take (unat sz) (drop 4 (buffer d)))))"
  by (simp add: take_message_eq)

lemma drain_body_complete:
  assumes "complete_message d"
  shows "drain_body api d =
     Some (Next (d\<lparr>encoding := Plist, buffer := drop (4 + unat (be32 (buffer d))) (buffer d)\<rparr>)
       (message_of api (dir_outbound d) (take (unat (be32 (buffer d))) (drop 4 (buffer d)))))"
proof (cases "encoding d")
  case Unknown
  have "\<not> length (buffer d) < 4 + min (unat (be32 (buffer d))) 8"
    using assms by (simp add: complete_message_def min_def)
  with assms Unknown show ?thesis
    using take_message_complete [of "be32 (buffer d)" "d\<lparr>encoding := Plist\<rparr>" api]
    by (simp add: complete_message_def drain_body_eq)
next
  case Plist
  moreover have "d\<lparr>encoding := Plist\<rparr> = d" using Plist by (cases d) simp
  ultimately show ?thesis
    using assms take_message_complete [of "be32 (buffer d)" d api]
    by (simp add: complete_message_def drain_body_eq)
qed (use assms in \<open>simp_all add: complete_message_def collecting_def\<close>)

lemma drain_body_Next_complete:
  assumes "drain_body api d = Some (Next d' m)" and "4 \<le> length (buffer d)" and "collecting d"
  shows "complete_message d"
proof (cases "encoding d")
  case Unknown
  with assms show ?thesis
    by (auto simp: complete_message_def drain_body_eq take_message_as_plist not_less split: if_splits)
next
  case Plist
  with assms show ?thesis
    by (auto simp: complete_message_def drain_body_eq take_message_eq not_less split: if_splits)
qed (use assms in \<open>simp_all add: collecting_def\<close>)

lemma complete_message_append:
  assumes "complete_message d" and "unambiguous d (buffer d @ ys)"
  shows "complete_message (extend ys d)"
proof -
  have "encoding d = Unknown \<Longrightarrow> 8 \<le> unat (be32 (buffer d))"
    using assms by (auto simp: complete_message_def unambiguous_def)
  then show ?thesis
    using assms(1) by (auto simp: complete_message_def collecting_def signature_long)
qed

lemma drain_body_Next_append:
  assumes "drain_body api d = Some (Next d' m)" and "4 \<le> length (buffer d)" and "unambiguous d (buffer d @ ys)"
    and "collecting d"
  shows "drain_body api (extend ys d) = Some (Next (extend ys d') m)"
proof -
  have c: "complete_message d" using drain_body_Next_complete assms(1,2,4) .
  have "4 + unat (be32 (buffer d)) \<le> length (buffer d)" using c by (simp add: complete_message_def)
  with drain_body_complete [OF complete_message_append [OF c assms(3)], of api]
    drain_body_complete [OF c, of api] assms(1,2)
  show ?thesis by auto
qed

lemma drain_body_Stop_append:
  assumes "drain_body api d = Some (Stop d')" and "4 \<le> length (buffer d)" and "unambiguous d (buffer d @ ys)"
    and "collecting d"
  shows "drain api (extend ys d) ms =
     (if collecting d' then drain api (extend ys d') ms else Some (d', ms))"
proof -
  consider (tls) "looksLikeTLS (buffer d)"
    | (raw) "\<not> looksLikeTLS (buffer d)" "be32 (buffer d) = 0 \<or> MAX_PLIST_MESSAGE < be32 (buffer d)"
    | (short) "\<not> looksLikeTLS (buffer d)" "be32 (buffer d) \<noteq> 0" "\<not> MAX_PLIST_MESSAGE < be32 (buffer d)"
        "encoding d = Unknown" "length (buffer d) < 4 + min (unat (be32 (buffer d))) 8"
    | (unknown) "\<not> looksLikeTLS (buffer d)" "be32 (buffer d) \<noteq> 0" "\<not> MAX_PLIST_MESSAGE < be32 (buffer d)"
        "encoding d = Unknown" "\<not> length (buffer d) < 4 + min (unat (be32 (buffer d))) 8"
    | (plist) "\<not> looksLikeTLS (buffer d)" "be32 (buffer d) \<noteq> 0" "\<not> MAX_PLIST_MESSAGE < be32 (buffer d)"
        "encoding d = Plist"
    using assms(4) unfolding collecting_def by blast
  then show ?thesis
  proof cases
    case tls
    with assms have d': "d' = d\<lparr>encoding := TLS, buffer := []\<rparr>" by (simp add: drain_body_eq)
    with assms tls show ?thesis by (simp add: drain_step drain_body_eq collecting_def)
  next
    case raw
    with assms have d': "d' = d\<lparr>encoding := Raw, buffer := []\<rparr>" by (auto simp: drain_body_eq)
    with assms raw show ?thesis by (simp add: drain_step drain_body_eq collecting_def)
  next
    case short
    with assms show ?thesis by (auto simp: drain_body_eq)
  next
    case unknown
    with assms(2,3) have long: "12 \<le> length (buffer d)"
      by (auto simp: unambiguous_def min_def split: if_splits)
    show ?thesis
    proof (cases "signature (drop 4 (buffer d))")
      case True
      with assms unknown have d': "d' = d\<lparr>encoding := Plist\<rparr>"
        by (auto simp: drain_body_eq take_message_as_plist split: if_splits)
      have "drain api (extend ys d) ms = drain api ((extend ys d)\<lparr>encoding := Plist\<rparr>) ms"
        by (rule drain_decided) (use assms(2) unknown long True in \<open>auto simp: signature_long\<close>)
      moreover have "(extend ys d)\<lparr>encoding := Plist\<rparr> = extend ys d'" unfolding d' by (cases d) simp
      ultimately show ?thesis by (simp add: d' collecting_def)
    next
      case False
      with assms unknown long show ?thesis
        by (auto simp: drain_step drain_body_eq collecting_def signature_long)
    qed
  next
    case plist
    with assms show ?thesis by (auto simp: drain_body_eq take_message_eq split: if_splits)
  qed
qed

lemma drain_body_collecting:
  "drain_body api d = Some (Next d' m) \<Longrightarrow> 4 \<le> length (buffer d) \<Longrightarrow> collecting d \<Longrightarrow> encoding d' = Plist"
  unfolding collecting_def by (rule drain_body_Next_Plist)

lemma drain_append:
  "drain api d ms = Some (d', ms') \<Longrightarrow> collecting d \<Longrightarrow> unambiguous d (buffer d @ ys) \<Longrightarrow>
   drain api (extend ys d) ms = (if collecting d' then drain api (extend ys d') ms' else Some (d', ms'))"
proof (induction api d ms rule: drain.induct)
  case (1 api d ms)
  show ?case
  proof (cases "length (buffer d) < 4")
    case True
    with "1.prems" show ?thesis by (auto simp: drain_stop)
  next
    case False
    then have len: "4 \<le> length (buffer d)" by simp
    obtain r where r: "drain_body api d = Some r" using drain_body_safe [OF len] by blast
    show ?thesis
    proof (cases r)
      case (Stop d1)
      with "1.prems"(1) r len have "d1 = d'" "ms' = ms" by (simp_all add: drain_step)
      moreover have "drain_body api d = Some (Stop d1)" using r Stop by simp
      ultimately show ?thesis using drain_body_Stop_append [OF _ len "1.prems"(3,2)] by blast
    next
      case (Next d1 m)
      have d1: "encoding d1 = Plist" using drain_body_collecting r Next len "1.prems"(2) by blast
      have "drain_body api (extend ys d) = Some (Next (extend ys d1) m)"
        using drain_body_Next_append r Next len "1.prems"(2,3) by blast
      then have "drain api (extend ys d) ms = drain api (extend ys d1) (ms @ [m])"
        using len by (simp add: drain_step)
      moreover have "drain api d1 (ms @ [m]) = Some (d', ms')"
        using "1.prems"(1) r Next len by (simp add: drain_step)
      ultimately show ?thesis
        using "1.IH" [OF False r Next] d1 by (simp add: collecting_def unambiguous_def)
    qed
  qed
qed

section \<open>Segments\<close>

lemma drain_Unknown:
  "drain api d ms = Some (d', ms') \<Longrightarrow> collecting d \<Longrightarrow> encoding d' = Unknown \<Longrightarrow> d' = d \<and> ms' = ms"
proof (induction api d ms rule: drain.induct)
  case (1 api d ms)
  show ?case
  proof (cases "length (buffer d) < 4")
    case True
    with "1.prems" show ?thesis by (simp add: drain_stop)
  next
    case False
    then have len: "4 \<le> length (buffer d)" by simp
    obtain r where r: "drain_body api d = Some r" using drain_body_safe [OF len] by blast
    show ?thesis
    proof (cases r)
      case (Stop d1)
      with "1.prems"(1) r len have "d1 = d'" "ms' = ms" by (simp_all add: drain_step)
      with r Stop "1.prems"(2,3) len show ?thesis
        by (auto simp: drain_body_eq take_message_eq take_message_as_plist collecting_def split: if_splits)
    next
      case (Next d1 m)
      have d1: "encoding d1 = Plist" using drain_body_collecting r Next len "1.prems"(2) by blast
      have "drain api d1 (ms @ [m]) = Some (d', ms')" using "1.prems"(1) r Next len by (simp add: drain_step)
      with "1.IH" [OF False r Next] d1 "1.prems"(3) show ?thesis by (auto simp: collecting_def)
    qed
  qed
qed

lemma drain_bytes_buffer:
  "drain api (d\<lparr>dir_bytes := b, buffer := xs\<rparr>) ms =
     map_option (\<lambda>(d', ms'). (d'\<lparr>dir_bytes := b\<rparr>, ms')) (drain api (d\<lparr>buffer := xs\<rparr>) ms)"
proof -
  have "d\<lparr>dir_bytes := b, buffer := xs\<rparr> = d\<lparr>buffer := xs, dir_bytes := b\<rparr>" by (cases d) simp
  then show ?thesis by (simp only: drain_bytes)
qed

lemma consume_Nil: "consume api [] (d, ms) = Some (d, ms)"
  by (cases d) (simp add: consume_def)

lemma consume_ignored:
  "\<not> collecting d \<Longrightarrow> consume api data (d, ms) = Some (d\<lparr>dir_bytes := dir_bytes d + word_of_nat (length data)\<rparr>, ms)"
  by (auto simp: consume_def collecting_iff Let_def)

lemma consume_collecting:
  "collecting d \<Longrightarrow> data \<noteq> [] \<Longrightarrow> consume api data (d, ms) = map_option
     (\<lambda>(d', ms'). (d'\<lparr>dir_bytes := dir_bytes d + word_of_nat (length data)\<rparr>, ms')) (drain api (extend data d) ms)"
  by (simp add: consume_def Let_def collecting_iff drain_bytes_buffer)

text \<open>Two segments are as good as one.\<close>

lemma consume_append:
  assumes "unambiguous d (buffer d @ xs @ ys)"
  shows "consume api (xs @ ys) (d, ms) = Option.bind (consume api xs (d, ms)) (consume api ys)"
proof (cases "collecting d \<and> xs \<noteq> [] \<and> ys \<noteq> []")
  case False
  then consider "\<not> collecting d" | "xs = []" | "ys = []" by blast
  then show ?thesis
  proof cases
    case 1
    moreover have "\<not> collecting (d\<lparr>dir_bytes := b\<rparr>)" for b using 1 by (simp add: collecting_def)
    ultimately show ?thesis by (simp add: consume_ignored add.assoc)
  next
    case 2
    then show ?thesis by (simp add: consume_Nil)
  next
    case 3
    obtain d1 ms1 where "consume api xs (d, ms) = Some (d1, ms1)" using consume_safe by blast
    with 3 show ?thesis by (simp add: consume_Nil)
  qed
next
  case True
  obtain d1 ms1 where d1: "drain api (extend xs d) ms = Some (d1, ms1)" using drain_safe by force
  have p: "collecting (extend xs d)" using True by (simp add: collecting_def)
  have "unambiguous (extend xs d) (buffer (extend xs d) @ ys)" using assms by (simp add: unambiguous_def)
  note app = drain_append [OF d1 p this]
  let ?b = "dir_bytes d + word_of_nat (length xs)"
  have first: "consume api xs (d, ms) = Some (d1\<lparr>dir_bytes := ?b\<rparr>, ms1)"
    using True by (simp add: consume_collecting d1)
  show ?thesis
  proof (cases "collecting d1")
    case pd1: True
    have "collecting (d1\<lparr>dir_bytes := ?b\<rparr>)" using pd1 by (simp add: collecting_def)
    with True app pd1 show ?thesis
      by (simp add: first consume_collecting drain_bytes_buffer option.map_comp o_def case_prod_unfold add.assoc)
  next
    case pd1: False
    have "\<not> collecting (d1\<lparr>dir_bytes := ?b\<rparr>)" using pd1 by (simp add: collecting_def)
    with True app pd1 show ?thesis
      by (simp add: first consume_collecting consume_ignored add.assoc)
  qed
qed

lemma consume_unambiguous:
  assumes "consume api xs (d, ms) = Some (d', ms')" and "unambiguous d (buffer d @ xs @ ys)"
  shows "unambiguous d' (buffer d' @ ys)"
proof (cases "encoding d' = Unknown")
  case True
  have pd: "collecting d"
  proof (rule ccontr)
    assume "\<not> collecting d"
    with assms(1) True show False by (auto simp: consume_ignored collecting_def)
  qed
  have "encoding d' = encoding d \<and> buffer d' = buffer d @ xs"
  proof (cases "xs = []")
    case True
    with assms(1) show ?thesis by (simp add: consume_Nil)
  next
    case False
    then obtain d1 ms1 where d1: "drain api (extend xs d) ms = Some (d1, ms1)" "encoding d' = encoding d1"
        "buffer d' = buffer d1"
      using assms(1) pd by (auto simp: consume_collecting)
    have "collecting (extend xs d)" using pd by (simp add: collecting_def)
    from drain_Unknown [OF d1(1) this] d1(2,3) \<open>encoding d' = Unknown\<close> show ?thesis by simp
  qed
  with assms(2) show ?thesis by (simp add: unambiguous_def)
qed (simp add: unambiguous_def)

text \<open>However many segments there are.\<close>

lemma consume_segments:
  assumes "unambiguous d (buffer d @ concat chunks)"
  shows "run_opt (consume api) chunks (d, ms) = consume api (concat chunks) (d, ms)"
  using assms
proof (induction chunks arbitrary: d ms)
  case Nil
  then show ?case by (simp add: consume_Nil)
next
  case (Cons x chunks)
  obtain d1 ms1 where d1: "consume api x (d, ms) = Some (d1, ms1)" using consume_safe by blast
  have "unambiguous d1 (buffer d1 @ concat chunks)"
    using consume_unambiguous [OF d1] Cons.prems by simp
  from Cons.IH [OF this, of ms1] show ?case
    using consume_append [of d x "concat chunks" api ms] Cons.prems d1 by simp
qed

section \<open>Length-prefixed messages\<close>

definition frame :: "byte list \<Rightarrow> byte list" where
  "frame body = enc_be32 (word_of_nat (length body)) @ body"

text \<open>
  What a service sends: every body between one byte and 64 MiB, the first one a property list of at
  least eight bytes.
\<close>

definition plausible :: "byte list \<Rightarrow> bool" where
  "plausible body \<longleftrightarrow> 0 < length body \<and> length body \<le> 64 * 1024 * 1024"

definition well_framed :: "byte list list \<Rightarrow> bool" where
  "well_framed bodies \<longleftrightarrow> list_all plausible bodies \<and>
     (bodies \<noteq> [] \<longrightarrow> 8 \<le> length (hd bodies) \<and> signature (hd bodies))"

text \<open>A TLS record is never a plausible length field, so the two tests cannot both succeed.\<close>

lemma unat_be32: "unat (be32 (a # b # c # e # rest)) = unat e + 256 * (unat c + 256 * (unat b + 256 * unat a))"
proof -
  have "le_bytes 4 (unat (field32 0 [a, b, c, e])) = [a, b, c, e]"
    using enc_field [of 0 4 "[a, b, c, e]", where 'a = 32] by simp
  then have "be32 (a # b # c # e # rest) = word_of_nat (le_nat [e, c, b, a])"
    by (simp add: be32_def endian_reverse32_def)
  then show ?thesis using unat_le_nat4 [of "[e, c, b, a]"] by simp
qed

lemma looksLikeTLS_large:
  assumes "looksLikeTLS buf" and "4 \<le> length buf"
  shows "MAX_PLIST_MESSAGE < be32 buf"
proof -
  obtain a b c e rest where buf: "buf = a # b # c # e # rest"
    using assms(2) by (auto simp: numeral_eq_Suc Suc_le_length_iff)
  have "unat a = 0x16 \<or> unat a = 0x17" using assms(1) by (auto simp: buf looksLikeTLS_def)
  then show ?thesis by (auto simp: buf word_less_nat_alt unat_be32 MAX_PLIST_MESSAGE_def)
qed

lemma unat_length_frame: "plausible body \<Longrightarrow> unat (word_of_nat (length body) :: u32) = length body"
  by (simp add: plausible_def unat_of_nat take_bit_eq_mod)

lemma length_frame: "length (frame body) = 4 + length body"
  by (simp add: frame_def)

lemma be32_frame: "be32 (frame body @ rest) = word_of_nat (length body)"
  by (simp add: frame_def)

lemma plausible_size:
  "plausible body \<Longrightarrow> (word_of_nat (length body) :: u32) \<noteq> 0 \<and> \<not> MAX_PLIST_MESSAGE < word_of_nat (length body)"
  using unat_length_frame [of body]
  by (auto simp: plausible_def word_less_nat_alt MAX_PLIST_MESSAGE_def simp flip: unat_gt_0)

lemma complete_frame:
  assumes "plausible body" and "collecting d" and "encoding d = Unknown \<longrightarrow> 8 \<le> length body \<and> signature body"
    and "buffer d = frame body @ rest"
  shows "complete_message d"
proof -
  have len: "4 \<le> length (buffer d)" by (simp add: assms(4) frame_def)
  have "be32 (buffer d) = word_of_nat (length body)" by (simp only: assms(4) be32_frame)
  moreover have "drop 4 (buffer d) = body @ rest" by (simp add: assms(4) frame_def)
  ultimately show ?thesis
    using assms plausible_size [OF assms(1)] looksLikeTLS_large [OF _ len] unat_length_frame [OF assms(1)]
    by (auto simp: complete_message_def signature_long length_frame)
qed

lemma drain_frames:
  "list_all plausible bodies \<Longrightarrow> collecting d \<Longrightarrow>
   encoding d = Unknown \<and> bodies \<noteq> [] \<longrightarrow> 8 \<le> length (hd bodies) \<and> signature (hd bodies) \<Longrightarrow>
   buffer d = concat (map frame bodies) \<Longrightarrow>
   drain api d ms = Some (d\<lparr>encoding := if bodies = [] then encoding d else Plist, buffer := []\<rparr>,
     ms @ map (message_of api (dir_outbound d)) bodies)"
proof (induction bodies arbitrary: d ms)
  case Nil
  then show ?case by (cases d) (simp add: drain_stop)
next
  case (Cons body bodies)
  have p: "plausible body" using Cons.prems(1) by simp
  let ?rest = "concat (map frame bodies)"
  have buf: "buffer d = frame body @ ?rest" using Cons.prems(4) by simp
  then have len: "4 \<le> length (buffer d)" by (simp add: frame_def)
  have sz: "be32 (buffer d) = word_of_nat (length body)" by (simp only: buf be32_frame)
  have c: "complete_message d" using complete_frame [OF p Cons.prems(2) _ buf] Cons.prems(3) by simp
  have "drop (4 + length body) (buffer d) = ?rest" "take (length body) (drop 4 (buffer d)) = body"
    by (simp_all add: buf frame_def)
  with drain_body_complete [OF c, of api] sz unat_length_frame [OF p]
  have "drain_body api d = Some (Next (d\<lparr>encoding := Plist, buffer := ?rest\<rparr>) (message_of api (dir_outbound d) body))"
    by simp
  then have "drain api d ms =
      drain api (d\<lparr>encoding := Plist, buffer := ?rest\<rparr>) (ms @ [message_of api (dir_outbound d) body])"
    using len by (simp add: drain_step)
  also have "\<dots> = Some (d\<lparr>encoding := Plist, buffer := []\<rparr>,
      (ms @ [message_of api (dir_outbound d) body]) @ map (message_of api (dir_outbound d)) bodies)"
    using Cons.IH [of "d\<lparr>encoding := Plist, buffer := ?rest\<rparr>"] Cons.prems(1) by (simp add: collecting_def)
  finally show ?case by simp
qed

lemma well_framed_unambiguous:
  assumes "well_framed bodies"
  shows "unambiguous d (concat (map frame bodies))"
proof (cases bodies)
  case Nil
  then show ?thesis by (simp add: unambiguous_def)
next
  case (Cons body rest)
  then have "plausible body" "8 \<le> length body" using assms by (simp_all add: well_framed_def)
  with Cons show ?thesis by (simp add: unambiguous_def be32_frame unat_length_frame)
qed

section \<open>The two directions of a stream\<close>

text \<open>A segment of a stream: its direction, \<open>True\<close> for host to device, and its payload.\<close>

definition stream_step :: "'p plist_api \<Rightarrow> bool \<times> byte list \<Rightarrow> 'p mux_stream \<Rightarrow> 'p mux_stream option" where
  "stream_step api seg s = (if fst seg then sendBytes api (snd seg) s else receiveBytes api (snd seg) s)"

definition sent :: "(bool \<times> byte list) list \<Rightarrow> byte list list" where
  "sent segs = map snd (filter fst segs)"

definition received :: "(bool \<times> byte list) list \<Rightarrow> byte list list" where
  "received segs = map snd (filter (\<lambda>seg. \<not> fst seg) segs)"

definition messages_out :: "'p mux_stream \<Rightarrow> 'p mux_message list" where
  "messages_out s = filter outbound (m_messages s)"

definition messages_in :: "'p mux_stream \<Rightarrow> 'p mux_message list" where
  "messages_in s = filter (\<lambda>m. \<not> outbound m) (m_messages s)"

lemma consume_messages:
  "consume api data (d, ms @ ms') = map_option (\<lambda>(d', new). (d', ms @ new)) (consume api data (d, ms'))"
  by (simp add: consume_def Let_def drain_messages)

lemma drain_body_outbound:
  assumes "drain_body api d = Some r" and "4 \<le> length (buffer d)"
  shows "(case r of Stop d' \<Rightarrow> dir_outbound d' = dir_outbound d
     | Next d' m \<Rightarrow> dir_outbound d' = dir_outbound d \<and> outbound m = dir_outbound d)"
  using assms
  by (auto simp: drain_body_eq take_message_eq take_message_as_plist message_of_def split: if_splits)

lemma drain_outbound:
  "drain api d ms = Some (d', ms') \<Longrightarrow>
   dir_outbound d' = dir_outbound d \<and> (\<exists>new. ms' = ms @ new \<and> (\<forall>m \<in> set new. outbound m = dir_outbound d))"
proof (induction api d ms rule: drain.induct)
  case (1 api d ms)
  show ?case
  proof (cases "length (buffer d) < 4")
    case True
    with "1.prems" show ?thesis by (simp add: drain_stop)
  next
    case False
    then have len: "4 \<le> length (buffer d)" by simp
    obtain r where r: "drain_body api d = Some r" using drain_body_safe [OF len] by blast
    note ob = drain_body_outbound [OF r len]
    show ?thesis
    proof (cases r)
      case (Stop d1)
      with "1.prems" r len ob show ?thesis by (simp add: drain_step)
    next
      case (Next d1 m)
      have "drain api d1 (ms @ [m]) = Some (d', ms')" using "1.prems"(1) r Next len by (simp add: drain_step)
      from "1.IH" [OF False r Next this] ob Next show ?thesis by fastforce
    qed
  qed
qed

lemma consume_outbound:
  assumes "consume api data (d, []) = Some (d', new)"
  shows "dir_outbound d' = dir_outbound d \<and> (\<forall>m \<in> set new. outbound m = dir_outbound d)"
proof (cases "collecting d \<and> data \<noteq> []")
  case True
  then obtain d1 where "drain api (extend data d) [] = Some (d1, new)" "dir_outbound d' = dir_outbound d1"
    using assms by (auto simp: consume_collecting)
  with drain_outbound show ?thesis by fastforce
next
  case False
  with assms show ?thesis by (cases "data = []") (auto simp: consume_Nil consume_ignored)
qed

lemma filter_outbound_new:
  assumes "\<forall>m \<in> set new. outbound m = b"
  shows "filter outbound new = (if b then new else [])" "filter (\<lambda>m. \<not> outbound m) new = (if b then [] else new)"
  using assms by (auto simp: filter_id_conv filter_empty_conv)

text \<open>
  A run of segments, seen from one direction, is the run of that direction's segments alone.
\<close>

lemma stream_run_directions:
  assumes "run_opt (stream_step api) segs s = Some s'" and "dir_outbound (m_out s)" and "\<not> dir_outbound (m_in s)"
  shows "run_opt (consume api) (sent segs) (m_out s, messages_out s) = Some (m_out s', messages_out s') \<and>
    run_opt (consume api) (received segs) (m_in s, messages_in s) = Some (m_in s', messages_in s')"
  using assms
proof (induction segs arbitrary: s)
  case Nil
  then show ?case by (simp add: sent_def received_def)
next
  case (Cons seg segs)
  obtain s1 where s1: "stream_step api seg s = Some s1" "run_opt (stream_step api) segs s1 = Some s'"
    using Cons.prems(1) by (auto elim: bind_Some_elim)
  show ?case
  proof (cases "fst seg")
    case True
    obtain d new where dn: "consume api (snd seg) (m_out s, []) = Some (d, new)" using consume_safe by blast
    note ob = consume_outbound [OF dn]
    have "s1 = s\<lparr>m_out := d, m_messages := m_messages s @ new\<rparr>"
      using s1(1) True consume_messages [of api "snd seg" "m_out s" "m_messages s" "[]"]
      by (simp add: stream_step_def sendBytes_def dn)
    moreover have "consume api (snd seg) (m_out s, messages_out s) = Some (d, messages_out s @ new)"
      using consume_messages [of api "snd seg" "m_out s" "messages_out s" "[]"] by (simp add: dn)
    ultimately show ?thesis
      using Cons.IH [OF s1(2)] Cons.prems(2,3) ob True filter_outbound_new [of new True]
      by (simp add: sent_def received_def messages_out_def messages_in_def)
  next
    case False
    obtain d new where dn: "consume api (snd seg) (m_in s, []) = Some (d, new)" using consume_safe by blast
    note ob = consume_outbound [OF dn]
    have "s1 = s\<lparr>m_in := d, m_messages := m_messages s @ new\<rparr>"
      using s1(1) False consume_messages [of api "snd seg" "m_in s" "m_messages s" "[]"]
      by (simp add: stream_step_def receiveBytes_def dn)
    moreover have "consume api (snd seg) (m_in s, messages_in s) = Some (d, messages_in s @ new)"
      using consume_messages [of api "snd seg" "m_in s" "messages_in s" "[]"] by (simp add: dn)
    ultimately show ?thesis
      using Cons.IH [OF s1(2)] Cons.prems(2,3) ob False filter_outbound_new [of new False]
      by (simp add: sent_def received_def messages_out_def messages_in_def)
  qed
qed

interpretation stream: safe_machine "\<lambda>_. True" "stream_step api" for api
  by unfold_locales (simp add: stream_step_def sendBytes_safe receiveBytes_safe)

lemma stream_run_safe: "\<exists>s'. run_opt (stream_step api) segs s = Some s'"
  using stream.safe_run by blast

lemma length_enc_ne [simp]: "enc_be32 w \<noteq> []"
  using length_enc_be(1) [of w] by (metis list.size(3) zero_neq_numeral)

lemma new_mux_stream_simps [simp]:
  "m_out (new_mux_stream h d) = new_direction True" "m_in (new_mux_stream h d) = new_direction False"
  "m_messages (new_mux_stream h d) = []" "dir_outbound (new_direction b) = b" "buffer (new_direction b) = []"
  "encoding (new_direction b) = Unknown" "dir_bytes (new_direction b) = 0"
  by (simp_all add: new_mux_stream_def new_direction_def)

lemma stream_run_new:
  assumes "unambiguous (new_direction True) (concat (sent segs))"
    and "unambiguous (new_direction False) (concat (received segs))"
  shows "\<exists>s'. run_opt (stream_step api) segs (new_mux_stream h d) = Some s' \<and>
     consume api (concat (sent segs)) (new_direction True, []) = Some (m_out s', messages_out s') \<and>
     consume api (concat (received segs)) (new_direction False, []) = Some (m_in s', messages_in s')"
proof -
  obtain s' where s': "run_opt (stream_step api) segs (new_mux_stream h d) = Some s'"
    using stream_run_safe by blast
  with stream_run_directions [OF s'] assms show ?thesis
    by (simp add: consume_segments messages_out_def messages_in_def)
qed

lemma consume_frames:
  assumes "well_framed bodies"
  shows "\<exists>d'. consume api (concat (map frame bodies)) (new_direction out, []) =
     Some (d', map (message_of api out) bodies) \<and> buffer d' = []"
proof (cases "bodies = []")
  case True
  then show ?thesis by (simp add: consume_Nil)
next
  case False
  then obtain body rest where bodies: "bodies = body # rest" by (cases bodies) auto
  let ?data = "concat (map frame bodies)" and ?d = "new_direction out"
  have ne: "?data \<noteq> []" by (simp add: bodies frame_def)
  have pd: "collecting ?d" "collecting (extend ?data ?d)" by (simp_all add: collecting_def)
  have "drain api (extend ?data ?d) [] = Some ((extend ?data ?d)\<lparr>encoding := if bodies = [] then Unknown else Plist, buffer := []\<rparr>,
      [] @ map (message_of api out) bodies)"
    using drain_frames [of bodies "extend ?data ?d" api "[]"] assms pd(2) by (simp add: well_framed_def)
  then show ?thesis by (simp add: consume_collecting [OF pd(1) ne])
qed

lemma drained_buffer_bound:
  assumes "drained d"
  shows "length (buffer d) < 4 + 64 * 1024 * 1024"
proof -
  have "be32 (buffer d) \<le> MAX_PLIST_MESSAGE \<Longrightarrow> unat (be32 (buffer d)) \<le> 64 * 1024 * 1024"
    by (simp add: word_le_nat_alt MAX_PLIST_MESSAGE_def)
  with assms show ?thesis by (auto simp: drained_def)
qed

lemma consume_bytes:
  assumes "consume api data (d, ms) = Some (d', ms')"
  shows "dir_bytes d' = dir_bytes d + word_of_nat (length data)"
proof (cases "collecting d \<and> data \<noteq> []")
  case True
  then show ?thesis using assms by (auto simp: consume_collecting)
next
  case False
  with assms show ?thesis by (cases "data = []") (auto simp: consume_Nil consume_ignored)
qed

lemma consume_run:
  "drained d \<Longrightarrow> run_opt (consume api) chunks (d, ms) = Some (d', ms') \<Longrightarrow>
   drained d' \<and> dir_bytes d' = dir_bytes d + word_of_nat (length (concat chunks))"
proof (induction chunks arbitrary: d ms)
  case (Cons x chunks)
  obtain d1 ms1 where d1: "consume api x (d, ms) = Some (d1, ms1)" using consume_safe by blast
  with Cons.prems have "run_opt (consume api) chunks (d1, ms1) = Some (d', ms')" by simp
  with Cons.IH consume_drained [OF Cons.prems(1) d1] consume_bytes [OF d1] show ?case by simp
qed simp

section \<open>Properties\<close>

text \<open>
  The property list messages of a connection are recovered exactly, whatever the segmentation and the
  interleaving of its two directions: if the bytes the host sent are the frames of \<open>outs\<close> and the bytes
  the device sent the frames of \<open>ins\<close>, then after the last segment the stream holds one message per
  body, in order, with its direction, size and decoded content, and nothing is left in a buffer.
\<close>

theorem mux_stream_messages_recovered:
  assumes "well_framed outs" and "concat (sent segs) = concat (map frame outs)"
    and "well_framed ins" and "concat (received segs) = concat (map frame ins)"
  shows "\<exists>s. run_opt (stream_step api) segs (new_mux_stream host device) = Some s \<and>
     messages_out s = map (message_of api True) outs \<and> messages_in s = map (message_of api False) ins \<and>
     buffer (m_out s) = [] \<and> buffer (m_in s) = []"
proof -
  have "unambiguous (new_direction True) (concat (sent segs))"
    "unambiguous (new_direction False) (concat (received segs))"
    using assms by (simp_all only: well_framed_unambiguous)
  from stream_run_new [OF this, of api host device] show ?thesis
    using consume_frames [OF assms(1), of api True] consume_frames [OF assms(3), of api False]
    by (auto simp: assms(2,4))
qed

text \<open>
  For concrete runs, one function in the place of \<open>libplist\<close>: it reads any binary property list as the
  answer to a service request, with the service's port in the two bytes after the signature.
\<close>

datatype sample_node = Node_Dict "(string \<times> sample_node) list" | Node_String string | Node_UInt u64

definition sample_api :: "sample_node plist_api" where
  "sample_api = \<lparr>
     plist_from_bin = (\<lambda>bs. Some (Node_Dict [(''Service'', Node_String ''com.apple.afc''),
        (''Port'', Node_UInt (word_of_nat (le_nat (drop 8 bs))))])),
     plist_from_xml = (\<lambda>bs. None),
     plist_to_xml = (\<lambda>n. Some ''<plist/>''),
     plist_get_node_type = (\<lambda>n. case n of Node_Dict _ \<Rightarrow> PLIST_DICT | Node_String _ \<Rightarrow> PLIST_STRING | Node_UInt _ \<Rightarrow> PLIST_UINT),
     plist_dict_get_item = (\<lambda>n key. case n of Node_Dict kvs \<Rightarrow> map_of kvs key | _ \<Rightarrow> None),
     plist_get_string_ptr = (\<lambda>n. case n of Node_String s \<Rightarrow> Some s | _ \<Rightarrow> None),
     plist_get_uint_val = (\<lambda>n. case n of Node_UInt v \<Rightarrow> v | _ \<Rightarrow> 0)\<rparr>"

definition small_plist :: "byte list" where
  "small_plist = [0x62, 0x70, 0x6C, 0x69, 0x73, 0x74, 0x30, 0x30, 0x09]"

lemma frame_small:
  assumes "length body < 256"
  shows "frame body = [0, 0, 0, word_of_nat (length body)] @ body"
proof -
  have four: "(4::nat) = Suc (Suc (Suc (Suc 0)))" by simp
  have "le_bytes 4 n = [word_of_nat n, 0, 0, 0]" if "n < 256" for n
    unfolding four le_bytes.simps using that by simp
  with assms show ?thesis by (simp add: frame_def enc_be32_def unat_of_nat take_bit_eq_mod)
qed

lemma mux_stream_messages_recovered_witness:
  "\<exists>s. run_opt (stream_step sample_api)
         [(True, [0, 0, 0, 9, 0x62, 0x70]), (False, [0, 0]), (True, [0x6C, 0x69, 0x73, 0x74, 0x30, 0x30, 0x09, 0]),
          (False, [0, 9, 0x62, 0x70, 0x6C, 0x69, 0x73, 0x74, 0x30, 0x30, 0x09]), (True, [0, 0, 1, 7])]
         (new_mux_stream 49152 62078) = Some s \<and>
       messages_out s = map (message_of sample_api True) [small_plist, [7]] \<and>
       messages_in s = map (message_of sample_api False) [small_plist] \<and> buffer (m_out s) = [] \<and> buffer (m_in s) = []"
  by (rule mux_stream_messages_recovered)
     (simp_all add: sent_def received_def small_plist_def well_framed_def plausible_def signature_def
       frame_small BINARY_PLIST_PREFIX_def)

text \<open>
  How the bytes of a connection are cut into segments, and how its two directions are interleaved,
  makes no difference to what is reconstructed: two runs that carry the same bytes in each direction end
  in the same two directions and the same messages in each, provided that the first length field of
  neither direction announces fewer than eight bytes.
\<close>

theorem mux_stream_segmentation:
  assumes "concat (sent segs) = concat (sent segs')" and "concat (received segs) = concat (received segs')"
    and "unambiguous (new_direction True) (concat (sent segs))"
    and "unambiguous (new_direction False) (concat (received segs))"
  shows "\<exists>s s'. run_opt (stream_step api) segs (new_mux_stream host device) = Some s \<and>
     run_opt (stream_step api) segs' (new_mux_stream host device) = Some s' \<and>
     m_out s = m_out s' \<and> m_in s = m_in s' \<and> messages_out s = messages_out s' \<and> messages_in s = messages_in s'"
proof -
  have "unambiguous (new_direction True) (concat (sent segs'))" "unambiguous (new_direction False) (concat (received segs'))"
    using assms by simp_all
  from stream_run_new [OF this, of api host device] obtain s' where
    s': "run_opt (stream_step api) segs' (new_mux_stream host device) = Some s'"
      "consume api (concat (sent segs')) (new_direction True, []) = Some (m_out s', messages_out s')"
      "consume api (concat (received segs')) (new_direction False, []) = Some (m_in s', messages_in s')" by blast
  from stream_run_new [OF assms(3,4), of api host device] obtain s where
    s: "run_opt (stream_step api) segs (new_mux_stream host device) = Some s"
      "consume api (concat (sent segs)) (new_direction True, []) = Some (m_out s, messages_out s)"
      "consume api (concat (received segs)) (new_direction False, []) = Some (m_in s, messages_in s)" by blast
  show ?thesis using s s' assms(1,2) by simp
qed

lemma mux_stream_segmentation_witness:
  "\<exists>s s'. run_opt (stream_step sample_api) [(True, [0x16]), (False, [1]), (True, [3, 1]), (True, [0, 2])] (new_mux_stream 1 2) = Some s \<and>
     run_opt (stream_step sample_api) [(True, [0x16, 3, 1, 0, 2]), (False, [1])] (new_mux_stream 1 2) = Some s' \<and>
     m_out s = m_out s' \<and> m_in s = m_in s' \<and> messages_out s = messages_out s' \<and> messages_in s = messages_in s'"
  by (rule mux_stream_segmentation) (simp_all add: sent_def received_def unambiguous_def looksLikeTLS_def)

lemma first_frame:
  assumes "plausible body"
  shows "\<exists>d ms. consume api (frame body @ rest) (new_direction out, []) = Some (d, ms) \<and>
    (if signature (body @ rest) then \<exists>ms'. ms = message_of api out body # ms' else ms = [] \<and> encoding d = Raw)"
proof -
  let ?d = "(new_direction out)\<lparr>buffer := frame body @ rest\<rparr>"
  have d: "collecting (new_direction out)" "frame body @ rest \<noteq> []" "buffer (new_direction out) = []" "encoding ?d = Unknown"
      "dir_outbound ?d = out"
    by (simp_all add: collecting_def new_direction_def frame_def)
  have len: "4 \<le> length (buffer ?d)" by (simp add: frame_def)
  have sz: "be32 (buffer ?d) = word_of_nat (length body)" by (simp add: be32_frame)
  have body: "drop 4 (buffer ?d) = body @ rest" by (simp add: frame_def)
  note size = plausible_size [OF assms] unat_length_frame [OF assms]
  have "\<not> MAX_PLIST_MESSAGE < be32 (buffer ?d)" using size sz by simp
  then have tls: "\<not> looksLikeTLS (buffer ?d)" using looksLikeTLS_large [OF _ len] by blast
  have "unat (be32 (buffer ?d)) = length body" unfolding sz by (rule size(2))
  moreover have "4 + length body \<le> length (buffer ?d)" by (simp add: length_frame)
  ultimately have enough: "\<not> length (buffer ?d) < 4 + min (unat (be32 (buffer ?d))) 8" by linarith
  note consume_collecting [OF d(1,2), of api "[]"]
  then have run: "consume api (frame body @ rest) (new_direction out, []) = map_option
      (\<lambda>(d', ms'). (d'\<lparr>dir_bytes := dir_bytes (new_direction out) + word_of_nat (length (frame body @ rest))\<rparr>, ms')) (drain api ?d [])"
    by (simp add: d(3))
  show ?thesis
  proof (cases "signature (body @ rest)")
    case True
    then have "complete_message ?d"
      using size tls d(4) body by (simp add: complete_message_def be32_frame length_frame collecting_def del: be32_append drop_append)
    from drain_body_complete [OF this, of api] obtain d' where "drain_body api ?d = Some (Next d' (message_of api out body))"
      using size(2) d(5) body by (auto simp: be32_frame simp del: be32_append drop_append)
    then have "drain api ?d [] = drain api d' [message_of api out body]" using len by (simp add: drain_step)
    also have "\<dots> = map_option (\<lambda>(d'', new). (d'', message_of api out body # new)) (drain api d' [])"
      using drain_messages [of api d' "[message_of api out body]" "[]"] by simp
    finally show ?thesis using True drain_safe [of api d' "[]"] by (auto simp: run)
  next
    case False
    then have "drain_body api ?d = Some (Stop (?d\<lparr>encoding := Raw, buffer := []\<rparr>))"
      using size(1) tls d(4) enough by (simp only: drain_body_eq [OF len] sz body) simp
    then have "drain api ?d [] = Some (?d\<lparr>encoding := Raw, buffer := []\<rparr>, [])" using len by (simp add: drain_step)
    with False show ?thesis by (simp add: run)
  qed
qed

text \<open>
  C38: That proviso is needed: the framing decision looks at all the bytes available, not only at those of the first
  message.  For any first message \<open>body\<close> and any bytes \<open>rest\<close> behind it: when both arrive in one segment, the bytes
  \<open>body @ rest\<close> decide whether \<open>body\<close> is a message or the direction is raw for good; when the segment ends with the
  message, \<open>body\<close> alone decides.  The two answers can differ for a message of fewer than eight bytes only, and there they
  do, as for the first three bytes of a property list (the witness).
\<close>

theorem mux_framing_depends_on_segmentation:
  assumes "plausible body"
  shows "(\<exists>d ms. run_opt (consume api) [frame body @ rest] (new_direction out, []) = Some (d, ms) \<and>
      (if signature (body @ rest) then \<exists>ms'. ms = message_of api out body # ms' else ms = [] \<and> encoding d = Raw)) \<and>
    (\<exists>d ms. run_opt (consume api) [frame body, rest] (new_direction out, []) = Some (d, ms) \<and>
      (if signature body then \<exists>ms'. ms = message_of api out body # ms' else ms = [] \<and> encoding d = Raw)) \<and>
    (signature (body @ rest) = signature body \<or> length body < 8)"
proof (intro conjI)
  have single: "run_opt f [x] a = f x a" for f :: "byte list \<Rightarrow> direction \<times> 'a mux_message list \<Rightarrow> _" and x a
    by (cases "f x a") simp_all
  show "\<exists>d ms. run_opt (consume api) [frame body @ rest] (new_direction out, []) = Some (d, ms) \<and>
      (if signature (body @ rest) then \<exists>ms'. ms = message_of api out body # ms' else ms = [] \<and> encoding d = Raw)"
    using first_frame [OF assms, of api rest out] by (simp only: single)
  obtain d ms where one: "consume api (frame body) (new_direction out, []) = Some (d, ms)"
      "if signature body then \<exists>ms'. ms = message_of api out body # ms' else ms = [] \<and> encoding d = Raw"
    using first_frame [OF assms, of api "[]" out] by auto
  obtain d' new where two: "consume api rest (d, ms) = Some (d', ms @ new)"
    using consume_messages [of api rest d ms "[]"] consume_safe [of api rest "(d, [])"] by auto
  have "encoding d = Raw \<Longrightarrow> encoding d' = Raw \<and> new = []"
    using two consume_ignored [of d api rest ms] by (auto simp: collecting_def)
  with one two show "\<exists>d ms. run_opt (consume api) [frame body, rest] (new_direction out, []) = Some (d, ms) \<and>
      (if signature body then \<exists>ms'. ms = message_of api out body # ms' else ms = [] \<and> encoding d = Raw)"
    by (auto split: if_splits)
  show "signature (body @ rest) = signature body \<or> length body < 8"
    using signature_long [of body rest] by linarith
qed

theorem mux_framing_depends_on_segmentation_witness:
  "(\<exists>d ms. run_opt (consume sample_api) [frame [0x3C, 0x3F, 0x78] @ [0x6D, 0x6C]] (new_direction True, []) = Some (d, message_of sample_api True [0x3C, 0x3F, 0x78] # ms)) \<and>
   (\<exists>d. run_opt (consume sample_api) [frame [0x3C, 0x3F, 0x78], [0x6D, 0x6C]] (new_direction True, []) = Some (d, []) \<and> encoding d = Raw)"
proof -
  have "plausible [0x3C, 0x3F, 0x78]" by (simp add: plausible_def)
  from mux_framing_depends_on_segmentation [OF this, of sample_api "[0x6D, 0x6C]" True] show ?thesis
    by (simp add: signature_def XML_PLIST_PREFIX_def BINARY_PLIST_PREFIX_def) blast
qed

text \<open>
  No capture makes a stream misbehave: whatever segments arrive, every one is processed without an
  access outside a buffer, the loop ends, each direction then buffers less than one length field and
  64 MiB, and its byte counter is the number of bytes that arrived, modulo two to the 64.
\<close>

theorem mux_stream_safe_bounded:
  "\<exists>s. run_opt (stream_step api) segs (new_mux_stream host device) = Some s \<and>
     drained (m_out s) \<and> drained (m_in s) \<and>
     length (buffer (m_out s)) < 4 + 64 * 1024 * 1024 \<and> length (buffer (m_in s)) < 4 + 64 * 1024 * 1024 \<and>
     dir_bytes (m_out s) = word_of_nat (length (concat (sent segs))) \<and>
     dir_bytes (m_in s) = word_of_nat (length (concat (received segs)))"
proof -
  obtain s where s: "run_opt (stream_step api) segs (new_mux_stream host device) = Some s"
    using stream_run_safe by blast
  have d: "drained (new_direction b)" for b by (simp add: drained_def)
  show ?thesis
    using stream_run_directions [OF s] consume_run [OF d, of api "sent segs"] consume_run [OF d, of api "received segs"] s
      drained_buffer_bound [of "m_out s"] drained_buffer_bound [of "m_in s"]
    by (auto simp: messages_out_def messages_in_def)
qed

end
