(* ===== verification/USBMUX_Expert.thy ===== *)
theory USBMUX_Expert
  imports Mux_Framing Interface_Expert
begin

text \<open>
  \<open>USBMUXInterfaceExpert\<close> (\<open>src/protocol/USBMUXInterfaceExpert.h\<close>, \<open>.cpp\<close>): reassembly of usbmux packets
  from bulk transfers, and their demultiplexing into the TCP streams they tunnel.

  A result \<open>None\<close> is a fault: an access outside a buffer, or the use of the null stream that
  \<open>operator[]\<close> would create for a stream id that is not in the map.
\<close>

section \<open>State\<close>

record mux_direction =
  mux_outbound :: bool
  mux_buffer :: "byte list"

record 'p usbmux_expert = interface_expert +
  usb_in :: mux_direction
  usb_out :: mux_direction
  m_version :: u32
  m_resyncs :: u64
  m_streamIndex :: "(u32, u32) omap"
  m_streams :: "(u64, 'p mux_stream) omap"
  m_serviceNames :: "(u16, string) omap"

definition new_usbmux_expert :: "u8 \<Rightarrow> u8 \<Rightarrow> 'p usbmux_expert" where
  "new_usbmux_expert configuration interface =
     interface_expert.extend (new_interface_expert configuration interface)
       (usbmux_expert.fields \<lparr>mux_outbound = False, mux_buffer = []\<rparr> \<lparr>mux_outbound = True, mux_buffer = []\<rparr>
          0 0 om_empty om_empty om_empty)"

definition MUX_HEADER_V1_SIZE :: nat where "MUX_HEADER_V1_SIZE = 8"
definition mux_header_size :: nat where "mux_header_size = 16"
definition MAX_MUX_PACKET :: u32 where "MAX_MUX_PACKET = 1024 * 1024"

abbreviation (input) USBMUX_MAGIC_IN :: u32 where "USBMUX_MAGIC_IN \<equiv> 0xFACEFACE"
abbreviation (input) USBMUX_MAGIC_OUT :: u32 where "USBMUX_MAGIC_OUT \<equiv> 0xFEEDFACE"
abbreviation (input) MUX_PROTO_VERSION :: u32 where "MUX_PROTO_VERSION \<equiv> 0"
abbreviation (input) MUX_PROTO_TCP :: u32 where "MUX_PROTO_TCP \<equiv> 6"
abbreviation (input) USB_TCP_FLAG_FIN :: u16 where "USB_TCP_FLAG_FIN \<equiv> 0x01"
abbreviation (input) USB_TCP_FLAG_SYN :: u16 where "USB_TCP_FLAG_SYN \<equiv> 0x02"
abbreviation (input) USB_TCP_FLAG_RST :: u16 where "USB_TCP_FLAG_RST \<equiv> 0x04"
abbreviation (input) USB_TCP_FLAG_ACK :: u16 where "USB_TCP_FLAG_ACK \<equiv> 0x10"

record tcphdr =
  tcp_source :: u16
  tcp_dest :: u16
  tcp_seq :: u32
  tcp_ack_seq :: u32
  tcp_flags :: u16
  tcp_window :: u16
  tcp_check :: u16
  tcp_urg_ptr :: u16

definition tcphdr_size :: nat where "tcphdr_size = 20"

definition decode_tcphdr :: "byte list \<Rightarrow> tcphdr" where
  "decode_tcphdr bs = \<lparr>tcp_source = field16 0 bs, tcp_dest = field16 2 bs, tcp_seq = field32 4 bs,
     tcp_ack_seq = field32 8 bs, tcp_flags = field16 12 bs, tcp_window = field16 14 bs,
     tcp_check = field16 16 bs, tcp_urg_ptr = field16 18 bs\<rparr>"

section \<open>Streams by port pair\<close>

definition STREAM_PORT :: "u16 \<Rightarrow> u16 \<Rightarrow> u32" where
  "STREAM_PORT host device = push_bit 16 (ucast host) OR ucast device"

definition STREAM_ID :: "u16 \<Rightarrow> u16 \<Rightarrow> u32 \<Rightarrow> u64" where
  "STREAM_ID host device index = push_bit 32 (ucast (STREAM_PORT host device)) OR ucast index"

definition initial_service :: "u16 \<Rightarrow> 'p usbmux_expert \<Rightarrow> 'p mux_stream \<Rightarrow> 'p mux_stream" where
  "initial_service device e stream =
     (if device = LOCKDOWN_PORT then setServiceName ''lockdownd'' stream
      else case om_find (m_serviceNames e) device of
             Some name \<Rightarrow> setServiceName name stream
           | None \<Rightarrow> stream)"

definition beginStream :: "u16 \<Rightarrow> u16 \<Rightarrow> 'p usbmux_expert \<Rightarrow> u64 \<times> 'p usbmux_expert" where
  "beginStream host device e =
     (let port = STREAM_PORT host device;
          index = om_get 0 (m_streamIndex e) port + 1;
          e = e\<lparr>m_streamIndex := om_put port index (m_streamIndex e)\<rparr>;
          stream_id = STREAM_ID host device index;
          stream = initial_service device e (new_mux_stream host device)
      in (stream_id, e\<lparr>m_streams := om_put stream_id stream (m_streams e)\<rparr>))"

definition getStreamId :: "u16 \<Rightarrow> u16 \<Rightarrow> 'p usbmux_expert \<Rightarrow> u64 \<times> 'p usbmux_expert" where
  "getStreamId host device e =
     (case om_find (m_streamIndex e) (STREAM_PORT host device) of
        None \<Rightarrow> beginStream host device e
      | Some index \<Rightarrow> (STREAM_ID host device index, e))"

text \<open>
  The code holds a shared pointer to a stream that is in the map; the model holds its id, and writes the
  stream back under it.
\<close>

definition update_stream ::
  "u64 \<Rightarrow> ('p mux_stream \<Rightarrow> 'p mux_stream option) \<Rightarrow> 'p usbmux_expert \<Rightarrow> 'p usbmux_expert option" where
  "update_stream stream_id f e = do {
     stream \<leftarrow> om_find (m_streams e) stream_id;
     stream' \<leftarrow> f stream;
     Some (e\<lparr>m_streams := om_put stream_id stream' (m_streams e)\<rparr>)
   }"

section \<open>Services announced by lockdownd\<close>

definition learn_message :: "'p plist_api \<Rightarrow> 'p mux_message \<Rightarrow> (u16, string) omap \<Rightarrow> (u16, string) omap" where
  "learn_message api message names =
     (if outbound message then names
      else
        let service = stringValue api ''Service'' message;
            port = uintValue api ''Port'' message
        in if service \<noteq> [] \<and> 0 < port \<and> port \<le> 65535 then om_put (word_of_int port) service names else names)"

definition learnServices :: "'p plist_api \<Rightarrow> 'p mux_stream \<Rightarrow> nat \<Rightarrow> 'p usbmux_expert \<Rightarrow> 'p usbmux_expert" where
  "learnServices api stream firstNewMessage e =
     (if m_device stream \<noteq> LOCKDOWN_PORT then e
      else e\<lparr>m_serviceNames :=
        fold (learn_message api) (drop firstNewMessage (m_messages stream)) (m_serviceNames e)\<rparr>)"

section \<open>Packets\<close>

definition deliver ::
  "'p plist_api \<Rightarrow> bool \<Rightarrow> u64 \<Rightarrow> byte list \<Rightarrow> 'p usbmux_expert \<Rightarrow> 'p usbmux_expert option" where
  "deliver api out stream_id data e =
     (if 0 < length data then do {
        before \<leftarrow> om_find (m_streams e) stream_id;
        e \<leftarrow> update_stream stream_id (if out then sendBytes api data else receiveBytes api data) e;
        stream \<leftarrow> om_find (m_streams e) stream_id;
        Some (learnServices api stream (length (m_messages before)) e)
      } else Some e)"

definition close_on :: "u16 \<Rightarrow> u64 \<Rightarrow> 'p usbmux_expert \<Rightarrow> 'p usbmux_expert option" where
  "close_on flags stream_id e =
     (if flags AND (USB_TCP_FLAG_RST OR USB_TCP_FLAG_FIN) \<noteq> 0
      then update_stream stream_id (\<lambda>stream. Some (close stream)) e else Some e)"

text \<open>The host is the source of outbound packets; a bare SYN from the host opens a new connection.\<close>

definition select_stream :: "bool \<Rightarrow> u16 \<Rightarrow> u16 \<Rightarrow> u16 \<Rightarrow> 'p usbmux_expert \<Rightarrow> u64 \<times> 'p usbmux_expert" where
  "select_stream out flags source destination e =
     (if out then
        if flags AND USB_TCP_FLAG_SYN \<noteq> 0 \<and> flags AND USB_TCP_FLAG_ACK = 0
        then beginStream source destination e
        else getStreamId source destination e
      else getStreamId destination source e)"

definition processTCP :: "'p plist_api \<Rightarrow> bool \<Rightarrow> byte list \<Rightarrow> 'p usbmux_expert \<Rightarrow> 'p usbmux_expert option" where
  "processTCP api out payload e =
     (case readStruct tcphdr_size decode_tcphdr payload of
        None \<Rightarrow> Some e
      | Some tcp_header \<Rightarrow>
          let source = endian_reverse16 (tcp_source tcp_header);
              destination = endian_reverse16 (tcp_dest tcp_header);
              offset_and_flags = endian_reverse16 (tcp_flags tcp_header);
              flags = offset_and_flags AND 0x3F;
              data_offset = unat (drop_bit 12 offset_and_flags) * 4;
              data_offset = (if data_offset < tcphdr_size \<or> length payload < data_offset
                             then tcphdr_size else data_offset)
          in do {
            data \<leftarrow> advance data_offset payload;
            let (stream_id, e) = select_stream out flags source destination e;
            e \<leftarrow> deliver api out stream_id data e;
            close_on flags stream_id e
          })"

definition processPacket ::
  "'p plist_api \<Rightarrow> bool \<Rightarrow> u32 \<Rightarrow> byte list \<Rightarrow> 'p usbmux_expert \<Rightarrow> 'p usbmux_expert option" where
  "processPacket api out protocol payload e =
     (if protocol = MUX_PROTO_VERSION then
        if 4 \<le> length payload then do { version \<leftarrow> readBigEndian32 payload; Some (e\<lparr>m_version := version\<rparr>) }
        else Some e
      else if protocol = MUX_PROTO_TCP then processTCP api out payload e
      else Some e)"

section \<open>Reassembly\<close>

definition mux_dir :: "bool \<Rightarrow> 'p usbmux_expert \<Rightarrow> mux_direction" where
  "mux_dir out e = (if out then usb_out e else usb_in e)"

definition set_buffer :: "bool \<Rightarrow> byte list \<Rightarrow> 'p usbmux_expert \<Rightarrow> 'p usbmux_expert" where
  "set_buffer out buf e =
     (if out then e\<lparr>usb_out := (usb_out e)\<lparr>mux_buffer := buf\<rparr>\<rparr> else e\<lparr>usb_in := (usb_in e)\<lparr>mux_buffer := buf\<rparr>\<rparr>)"

text \<open>
  One round of the loop of \<open>feed\<close> on the direction \<open>out\<close>: \<open>Return\<close> leaves the function, \<open>Continue\<close> is the
  end of the body, after a packet has been processed and erased.
\<close>

datatype 'p feed_result = Return "'p usbmux_expert" | Continue "'p usbmux_expert"

definition feed_body :: "'p plist_api \<Rightarrow> bool \<Rightarrow> 'p usbmux_expert \<Rightarrow> 'p feed_result option" where
  "feed_body api out e =
     (let buf = mux_buffer (mux_dir out e) in do {
        protocol \<leftarrow> readBigEndian32 buf;
        len_field \<leftarrow> advance 4 buf;
        len \<leftarrow> readBigEndian32 len_field;
        if unat len < MUX_HEADER_V1_SIZE \<or> MAX_MUX_PACKET < len \<or> MUX_PROTO_TCP < protocol then
          Some (Return (set_buffer out [] (e\<lparr>m_resyncs := m_resyncs e + 1\<rparr>)))
        else if length buf < min (unat len) mux_header_size then Some (Return e)
        else do {
          header_length \<leftarrow>
            (if mux_header_size \<le> unat len then do {
               magic_field \<leftarrow> advance 8 buf;
               magic \<leftarrow> readBigEndian32 magic_field;
               Some (if magic = USBMUX_MAGIC_IN \<or> magic = USBMUX_MAGIC_OUT then mux_header_size else MUX_HEADER_V1_SIZE)
             } else Some MUX_HEADER_V1_SIZE);
          if length buf < unat len then Some (Return e)
          else do {
            payload_length \<leftarrow> size_sub (unat len) header_length;
            payload \<leftarrow> subspan header_length payload_length buf;
            e \<leftarrow> processPacket api (mux_outbound (mux_dir out e)) protocol payload e;
            rest \<leftarrow> advance (unat len) (mux_buffer (mux_dir out e));
            Some (Continue (set_buffer out rest e))
          }
        }
      })"

text \<open>Processing a packet leaves the two reassembly buffers and the counters of the base class alone.\<close>

definition base_of :: "'p usbmux_expert \<Rightarrow> interface_expert" where
  "base_of e = interface_expert.truncate e"

lemma base_of_updates [simp]:
  "base_of (e\<lparr>usb_in := a\<rparr>) = base_of e" "base_of (e\<lparr>usb_out := b\<rparr>) = base_of e"
  "base_of (e\<lparr>m_version := c\<rparr>) = base_of e" "base_of (e\<lparr>m_resyncs := n\<rparr>) = base_of e"
  "base_of (e\<lparr>m_streamIndex := f\<rparr>) = base_of e" "base_of (e\<lparr>m_streams := g\<rparr>) = base_of e"
  "base_of (e\<lparr>m_serviceNames := h\<rparr>) = base_of e"
  by (simp_all add: base_of_def interface_expert.defs)

definition directions :: "'p usbmux_expert \<Rightarrow> interface_expert \<times> mux_direction \<times> mux_direction" where
  "directions e = (base_of e, usb_in e, usb_out e)"

lemma beginStream_directions: "directions (snd (beginStream h d e)) = directions e"
  by (simp add: beginStream_def directions_def Let_def)

lemma getStreamId_directions: "directions (snd (getStreamId h d e)) = directions e"
  by (simp add: getStreamId_def beginStream_directions split: option.split)

lemma update_stream_directions: "update_stream i f e = Some e' \<Longrightarrow> directions e' = directions e"
  by (auto simp: update_stream_def directions_def elim!: bind_Some_elim)

lemma deliver_directions: "deliver api out i data e = Some e' \<Longrightarrow> directions e' = directions e"
  by (auto simp: deliver_def learnServices_def directions_def [of "_\<lparr>m_serviceNames := _\<rparr>"]
      directions_def [symmetric] dest!: update_stream_directions split: if_splits elim!: bind_Some_elim)

lemma close_on_directions: "close_on flags i e = Some e' \<Longrightarrow> directions e' = directions e"
  by (auto simp: close_on_def dest: update_stream_directions split: if_splits)

lemma select_stream_directions: "directions (snd (select_stream out flags h d e)) = directions e"
  by (simp add: select_stream_def beginStream_directions getStreamId_directions)

text \<open>The fields of a segment as \<open>processTCP\<close> reads them.\<close>

abbreviation tcp_header_of :: "byte list \<Rightarrow> tcphdr" where
  "tcp_header_of payload \<equiv> decode_tcphdr (take tcphdr_size payload)"

definition segment_source :: "byte list \<Rightarrow> u16" where
  "segment_source payload = endian_reverse16 (tcp_source (tcp_header_of payload))"

definition segment_dest :: "byte list \<Rightarrow> u16" where
  "segment_dest payload = endian_reverse16 (tcp_dest (tcp_header_of payload))"

definition segment_flags :: "byte list \<Rightarrow> u16" where
  "segment_flags payload = endian_reverse16 (tcp_flags (tcp_header_of payload)) AND 0x3F"

definition segment_data :: "byte list \<Rightarrow> byte list" where
  "segment_data payload =
     (let n = unat (drop_bit 12 (endian_reverse16 (tcp_flags (tcp_header_of payload)))) * 4
      in drop (if n < 20 \<or> length payload < n then 20 else n) payload)"

lemma processTCP_short: "length payload < 20 \<Longrightarrow> processTCP api out payload e = Some e"
  by (simp add: processTCP_def tcphdr_size_def readStruct_def)

lemma processTCP_long:
  assumes "20 \<le> length payload"
  shows "processTCP api out payload e =
     (case select_stream out (segment_flags payload) (segment_source payload) (segment_dest payload) e of
        (i, e1) \<Rightarrow> Option.bind (deliver api out i (segment_data payload) e1) (close_on (segment_flags payload) i))"
  using assms
  by (simp add: processTCP_def tcphdr_size_def segment_flags_def segment_source_def segment_dest_def
      segment_data_def Let_def)

lemma processTCP_directions: "processTCP api out payload e = Some e' \<Longrightarrow> directions e' = directions e"
proof (cases "20 \<le> length payload")
  case True
  let ?sel = "select_stream out (segment_flags payload) (segment_source payload) (segment_dest payload) e"
  assume "processTCP api out payload e = Some e'"
  then obtain e2 where "deliver api out (fst ?sel) (segment_data payload) (snd ?sel) = Some e2"
      "close_on (segment_flags payload) (fst ?sel) e2 = Some e'"
    using True by (auto simp: processTCP_long split: prod.splits elim: bind_Some_elim)
  then show ?thesis
    using deliver_directions close_on_directions select_stream_directions by metis
qed (simp add: processTCP_short)

lemma processPacket_directions: "processPacket api out protocol payload e = Some e' \<Longrightarrow> directions e' = directions e"
  by (auto simp: processPacket_def directions_def [of "_\<lparr>m_version := _\<rparr>"] directions_def [symmetric]
      dest: processTCP_directions split: if_splits elim!: bind_Some_elim)

lemma mux_dir_directions: "directions e' = directions e \<Longrightarrow> mux_dir out e' = mux_dir out e"
  by (simp add: directions_def mux_dir_def)

lemma mux_dir_set_buffer [simp]: "mux_dir out (set_buffer out buf e) = (mux_dir out e)\<lparr>mux_buffer := buf\<rparr>"
  by (simp add: mux_dir_def set_buffer_def)

text \<open>The loop body without its memory checks.\<close>

definition mux_length :: "byte list \<Rightarrow> u32" where
  "mux_length buf = be32 (drop 4 buf)"

definition lost_framing :: "byte list \<Rightarrow> bool" where
  "lost_framing buf \<longleftrightarrow> unat (mux_length buf) < 8 \<or> MAX_MUX_PACKET < mux_length buf \<or> MUX_PROTO_TCP < be32 buf"

definition header_length :: "byte list \<Rightarrow> nat" where
  "header_length buf =
     (if 16 \<le> unat (mux_length buf) \<and> (be32 (drop 8 buf) = USBMUX_MAGIC_IN \<or> be32 (drop 8 buf) = USBMUX_MAGIC_OUT)
      then 16 else 8)"

definition mux_payload :: "byte list \<Rightarrow> byte list" where
  "mux_payload buf = take (unat (mux_length buf) - header_length buf) (drop (header_length buf) buf)"

lemma header_length_bounds: "8 \<le> unat (mux_length buf) \<Longrightarrow> header_length buf \<le> unat (mux_length buf)"
  by (simp add: header_length_def)

lemma feed_body_eq:
  assumes "8 \<le> length (mux_buffer (mux_dir out e))"
  shows "feed_body api out e =
     (let buf = mux_buffer (mux_dir out e) in
      if lost_framing buf then Some (Return (set_buffer out [] (e\<lparr>m_resyncs := m_resyncs e + 1\<rparr>)))
      else if length buf < unat (mux_length buf) then Some (Return e)
      else map_option (\<lambda>e1. Continue (set_buffer out (drop (unat (mux_length buf)) buf) e1))
        (processPacket api (mux_outbound (mux_dir out e)) (be32 buf) (mux_payload buf) e))"
proof -
  define buf where "buf = mux_buffer (mux_dir out e)"
  have len: "8 \<le> length buf" using assms by (simp add: buf_def)
  have body: "feed_body api out e =
     (if lost_framing buf then Some (Return (set_buffer out [] (e\<lparr>m_resyncs := m_resyncs e + 1\<rparr>)))
      else if length buf < min (unat (mux_length buf)) 16 then Some (Return e)
      else if length buf < unat (mux_length buf) then Some (Return e)
      else Option.bind (processPacket api (mux_outbound (mux_dir out e)) (be32 buf) (mux_payload buf) e) (\<lambda>e.
        Option.bind (advance (unat (mux_length buf)) (mux_buffer (mux_dir out e))) (\<lambda>rest.
          Some (Continue (set_buffer out rest e)))))"
    using len
    by (auto simp: feed_body_def buf_def [symmetric] Let_def lost_framing_def mux_length_def MUX_HEADER_V1_SIZE_def
        mux_header_size_def header_length_def mux_payload_def not_less)
  show ?thesis
  proof (cases "processPacket api (mux_outbound (mux_dir out e)) (be32 buf) (mux_payload buf) e")
    case None
    then show ?thesis by (simp add: body buf_def [symmetric])
  next
    case (Some e1)
    then have "mux_buffer (mux_dir out e1) = buf"
      using processPacket_directions mux_dir_directions buf_def by metis
    with Some show ?thesis by (simp add: body buf_def [symmetric] not_less)
  qed
qed

lemma feed_body_Continue:
  assumes "feed_body api out e = Some (Continue e')" and "\<not> length (mux_buffer (mux_dir out e)) < MUX_HEADER_V1_SIZE"
  shows "length (mux_buffer (mux_dir out e')) < length (mux_buffer (mux_dir out e))"
  using assms
  by (auto simp: feed_body_eq Let_def MUX_HEADER_V1_SIZE_def lost_framing_def not_less split: if_splits)

function feed_loop :: "'p plist_api \<Rightarrow> bool \<Rightarrow> 'p usbmux_expert \<Rightarrow> 'p usbmux_expert option" where
  "feed_loop api out e =
     (if length (mux_buffer (mux_dir out e)) < MUX_HEADER_V1_SIZE then Some e
      else (case feed_body api out e of
              None \<Rightarrow> None
            | Some (Return e') \<Rightarrow> Some e'
            | Some (Continue e') \<Rightarrow> feed_loop api out e'))"
  by pat_completeness auto
termination
  by (relation "measure (\<lambda>(api, out, e). length (mux_buffer (mux_dir out e)))") (auto dest: feed_body_Continue)

declare feed_loop.simps [simp del]

definition feed :: "'p plist_api \<Rightarrow> bool \<Rightarrow> byte list \<Rightarrow> 'p usbmux_expert \<Rightarrow> 'p usbmux_expert option" where
  "feed api out data e =
     (if length data = 0 then Some e
      else feed_loop api out (set_buffer out (mux_buffer (mux_dir out e) @ data) e))"

definition usbmux_processBulkOut :: "'p plist_api \<Rightarrow> byte list \<Rightarrow> 'p usbmux_expert \<Rightarrow> 'p usbmux_expert option" where
  "usbmux_processBulkOut api data e = feed api True data (base_processBulkOut data e)"

definition usbmux_processBulkIn :: "'p plist_api \<Rightarrow> byte list \<Rightarrow> 'p usbmux_expert \<Rightarrow> 'p usbmux_expert option" where
  "usbmux_processBulkIn api data e = feed api False data (base_processBulkIn data e)"

section \<open>Reports\<close>

definition usbmux_isEmpty :: "'p usbmux_expert \<Rightarrow> bool" where
  "usbmux_isEmpty e \<longleftrightarrow> m_streams e = [] \<and> base_isEmpty e"

definition stream_line :: "u64 \<Rightarrow> 'p mux_stream \<Rightarrow> string" where
  "stream_line stream_id stream =
     (let service = (if m_serviceName stream = [] then [] else '' ['' @ m_serviceName stream @ '']'');
          encoding = (if encoding (m_out stream) = encoding (m_in stream) then encodingName (encoding (m_out stream))
                      else encodingName (encoding (m_out stream)) @ ''/'' @ encodingName (encoding (m_in stream)))
      in [CHR 0x09] @ ''-'' @ [CHR 0x09] @ hex (unat stream_id) @ [CHR 0x09] @ '': '' @ dec (unat (m_host stream)) @
         '' -> '' @ dec (unat (m_device stream)) @ service @ '' ('' @ dec (length (m_messages stream)) @
         '' transactions, in '' @ dec (unat (dir_bytes (m_in stream))) @ '' bytes, out '' @
         dec (unat (dir_bytes (m_out stream))) @ '' bytes, '' @ encoding @ '')'' @ [CHR 0x0A])"

definition usbmux_toString :: "'p usbmux_expert \<Rightarrow> string" where
  "usbmux_toString e =
     ''USBMUXInterfaceExpert (configuration='' @ dec (unat (m_configuration e)) @ '', interface='' @
     dec (unat (m_interface e)) @ '', version='' @ dec (unat (m_version e)) @ ''):'' @ [CHR 0x0A] @
     concat (map (\<lambda>(stream_id, stream). stream_line stream_id stream) (m_streams e))"

definition message_line :: "'p plist_api \<Rightarrow> 'p mux_message \<Rightarrow> string" where
  "message_line api message =
     ''        '' @ (if outbound message then ''> '' else ''< '') @ summary api message @ [CHR 0x0A]"

definition usbmux_details :: "'p plist_api \<Rightarrow> 'p usbmux_expert \<Rightarrow> string" where
  "usbmux_details api e = concat (map (\<lambda>(stream_id, stream).
     if m_messages stream = [] then []
     else ''      stream '' @ hex (unat stream_id) @ '' ('' @ dec (unat (m_host stream)) @ '' -> '' @
          dec (unat (m_device stream)) @ ''):'' @ [CHR 0x0A] @
          concat (map (message_line api) (m_messages stream))) (m_streams e))"

definition transcript :: "'p plist_api \<Rightarrow> 'p mux_stream \<Rightarrow> string" where
  "transcript api stream = concat (map (\<lambda>message.
     (if outbound message then ''<!-- host -> device -->'' @ [CHR 0x0A] else ''<!-- device -> host -->'' @ [CHR 0x0A]) @
     xml api message) (m_messages stream))"

definition stream_artifact :: "'p plist_api \<Rightarrow> u64 \<Rightarrow> 'p mux_stream \<Rightarrow> extracted_artifact" where
  "stream_artifact api stream_id stream =
     \<lparr>artifact_name = ''usbmux-'' @ zero_pad 16 (hex (unat stream_id)) @ ''-'' @ dec (unat (m_host stream)) @ ''-'' @
        dec (unat (m_device stream)) @ ''.plist.txt'',
      artifact_data = bytes_of (transcript api stream)\<rparr>"

definition usbmux_getArtifacts :: "'p plist_api \<Rightarrow> 'p usbmux_expert \<Rightarrow> extracted_artifact list" where
  "usbmux_getArtifacts api e =
     map (\<lambda>(stream_id, stream). stream_artifact api stream_id stream)
       (filter (\<lambda>(stream_id, stream). m_messages stream \<noteq> []) (m_streams e))"

section \<open>Stream identifiers\<close>

lemma STREAM_PORT_device: "ucast (STREAM_PORT h d) = d"
  by (rule bit_word_eqI) (auto simp: STREAM_PORT_def bit_simps)

lemma STREAM_PORT_host: "ucast (drop_bit 16 (STREAM_PORT h d)) = h"
  by (rule bit_word_eqI) (auto simp: STREAM_PORT_def bit_simps dest: bit_imp_le_length)

lemma STREAM_PORT_inj [simp]: "STREAM_PORT h d = STREAM_PORT h' d' \<longleftrightarrow> h = h' \<and> d = d'"
  using STREAM_PORT_device STREAM_PORT_host by metis

lemma STREAM_ID_index: "ucast (STREAM_ID h d i) = i"
  by (rule bit_word_eqI) (auto simp: STREAM_ID_def bit_simps)

lemma STREAM_ID_port: "ucast (drop_bit 32 (STREAM_ID h d i)) = STREAM_PORT h d"
  by (rule bit_word_eqI) (auto simp: STREAM_ID_def bit_simps dest: bit_imp_le_length)

lemma STREAM_ID_inj [simp]: "STREAM_ID h d i = STREAM_ID h' d' i' \<longleftrightarrow> h = h' \<and> d = d' \<and> i = i'"
  using STREAM_ID_index STREAM_ID_port STREAM_PORT_inj by metis

section \<open>The invariant\<close>

text \<open>A stream of the ports \<open>h\<close> and \<open>d\<close>, in a state that a stream can be in.\<close>

definition stream_ok :: "u16 \<Rightarrow> u16 \<Rightarrow> 'p mux_stream \<Rightarrow> bool" where
  "stream_ok h d s \<longleftrightarrow> m_host s = h \<and> m_device s = d \<and> dir_outbound (m_out s) \<and> \<not> dir_outbound (m_in s) \<and>
     drained (m_out s) \<and> drained (m_in s)"

definition indexed :: "'p usbmux_expert \<Rightarrow> bool" where
  "indexed e \<longleftrightarrow> (\<forall>h d i. om_find (m_streamIndex e) (STREAM_PORT h d) = Some i \<longrightarrow>
     om_contains (m_streams e) (STREAM_ID h d i))"

definition addressed :: "'p usbmux_expert \<Rightarrow> bool" where
  "addressed e \<longleftrightarrow> (\<forall>k s. om_find (m_streams e) k = Some s \<longrightarrow>
     stream_ok (m_host s) (m_device s) s \<and> k = STREAM_ID (m_host s) (m_device s) (ucast k))"

definition usbmux_wf :: "'p usbmux_expert \<Rightarrow> bool" where
  "usbmux_wf e \<longleftrightarrow> om_wf (m_streamIndex e) \<and> om_wf (m_streams e) \<and> om_wf (m_serviceNames e) \<and>
     mux_outbound (usb_out e) \<and> \<not> mux_outbound (usb_in e) \<and> indexed e \<and> addressed e"

lemma new_mux_stream_ok: "stream_ok h d (new_mux_stream h d)"
  by (simp add: stream_ok_def drained_def) (simp add: new_mux_stream_def)

lemma initial_service_ok [simp]: "stream_ok h d (initial_service d' e s) = stream_ok h d s"
  by (simp add: initial_service_def setServiceName_def stream_ok_def split: option.split)

lemma initial_service_ports [simp]:
  "m_host (initial_service d' e s) = m_host s" "m_device (initial_service d' e s) = m_device s"
  by (simp_all add: initial_service_def setServiceName_def split: option.split)

lemma new_mux_stream_ports [simp]: "m_host (new_mux_stream h d) = h" "m_device (new_mux_stream h d) = d"
  by (simp_all add: new_mux_stream_def)

lemma beginStream_eq:
  "beginStream host device e =
     (let i = om_get 0 (m_streamIndex e) (STREAM_PORT host device) + 1 in
      (STREAM_ID host device i,
       e\<lparr>m_streamIndex := om_put (STREAM_PORT host device) i (m_streamIndex e),
         m_streams := om_put (STREAM_ID host device i) (initial_service device e (new_mux_stream host device)) (m_streams e)\<rparr>))"
  by (simp add: beginStream_def Let_def initial_service_def)

lemma beginStream_wf:
  assumes "usbmux_wf e"
  shows "usbmux_wf (snd (beginStream h d e)) \<and> om_contains (m_streams (snd (beginStream h d e))) (fst (beginStream h d e))"
proof -
  define i where "i = om_get 0 (m_streamIndex e) (STREAM_PORT h d) + 1"
  define s :: "'a mux_stream" where "s = initial_service d e (new_mux_stream h d)"
  define e' where "e' = e\<lparr>m_streamIndex := om_put (STREAM_PORT h d) i (m_streamIndex e),
      m_streams := om_put (STREAM_ID h d i) s (m_streams e)\<rparr>"
  have b: "beginStream h d e = (STREAM_ID h d i, e')"
    by (simp add: beginStream_eq Let_def i_def s_def e'_def)
  have s: "stream_ok h d s" "m_host s = h" "m_device s = d" by (simp_all add: s_def new_mux_stream_ok)
  have "indexed e'" using assms by (auto simp: usbmux_wf_def indexed_def e'_def om_find_put)
  moreover have "addressed e'" using assms s
    by (auto simp: usbmux_wf_def addressed_def e'_def om_find_put STREAM_ID_index split: if_splits)
  ultimately show ?thesis using assms by (simp add: b usbmux_wf_def) (simp add: e'_def om_wf_put)
qed

lemma getStreamId_wf:
  assumes "usbmux_wf e"
  shows "usbmux_wf (snd (getStreamId h d e)) \<and> om_contains (m_streams (snd (getStreamId h d e))) (fst (getStreamId h d e))"
proof (cases "om_find (m_streamIndex e) (STREAM_PORT h d)")
  case None
  then show ?thesis using beginStream_wf [OF assms] by (simp add: getStreamId_def)
next
  case (Some i)
  then show ?thesis using assms by (simp add: getStreamId_def usbmux_wf_def indexed_def)
qed

lemma select_stream_wf:
  assumes "usbmux_wf e" and "select_stream out flags src dst e = (i, e')"
  shows "usbmux_wf e' \<and> om_contains (m_streams e') i"
proof -
  consider h d where "beginStream h d e = (i, e')" | h d where "getStreamId h d e = (i, e')"
    using assms(2) unfolding select_stream_def by metis
  then show ?thesis
  proof cases
    case 1
    then show ?thesis using beginStream_wf [OF assms(1), of h d] by simp
  next
    case 2
    then show ?thesis using getStreamId_wf [OF assms(1), of h d] by simp
  qed
qed

lemma consume_dir: "consume api data (d, ms) = Some (d', ms') \<Longrightarrow> dir_outbound d' = dir_outbound d"
proof -
  assume c: "consume api data (d, ms) = Some (d', ms')"
  obtain d1 new where d1: "consume api data (d, []) = Some (d1, new)" using consume_safe by blast
  with c consume_messages [of api data d ms "[]"] have "d' = d1" by simp
  with consume_outbound [OF d1] show "dir_outbound d' = dir_outbound d" by simp
qed

lemma sendBytes_ok: "stream_ok h d s \<Longrightarrow> \<exists>s'. sendBytes api data s = Some s' \<and> stream_ok h d s'"
proof -
  assume s: "stream_ok h d s"
  obtain d1 ms1 where c: "consume api data (m_out s, m_messages s) = Some (d1, ms1)" using consume_safe by blast
  then have "drained d1" "dir_outbound d1" using s consume_drained [OF _ c] consume_dir [OF c] by (simp_all add: stream_ok_def)
  with s c show ?thesis by (simp add: sendBytes_def stream_ok_def)
qed

lemma receiveBytes_ok: "stream_ok h d s \<Longrightarrow> \<exists>s'. receiveBytes api data s = Some s' \<and> stream_ok h d s'"
proof -
  assume s: "stream_ok h d s"
  obtain d1 ms1 where c: "consume api data (m_in s, m_messages s) = Some (d1, ms1)" using consume_safe by blast
  then have "drained d1" "\<not> dir_outbound d1" using s consume_drained [OF _ c] consume_dir [OF c] by (simp_all add: stream_ok_def)
  with s c show ?thesis by (simp add: receiveBytes_def stream_ok_def)
qed

lemma close_ok [simp]: "stream_ok h d (close s) = stream_ok h d s"
  by (simp add: close_def stream_ok_def)

lemma om_contains_find: "om_contains m k \<longleftrightarrow> (\<exists>v. om_find m k = Some v)"
  by (simp add: om_contains_def)

lemma wf_stream:
  assumes "usbmux_wf e" and "om_find (m_streams e) i = Some s"
  shows "stream_ok (m_host s) (m_device s) s" "i = STREAM_ID (m_host s) (m_device s) (ucast i)"
  using assms by (auto simp: usbmux_wf_def addressed_def)

lemma wf_put_stream:
  assumes "usbmux_wf e" and "om_find (m_streams e) i = Some s" and "stream_ok (m_host s) (m_device s) s'"
  shows "usbmux_wf (e\<lparr>m_streams := om_put i s' (m_streams e)\<rparr>)"
proof -
  have ports: "m_host s' = m_host s" "m_device s' = m_device s" using assms(3) by (simp_all add: stream_ok_def)
  note i = wf_stream(2) [OF assms(1,2)]
  have "addressed (e\<lparr>m_streams := om_put i s' (m_streams e)\<rparr>)"
    using assms(1,3) i ports by (auto simp: usbmux_wf_def addressed_def om_find_put)
  moreover have "indexed (e\<lparr>m_streams := om_put i s' (m_streams e)\<rparr>)"
    using assms(1) by (auto simp: usbmux_wf_def indexed_def)
  ultimately show ?thesis using assms(1) by (simp add: usbmux_wf_def om_wf_put)
qed

lemma update_stream_ok:
  assumes "usbmux_wf e" and "om_find (m_streams e) i = Some s"
    and "\<exists>s'. f s = Some s' \<and> stream_ok (m_host s) (m_device s) s'"
  shows "\<exists>s'. f s = Some s' \<and> update_stream i f e = Some (e\<lparr>m_streams := om_put i s' (m_streams e)\<rparr>) \<and>
     usbmux_wf (e\<lparr>m_streams := om_put i s' (m_streams e)\<rparr>) \<and> m_device s' = m_device s"
proof -
  obtain s' where s': "f s = Some s'" "stream_ok (m_host s) (m_device s) s'" using assms(3) by blast
  with wf_put_stream [OF assms(1,2) s'(2)] assms(2) show ?thesis by (simp add: update_stream_def stream_ok_def)
qed

lemma learn_wf: "om_wf names \<Longrightarrow> om_wf (fold (learn_message api) ms names)"
proof (induction ms arbitrary: names)
  case (Cons m ms)
  have "om_wf (learn_message api m names)" using Cons.prems by (simp add: learn_message_def Let_def om_wf_put)
  with Cons.IH show ?case by simp
qed simp

lemma learnServices_wf: "usbmux_wf e \<Longrightarrow> usbmux_wf (learnServices api s n e)"
  by (simp add: learnServices_def usbmux_wf_def learn_wf indexed_def addressed_def)

text \<open>What delivering data to an existing stream does.\<close>

lemma deliver_eq:
  assumes "usbmux_wf e" and "om_find (m_streams e) i = Some s" and "data \<noteq> []"
  shows "\<exists>s'. (if out then sendBytes api data s else receiveBytes api data s) = Some s' \<and>
     deliver api out i data e = Some (learnServices api s' (length (m_messages s)) (e\<lparr>m_streams := om_put i s' (m_streams e)\<rparr>)) \<and>
     usbmux_wf (learnServices api s' (length (m_messages s)) (e\<lparr>m_streams := om_put i s' (m_streams e)\<rparr>))"
proof -
  let ?f = "if out then sendBytes api data else receiveBytes api data"
  have "\<exists>s'. ?f s = Some s' \<and> stream_ok (m_host s) (m_device s) s'"
    by (simp add: sendBytes_ok receiveBytes_ok wf_stream(1) [OF assms(1,2)])
  from update_stream_ok [where f = ?f, OF assms(1,2) this] obtain s' where
    s': "?f s = Some s'" "update_stream i ?f e = Some (e\<lparr>m_streams := om_put i s' (m_streams e)\<rparr>)"
      "usbmux_wf (e\<lparr>m_streams := om_put i s' (m_streams e)\<rparr>)" by blast
  have f: "(if out then sendBytes api data s else receiveBytes api data s) = Some s'" using s'(1) by (cases out) simp_all
  show ?thesis
    using s' assms(2,3) learnServices_wf [OF s'(3)] f
    by (simp add: deliver_def om_find_put)
qed

lemma deliver_ok:
  assumes "usbmux_wf e" and "om_contains (m_streams e) i"
  shows "\<exists>e'. deliver api out i data e = Some e' \<and> usbmux_wf e' \<and> om_contains (m_streams e') i"
proof (cases "data = []")
  case True
  with assms show ?thesis by (simp add: deliver_def)
next
  case False
  obtain s where s: "om_find (m_streams e) i = Some s" using assms(2) by (auto simp: om_contains_find)
  show ?thesis using deliver_eq [OF assms(1) s False, of out api] by (auto simp: learnServices_def)
qed

lemma close_on_ok:
  assumes "usbmux_wf e" and "om_contains (m_streams e) i"
  shows "\<exists>e'. close_on flags i e = Some e' \<and> usbmux_wf e'"
proof -
  obtain s where s: "om_find (m_streams e) i = Some s" using assms(2) by (auto simp: om_contains_find)
  have "\<exists>s'. Some (close s) = Some s' \<and> stream_ok (m_host s) (m_device s) s'"
    using wf_stream(1) [OF assms(1) s] by simp
  from update_stream_ok [OF assms(1) s, of "\<lambda>s. Some (close s)", OF this] assms(1) show ?thesis
    by (auto simp: close_on_def)
qed

lemma processTCP_ok:
  assumes "usbmux_wf e"
  shows "\<exists>e'. processTCP api out payload e = Some e' \<and> usbmux_wf e'"
proof (cases "20 \<le> length payload")
  case False
  with assms show ?thesis by (simp add: processTCP_short)
next
  case True
  obtain i e1 where sel: "select_stream out (segment_flags payload) (segment_source payload) (segment_dest payload) e = (i, e1)"
    by fastforce
  from select_stream_wf [OF assms sel] have e1: "usbmux_wf e1" "om_contains (m_streams e1) i" by simp_all
  obtain e2 where e2: "deliver api out i (segment_data payload) e1 = Some e2" "usbmux_wf e2" "om_contains (m_streams e2) i"
    using deliver_ok [OF e1] by blast
  show ?thesis using close_on_ok [OF e2(2,3)] by (simp add: processTCP_long [OF True] sel e2(1))
qed

lemma processPacket_ok:
  assumes "usbmux_wf e"
  shows "\<exists>e'. processPacket api out protocol payload e = Some e' \<and> usbmux_wf e'"
  using assms processTCP_ok [OF assms, of api out payload]
  by (simp add: processPacket_def usbmux_wf_def indexed_def addressed_def)

section \<open>Reassembly always ends, with little left\<close>

definition incomplete :: "byte list \<Rightarrow> bool" where
  "incomplete buf \<longleftrightarrow> length buf < 8 \<or> \<not> lost_framing buf \<and> length buf < unat (mux_length buf)"

lemma incomplete_bound:
  assumes "incomplete buf"
  shows "length buf < 1024 * 1024"
proof -
  have "\<not> MAX_MUX_PACKET < mux_length buf \<Longrightarrow> unat (mux_length buf) \<le> 1024 * 1024"
    by (simp add: word_le_nat_alt MAX_MUX_PACKET_def not_less)
  with assms show ?thesis by (auto simp: incomplete_def lost_framing_def)
qed

lemma feed_loop_stop: "length (mux_buffer (mux_dir out e)) < 8 \<Longrightarrow> feed_loop api out e = Some e"
  by (simp add: feed_loop.simps [of api] MUX_HEADER_V1_SIZE_def)

lemma feed_loop_step:
  "8 \<le> length (mux_buffer (mux_dir out e)) \<Longrightarrow> feed_loop api out e =
     (case feed_body api out e of None \<Rightarrow> None | Some (Return e') \<Rightarrow> Some e' | Some (Continue e') \<Rightarrow> feed_loop api out e')"
  by (simp add: feed_loop.simps [of api] MUX_HEADER_V1_SIZE_def)

lemma set_buffer_wf [simp]: "usbmux_wf (set_buffer out buf e) = usbmux_wf e"
  by (simp add: set_buffer_def usbmux_wf_def indexed_def addressed_def)

lemma resync_wf [simp]: "usbmux_wf (e\<lparr>m_resyncs := n\<rparr>) = usbmux_wf e"
  by (simp add: usbmux_wf_def indexed_def addressed_def)

lemma mux_dir_other [simp]: "mux_dir (\<not> out) (set_buffer out buf e) = mux_dir (\<not> out) e"
  by (simp add: mux_dir_def set_buffer_def)

lemma mux_dir_resync [simp]: "mux_dir out (e\<lparr>m_resyncs := n\<rparr>) = mux_dir out e"
  by (simp add: mux_dir_def)

lemma feed_body_ok:
  assumes "usbmux_wf e" and "8 \<le> length (mux_buffer (mux_dir out e))"
  shows "\<exists>r. feed_body api out e = Some r \<and>
     (case r of Return e' \<Rightarrow> usbmux_wf e' \<and> incomplete (mux_buffer (mux_dir out e')) \<and> mux_dir (\<not> out) e' = mux_dir (\<not> out) e
      | Continue e' \<Rightarrow> usbmux_wf e' \<and> mux_dir (\<not> out) e' = mux_dir (\<not> out) e)"
proof -
  let ?buf = "mux_buffer (mux_dir out e)"
  obtain e1 where e1: "processPacket api (mux_outbound (mux_dir out e)) (be32 ?buf) (mux_payload ?buf) e = Some e1" "usbmux_wf e1"
    using processPacket_ok [OF assms(1)] by blast
  have "mux_dir (\<not> out) e1 = mux_dir (\<not> out) e" using mux_dir_directions [OF processPacket_directions [OF e1(1)]] .
  with e1 assms show ?thesis by (simp add: feed_body_eq Let_def incomplete_def)
qed

lemma feed_loop_ok:
  "usbmux_wf e \<Longrightarrow> \<exists>e'. feed_loop api out e = Some e' \<and> usbmux_wf e' \<and> incomplete (mux_buffer (mux_dir out e')) \<and>
     mux_dir (\<not> out) e' = mux_dir (\<not> out) e"
proof (induction api out e rule: feed_loop.induct)
  case (1 api out e)
  show ?case
  proof (cases "length (mux_buffer (mux_dir out e)) < 8")
    case True
    with "1.prems" show ?thesis by (simp add: feed_loop_stop incomplete_def)
  next
    case False
    then have len: "8 \<le> length (mux_buffer (mux_dir out e))" by simp
    from feed_body_ok [OF "1.prems" len, of api] obtain r where r: "feed_body api out e = Some r"
      "case r of Return e' \<Rightarrow> usbmux_wf e' \<and> incomplete (mux_buffer (mux_dir out e')) \<and> mux_dir (\<not> out) e' = mux_dir (\<not> out) e
       | Continue e' \<Rightarrow> usbmux_wf e' \<and> mux_dir (\<not> out) e' = mux_dir (\<not> out) e" by blast
    show ?thesis
    proof (cases r)
      case (Return e1)
      with r len show ?thesis by (simp add: feed_loop_step)
    next
      case (Continue e1)
      with "1.IH" [OF _ r(1) Continue] r False show ?thesis by (auto simp: feed_loop_step MUX_HEADER_V1_SIZE_def)
    qed
  qed
qed

text \<open>A state between two transfers.\<close>

definition usbmux_ok :: "'p usbmux_expert \<Rightarrow> bool" where
  "usbmux_ok e \<longleftrightarrow> usbmux_wf e \<and> incomplete (mux_buffer (usb_in e)) \<and> incomplete (mux_buffer (usb_out e))"

lemma usbmux_ok_dirs:
  "usbmux_ok e \<longleftrightarrow> usbmux_wf e \<and> incomplete (mux_buffer (mux_dir out e)) \<and> incomplete (mux_buffer (mux_dir (\<not> out) e))"
  by (cases out) (auto simp: usbmux_ok_def mux_dir_def)

lemma feed_ok:
  assumes "usbmux_ok e"
  shows "\<exists>e'. feed api out data e = Some e' \<and> usbmux_ok e'"
proof (cases "data = []")
  case True
  with assms show ?thesis by (simp add: feed_def)
next
  case False
  let ?e = "set_buffer out (mux_buffer (mux_dir out e) @ data) e"
  have "usbmux_wf ?e" using assms by (simp add: usbmux_ok_def)
  from feed_loop_ok [OF this, of api out] show ?thesis
    using False assms by (auto simp: feed_def usbmux_ok_dirs [of _ out])
qed

lemma base_of_set_buffer [simp]: "base_of (set_buffer out buf e) = base_of e"
  by (simp add: set_buffer_def)

lemma feed_body_base:
  assumes "feed_body api out e = Some r" and "8 \<le> length (mux_buffer (mux_dir out e))"
  shows "(case r of Return e' \<Rightarrow> base_of e' = base_of e | Continue e' \<Rightarrow> base_of e' = base_of e)"
  using assms
  by (auto simp: feed_body_eq Let_def directions_def dest!: processPacket_directions split: if_splits)

lemma feed_loop_base: "feed_loop api out e = Some e' \<Longrightarrow> base_of e' = base_of e"
proof (induction api out e rule: feed_loop.induct)
  case (1 api out e)
  show ?case
  proof (cases "length (mux_buffer (mux_dir out e)) < 8")
    case True
    with "1.prems" show ?thesis by (simp add: feed_loop_stop)
  next
    case False
    then have len: "8 \<le> length (mux_buffer (mux_dir out e))" by simp
    with "1.prems" obtain r where r: "feed_body api out e = Some r"
      by (auto simp: feed_loop_step split: option.splits)
    note base = feed_body_base [OF r len]
    show ?thesis
    proof (cases r)
      case (Return e1)
      with base r len "1.prems" show ?thesis by (simp add: feed_loop_step)
    next
      case (Continue e1)
      with "1.IH" [OF _ r Continue] base r len "1.prems" show ?thesis
        by (simp add: feed_loop_step MUX_HEADER_V1_SIZE_def)
    qed
  qed
qed

lemma feed_base: "feed api out data e = Some e' \<Longrightarrow> base_of e' = base_of e"
  by (auto simp: feed_def dest: feed_loop_base split: if_splits)

section \<open>The contract of an expert\<close>

definition usbmux_step :: "'p plist_api \<Rightarrow> expert_event \<Rightarrow> 'p usbmux_expert \<Rightarrow> 'p usbmux_expert option" where
  "usbmux_step api = expert_step (\<lambda>setup data e. Some (base_processControlOut setup data e))
     (\<lambda>setup data e. Some (base_processControlIn setup data e)) (usbmux_processBulkOut api) (usbmux_processBulkIn api)"

lemma usbmux_ok_base [simp]:
  "usbmux_ok (base_processControlOut setup data e) = usbmux_ok e" "usbmux_ok (base_processControlIn setup data e) = usbmux_ok e"
  "usbmux_ok (base_processBulkOut data e) = usbmux_ok e" "usbmux_ok (base_processBulkIn data e) = usbmux_ok e"
  by (simp_all add: base_defs usbmux_ok_def usbmux_wf_def indexed_def addressed_def)

lemma base_of_base:
  "base_of (base_processControlOut setup data e) = base_processControlOut setup data (base_of e)"
  "base_of (base_processControlIn setup data e) = base_processControlIn setup data (base_of e)"
  "base_of (base_processBulkOut data e) = base_processBulkOut data (base_of e)"
  "base_of (base_processBulkIn data e) = base_processBulkIn data (base_of e)"
  by (simp_all add: base_defs base_of_def interface_expert.defs)

lemma usbmux_step_ok:
  assumes "usbmux_ok e"
  shows "\<exists>e'. usbmux_step api ev e = Some e' \<and> usbmux_ok e' \<and> base_of e' = base_count ev (base_of e)"
proof (cases ev)
  case (BulkOut data)
  have "usbmux_ok (base_processBulkOut data e)" using assms by simp
  from feed_ok [OF this, of api True data] feed_base BulkOut show ?thesis
    by (fastforce simp: usbmux_step_def usbmux_processBulkOut_def base_of_base)
next
  case (BulkIn data)
  have "usbmux_ok (base_processBulkIn data e)" using assms by simp
  from feed_ok [OF this, of api False data] feed_base BulkIn show ?thesis
    by (fastforce simp: usbmux_step_def usbmux_processBulkIn_def base_of_base)
qed (use assms in \<open>simp_all add: usbmux_step_def base_of_base\<close>)

interpretation usbmux: interface_expert_contract
  usbmux_ok "\<lambda>setup data e. Some (base_processControlOut setup data e)"
  "\<lambda>setup data e. Some (base_processControlIn setup data e)"
  "usbmux_processBulkOut api" "usbmux_processBulkIn api" base_of
  rewrites "expert_step (\<lambda>setup data e. Some (base_processControlOut setup data e))
     (\<lambda>setup data e. Some (base_processControlIn setup data e)) (usbmux_processBulkOut api) (usbmux_processBulkIn api) =
     usbmux_step api"
  for api
  using usbmux_step_ok by unfold_locales (simp_all add: usbmux_step_def)

lemma new_usbmux_expert_ok [simp]: "usbmux_ok (new_usbmux_expert c i)"
  by (simp add: usbmux_ok_def usbmux_wf_def new_usbmux_expert_def indexed_def addressed_def incomplete_def
      interface_expert.defs usbmux_expert.defs om_wf_empty om_find_empty)

end
