(* ===== verification/USBMUX_Reassembly.thy ===== *)
theory USBMUX_Reassembly
  imports USBMUX_Expert
begin

text \<open>
  What the \<open>feed\<close> loop of the usbmux expert guarantees: usbmux packets, with the short or the long
  header, are recovered from the transfers whatever their boundaries, and a loss of framing costs the
  buffered bytes and nothing else.
\<close>

section \<open>Packets do not depend on what is around them\<close>

text \<open>
  The part of the state that packets read and write.  \<open>graft e0 e\<close> has that part from \<open>e\<close> and everything
  else from \<open>e0\<close>.
\<close>

definition core :: "'p usbmux_expert \<Rightarrow>
    u32 \<times> (u32, u32) omap \<times> (u64, 'p mux_stream) omap \<times> (u16, string) omap" where
  "core e = (m_version e, m_streamIndex e, m_streams e, m_serviceNames e)"

definition graft :: "'p usbmux_expert \<Rightarrow> 'p usbmux_expert \<Rightarrow> 'p usbmux_expert" where
  "graft e0 e = e0\<lparr>m_version := m_version e, m_streamIndex := m_streamIndex e, m_streams := m_streams e,
     m_serviceNames := m_serviceNames e\<rparr>"

lemma graft_fields [simp]:
  "m_version (graft e0 e) = m_version e" "m_streamIndex (graft e0 e) = m_streamIndex e"
  "m_streams (graft e0 e) = m_streams e" "m_serviceNames (graft e0 e) = m_serviceNames e"
  by (simp_all add: graft_def)

lemma graft_core: "core e = core e0 \<Longrightarrow> graft e0 e = e0"
  by (cases e0) (simp add: core_def graft_def)

lemma core_graft [simp]: "core (graft e0 e) = core e"
  by (simp add: core_def)

lemma beginStream_graft:
  "beginStream h d (graft e0 e) = map_prod id (graft e0) (beginStream h d e)"
  by (simp add: beginStream_eq Let_def initial_service_def) (simp add: graft_def)

lemma getStreamId_graft:
  "getStreamId h d (graft e0 e) = map_prod id (graft e0) (getStreamId h d e)"
  by (simp add: getStreamId_def beginStream_graft split: option.split)

lemma select_stream_graft:
  "select_stream out flags src dst (graft e0 e) = map_prod id (graft e0) (select_stream out flags src dst e)"
  by (simp add: select_stream_def beginStream_graft getStreamId_graft)

lemma graft_put_streams: "(graft e0 e)\<lparr>m_streams := x\<rparr> = graft e0 (e\<lparr>m_streams := x\<rparr>)"
  by (cases e0) (simp add: graft_def)

lemma update_stream_graft: "update_stream i f (graft e0 e) = map_option (graft e0) (update_stream i f e)"
  by (simp add: update_stream_def map_option_bind o_def graft_put_streams)

lemma learnServices_graft: "learnServices api s n (graft e0 e) = graft e0 (learnServices api s n e)"
  by (simp add: learnServices_def) (simp add: graft_def)

lemma bind_map_option: "Option.bind (map_option f m) g = Option.bind m (\<lambda>x. g (f x))"
  by (cases m) simp_all

lemma deliver_graft: "deliver api out i data (graft e0 e) = map_option (graft e0) (deliver api out i data e)"
  by (simp add: deliver_def update_stream_graft learnServices_graft map_option_bind bind_map_option o_def)

lemma close_on_graft: "close_on flags i (graft e0 e) = map_option (graft e0) (close_on flags i e)"
  by (simp add: close_on_def update_stream_graft)

lemma processTCP_graft: "processTCP api out payload (graft e0 e) = map_option (graft e0) (processTCP api out payload e)"
proof (cases "20 \<le> length payload")
  case True
  obtain i e1 where "select_stream out (segment_flags payload) (segment_source payload) (segment_dest payload) e = (i, e1)"
    by fastforce
  with True show ?thesis
    by (simp add: processTCP_long select_stream_graft deliver_graft map_option_bind bind_map_option close_on_graft o_def)
qed (simp add: processTCP_short)

lemma processPacket_graft:
  "processPacket api out protocol payload (graft e0 e) = map_option (graft e0) (processPacket api out protocol payload e)"
  by (simp add: processPacket_def processTCP_graft) (simp add: graft_def)

lemma graft_set_buffer [simp]: "graft (set_buffer out buf e0) e = set_buffer out buf (graft e0 e)"
  by (simp add: graft_def set_buffer_def)

lemma m_resyncs_graft [simp]: "m_resyncs (graft e0 e) = m_resyncs e0"
  by (simp add: graft_def)

lemma graft_from_set_buffer [simp]: "graft e0 (set_buffer out buf e) = graft e0 e"
  by (simp add: graft_def set_buffer_def)

lemma m_resyncs_set_buffer [simp]: "m_resyncs (set_buffer out buf e) = m_resyncs e"
  by (simp add: set_buffer_def)

lemma graft_graft [simp]: "graft e0 (graft e1 e) = graft e0 e" "graft (graft e0 e1) e = graft e0 e"
  by (simp_all add: graft_def)

lemma graft_self [simp]: "graft e e = e"
  by (rule graft_core) simp

lemma core_set_buffer [simp]: "core (set_buffer out buf e) = core e"
  by (simp add: core_def set_buffer_def)

lemma core_resync [simp]: "core (e\<lparr>m_resyncs := n\<rparr>) = core e"
  by (simp add: core_def)

text \<open>A run of packets in one direction.\<close>

definition packet_step :: "'p plist_api \<Rightarrow> bool \<Rightarrow> u32 \<times> byte list \<Rightarrow> 'p usbmux_expert \<Rightarrow> 'p usbmux_expert option" where
  "packet_step api out packet e = processPacket api out (fst packet) (snd packet) e"

lemma run_packets_graft:
  "run_opt (packet_step api out) ps (graft e0 e) = map_option (graft e0) (run_opt (packet_step api out) ps e)"
proof (induction ps arbitrary: e)
  case (Cons p ps)
  then show ?case
    by (cases "packet_step api out p e") (simp_all add: packet_step_def processPacket_graft)
qed simp

lemma run_packets_core:
  assumes "core e = core e0"
  shows "run_opt (packet_step api out) ps e0 = map_option (graft e0) (run_opt (packet_step api out) ps e)"
  using run_packets_graft [of api out ps e0 e] by (simp add: graft_core [OF assms])

interpretation packets: safe_machine usbmux_wf "packet_step api out" for api out
  by unfold_locales (simp add: packet_step_def processPacket_ok)

lemmas run_packets_ok = packets.safe_run

lemma run_packets_set_buffer:
  "run_opt (packet_step api out) ps (set_buffer dir buf e) = map_option (set_buffer dir buf) (run_opt (packet_step api out) ps e)"
proof -
  have "graft (set_buffer dir buf e) = (\<lambda>x. set_buffer dir buf (graft e x))" by (rule ext) simp
  then have "run_opt (packet_step api out) ps (set_buffer dir buf e) =
      map_option (set_buffer dir buf) (map_option (graft e) (run_opt (packet_step api out) ps e))"
    using run_packets_graft [of api out ps "set_buffer dir buf e" e]
    by (simp add: option.map_comp o_def)
  also have "map_option (graft e) (run_opt (packet_step api out) ps e) = run_opt (packet_step api out) ps e"
    using run_packets_graft [of api out ps e e] by simp
  finally show ?thesis .
qed

lemma set_buffer_set_buffer [simp]: "set_buffer out b (set_buffer out b' e) = set_buffer out b e"
  by (simp add: set_buffer_def)

lemma set_buffer_same: "set_buffer out (mux_buffer (mux_dir out e)) e = e"
  by (simp add: set_buffer_def mux_dir_def)

section \<open>Encoded packets\<close>

datatype mux_packet =
    V1 u32 "byte list"
  | V2 u32 u32 u16 u16 "byte list"

fun packet_content :: "mux_packet \<Rightarrow> u32 \<times> byte list" where
  "packet_content (V1 protocol body) = (protocol, body)"
| "packet_content (V2 protocol magic tx rx body) = (protocol, body)"

fun packet_size :: "mux_packet \<Rightarrow> nat" where
  "packet_size (V1 protocol body) = 8 + length body"
| "packet_size (V2 protocol magic tx rx body) = 16 + length body"

fun encode_packet :: "mux_packet \<Rightarrow> byte list" where
  "encode_packet (V1 protocol body) = enc_be32 protocol @ enc_be32 (word_of_nat (8 + length body)) @ body"
| "encode_packet (V2 protocol magic tx rx body) =
     enc_be32 protocol @ enc_be32 (word_of_nat (16 + length body)) @ enc_be32 magic @ enc_be16 tx @ enc_be16 rx @ body"

definition is_magic :: "u32 \<Rightarrow> bool" where
  "is_magic w \<longleftrightarrow> w = USBMUX_MAGIC_IN \<or> w = USBMUX_MAGIC_OUT"

text \<open>
  A packet usbmuxd can produce: a known range of protocols, at most 1 MiB in all, a v2 header with one of
  the two magics, and after a v1 header (the version exchange) no body that starts with one of them.
\<close>

fun valid_packet :: "mux_packet \<Rightarrow> bool" where
  "valid_packet (V1 protocol body) \<longleftrightarrow>
     protocol \<le> MUX_PROTO_TCP \<and> 8 + length body \<le> 1024 * 1024 \<and> \<not> (8 \<le> length body \<and> is_magic (be32 body))"
| "valid_packet (V2 protocol magic tx rx body) \<longleftrightarrow>
     protocol \<le> MUX_PROTO_TCP \<and> 16 + length body \<le> 1024 * 1024 \<and> is_magic magic"

lemma length_encode_packet [simp]: "length (encode_packet p) = packet_size p"
  by (cases p) simp_all

lemma packet_size_ge: "8 \<le> packet_size p"
  by (cases p) simp_all

lemma be32_enc_only [simp]: "be32 (enc_be32 w) = w"
  using be32_enc [of w "[]"] by simp

lemma unat_size: "n \<le> 1024 * 1024 \<Longrightarrow> unat (word_of_nat n :: u32) = n"
  by (simp add: unat_of_nat take_bit_eq_mod)

lemma packet_size_le: "valid_packet p \<Longrightarrow> packet_size p \<le> 1024 * 1024"
  by (cases p) simp_all

lemma mux_length_encode: "mux_length (encode_packet p @ rest) = word_of_nat (packet_size p)"
  by (cases p) (simp_all add: mux_length_def)

lemma be32_encode: "be32 (encode_packet p @ rest) = fst (packet_content p)"
  by (cases p) simp_all

lemma packet_protocol_le: "valid_packet p \<Longrightarrow> fst (packet_content p) \<le> MUX_PROTO_TCP"
  by (cases p) simp_all

lemma framing_encode:
  assumes "valid_packet p"
  shows "\<not> lost_framing (encode_packet p @ rest)"
proof -
  have "unat (mux_length (encode_packet p @ rest)) = packet_size p"
    using packet_size_le [OF assms] by (simp only: mux_length_encode unat_size)
  then show ?thesis
    using packet_size_ge [of p] packet_size_le [OF assms] packet_protocol_le [OF assms]
    unfolding lost_framing_def be32_encode by (simp add: MAX_MUX_PACKET_def word_less_nat_alt word_le_nat_alt)
qed

lemma header_encode:
  "valid_packet p \<Longrightarrow> header_length (encode_packet p @ rest) = packet_size p - length (snd (packet_content p))"
  using packet_size_le [of p] unat_size [of "packet_size p"]
  by (cases p) (auto simp: header_length_def mux_length_def is_magic_def drop_Cons')

lemma payload_encode: "valid_packet p \<Longrightarrow> mux_payload (encode_packet p @ rest) = snd (packet_content p)"
  using packet_size_le [of p] unat_size [of "packet_size p"]
  by (cases p) (simp_all add: mux_payload_def header_encode mux_length_encode del: encode_packet.simps, simp_all)

lemma feed_loop_packet:
  assumes "valid_packet p" and "mux_buffer (mux_dir out e) = encode_packet p @ rest" and "mux_outbound (mux_dir out e) = out"
  shows "feed_loop api out e =
     Option.bind (packet_step api out (packet_content p) e) (\<lambda>e1. feed_loop api out (set_buffer out rest e1))"
proof -
  have len: "8 \<le> length (mux_buffer (mux_dir out e))" using packet_size_ge [of p] by (simp add: assms(2))
  have "feed_body api out e = map_option (\<lambda>e1. Continue (set_buffer out rest e1)) (packet_step api out (packet_content p) e)"
    using assms len packet_size_le [OF assms(1)] unat_size [of "packet_size p"]
    by (simp add: feed_body_eq assms(2) framing_encode mux_length_encode be32_encode payload_encode packet_step_def
        del: encode_packet.simps)
  then show ?thesis by (cases "packet_step api out (packet_content p) e") (simp_all add: feed_loop_step [OF len])
qed

lemma feed_loop_packets:
  "\<lbrakk>usbmux_wf e; list_all valid_packet ps; incomplete partial;
    mux_buffer (mux_dir out e) = concat (map encode_packet ps) @ partial\<rbrakk> \<Longrightarrow>
   feed_loop api out e = map_option (set_buffer out partial) (run_opt (packet_step api out) (map packet_content ps) e)"
proof (induction ps arbitrary: e)
  case Nil
  then have buf: "mux_buffer (mux_dir out e) = partial" by simp
  have "feed_loop api out e = Some e"
  proof (cases "length partial < 8")
    case True
    then show ?thesis by (simp add: feed_loop_stop buf)
  next
    case False
    with Nil.prems(3) show ?thesis by (simp add: feed_loop_step buf feed_body_eq incomplete_def)
  qed
  then show ?case using set_buffer_same [of out e] by (simp add: buf)
next
  case (Cons p ps)
  have out: "mux_outbound (mux_dir out e) = out" using Cons.prems(1) by (simp add: usbmux_wf_def mux_dir_def)
  have p: "valid_packet p" using Cons.prems(2) by simp
  let ?rest = "concat (map encode_packet ps) @ partial"
  have buf: "mux_buffer (mux_dir out e) = encode_packet p @ ?rest" using Cons.prems(4) by simp
  obtain e1 where e1: "packet_step api out (packet_content p) e = Some e1" "usbmux_wf e1"
    using processPacket_ok [OF Cons.prems(1), of api out "fst (packet_content p)" "snd (packet_content p)"]
    by (auto simp: packet_step_def)
  have "feed_loop api out (set_buffer out ?rest e1) =
      map_option (set_buffer out partial) (run_opt (packet_step api out) (map packet_content ps) (set_buffer out ?rest e1))"
    by (rule Cons.IH) (use Cons.prems e1 in simp_all)
  then show ?case
    by (simp add: feed_loop_packet [OF p buf out] e1 run_packets_set_buffer option.map_comp o_def)
qed

section \<open>Any cutting into transfers\<close>

lemma lost_framing_append: "8 \<le> length xs \<Longrightarrow> lost_framing (xs @ ys) = lost_framing xs"
  by (simp add: lost_framing_def mux_length_def)

lemma mux_length_append: "8 \<le> length xs \<Longrightarrow> mux_length (xs @ ys) = mux_length xs"
  by (simp add: mux_length_def)

lemma incomplete_prefix: "incomplete (xs @ ys) \<Longrightarrow> incomplete xs"
  by (cases "8 \<le> length xs") (auto simp: incomplete_def lost_framing_append mux_length_append)

lemma incomplete_packet:
  assumes "valid_packet p" and "xs @ ys = encode_packet p" and "ys \<noteq> []"
  shows "incomplete xs"
proof (cases "8 \<le> length xs")
  case True
  have "\<not> lost_framing (xs @ ys)" "unat (mux_length (xs @ ys)) = packet_size p"
    using framing_encode [OF assms(1), of "[]"] mux_length_encode [of p "[]"] packet_size_le [OF assms(1)]
    by (simp_all add: assms(2) unat_size)
  moreover have "length xs < packet_size p"
  proof -
    have "length xs + length ys = packet_size p" using length_encode_packet [of p] by (simp flip: assms(2))
    with assms(3) show ?thesis by (cases ys) simp_all
  qed
  ultimately show ?thesis using True by (simp add: incomplete_def lost_framing_append mux_length_append)
qed (simp add: incomplete_def)

text \<open>Whatever has arrived is a number of whole packets and an incomplete one.\<close>

lemma split_packets:
  "xs @ ys = concat (map encode_packet ps) @ partial \<Longrightarrow> list_all valid_packet ps \<Longrightarrow> incomplete partial \<Longrightarrow>
   \<exists>ps1 ps2 part1. ps = ps1 @ ps2 \<and> xs = concat (map encode_packet ps1) @ part1 \<and> incomplete part1 \<and>
     part1 @ ys = concat (map encode_packet ps2) @ partial"
proof (induction ps arbitrary: xs)
  case Nil
  then show ?case using incomplete_prefix [of xs ys] by auto
next
  case (Cons p ps)
  have valid: "valid_packet p" "list_all valid_packet ps" using Cons.prems(2) by simp_all
  let ?tail = "concat (map encode_packet ps) @ partial"
  have eq: "xs @ ys = encode_packet p @ ?tail" using Cons.prems(1) by simp
  then consider us where "xs @ us = encode_packet p" "us \<noteq> []" | us where "xs = encode_packet p @ us" "us @ ys = ?tail"
  proof -
    from eq obtain us where "xs = encode_packet p @ us \<and> us @ ys = ?tail \<or> xs @ us = encode_packet p \<and> ys = us @ ?tail"
      unfolding append_eq_append_conv2 by blast
    then show ?thesis using that by (cases "us = []") auto
  qed
  then show ?case
  proof cases
    case 1
    from incomplete_packet [OF valid(1) 1] Cons.prems(1) show ?thesis
      by (intro exI [of _ "[]"] exI [of _ "p # ps"] exI [of _ xs]) simp
  next
    case 2
    from Cons.IH [OF 2(2) valid(2) Cons.prems(3)] obtain ps1 ps2 part1 where
      "ps = ps1 @ ps2" "us = concat (map encode_packet ps1) @ part1" "incomplete part1"
      "part1 @ ys = concat (map encode_packet ps2) @ partial" by blast
    with 2 show ?thesis by (intro exI [of _ "p # ps1"] exI [of _ ps2] exI [of _ part1]) simp
  qed
qed

lemma feed_packets:
  assumes "usbmux_ok e" and "mux_buffer (mux_dir out e) @ data = concat (map encode_packet ps) @ partial"
    and "list_all valid_packet ps" and "incomplete partial"
  shows "feed api out data e = map_option (set_buffer out partial) (run_opt (packet_step api out) (map packet_content ps) e)"
proof -
  let ?e = "set_buffer out (mux_buffer (mux_dir out e) @ data) e"
  have run: "feed_loop api out ?e = map_option (set_buffer out partial) (run_opt (packet_step api out) (map packet_content ps) ?e)"
    by (rule feed_loop_packets) (use assms in \<open>simp_all add: usbmux_ok_def\<close>)
  have "feed api out data e = feed_loop api out ?e"
  proof (cases "data = []")
    case True
    then have "?e = e" using set_buffer_same [of out e] by simp
    moreover have "feed_loop api out e = Some e"
    proof -
      have "incomplete (mux_buffer (mux_dir out e))" using assms(1) usbmux_ok_dirs by blast
      then show ?thesis
        by (cases "length (mux_buffer (mux_dir out e)) < 8") (auto simp: feed_loop_stop feed_loop_step feed_body_eq incomplete_def)
    qed
    ultimately show ?thesis using True by (simp add: feed_def)
  qed (simp add: feed_def)
  then show ?thesis by (simp add: run run_packets_set_buffer option.map_comp o_def)
qed

lemma run_packets_directions:
  "run_opt (packet_step api out) ps e = Some e' \<Longrightarrow> directions e' = directions e"
proof (induction ps arbitrary: e)
  case (Cons p ps)
  from Cons.prems obtain e1 where e1: "packet_step api out p e = Some e1" "run_opt (packet_step api out) ps e1 = Some e'"
    by (auto elim: bind_Some_elim)
  with Cons.IH processPacket_directions show ?case by (metis packet_step_def)
qed simp

lemma run_packets_resyncs:
  "processPacket api out protocol payload e = Some e' \<Longrightarrow> m_resyncs e' = m_resyncs e"
proof -
  assume "processPacket api out protocol payload e = Some e'"
  then have "e' = graft e e'" using processPacket_graft [of api out protocol payload e e] by simp
  then show "m_resyncs e' = m_resyncs e" by (metis m_resyncs_graft)
qed

lemma feed_chunks:
  assumes "usbmux_ok e" and "list_all valid_packet ps" and "incomplete partial"
    and "mux_buffer (mux_dir out e) @ concat chunks = concat (map encode_packet ps) @ partial"
  shows "\<exists>e'. run_opt (feed api out) chunks e = Some e' \<and>
     run_opt (packet_step api out) (map packet_content ps) e = Some (graft e e') \<and>
     mux_dir out e' = (mux_dir out e)\<lparr>mux_buffer := partial\<rparr> \<and> m_resyncs e' = m_resyncs e \<and> usbmux_ok e'"
  using assms
proof (induction chunks arbitrary: e ps)
  case Nil
  then have inc: "incomplete (concat (map encode_packet ps) @ partial)"
    using usbmux_ok_dirs [of e out] by auto
  have "ps = []"
  proof (cases ps)
    case (Cons p ps')
    with Nil.prems(2) have valid: "valid_packet p" by simp
    have "\<not> incomplete (encode_packet p)"
      using packet_size_ge [of p] mux_length_encode [of p "[]"] packet_size_le [OF valid] framing_encode [OF valid, of "[]"]
      by (simp add: incomplete_def unat_size)
    moreover have "incomplete (encode_packet p)"
      by (rule incomplete_prefix) (use inc in \<open>simp add: Cons\<close>)
    ultimately show ?thesis by simp
  qed
  with Nil.prems show ?case by simp
next
  case (Cons x chunks)
  from split_packets [of "mux_buffer (mux_dir out e) @ x" "concat chunks" ps partial] Cons.prems
  obtain ps1 ps2 part1 where split: "ps = ps1 @ ps2" "mux_buffer (mux_dir out e) @ x = concat (map encode_packet ps1) @ part1"
    "incomplete part1" "part1 @ concat chunks = concat (map encode_packet ps2) @ partial" by auto
  have valid: "list_all valid_packet ps1" "list_all valid_packet ps2" using Cons.prems(2) split(1) by simp_all
  have wf: "usbmux_wf e" using Cons.prems(1) by (simp add: usbmux_ok_def)
  obtain e1 where e1: "run_opt (packet_step api out) (map packet_content ps1) e = Some e1"
    using run_packets_ok [OF wf] by blast
  let ?e1 = "set_buffer out part1 e1"
  have fed: "feed api out x e = Some ?e1"
    using feed_packets [OF Cons.prems(1) split(2) valid(1) split(3)] e1 by simp
  have dir: "mux_dir out e1 = mux_dir out e" using mux_dir_directions [OF run_packets_directions [OF e1]] .
  have graft1: "graft e e1 = e1" using run_packets_graft [of api out "map packet_content ps1" e e] e1 by simp
  have ok1: "usbmux_ok ?e1" using feed_ok [OF Cons.prems(1), of api out x] fed by simp
  from Cons.IH [OF ok1 valid(2) Cons.prems(3)] split(4)
  obtain e' where e': "run_opt (feed api out) chunks ?e1 = Some e'"
    "run_opt (packet_step api out) (map packet_content ps2) ?e1 = Some (graft ?e1 e')"
    "mux_dir out e' = (mux_dir out ?e1)\<lparr>mux_buffer := partial\<rparr>" "m_resyncs e' = m_resyncs ?e1" "usbmux_ok e'" by auto
  have "run_opt (packet_step api out) (map packet_content ps2) e1 = Some (graft e1 e')"
    using run_packets_core [of ?e1 e1 api out "map packet_content ps2"] e'(2) by simp
  moreover have "graft e1 e' = graft e e'" using graft1 by (metis graft_graft(2))
  moreover have "m_resyncs ?e1 = m_resyncs e" using graft1 by (metis m_resyncs_graft m_resyncs_set_buffer)
  ultimately show ?case
    using e' fed dir e1 by (simp add: split(1) run_opt_append)
qed

section \<open>Properties\<close>

text \<open>
  The bulk transfers of one direction, as the events of the expert.
\<close>

definition transfer :: "bool \<Rightarrow> byte list \<Rightarrow> expert_event" where
  "transfer out data = (if out then BulkOut data else BulkIn data)"

lemma core_base [simp]:
  "core (base_processBulkOut data e) = core e" "core (base_processBulkIn data e) = core e"
  by (simp_all add: core_def base_defs)

lemma mux_dir_base [simp]:
  "mux_dir out (base_processBulkOut data e) = mux_dir out e" "mux_dir out (base_processBulkIn data e) = mux_dir out e"
  by (simp_all add: mux_dir_def base_defs)

lemma resyncs_base [simp]:
  "m_resyncs (base_processBulkOut data e) = m_resyncs e" "m_resyncs (base_processBulkIn data e) = m_resyncs e"
  by (simp_all add: base_defs)

definition counted :: "bool \<Rightarrow> byte list \<Rightarrow> 'p usbmux_expert \<Rightarrow> 'p usbmux_expert" where
  "counted out data e = (if out then base_processBulkOut data e else base_processBulkIn data e)"

lemma counted_simps [simp]:
  "core (counted out data e) = core e" "mux_dir dir (counted out data e) = mux_dir dir e"
  "m_resyncs (counted out data e) = m_resyncs e" "usbmux_ok (counted out data e) = usbmux_ok e"
  by (simp_all add: counted_def)

lemma usbmux_step_transfer: "usbmux_step api (transfer out data) e = feed api out data (counted out data e)"
  by (simp add: usbmux_step_def transfer_def counted_def usbmux_processBulkOut_def usbmux_processBulkIn_def)

lemma usbmux_transfers:
  assumes "usbmux_ok e" and "list_all valid_packet ps" and "incomplete partial"
    and "mux_buffer (mux_dir out e) @ concat chunks = concat (map encode_packet ps) @ partial"
  shows "\<exists>e' e''. run_opt (usbmux_step api) (map (transfer out) chunks) e = Some e' \<and>
     run_opt (packet_step api out) (map packet_content ps) e = Some e'' \<and> core e' = core e'' \<and>
     mux_dir out e' = (mux_dir out e)\<lparr>mux_buffer := partial\<rparr> \<and> m_resyncs e' = m_resyncs e"
  using assms
proof (induction chunks arbitrary: e ps)
  case Nil
  from feed_chunks [OF Nil.prems(1-3), of out "[]" api] Nil.prems(4) show ?case by auto
next
  case (Cons x chunks)
  let ?c = "counted out x e"
  have okc: "usbmux_ok ?c" using Cons.prems(1) by simp
  from split_packets [of "mux_buffer (mux_dir out e) @ x" "concat chunks" ps partial] Cons.prems
  obtain ps1 ps2 part1 where split: "ps = ps1 @ ps2" "mux_buffer (mux_dir out e) @ x = concat (map encode_packet ps1) @ part1"
    "incomplete part1" "part1 @ concat chunks = concat (map encode_packet ps2) @ partial" by auto
  have valid: "list_all valid_packet ps1" "list_all valid_packet ps2" using Cons.prems(2) split(1) by simp_all
  from feed_chunks [OF okc valid(1) split(3), of out "[x]" api] split(2)
  obtain e1 where e1: "feed api out x ?c = Some e1" "run_opt (packet_step api out) (map packet_content ps1) ?c = Some (graft ?c e1)"
    "mux_dir out e1 = (mux_dir out e)\<lparr>mux_buffer := part1\<rparr>" "m_resyncs e1 = m_resyncs e" "usbmux_ok e1"
    by (auto elim: bind_Some_elim)
  from Cons.IH [OF e1(5) valid(2) Cons.prems(3)] e1(3) split(4)
  obtain e' e2 where e': "run_opt (usbmux_step api) (map (transfer out) chunks) e1 = Some e'"
    "run_opt (packet_step api out) (map packet_content ps2) e1 = Some e2" "core e' = core e2"
    "mux_dir out e' = (mux_dir out e)\<lparr>mux_buffer := partial\<rparr>" "m_resyncs e' = m_resyncs e" by (auto simp: e1(4))
  have r1: "run_opt (packet_step api out) (map packet_content ps1) e = Some (graft e e1)"
    using run_packets_core [of ?c e api out "map packet_content ps1"] e1(2) by simp
  have r2: "run_opt (packet_step api out) (map packet_content ps2) (graft e e1) = Some (graft e e2)"
    using run_packets_graft [of api out "map packet_content ps2" e e1] e'(2) by simp
  show ?case
    using e1(1) e' r1 r2 by (simp add: usbmux_step_transfer split(1) run_opt_append)
qed

text \<open>
  C16: usbmux packets are recovered from the bulk transfers whatever their boundaries: if the transfers of
  one direction carry the encodings of the packets \<open>ps\<close>, with short or long headers, followed by the
  beginning of a further packet, then the expert has processed exactly these packets, in order and each
  once, keeps that beginning for later, and has not lost framing.
\<close>

theorem usbmux_packets_reassembled:
  assumes "usbmux_ok e" and "mux_buffer (mux_dir out e) = []" and "list_all valid_packet ps"
    and "incomplete partial" and "concat chunks = concat (map encode_packet ps) @ partial"
  shows "\<exists>e' e''. run_opt (usbmux_step api) (map (transfer out) chunks) e = Some e' \<and>
     run_opt (packet_step api out) (map packet_content ps) e = Some e'' \<and> core e' = core e'' \<and>
     mux_buffer (mux_dir out e') = partial \<and> m_resyncs e' = m_resyncs e"
proof -
  have "mux_buffer (mux_dir out e) @ concat chunks = concat (map encode_packet ps) @ partial"
    using assms(2,5) by simp
  from usbmux_transfers [OF assms(1,3,4) this, of api] show ?thesis by auto
qed

lemma mux_dir_new [simp]: "mux_dir out (new_usbmux_expert c i) = \<lparr>mux_outbound = out, mux_buffer = []\<rparr>"
  by (simp add: mux_dir_def new_usbmux_expert_def interface_expert.defs usbmux_expert.defs)

lemma usbmux_packets_reassembled_witness:
  "\<exists>e' e''. run_opt (usbmux_step sample_api) (map (transfer True)
       [[0, 0, 0], [0, 0, 0, 0, 12, 0], [0, 0, 2, 0, 0, 0, 0, 0, 0, 0, 20, 0xFA], [0xCE, 0xFA, 0xCE, 0, 7, 0, 8, 0, 0, 0, 1, 0, 0]])
       (new_usbmux_expert 1 1) = Some e' \<and>
     run_opt (packet_step sample_api True) (map packet_content [V1 0 [0, 0, 0, 2], V2 0 0xFACEFACE 7 8 [0, 0, 0, 1]])
       (new_usbmux_expert 1 1) = Some e'' \<and>
     core e' = core e'' \<and> mux_buffer (mux_dir True e') = [0, 0] \<and> m_resyncs e' = m_resyncs (new_usbmux_expert 1 1 :: sample_node usbmux_expert)"
  by (rule usbmux_packets_reassembled)
     (simp_all add: enc_be32_eq enc_be16_eq is_magic_def incomplete_def)
text \<open>
  C18: Losing framing costs what is buffered and nothing else.  When the bytes buffered for a direction do
  not start with a usbmux header, the transfer is counted as a resynchronisation and dropped, without an
  effect on any stream; packets that start with the next transfer are then recovered as if nothing had
  happened.
\<close>

theorem usbmux_resynchronises:
  assumes "usbmux_ok e" and "data \<noteq> []" and "8 \<le> length (mux_buffer (mux_dir out e) @ data)"
    and "lost_framing (mux_buffer (mux_dir out e) @ data)"
    and "list_all valid_packet ps" and "concat chunks = concat (map encode_packet ps)"
  shows "\<exists>e' e''. run_opt (usbmux_step api) (map (transfer out) (data # chunks)) e = Some e' \<and>
     run_opt (packet_step api out) (map packet_content ps) e = Some e'' \<and> core e' = core e'' \<and>
     mux_buffer (mux_dir out e') = [] \<and> m_resyncs e' = m_resyncs e + 1"
proof -
  let ?c = "counted out data e"
  define e1 where "e1 = set_buffer out [] (?c\<lparr>m_resyncs := m_resyncs e + 1\<rparr>)"
  have "feed_body api out (set_buffer out (mux_buffer (mux_dir out e) @ data) ?c) =
      Some (Return (set_buffer out [] ((set_buffer out (mux_buffer (mux_dir out e) @ data) ?c)\<lparr>m_resyncs := m_resyncs e + 1\<rparr>)))"
    using assms(3,4) by (simp add: feed_body_eq)
  also have "set_buffer out [] ((set_buffer out (mux_buffer (mux_dir out e) @ data) ?c)\<lparr>m_resyncs := m_resyncs e + 1\<rparr>) = e1"
    by (simp add: e1_def set_buffer_def)
  finally have step: "usbmux_step api (transfer out data) e = Some e1"
    using assms(2,3) by (simp add: usbmux_step_transfer feed_def feed_loop_step)
  have e1: "core e1 = core e" "mux_buffer (mux_dir out e1) = []" "m_resyncs e1 = m_resyncs e + 1"
    by (simp_all add: e1_def)
  have ok: "usbmux_ok e1"
    using feed_ok [of ?c api out data] assms(1) step by (auto simp: usbmux_step_transfer)
  have "mux_buffer (mux_dir out e1) @ concat chunks = concat (map encode_packet ps) @ []"
    using assms(6) e1(2) by simp
  from usbmux_transfers [OF ok assms(5) _ this, of api] obtain e' e2 where
    e': "run_opt (usbmux_step api) (map (transfer out) chunks) e1 = Some e'"
      "run_opt (packet_step api out) (map packet_content ps) e1 = Some e2" "core e' = core e2"
      "mux_buffer (mux_dir out e') = []" "m_resyncs e' = m_resyncs e1"
    by (auto simp: incomplete_def)
  have "run_opt (packet_step api out) (map packet_content ps) e = Some (graft e e2)"
    using run_packets_core [of e1 e api out "map packet_content ps"] e1(1) e'(2) by simp
  with step e' e1(3) show ?thesis by simp
qed

lemma usbmux_resynchronises_witness:
  "\<exists>e' e''. run_opt (usbmux_step sample_api) (map (transfer False)
       ([1, 2, 3, 4, 5, 6, 7, 8, 9] # [[0, 0, 0, 0, 0, 0, 0], [12, 0, 0, 0, 2]])) (new_usbmux_expert 1 1) = Some e' \<and>
     run_opt (packet_step sample_api False) (map packet_content [V1 0 [0, 0, 0, 2]]) (new_usbmux_expert 1 1) = Some e'' \<and>
     core e' = core e'' \<and> mux_buffer (mux_dir False e') = [] \<and>
     m_resyncs e' = m_resyncs (new_usbmux_expert 1 1 :: sample_node usbmux_expert) + 1"
  by (rule usbmux_resynchronises)
     (simp_all add: enc_be32_eq lost_framing_def mux_length_def unat_be32 MAX_MUX_PACKET_def word_less_nat_alt)

text \<open>
  C17: No capture makes the usbmux expert fault: whatever transfers it is given from its creation on, every
  access stays inside a buffer, every stream it looks up exists, the loop ends with less than one MiB
  buffered in each direction, the invariant holds again, and the counters of the base class are right.
\<close>

theorem usbmux_never_faults:
  "\<exists>e. run_opt (usbmux_step api) evs (new_usbmux_expert configuration interface) = Some e \<and> usbmux_ok e \<and>
     length (mux_buffer (mux_dir out e)) < 1024 * 1024 \<and>
     base_of e = fold base_count evs (new_interface_expert configuration interface)"
proof -
  obtain e where e: "run_opt (usbmux_step api) evs (new_usbmux_expert configuration interface) = Some e"
    "usbmux_ok e" "base_of e = fold base_count evs (base_of (new_usbmux_expert configuration interface :: 'a usbmux_expert))"
    using usbmux.run_ok [OF new_usbmux_expert_ok, of api evs configuration interface] by blast
  moreover have "base_of (new_usbmux_expert configuration interface :: 'a usbmux_expert) = new_interface_expert configuration interface"
    by (simp add: base_of_def new_usbmux_expert_def interface_expert.defs usbmux_expert.defs)
  moreover have "incomplete (mux_buffer (mux_dir out e))" using e(2) usbmux_ok_dirs by blast
  ultimately show ?thesis using incomplete_bound by simp
qed

end
