(* ===== verification/USBMUX_Demux.thy ===== *)
theory USBMUX_Demux
  imports USBMUX_Reassembly
begin

text \<open>
  What the demultiplexing of the usbmux expert guarantees: each connection is reconstructed from its own
  segments alone, connections on the same ports one after the other are kept apart, services are named
  after what lockdownd announced, and every conversation is written to a file of its own.
\<close>

section \<open>Segments and their connections\<close>

text \<open>A segment is its direction and the TCP packet, header and data.\<close>

type_synonym segment = "bool \<times> byte list"

definition host_port :: "segment \<Rightarrow> u16" where
  "host_port seg = (if fst seg then segment_source (snd seg) else segment_dest (snd seg))"

definition device_port :: "segment \<Rightarrow> u16" where
  "device_port seg = (if fst seg then segment_dest (snd seg) else segment_source (snd seg))"

definition belongs :: "u16 \<Rightarrow> u16 \<Rightarrow> segment \<Rightarrow> bool" where
  "belongs h d seg \<longleftrightarrow> 20 \<le> length (snd seg) \<and> host_port seg = h \<and> device_port seg = d"

definition opens :: "segment \<Rightarrow> bool" where
  "opens seg \<longleftrightarrow> fst seg \<and> segment_flags (snd seg) AND USB_TCP_FLAG_SYN \<noteq> 0 \<and>
     segment_flags (snd seg) AND USB_TCP_FLAG_ACK = 0"

definition tcp_step :: "'p plist_api \<Rightarrow> segment \<Rightarrow> 'p usbmux_expert \<Rightarrow> 'p usbmux_expert option" where
  "tcp_step api seg e = processTCP api (fst seg) (snd seg) e"

text \<open>What a segment means to the stream it belongs to, whatever else the expert holds.\<close>

definition segment_step :: "'p plist_api \<Rightarrow> segment \<Rightarrow> 'p mux_stream \<Rightarrow> 'p mux_stream option" where
  "segment_step api seg s = do {
     s1 \<leftarrow> (if segment_data (snd seg) = [] then Some s else stream_step api (fst seg, segment_data (snd seg)) s);
     Some (if segment_flags (snd seg) AND (USB_TCP_FLAG_RST OR USB_TCP_FLAG_FIN) \<noteq> 0 then close s1 else s1)
   }"

lemma select_stream_segment:
  "select_stream (fst seg) (segment_flags (snd seg)) (segment_source (snd seg)) (segment_dest (snd seg)) e =
     (if opens seg then beginStream (host_port seg) (device_port seg) e else getStreamId (host_port seg) (device_port seg) e)"
  by (simp add: select_stream_def opens_def host_port_def device_port_def)

lemma tcp_step_long:
  "20 \<le> length (snd seg) \<Longrightarrow> tcp_step api seg e =
     (case (if opens seg then beginStream (host_port seg) (device_port seg) e
            else getStreamId (host_port seg) (device_port seg) e) of
        (i, e1) \<Rightarrow> Option.bind (deliver api (fst seg) i (segment_data (snd seg)) e1) (close_on (segment_flags (snd seg)) i))"
  by (simp add: tcp_step_def processTCP_long select_stream_segment)

text \<open>
  Delivery to a stream of the map: the stream takes the step of its own, no other stream changes, and
  the index does not change either.
\<close>

lemma deliver_close:
  assumes "usbmux_wf e" and "om_find (m_streams e) i = Some s"
  shows "\<exists>e' s'. Option.bind (deliver api (fst seg) i (segment_data (snd seg)) e) (close_on (segment_flags (snd seg)) i) = Some e' \<and>
     segment_step api seg s = Some s' \<and> usbmux_wf e' \<and> m_streamIndex e' = m_streamIndex e \<and>
     (\<forall>k. om_find (m_streams e') k = (if k = i then Some s' else om_find (m_streams e) k)) \<and>
     m_serviceNames e' = (if m_device s \<noteq> LOCKDOWN_PORT then m_serviceNames e
       else fold (learn_message api) (drop (length (m_messages s)) (m_messages s')) (m_serviceNames e))"
proof -
  obtain e1 s1 where e1: "deliver api (fst seg) i (segment_data (snd seg)) e = Some e1"
    "(if segment_data (snd seg) = [] then Some s else stream_step api (fst seg, segment_data (snd seg)) s) = Some s1"
    "usbmux_wf e1" "m_streamIndex e1 = m_streamIndex e" "m_device s1 = m_device s"
    "\<forall>k. om_find (m_streams e1) k = (if k = i then Some s1 else om_find (m_streams e) k)"
    "m_serviceNames e1 = (if m_device s \<noteq> LOCKDOWN_PORT then m_serviceNames e
       else fold (learn_message api) (drop (length (m_messages s)) (m_messages s1)) (m_serviceNames e))"
  proof (cases "segment_data (snd seg) = []")
    case True
    with that [of e s] assms show ?thesis by (simp add: deliver_def)
  next
    case False
    from deliver_eq [OF assms False, of "fst seg" api] obtain s1 where
      s1: "(if fst seg then sendBytes api (segment_data (snd seg)) s else receiveBytes api (segment_data (snd seg)) s) = Some s1"
        "deliver api (fst seg) i (segment_data (snd seg)) e =
           Some (learnServices api s1 (length (m_messages s)) (e\<lparr>m_streams := om_put i s1 (m_streams e)\<rparr>))"
        "usbmux_wf (learnServices api s1 (length (m_messages s)) (e\<lparr>m_streams := om_put i s1 (m_streams e)\<rparr>))" by blast
    have "m_device s1 = m_device s"
      using s1(1) by (auto simp: sendBytes_def receiveBytes_def split: if_splits elim!: bind_Some_elim)
    show ?thesis
      by (rule that [of _ s1, OF s1(2) _ s1(3)])
        (use s1(1) False \<open>m_device s1 = m_device s\<close> in \<open>auto simp: stream_step_def learnServices_def om_find_put\<close>)
  qed
  have find: "om_find (m_streams e1) i = Some s1" using e1(6) by simp
  show ?thesis
  proof (cases "segment_flags (snd seg) AND (USB_TCP_FLAG_RST OR USB_TCP_FLAG_FIN) \<noteq> 0")
    case True
    have "stream_ok (m_host s1) (m_device s1) (close s1)" using wf_stream(1) [OF e1(3) find] by simp
    from wf_put_stream [OF e1(3) find this] show ?thesis
      using e1 True find by (simp add: segment_step_def close_on_def update_stream_def om_find_put close_def)
  next
    case False
    with e1 show ?thesis by (simp add: segment_step_def close_on_def)
  qed
qed

text \<open>The ports of a segment whose connection the expert already follows, and of one that starts afresh.\<close>

definition known :: "segment \<Rightarrow> 'p usbmux_expert \<Rightarrow> bool" where
  "known seg e \<longleftrightarrow> \<not> opens seg \<and> om_contains (m_streamIndex e) (STREAM_PORT (host_port seg) (device_port seg))"

definition next_index :: "u16 \<Rightarrow> u16 \<Rightarrow> 'p usbmux_expert \<Rightarrow> u32" where
  "next_index h d e = om_get 0 (m_streamIndex e) (STREAM_PORT h d) + 1"

definition fresh_stream :: "u16 \<Rightarrow> u16 \<Rightarrow> 'p usbmux_expert \<Rightarrow> 'p mux_stream" where
  "fresh_stream h d e = initial_service d e (new_mux_stream h d)"

lemma fresh_stream_ports [simp]: "m_host (fresh_stream h d e) = h" "m_device (fresh_stream h d e) = d"
  by (simp_all add: fresh_stream_def)

lemma tcp_step_known:
  assumes "usbmux_wf e" and "belongs h d seg" and "\<not> opens seg"
    and "om_find (m_streamIndex e) (STREAM_PORT h d) = Some i" and "om_find (m_streams e) (STREAM_ID h d i) = Some s"
  shows "\<exists>e' s'. tcp_step api seg e = Some e' \<and> segment_step api seg s = Some s' \<and> usbmux_wf e' \<and>
     m_streamIndex e' = m_streamIndex e \<and>
     (\<forall>k. om_find (m_streams e') k = (if k = STREAM_ID h d i then Some s' else om_find (m_streams e) k)) \<and>
     m_serviceNames e' = (if d \<noteq> LOCKDOWN_PORT then m_serviceNames e
       else fold (learn_message api) (drop (length (m_messages s)) (m_messages s')) (m_serviceNames e))"
proof -
  have "m_device s = d" using wf_stream(2) [OF assms(1,5)] by simp
  with deliver_close [OF assms(1,5), of api seg] assms(2-4) show ?thesis
    by (simp add: tcp_step_long belongs_def getStreamId_def)
qed

lemma tcp_step_fresh:
  assumes "usbmux_wf e" and "belongs h d seg" and "\<not> known seg e"
  shows "\<exists>e' s'. tcp_step api seg e = Some e' \<and> segment_step api seg (fresh_stream h d e) = Some s' \<and> usbmux_wf e' \<and>
     m_streamIndex e' = om_put (STREAM_PORT h d) (next_index h d e) (m_streamIndex e) \<and>
     (\<forall>k. om_find (m_streams e') k =
        (if k = STREAM_ID h d (next_index h d e) then Some s' else om_find (m_streams e) k)) \<and>
     m_serviceNames e' = (if d \<noteq> LOCKDOWN_PORT then m_serviceNames e
       else fold (learn_message api) (drop (length (m_messages (fresh_stream h d e))) (m_messages s')) (m_serviceNames e))"
proof -
  have ports: "host_port seg = h" "device_port seg = d" "20 \<le> length (snd seg)" using assms(2) by (simp_all add: belongs_def)
  obtain j e1 where started: "beginStream h d e = (j, e1)" by fastforce
  have e1: "j = STREAM_ID h d (next_index h d e)" "e1 = e\<lparr>m_streamIndex := om_put (STREAM_PORT h d) (next_index h d e) (m_streamIndex e),
      m_streams := om_put (STREAM_ID h d (next_index h d e)) (fresh_stream h d e) (m_streams e)\<rparr>"
    using started by (auto simp: beginStream_eq Let_def next_index_def fresh_stream_def)
  have "usbmux_wf e1" using beginStream_wf [OF assms(1), of h d] started by simp
  moreover have "om_find (m_streams e1) j = Some (fresh_stream h d e)" by (simp add: e1 om_find_put)
  moreover have "(if opens seg then beginStream h d e else getStreamId h d e) = (j, e1)"
    using assms(3) started by (auto simp: known_def getStreamId_def om_contains_find ports split: option.split)
  ultimately show ?thesis
    using deliver_close [of e1 j "fresh_stream h d e" api seg]
    by (auto simp: tcp_step_long [OF ports(3)] ports e1 om_find_put)
qed

text \<open>A segment too short for a TCP header is ignored.\<close>

lemma tcp_step_short: "length (snd seg) < 20 \<Longrightarrow> tcp_step api seg e = Some e"
  by (simp add: tcp_step_def processTCP_short)

lemma tcp_step_ok: "usbmux_wf e \<Longrightarrow> \<exists>e'. tcp_step api seg e = Some e' \<and> usbmux_wf e'"
  by (simp add: tcp_step_def processTCP_ok)

text \<open>A segment of another connection leaves a stream and its index alone.\<close>

lemma tcp_step_other:
  assumes "usbmux_wf e" and "\<not> belongs h d seg" and "tcp_step api seg e = Some e'"
  shows "om_find (m_streamIndex e') (STREAM_PORT h d) = om_find (m_streamIndex e) (STREAM_PORT h d) \<and>
     om_find (m_streams e') (STREAM_ID h d i) = om_find (m_streams e) (STREAM_ID h d i)"
proof (cases "20 \<le> length (snd seg)")
  case False
  with assms(3) show ?thesis by (simp add: tcp_step_short)
next
  case True
  define h' d' where "h' = host_port seg" and "d' = device_port seg"
  have b: "belongs h' d' seg" using True by (simp add: belongs_def h'_def d'_def)
  have ne: "\<not> (h = h' \<and> d = d')" using assms(2) b by auto
  show ?thesis
  proof (cases "known seg e")
    case True
    then obtain i' where i': "om_find (m_streamIndex e) (STREAM_PORT h' d') = Some i'" "\<not> opens seg"
      by (auto simp: known_def om_contains_find h'_def d'_def)
    then obtain s where s: "om_find (m_streams e) (STREAM_ID h' d' i') = Some s"
      using assms(1) unfolding usbmux_wf_def indexed_def om_contains_find by blast
    from tcp_step_known [OF assms(1) b i'(2,1) s, of api] assms(3) ne show ?thesis by auto
  next
    case False
    from tcp_step_fresh [OF assms(1) b False, of api] assms(3) ne show ?thesis by (auto simp: om_find_put)
  qed
qed

section \<open>A connection in the middle of everything else\<close>

lemma tcp_run_connection:
  assumes "usbmux_wf e" and "om_find (m_streamIndex e) (STREAM_PORT h d) = Some i"
    and "om_find (m_streams e) (STREAM_ID h d i) = Some s" and "list_all (\<lambda>seg. \<not> (belongs h d seg \<and> opens seg)) segs"
  shows "\<exists>e' s'. run_opt (tcp_step api) segs e = Some e' \<and>
     run_opt (segment_step api) (filter (belongs h d) segs) s = Some s' \<and> usbmux_wf e' \<and>
     om_find (m_streamIndex e') (STREAM_PORT h d) = Some i \<and> om_find (m_streams e') (STREAM_ID h d i) = Some s'"
  using assms
proof (induction segs arbitrary: e s)
  case (Cons seg segs)
  show ?case
  proof (cases "belongs h d seg")
    case True
    with Cons.prems(4) have no: "\<not> opens seg" by simp
    from tcp_step_known [OF Cons.prems(1) True no Cons.prems(2,3), of api] obtain e1 s1 where
      e1: "tcp_step api seg e = Some e1" "segment_step api seg s = Some s1" "usbmux_wf e1"
        "m_streamIndex e1 = m_streamIndex e" "om_find (m_streams e1) (STREAM_ID h d i) = Some s1" by auto
    from Cons.IH [OF e1(3) _ e1(5)] Cons.prems(2,4) e1 True show ?thesis by simp
  next
    case False
    obtain e1 where e1: "tcp_step api seg e = Some e1" "usbmux_wf e1" using tcp_step_ok [OF Cons.prems(1)] by blast
    from tcp_step_other [OF Cons.prems(1) False e1(1), of i] Cons.prems(2,3)
    have "om_find (m_streamIndex e1) (STREAM_PORT h d) = Some i" "om_find (m_streams e1) (STREAM_ID h d i) = Some s"
      by simp_all
    from Cons.IH [OF e1(2) this] Cons.prems(4) e1 False show ?thesis by simp
  qed
qed simp

text \<open>The data of a connection, as segments of its stream; closing a stream does not change what it holds.\<close>

definition conn_data :: "segment list \<Rightarrow> (bool \<times> byte list) list" where
  "conn_data segs = map (\<lambda>seg. (fst seg, segment_data (snd seg))) segs"

lemma stream_step_closed:
  "stream_step api x (s\<lparr>m_closed := c\<rparr>) = map_option (\<lambda>s. s\<lparr>m_closed := c\<rparr>) (stream_step api x s)"
proof -
  obtain d ms where out: "consume api (snd x) (m_out s, m_messages s) = Some (d, ms)" using consume_safe by blast
  obtain d' ms' where inn: "consume api (snd x) (m_in s, m_messages s) = Some (d', ms')" using consume_safe by blast
  show ?thesis by (cases s) (use out inn in \<open>simp add: stream_step_def sendBytes_def receiveBytes_def\<close>)
qed

lemma stream_step_Nil: "stream_step api (b, []) s = Some s"
  by (simp add: stream_step_def sendBytes_def receiveBytes_def consume_Nil)

lemma segment_step_stream:
  "segment_step api seg s = Some s' \<Longrightarrow>
   \<exists>s1 c. stream_step api (fst seg, segment_data (snd seg)) s = Some s1 \<and> s' = s1\<lparr>m_closed := c\<rparr>"
proof -
  assume "segment_step api seg s = Some s'"
  then obtain s1 where s1: "stream_step api (fst seg, segment_data (snd seg)) s = Some s1" "s' = close s1 \<or> s' = s1"
    by (auto simp: segment_step_def stream_step_Nil split: if_splits elim!: bind_Some_elim)
  moreover have "s1 = s1\<lparr>m_closed := m_closed s1\<rparr>" by simp
  ultimately show ?thesis unfolding close_def by blast
qed

lemma segment_run_stream:
  "run_opt (segment_step api) segs s = Some s' \<Longrightarrow>
   \<exists>s1 c. run_opt (stream_step api) (conn_data segs) s = Some s1 \<and> s' = s1\<lparr>m_closed := c\<rparr>"
proof (induction segs arbitrary: s)
  case Nil
  then show ?case by (intro exI [of _ s] exI [of _ "m_closed s"]) (simp add: conn_data_def)
next
  case (Cons seg segs)
  from Cons.prems obtain s0 where s0: "segment_step api seg s = Some s0" "run_opt (segment_step api) segs s0 = Some s'"
    by (auto elim: bind_Some_elim)
  from segment_step_stream [OF s0(1)] obtain s1 c where
    s1: "stream_step api (fst seg, segment_data (snd seg)) s = Some s1" "s0 = s1\<lparr>m_closed := c\<rparr>" by blast
  from Cons.IH [OF s0(2)] obtain s2 c' where
    s2: "run_opt (stream_step api) (conn_data segs) s0 = Some s2" "s' = s2\<lparr>m_closed := c'\<rparr>" by blast
  have closed: "run_opt (stream_step api) xs (s1\<lparr>m_closed := c\<rparr>) = map_option (\<lambda>s. s\<lparr>m_closed := c\<rparr>) (run_opt (stream_step api) xs s1)"
    for xs s1
    by (induction xs arbitrary: s1) (simp_all add: stream_step_closed bind_map_option map_option_bind o_def)
  obtain s3 where s3: "run_opt (stream_step api) (conn_data segs) s1 = Some s3" "s2 = s3\<lparr>m_closed := c\<rparr>"
    using s2(1) by (auto simp: s1(2) closed)
  show ?case using s1(1) s2(2) s3 by (intro exI [of _ s3] exI [of _ c']) (simp add: conn_data_def)
qed

lemma fresh_stream_state [simp]:
  "m_out (fresh_stream h d e) = new_direction True" "m_in (fresh_stream h d e) = new_direction False"
  "m_messages (fresh_stream h d e) = []"
  by (simp_all add: fresh_stream_def initial_service_def setServiceName_def split: option.split)

lemma fresh_run_messages:
  assumes "run_opt (segment_step api) segs (fresh_stream h d e) = Some s'"
    and "well_framed outs" and "concat (sent (conn_data segs)) = concat (map frame outs)"
    and "well_framed ins" and "concat (received (conn_data segs)) = concat (map frame ins)"
  shows "messages_out s' = map (message_of api True) outs \<and> messages_in s' = map (message_of api False) ins"
proof -
  from segment_run_stream [OF assms(1)] obtain s1 c where
    s1: "run_opt (stream_step api) (conn_data segs) (fresh_stream h d e) = Some s1" "s' = s1\<lparr>m_closed := c\<rparr>" by blast
  have u: "unambiguous (new_direction True) (concat (sent (conn_data segs)))"
    "unambiguous (new_direction False) (concat (received (conn_data segs)))"
    using assms(2-5) by (simp_all only: well_framed_unambiguous)
  from stream_run_directions [OF s1(1)] u
  have "consume api (concat (sent (conn_data segs))) (new_direction True, []) = Some (m_out s1, messages_out s1)"
    "consume api (concat (received (conn_data segs))) (new_direction False, []) = Some (m_in s1, messages_in s1)"
    by (simp_all add: consume_segments messages_out_def messages_in_def)
  with consume_frames [OF assms(2), of api True] consume_frames [OF assms(4), of api False] assms(3,5)
  show ?thesis by (auto simp: s1(2) messages_out_def messages_in_def)
qed

lemma connection_run:
  assumes "usbmux_wf e" and "belongs h d syn" and "opens syn"
    and "list_all (\<lambda>seg. \<not> (belongs h d seg \<and> opens seg)) segs"
  shows "\<exists>e' s'. run_opt (tcp_step api) (syn # segs) e = Some e' \<and>
     run_opt (segment_step api) (filter (belongs h d) (syn # segs)) (fresh_stream h d e) = Some s' \<and>
     om_find (m_streams e') (STREAM_ID h d (next_index h d e)) = Some s'"
proof -
  have "\<not> known syn e" using assms(3) by (simp add: known_def)
  from tcp_step_fresh [OF assms(1,2) this, of api] obtain e1 s1 where
    e1: "tcp_step api syn e = Some e1" "segment_step api syn (fresh_stream h d e) = Some s1" "usbmux_wf e1"
      "m_streamIndex e1 = om_put (STREAM_PORT h d) (next_index h d e) (m_streamIndex e)"
      "om_find (m_streams e1) (STREAM_ID h d (next_index h d e)) = Some s1" by auto
  have "om_find (m_streamIndex e1) (STREAM_PORT h d) = Some (next_index h d e)" by (simp add: e1(4) om_find_put)
  from tcp_run_connection [OF e1(3) this e1(5) assms(4), of api] e1 assms(2) show ?thesis by auto
qed

lemma new_usbmux_expert_wf [simp]: "usbmux_wf (new_usbmux_expert c i)"
  using new_usbmux_expert_ok unfolding usbmux_ok_def by blast

text \<open>A segment as usbmuxd writes it: a header of twenty bytes and the data.\<close>

definition tcp_segment :: "u16 \<Rightarrow> u16 \<Rightarrow> u16 \<Rightarrow> byte list \<Rightarrow> byte list" where
  "tcp_segment source dest flags data = enc_be16 source @ enc_be16 dest @ replicate 8 0 @
     enc_be16 (0x5000 OR (flags AND 0x3F)) @ replicate 6 0 @ data"

lemma enc_be16_le: "enc_be16 w = enc16 (endian_reverse16 w)"
  by (simp add: enc_be16_def enc16_endian_reverse16)

lemma length_tcp_segment [simp]: "length (tcp_segment s d f data) = 20 + length data"
  by (simp add: tcp_segment_def)

lemma tcp_segment_fields [simp]:
  "segment_source (tcp_segment s d f data) = s" "segment_dest (tcp_segment s d f data) = d"
  "segment_flags (tcp_segment s d f data) = f AND 0x3F" "segment_data (tcp_segment s d f data) = data"
proof -
  define word where "word = (0x5000 OR (f AND 0x3F) :: u16)"
  have hdr: "field16 0 (tcp_segment s d f data) = endian_reverse16 s" "field16 2 (tcp_segment s d f data) = endian_reverse16 d"
    "field16 12 (tcp_segment s d f data) = endian_reverse16 word"
    by (simp_all add: tcp_segment_def word_def [symmetric] enc_be16_le field_skip field_here)
  have flags: "word AND 0x3F = f AND 0x3F" "drop_bit 12 word = 5"
    unfolding word_def by (rule bit_word_eqI; auto simp: bit_simps numeral_eq_Suc less_Suc_eq)+
  show "segment_source (tcp_segment s d f data) = s" "segment_dest (tcp_segment s d f data) = d"
    "segment_flags (tcp_segment s d f data) = f AND 0x3F" "segment_data (tcp_segment s d f data) = data"
    by (simp_all add: segment_source_def segment_dest_def segment_flags_def segment_data_def decode_tcphdr_def tcphdr_size_def
        field_take hdr flags) (simp add: tcp_segment_def)
qed

section \<open>Properties\<close>

text \<open>
  C14: Demultiplexing is exact: after a SYN from the host opens a connection, the stream the expert keeps
  for it is what the segments of this connection alone produce, in order, whatever segments of other
  connections, however many, are interleaved with them, until the same ports are opened again.
\<close>

theorem usbmux_connection_isolated:
  assumes "usbmux_wf e" and "belongs h d syn" and "opens syn"
    and "list_all (\<lambda>seg. \<not> (belongs h d seg \<and> opens seg)) segs"
  shows "\<exists>e' s'. run_opt (tcp_step api) (syn # segs) e = Some e' \<and>
     run_opt (segment_step api) (filter (belongs h d) (syn # segs)) (fresh_stream h d e) = Some s' \<and>
     om_find (m_streams e') (STREAM_ID h d (next_index h d e)) = Some s'"
  using connection_run [OF assms] .

abbreviation (input) sample_syn :: "u16 \<Rightarrow> u16 \<Rightarrow> segment" where
  "sample_syn h d \<equiv> (True, tcp_segment h d 2 [])"

lemma usbmux_connection_isolated_witness:
  "\<exists>e' s'. run_opt (tcp_step sample_api) (sample_syn 50000 62078 #
        [sample_syn 50001 1, (True, tcp_segment 50000 62078 16 [0, 0]), (False, tcp_segment 1 50001 16 [9]),
         (True, tcp_segment 50000 62078 17 [0, 9])]) (new_usbmux_expert 1 1) = Some e' \<and>
     run_opt (segment_step sample_api) (filter (belongs 50000 62078) (sample_syn 50000 62078 #
        [sample_syn 50001 1, (True, tcp_segment 50000 62078 16 [0, 0]), (False, tcp_segment 1 50001 16 [9]),
         (True, tcp_segment 50000 62078 17 [0, 9])]))
       (fresh_stream 50000 62078 (new_usbmux_expert 1 1)) = Some s' \<and>
     om_find (m_streams e') (STREAM_ID 50000 62078 (next_index 50000 62078 (new_usbmux_expert 1 1 :: sample_node usbmux_expert))) = Some s'"
  by (rule usbmux_connection_isolated)
     (simp_all add: belongs_def host_port_def device_port_def opens_def)

text \<open>
  C15: The conversation of a connection is recovered from the middle of any traffic: if the bytes its host
  and device sent are the frames of \<open>outs\<close> and of \<open>ins\<close>, then the stream of the connection holds one
  message for each of them, in order, with its direction and decoded content.
\<close>

theorem usbmux_conversation_recovered:
  assumes "usbmux_wf e" and "belongs h d syn" and "opens syn"
    and "list_all (\<lambda>seg. \<not> (belongs h d seg \<and> opens seg)) segs"
    and "well_framed outs" and "concat (sent (conn_data (filter (belongs h d) (syn # segs)))) = concat (map frame outs)"
    and "well_framed ins" and "concat (received (conn_data (filter (belongs h d) (syn # segs)))) = concat (map frame ins)"
  shows "\<exists>e' s'. run_opt (tcp_step api) (syn # segs) e = Some e' \<and>
     om_find (m_streams e') (STREAM_ID h d (next_index h d e)) = Some s' \<and>
     messages_out s' = map (message_of api True) outs \<and> messages_in s' = map (message_of api False) ins"
proof -
  from connection_run [OF assms(1-4), of api] obtain e' s' where
    e': "run_opt (tcp_step api) (syn # segs) e = Some e'"
      "run_opt (segment_step api) (filter (belongs h d) (syn # segs)) (fresh_stream h d e) = Some s'"
      "om_find (m_streams e') (STREAM_ID h d (next_index h d e)) = Some s'" by blast
  from fresh_run_messages [OF e'(2) assms(5-8)] e'(1,3) show ?thesis by blast
qed

lemma usbmux_conversation_recovered_witness:
  "\<exists>e' s'. run_opt (tcp_step sample_api) (sample_syn 50000 62078 #
        [sample_syn 50001 1, (True, tcp_segment 50000 62078 16 [0, 0, 0]), (False, tcp_segment 1 50001 16 [9]),
         (True, tcp_segment 50000 62078 17 (9 # small_plist)), (False, tcp_segment 62078 50000 16 ([0, 0, 0, 9] @ small_plist))])
        (new_usbmux_expert 1 1) = Some e' \<and>
     om_find (m_streams e') (STREAM_ID 50000 62078 (next_index 50000 62078 (new_usbmux_expert 1 1 :: sample_node usbmux_expert))) = Some s' \<and>
     messages_out s' = map (message_of sample_api True) [small_plist] \<and>
     messages_in s' = map (message_of sample_api False) [small_plist]"
  by (rule usbmux_conversation_recovered)
     (simp_all add: belongs_def host_port_def device_port_def opens_def conn_data_def sent_def received_def
        frame_small small_plist_def well_framed_def plausible_def signature_def BINARY_PLIST_PREFIX_def)

text \<open>
  A segment acts on one stream: the current one of its ports, or a new one when it opens a connection
  or the ports were never seen.  Every other stream, in particular every earlier connection of the same
  ports, stays as it is.
\<close>

theorem usbmux_segment_frame:
  assumes "usbmux_wf e" and "belongs h d seg"
  shows "\<exists>e' i. tcp_step api seg e = Some e' \<and>
     i = (if known seg e then om_get 0 (m_streamIndex e) (STREAM_PORT h d) else next_index h d e) \<and>
     om_find (m_streamIndex e') (STREAM_PORT h d) = Some i \<and> om_contains (m_streams e') (STREAM_ID h d i) \<and>
     map_of (filter (\<lambda>(k, s). k \<noteq> STREAM_ID h d i) (m_streams e')) =
       map_of (filter (\<lambda>(k, s). k \<noteq> STREAM_ID h d i) (m_streams e))"
proof -
  have find: "om_find m = map_of m" for m :: "(u64, 'a mux_stream) omap"
    by (rule ext) (induction m, auto)
  have restrict: "map_of (filter (\<lambda>(k, s). k \<noteq> j) m) = (map_of m)(j := None)" for j and m :: "(u64, 'a mux_stream) omap"
    by (induction m) auto
  show ?thesis
  proof (cases "known seg e")
    case True
    then obtain i where i: "om_find (m_streamIndex e) (STREAM_PORT h d) = Some i" "\<not> opens seg"
      using assms(2) by (auto simp: known_def om_contains_find belongs_def)
    obtain s where s: "om_find (m_streams e) (STREAM_ID h d i) = Some s"
      using assms(1) i(1) unfolding usbmux_wf_def indexed_def om_contains_find by blast
    from tcp_step_known [OF assms i(2,1) s, of api] obtain e' s' where
      e': "tcp_step api seg e = Some e'" "m_streamIndex e' = m_streamIndex e"
        "\<forall>k. om_find (m_streams e') k = (if k = STREAM_ID h d i then Some s' else om_find (m_streams e) k)" by blast
    have "(map_of (m_streams e'))(STREAM_ID h d i := None) = (map_of (m_streams e))(STREAM_ID h d i := None)"
      using e'(3) by (auto simp: find)
    with e' i True show ?thesis by (simp add: restrict om_get_def om_contains_find)
  next
    case False
    let ?i = "next_index h d e"
    from tcp_step_fresh [OF assms False, of api] obtain e' s' where
      e': "tcp_step api seg e = Some e'" "m_streamIndex e' = om_put (STREAM_PORT h d) ?i (m_streamIndex e)"
        "\<forall>k. om_find (m_streams e') k = (if k = STREAM_ID h d ?i then Some s' else om_find (m_streams e) k)" by blast
    have "(map_of (m_streams e'))(STREAM_ID h d ?i := None) = (map_of (m_streams e))(STREAM_ID h d ?i := None)"
      using e'(3) by (auto simp: find)
    with e' False show ?thesis by (simp add: restrict om_contains_find om_find_put)
  qed
qed

lemma usbmux_segment_frame_witness:
  "\<exists>e' i. tcp_step sample_api (sample_syn 50000 62078) (new_usbmux_expert 1 1) = Some e' \<and>
     i = (if known (sample_syn 50000 62078) (new_usbmux_expert 1 1 :: sample_node usbmux_expert)
          then om_get 0 (m_streamIndex (new_usbmux_expert 1 1 :: sample_node usbmux_expert)) (STREAM_PORT 50000 62078)
          else next_index 50000 62078 (new_usbmux_expert 1 1 :: sample_node usbmux_expert)) \<and>
     om_find (m_streamIndex e') (STREAM_PORT 50000 62078) = Some i \<and> om_contains (m_streams e') (STREAM_ID 50000 62078 i) \<and>
     map_of (filter (\<lambda>(k, s). k \<noteq> STREAM_ID 50000 62078 i) (m_streams e')) =
       map_of (filter (\<lambda>(k, s). k \<noteq> STREAM_ID 50000 62078 i) (m_streams (new_usbmux_expert 1 1)))"
  by (rule usbmux_segment_frame) (simp_all add: belongs_def host_port_def device_port_def)

section \<open>Service names\<close>

definition announces_service :: "'p plist_api \<Rightarrow> u16 \<Rightarrow> 'p mux_message \<Rightarrow> bool" where
  "announces_service api p m \<longleftrightarrow> \<not> outbound m \<and> stringValue api ''Service'' m \<noteq> [] \<and>
     uintValue api ''Port'' m = uint p \<and> p \<noteq> 0"

lemma learn_message_eq:
  "om_find (learn_message api m names) p =
     (if announces_service api p m then Some (stringValue api ''Service'' m) else om_find names p)"
proof (cases "outbound m \<or> stringValue api ''Service'' m = [] \<or> uintValue api ''Port'' m \<le> 0 \<or> 65535 < uintValue api ''Port'' m")
  case True
  moreover have "uint p \<le> 65535" using uint_bounded [of p] by simp
  ultimately show ?thesis
    using uint_0_iff [of p] by (auto simp: learn_message_def announces_service_def Let_def)
next
  case False
  define v where "v = uintValue api ''Port'' m"
  have v: "0 < v" "v \<le> 65535" using False by (simp_all add: v_def)
  then have "uint (word_of_int v :: u16) = v" by (simp add: uint_word_of_int_eq take_bit_int_eq_self)
  then have "p = word_of_int v \<longleftrightarrow> v = uint p" by (metis word_of_int_uint)
  moreover have "v = uint p \<Longrightarrow> p \<noteq> 0" using v(1) by auto
  ultimately show ?thesis
    using False v by (auto simp: learn_message_def announces_service_def Let_def om_find_put v_def [symmetric])
qed

lemma learn_messages:
  "om_find (fold (learn_message api) ms names) p =
     (case filter (announces_service api p) ms of
        [] \<Rightarrow> om_find names p
      | m # rest \<Rightarrow> Some (stringValue api ''Service'' (last (m # rest))))"
proof (induction ms arbitrary: names)
  case (Cons m ms)
  show ?case by (cases "filter (announces_service api p) ms") (auto simp: Cons.IH learn_message_eq)
qed simp

text \<open>
  The messages that a segment completes on a lockdownd connection, and those of a whole run: the stream of the segment
  is the current one of its ports, or a new one.
\<close>

definition stream_before :: "segment \<Rightarrow> 'p usbmux_expert \<Rightarrow> 'p mux_stream" where
  "stream_before seg e =
     (if known seg e then the (om_find (m_streams e) (STREAM_ID (host_port seg) (device_port seg)
        (om_get 0 (m_streamIndex e) (STREAM_PORT (host_port seg) (device_port seg)))))
      else fresh_stream (host_port seg) (device_port seg) e)"

definition lockdown_messages :: "'p plist_api \<Rightarrow> segment \<Rightarrow> 'p usbmux_expert \<Rightarrow> 'p mux_message list" where
  "lockdown_messages api seg e =
     (if length (snd seg) < 20 \<or> device_port seg \<noteq> LOCKDOWN_PORT then []
      else case segment_step api seg (stream_before seg e) of
        None \<Rightarrow> [] | Some s \<Rightarrow> drop (length (m_messages (stream_before seg e))) (m_messages s))"

fun lockdown_run :: "'p plist_api \<Rightarrow> segment list \<Rightarrow> 'p usbmux_expert \<Rightarrow> 'p mux_message list" where
  "lockdown_run api [] e = []"
| "lockdown_run api (seg # segs) e =
     lockdown_messages api seg e @ (case tcp_step api seg e of None \<Rightarrow> [] | Some e1 \<Rightarrow> lockdown_run api segs e1)"

lemma no_data_no_message: "segment_data (snd seg) = [] \<Longrightarrow> lockdown_messages api seg e = []"
  by (simp add: lockdown_messages_def segment_step_def close_def)

lemma tcp_step_names:
  assumes "usbmux_wf e" and "tcp_step api seg e = Some e'"
  shows "m_serviceNames e' = fold (learn_message api) (lockdown_messages api seg e) (m_serviceNames e)"
proof (cases "length (snd seg) < 20")
  case True
  with assms(2) show ?thesis by (simp add: tcp_step_short lockdown_messages_def)
next
  case False
  define h d where "h = host_port seg" and "d = device_port seg"
  have b: "belongs h d seg" using False by (simp add: belongs_def h_def d_def)
  show ?thesis
  proof (cases "known seg e")
    case True
    then obtain i where i: "om_find (m_streamIndex e) (STREAM_PORT h d) = Some i" "\<not> opens seg"
      by (auto simp: known_def om_contains_find h_def d_def)
    then obtain s where s: "om_find (m_streams e) (STREAM_ID h d i) = Some s"
      using assms(1) unfolding usbmux_wf_def indexed_def om_contains_find by blast
    have "stream_before seg e = s" using True i(1) s by (simp add: stream_before_def om_get_def h_def d_def)
    with tcp_step_known [OF assms(1) b i(2,1) s, of api] assms(2) False show ?thesis
      by (auto simp: lockdown_messages_def d_def)
  next
    case unknown: False
    then have "stream_before seg e = fresh_stream h d e" by (simp add: stream_before_def h_def d_def)
    with tcp_step_fresh [OF assms(1) b unknown, of api] assms(2) False show ?thesis
      by (auto simp: lockdown_messages_def d_def)
  qed
qed

lemma tcp_run_names:
  "usbmux_wf e \<Longrightarrow> \<exists>e'. run_opt (tcp_step api) segs e = Some e' \<and> usbmux_wf e' \<and>
     m_serviceNames e' = fold (learn_message api) (lockdown_run api segs e) (m_serviceNames e)"
proof (induction segs arbitrary: e)
  case (Cons seg segs)
  obtain e1 where e1: "tcp_step api seg e = Some e1" "usbmux_wf e1" using tcp_step_ok [OF Cons.prems] by blast
  with Cons.IH [OF e1(2)] tcp_step_names [OF Cons.prems e1(1)] show ?case by auto
qed simp

lemma segment_step_name: "segment_step api seg s = Some s' \<Longrightarrow> m_serviceName s' = m_serviceName s"
  by (auto simp: segment_step_def stream_step_def sendBytes_def receiveBytes_def close_def split: if_splits elim!: bind_Some_elim)

lemma segment_run_name: "run_opt (segment_step api) segs s = Some s' \<Longrightarrow> m_serviceName s' = m_serviceName s"
  by (induction segs arbitrary: s) (auto elim!: bind_Some_elim dest!: segment_step_name)

text \<open>
  C19: Connections are named after the services lockdownd announced.  After any traffic of any connections, if \<open>m\<close> is the
  last of all messages completed on lockdownd connections that announces port \<open>p\<close>, then a connection that a host opens to
  port \<open>p\<close> carries the name \<open>m\<close> gives, and keeps it, whatever follows, until the same ports are opened again.
\<close>

theorem usbmux_service_named:
  assumes "usbmux_wf e" and "filter (announces_service api p) (lockdown_run api segs e) = before @ [m]"
    and "p \<noteq> LOCKDOWN_PORT" and "belongs h p syn" and "opens syn"
    and "list_all (\<lambda>seg. \<not> (belongs h p seg \<and> opens seg)) later"
  shows "\<exists>e1 e2 s. run_opt (tcp_step api) segs e = Some e1 \<and> run_opt (tcp_step api) (syn # later) e1 = Some e2 \<and>
     om_find (m_streams e2) (STREAM_ID h p (next_index h p e1)) = Some s \<and>
     m_serviceName s = stringValue api ''Service'' m"
proof -
  obtain e1 where e1: "run_opt (tcp_step api) segs e = Some e1" "usbmux_wf e1"
      "m_serviceNames e1 = fold (learn_message api) (lockdown_run api segs e) (m_serviceNames e)"
    using tcp_run_names [OF assms(1)] by blast
  have name: "om_find (m_serviceNames e1) p = Some (stringValue api ''Service'' m)"
    by (cases before) (simp_all add: e1(3) learn_messages assms(2))
  from connection_run [OF e1(2) assms(4-6), of api] obtain e2 s where
    e2: "run_opt (tcp_step api) (syn # later) e1 = Some e2"
      "run_opt (segment_step api) (filter (belongs h p) (syn # later)) (fresh_stream h p e1) = Some s"
      "om_find (m_streams e2) (STREAM_ID h p (next_index h p e1)) = Some s" by blast
  have "m_serviceName (fresh_stream h p e1) = stringValue api ''Service'' m"
    using assms(3) name by (simp add: fresh_stream_def initial_service_def setServiceName_def)
  with segment_run_name [OF e2(2)] e1(1) e2(1,3) show ?thesis by auto
qed

text \<open>A host that has a lockdownd connection, and the answer that announces port 513.\<close>

definition lockdown_session :: "sample_node usbmux_expert" where
  "lockdown_session = snd (beginStream 50000 62078 (new_usbmux_expert 1 1))"

definition service_body :: "byte list" where
  "service_body = [0x62, 0x70, 0x6C, 0x69, 0x73, 0x74, 0x30, 0x30, 1, 2]"

definition service_reply :: segment where
  "service_reply = (False, tcp_segment 62078 50000 16 (frame service_body))"

text \<open>The host closes that connection before it opens the one to the service.\<close>

abbreviation (input) sample_fin :: segment where
  "sample_fin \<equiv> (True, tcp_segment 50000 62078 17 [])"

lemma usbmux_service_named_witness:
  "\<exists>e1 e2 s. run_opt (tcp_step sample_api) [service_reply, sample_fin] lockdown_session = Some e1 \<and>
     run_opt (tcp_step sample_api) [sample_syn 50001 513, (True, tcp_segment 50001 513 16 [1, 2])] e1 = Some e2 \<and>
     om_find (m_streams e2) (STREAM_ID 50001 513 (next_index 50001 513 e1)) = Some s \<and>
     m_serviceName s = ''com.apple.afc''"
proof -
  let ?s = "fresh_stream 50000 62078 (new_usbmux_expert 1 1 :: sample_node usbmux_expert)"
  let ?m = "message_of sample_api False service_body"
  have wf: "usbmux_wf lockdown_session" unfolding lockdown_session_def using beginStream_wf [OF new_usbmux_expert_wf] by blast
  have index: "om_find (m_streamIndex lockdown_session) (STREAM_PORT 50000 62078) = Some 1"
    and stream: "om_find (m_streams lockdown_session) (STREAM_ID 50000 62078 1) = Some ?s"
    by (simp_all add: lockdown_session_def beginStream_eq Let_def om_find_put fresh_stream_def new_usbmux_expert_def
        interface_expert.defs usbmux_expert.defs)
  have "well_framed [service_body]"
    by (simp add: well_framed_def plausible_def signature_def service_body_def BINARY_PLIST_PREFIX_def)
  from consume_frames [OF this, of sample_api False] obtain d where
    d: "consume sample_api (frame service_body) (new_direction False, []) = Some (d, [?m])" by auto
  have ne: "frame service_body \<noteq> []" by (simp add: frame_def)
  obtain s' where s': "segment_step sample_api service_reply ?s = Some s'" "m_messages s' = [?m]"
    by (simp add: service_reply_def segment_step_def stream_step_def receiveBytes_def d ne)
  have ports: "host_port service_reply = 50000" "device_port service_reply = 62078" "\<not> opens service_reply"
      "\<not> length (snd service_reply) < 20"
    by (simp_all add: service_reply_def host_port_def device_port_def opens_def)
  have "stream_before service_reply lockdown_session = ?s"
    using index stream by (simp add: stream_before_def known_def ports om_contains_find om_get_def)
  then have reply: "lockdown_messages sample_api service_reply lockdown_session = [?m]"
    by (simp add: lockdown_messages_def ports s')
  have fin: "lockdown_messages sample_api sample_fin e = []" for e
    by (rule no_data_no_message) simp
  have fields: "stringValue sample_api ''Service'' ?m = ''com.apple.afc''" "uintValue sample_api ''Port'' ?m = 513" "\<not> outbound ?m"
    by (simp_all add: stringValue_def uintValue_def message_of_def decode_body_def sample_api_def service_body_def BINARY_PLIST_PREFIX_def)
  have "lockdown_run sample_api [service_reply, sample_fin] lockdown_session = [?m]"
    by (simp add: reply fin split: option.split)
  then have new: "filter (announces_service sample_api 513) (lockdown_run sample_api [service_reply, sample_fin] lockdown_session) = [] @ [?m]"
    by (simp add: announces_service_def fields)
  from usbmux_service_named [OF wf new, of 50001 "sample_syn 50001 513" "[(True, tcp_segment 50001 513 16 [1, 2])]"] fields(1)
  show ?thesis by (simp add: belongs_def host_port_def device_port_def opens_def)
qed

section \<open>Artifacts\<close>

lemma numeral_value_zero_pad: "numeral_value base (zero_pad w s) = numeral_value base s"
proof -
  have "foldl (\<lambda>a c. a * base + undigit c) 0 (replicate n CHR ''0'') = 0" for n
    by (induction n) (simp_all add: undigit_def)
  then show ?thesis by (simp add: numeral_value_def zero_pad_def)
qed

lemma zero_pad_hex_inj [simp]: "zero_pad w (hex m) = zero_pad w (hex n) \<longleftrightarrow> m = n"
  by (metis numeral_value_zero_pad value_hex)

lemma zero_pad_hex_not_dash: "CHR ''-'' \<notin> set (zero_pad w (hex n))"
  using numeral_text_not_dash [of 16 n] by (simp add: zero_pad_def hex_def)

lemma split_at_dash:
  "CHR ''-'' \<notin> set xs \<Longrightarrow> CHR ''-'' \<notin> set ys \<Longrightarrow> xs @ CHR ''-'' # us = ys @ CHR ''-'' # vs \<Longrightarrow> xs = ys"
proof (induction xs arbitrary: ys)
  case Nil
  then show ?case by (cases ys) auto
next
  case (Cons x xs)
  then show ?case by (cases ys) auto
qed

lemma stream_artifact_name_inj:
  assumes "artifact_name (stream_artifact api k s) = artifact_name (stream_artifact api k' s')"
  shows "k = k'"
proof -
  have "zero_pad 16 (hex (unat k)) = zero_pad 16 (hex (unat k'))"
    by (rule split_at_dash [OF zero_pad_hex_not_dash zero_pad_hex_not_dash])
      (use assms in \<open>simp add: stream_artifact_def del: zero_pad_hex_inj\<close>)
  then show ?thesis by (simp add: word_unat_eq_iff)
qed

text \<open>
  Every stream with messages becomes one file, holding its transcript; the files of an expert have
  pairwise different names, also for connections that reused the same ports, so that extracting them
  loses no conversation.
\<close>

theorem usbmux_artifacts_faithful:
  assumes "usbmux_wf e"
  shows "map artifact_data (usbmux_getArtifacts api e) =
       map (\<lambda>s. bytes_of (transcript api s)) (filter (\<lambda>s. m_messages s \<noteq> []) (om_values (m_streams e))) \<and>
     distinct (map artifact_name (usbmux_getArtifacts api e))"
proof
  show "map artifact_data (usbmux_getArtifacts api e) =
      map (\<lambda>s. bytes_of (transcript api s)) (filter (\<lambda>s. m_messages s \<noteq> []) (om_values (m_streams e)))"
    by (simp add: usbmux_getArtifacts_def om_values_def filter_map o_def stream_artifact_def case_prod_unfold)
  have keys: "distinct (map fst (m_streams e))"
    using assms om_wf_distinct [of "m_streams e"] by (simp add: usbmux_wf_def om_keys_def)
  let ?xs = "filter (\<lambda>(k, s). m_messages s \<noteq> []) (m_streams e)"
  have "distinct (map fst ?xs)" using keys by (simp add: distinct_map_filter)
  then have "distinct ?xs" "inj_on fst (set ?xs)" by (simp_all add: distinct_map)
  then have "inj_on (\<lambda>(k, s). artifact_name (stream_artifact api k s)) (set ?xs)"
    by (auto simp: inj_on_def dest!: stream_artifact_name_inj)
  with \<open>distinct ?xs\<close> show "distinct (map artifact_name (usbmux_getArtifacts api e))"
    by (simp add: usbmux_getArtifacts_def distinct_map o_def case_prod_unfold)
qed

lemma usbmux_artifacts_faithful_witness:
  "map artifact_data (usbmux_getArtifacts sample_api lockdown_session) =
       map (\<lambda>s. bytes_of (transcript sample_api s)) (filter (\<lambda>s. m_messages s \<noteq> []) (om_values (m_streams lockdown_session))) \<and>
     distinct (map artifact_name (usbmux_getArtifacts sample_api lockdown_session))"
  by (rule usbmux_artifacts_faithful)
    (unfold lockdown_session_def, use beginStream_wf [OF new_usbmux_expert_wf] in blast)

end
