(* ===== verification/Experts.thy ===== *)
theory Experts
  imports DFU_Expert Recovery_Expert USBMUX_Demux
begin

text \<open>
  The class hierarchy below \<open>InterfaceExpert\<close>: an object of one of the three derived classes a device
  creates, and the dispatch of the virtual functions on it.
\<close>

datatype 'p expert =
    ExpertDFU dfu_expert
  | ExpertRecovery recovery_expert
  | ExpertUSBMUX "'p usbmux_expert"

definition expert_processControlOut ::
  "'p plist_api \<Rightarrow> usb_setup_t \<Rightarrow> byte list \<Rightarrow> 'p expert \<Rightarrow> 'p expert option" where
  "expert_processControlOut api setup data e =
     (case e of
        ExpertDFU d \<Rightarrow> Some (ExpertDFU (dfu_processControlOut setup data d))
      | ExpertRecovery r \<Rightarrow> Some (ExpertRecovery (recovery_processControlOut setup data r))
      | ExpertUSBMUX u \<Rightarrow> Some (ExpertUSBMUX (base_processControlOut setup data u)))"

definition expert_processControlIn ::
  "'p plist_api \<Rightarrow> usb_setup_t \<Rightarrow> byte list \<Rightarrow> 'p expert \<Rightarrow> 'p expert option" where
  "expert_processControlIn api setup data e =
     (case e of
        ExpertDFU d \<Rightarrow> map_option ExpertDFU (dfu_processControlIn setup data d)
      | ExpertRecovery r \<Rightarrow> Some (ExpertRecovery (recovery_processControlIn setup data r))
      | ExpertUSBMUX u \<Rightarrow> Some (ExpertUSBMUX (base_processControlIn setup data u)))"

definition expert_processBulkOut :: "'p plist_api \<Rightarrow> byte list \<Rightarrow> 'p expert \<Rightarrow> 'p expert option" where
  "expert_processBulkOut api data e =
     (case e of
        ExpertDFU d \<Rightarrow> Some (ExpertDFU (base_processBulkOut data d))
      | ExpertRecovery r \<Rightarrow> Some (ExpertRecovery (recovery_processBulkOut data r))
      | ExpertUSBMUX u \<Rightarrow> map_option ExpertUSBMUX (usbmux_processBulkOut api data u))"

definition expert_processBulkIn :: "'p plist_api \<Rightarrow> byte list \<Rightarrow> 'p expert \<Rightarrow> 'p expert option" where
  "expert_processBulkIn api data e =
     (case e of
        ExpertDFU d \<Rightarrow> Some (ExpertDFU (base_processBulkIn data d))
      | ExpertRecovery r \<Rightarrow> Some (ExpertRecovery (recovery_processBulkIn data r))
      | ExpertUSBMUX u \<Rightarrow> map_option ExpertUSBMUX (usbmux_processBulkIn api data u))"

definition expert_isEmpty :: "'p expert \<Rightarrow> bool" where
  "expert_isEmpty e =
     (case e of ExpertDFU d \<Rightarrow> base_isEmpty d | ExpertRecovery r \<Rightarrow> recovery_isEmpty r | ExpertUSBMUX u \<Rightarrow> usbmux_isEmpty u)"

definition expert_toString :: "'p expert \<Rightarrow> string" where
  "expert_toString e =
     (case e of ExpertDFU d \<Rightarrow> dfu_toString d | ExpertRecovery r \<Rightarrow> recovery_toString r | ExpertUSBMUX u \<Rightarrow> usbmux_toString u)"

definition expert_details :: "'p plist_api \<Rightarrow> 'p expert \<Rightarrow> string" where
  "expert_details api e =
     (case e of ExpertDFU d \<Rightarrow> dfu_details d | ExpertRecovery r \<Rightarrow> recovery_details r | ExpertUSBMUX u \<Rightarrow> usbmux_details api u)"

definition expert_getArtifacts :: "'p plist_api \<Rightarrow> 'p expert \<Rightarrow> extracted_artifact list" where
  "expert_getArtifacts api e =
     (case e of ExpertDFU d \<Rightarrow> dfu_getArtifacts d | ExpertRecovery r \<Rightarrow> recovery_getArtifacts r
      | ExpertUSBMUX u \<Rightarrow> usbmux_getArtifacts api u)"

section \<open>The contract of the hierarchy\<close>

text \<open>Each class keeps its own contract, so the hierarchy keeps it.\<close>

definition expert_ok :: "'p expert \<Rightarrow> bool" where
  "expert_ok e = (case e of ExpertDFU d \<Rightarrow> dfu_wf d | ExpertRecovery r \<Rightarrow> recovery_wf r | ExpertUSBMUX u \<Rightarrow> usbmux_ok u)"

definition expert_base :: "'p expert \<Rightarrow> interface_expert" where
  "expert_base e = (case e of ExpertDFU d \<Rightarrow> interface_expert.truncate d
     | ExpertRecovery r \<Rightarrow> interface_expert.truncate r | ExpertUSBMUX u \<Rightarrow> base_of u)"

definition virtual_step :: "'p plist_api \<Rightarrow> expert_event \<Rightarrow> 'p expert \<Rightarrow> 'p expert option" where
  "virtual_step api = expert_step (expert_processControlOut api) (expert_processControlIn api)
     (expert_processBulkOut api) (expert_processBulkIn api)"

lemmas virtual_defs = expert_processControlOut_def expert_processControlIn_def expert_processBulkOut_def
  expert_processBulkIn_def

lemma virtual_step_eq:
  "virtual_step api ev e =
     (case e of ExpertDFU d \<Rightarrow> map_option ExpertDFU (dfu_step ev d)
      | ExpertRecovery r \<Rightarrow> map_option ExpertRecovery (recovery_step ev r)
      | ExpertUSBMUX u \<Rightarrow> map_option ExpertUSBMUX (usbmux_step api ev u))"
  by (cases ev; cases e) (simp_all add: virtual_step_def virtual_defs dfu_step_def recovery_step_def usbmux_step_def)

lemma virtual_step_ok:
  assumes "expert_ok e"
  shows "\<exists>e'. virtual_step api ev e = Some e' \<and> expert_ok e' \<and> expert_base e' = base_count ev (expert_base e)"
proof (cases e)
  case (ExpertDFU d)
  with assms dfu.step_ok [of d ev] show ?thesis by (auto simp: virtual_step_eq expert_ok_def expert_base_def)
next
  case (ExpertRecovery r)
  with assms recovery.step_ok [of r ev] show ?thesis by (auto simp: virtual_step_eq expert_ok_def expert_base_def)
next
  case (ExpertUSBMUX u)
  with assms usbmux.step_ok [of u api ev] show ?thesis by (auto simp: virtual_step_eq expert_ok_def expert_base_def)
qed

interpretation virtual: interface_expert_contract
  expert_ok "expert_processControlOut api" "expert_processControlIn api" "expert_processBulkOut api"
  "expert_processBulkIn api" expert_base
  rewrites "expert_step (expert_processControlOut api) (expert_processControlIn api) (expert_processBulkOut api)
     (expert_processBulkIn api) = virtual_step api"
  for api
  using virtual_step_ok by unfold_locales (simp_all add: virtual_step_def)

lemma new_experts_ok [simp]:
  "expert_ok (ExpertDFU (new_dfu_expert c i))" "expert_ok (ExpertDFU (setTransferSize n (new_dfu_expert c i)))"
  "expert_ok (ExpertRecovery (new_recovery_expert c i))" "expert_ok (ExpertUSBMUX (new_usbmux_expert c i))"
  by (simp_all add: expert_ok_def)

end
