(* ===== verification/Usb_Configuration.thy ===== *)
theory Usb_Configuration
  imports Usb_Descriptors
begin

text \<open>
  \<open>usb_interface\<close> and \<open>usb_configuration\<close> (\<open>src/usb/Device.h\<close>, \<open>Device.cpp\<close>): the parser of a complete
  configuration descriptor set.

  The shared pointer of an interface to its expert is an address into the experts of the device, or
  \<open>None\<close> for null; \<open>std::memcpy\<close> over an object is \<open>overlay\<close>.  A result \<open>None\<close> is an access outside the
  descriptor set.
\<close>

section \<open>Structures\<close>

record usb_interface =
  iface_descriptor :: usb_interface_descriptor
  iface_endpoints :: "usb_endpoint_descriptor list"
  iface_expert :: "nat option"

record usb_configuration =
  config_descriptor :: usb_config_descriptor
  dfu_descriptor :: "byte list"
  has_dfu_descriptor :: bool
  interfaces :: "usb_interface list"

definition new_usb_configuration :: usb_configuration where
  "new_usb_configuration =
     \<lparr>config_descriptor = decode_config_descriptor (replicate USB_DT_CONFIG_SIZE 0),
      dfu_descriptor = replicate dfu_descriptor_sizeof 0, has_dfu_descriptor = False, interfaces = []\<rparr>"

definition overlay :: "byte list \<Rightarrow> byte list \<Rightarrow> byte list" where
  "overlay source object = source @ drop (length source) object"

text \<open>\<open>usb_configuration::find\<close>: the position of the first interface that matches.\<close>

fun find_interface :: "u8 \<Rightarrow> u8 \<Rightarrow> usb_interface list \<Rightarrow> nat option" where
  "find_interface number alternate [] = None"
| "find_interface number alternate (candidate # rest) =
     (if bInterfaceNumber (iface_descriptor candidate) = number \<and>
         bAlternateSetting (iface_descriptor candidate) = alternate
      then Some 0 else map_option Suc (find_interface number alternate rest))"

section \<open>The parser\<close>

text \<open>
  One descriptor.  \<open>current\<close> points to the interface that was pushed last; a result \<open>Inl config\<close> is
  \<open>return false\<close>.
\<close>

definition is_dfu_interface :: "usb_interface \<Rightarrow> bool" where
  "is_dfu_interface i \<longleftrightarrow> bInterfaceClass (iface_descriptor i) = USB_CLASS_DFU \<and>
     bInterfaceSubClass (iface_descriptor i) = USB_SUBCLASS_DFU"

definition parse_config :: "usb_descriptor_header \<Rightarrow> byte list \<Rightarrow> usb_configuration \<Rightarrow> nat option \<Rightarrow>
    (usb_configuration + usb_configuration \<times> nat option) option" where
  "parse_config header data config current =
     (if unat (bLength header) < USB_DT_CONFIG_SIZE then Some (Inl config)
      else Some (Inr (case readStruct USB_DT_CONFIG_SIZE decode_config_descriptor data of
                        None \<Rightarrow> config | Some d \<Rightarrow> config\<lparr>config_descriptor := d\<rparr>, current)))"

definition parse_interface :: "usb_descriptor_header \<Rightarrow> byte list \<Rightarrow> usb_configuration \<Rightarrow> nat option \<Rightarrow>
    (usb_configuration + usb_configuration \<times> nat option) option" where
  "parse_interface header data config current =
     (if unat (bLength header) < USB_DT_INTERFACE_SIZE then Some (Inl config)
      else
        let d = (case readStruct USB_DT_INTERFACE_SIZE decode_interface_descriptor data of
                   None \<Rightarrow> decode_interface_descriptor (replicate USB_DT_INTERFACE_SIZE 0) | Some d \<Rightarrow> d);
            config = config\<lparr>interfaces := interfaces config @
              [\<lparr>iface_descriptor = d, iface_endpoints = [], iface_expert = None\<rparr>]\<rparr>
        in Some (Inr (config, Some (length (interfaces config) - 1))))"

definition parse_endpoint :: "usb_descriptor_header \<Rightarrow> byte list \<Rightarrow> usb_configuration \<Rightarrow> nat option \<Rightarrow>
    (usb_configuration + usb_configuration \<times> nat option) option" where
  "parse_endpoint header data config current =
     (if unat (bLength header) < USB_DT_ENDPOINT_SIZE then Some (Inl config)
      else case current of
        None \<Rightarrow> Some (Inr (config, current))
      | Some i \<Rightarrow> do {
          source \<leftarrow> subspan 0 (min (unat (bLength header)) endpoint_descriptor_sizeof) data;
          interface \<leftarrow> elem_at i (interfaces config);
          let endpoint = decode_endpoint_descriptor (overlay source (replicate endpoint_descriptor_sizeof 0));
          let interface = interface\<lparr>iface_endpoints := iface_endpoints interface @ [endpoint]\<rparr>;
          Some (Inr (config\<lparr>interfaces := (interfaces config)[i := interface]\<rparr>, current))
        })"

definition parse_dfu :: "usb_descriptor_header \<Rightarrow> byte list \<Rightarrow> usb_configuration \<Rightarrow> nat option \<Rightarrow>
    (usb_configuration + usb_configuration \<times> nat option) option" where
  "parse_dfu header data config current =
     (case current of
        None \<Rightarrow> Some (Inr (config, current))
      | Some i \<Rightarrow> do {
          interface \<leftarrow> elem_at i (interfaces config);
          if is_dfu_interface interface then do {
            source \<leftarrow> subspan 0 (min (unat (bLength header)) dfu_descriptor_sizeof) data;
            Some (Inr (config\<lparr>dfu_descriptor := overlay source (dfu_descriptor config), has_dfu_descriptor := True\<rparr>, current))
          } else Some (Inr (config, current))
        })"

definition parse_descriptor :: "usb_descriptor_header \<Rightarrow> byte list \<Rightarrow> usb_configuration \<Rightarrow> nat option \<Rightarrow>
    (usb_configuration + usb_configuration \<times> nat option) option" where
  "parse_descriptor header data config current =
     (if bDescriptorType header = USB_DT_CONFIG then parse_config header data config current
      else if bDescriptorType header = USB_DT_INTERFACE then parse_interface header data config current
      else if bDescriptorType header = USB_DT_ENDPOINT then parse_endpoint header data config current
      else if bDescriptorType header = USB_DT_DFU_FUNCTIONAL then parse_dfu header data config current
      else Some (Inr (config, current)))"

text \<open>The header of the descriptor at the front, if it fits what remains.\<close>

definition next_header :: "byte list \<Rightarrow> usb_descriptor_header option" where
  "next_header data =
     (case readStruct descriptor_header_size decode_descriptor_header data of
        None \<Rightarrow> None
      | Some header \<Rightarrow>
          if unat (bLength header) < descriptor_header_size \<or> length data < unat (bLength header) then None
          else Some header)"

lemma next_header_bounds:
  "next_header data = Some header \<Longrightarrow> 2 \<le> unat (bLength header) \<and> unat (bLength header) \<le> length data"
  by (auto simp: next_header_def descriptor_header_size_def split: option.splits if_splits)

function parse_loop :: "byte list \<Rightarrow> usb_configuration \<Rightarrow> nat option \<Rightarrow> (bool \<times> usb_configuration) option" where
  "parse_loop data config current =
     (if data = [] then Some (True, config)
      else (case next_header data of
              None \<Rightarrow> Some (False, config)
            | Some header \<Rightarrow>
                (case parse_descriptor header data config current of
                   None \<Rightarrow> None
                 | Some (Inl config') \<Rightarrow> Some (False, config')
                 | Some (Inr (config', current')) \<Rightarrow> parse_loop (drop (unat (bLength header)) data) config' current')))"
  by pat_completeness auto
termination
  by (relation "measure (\<lambda>(data, config, current). length data)") (auto dest!: next_header_bounds)

declare parse_loop.simps [simp del]

definition usb_configuration_parse :: "usb_configuration \<Rightarrow> byte list \<Rightarrow> (bool \<times> usb_configuration) option" where
  "usb_configuration_parse config data = parse_loop data config None"

section \<open>A reference parser\<close>

text \<open>
  A descriptor is acceptable when it has the length it announces and the size its type needs.
\<close>

definition descriptor_length :: "byte list \<Rightarrow> nat" where
  "descriptor_length data = unat (data ! 0)"

definition acceptable :: "byte list \<Rightarrow> bool" where
  "acceptable data \<longleftrightarrow> 2 \<le> length data \<and> 2 \<le> descriptor_length data \<and> descriptor_length data \<le> length data \<and>
     (data ! 1 = USB_DT_CONFIG \<longrightarrow> 9 \<le> descriptor_length data) \<and>
     (data ! 1 = USB_DT_INTERFACE \<longrightarrow> 9 \<le> descriptor_length data) \<and>
     (data ! 1 = USB_DT_ENDPOINT \<longrightarrow> 7 \<le> descriptor_length data)"

text \<open>The descriptors of a set, up to the first one that is not acceptable, and what is left.\<close>

function split_descriptors :: "byte list \<Rightarrow> byte list list \<times> byte list" where
  "split_descriptors data =
     (if acceptable data
      then case split_descriptors (drop (descriptor_length data) data) of
             (ds, rest) \<Rightarrow> (take (descriptor_length data) data # ds, rest)
      else ([], data))"
  by pat_completeness auto
termination
  by (relation "measure length") (auto simp: acceptable_def)

declare split_descriptors.simps [simp del]

text \<open>
  What a descriptor adds to a configuration: endpoints and DFU descriptors belong to the interface before
  them, and are passed over when there is none.
\<close>

definition add_endpoint :: "byte list \<Rightarrow> usb_interface \<Rightarrow> usb_interface" where
  "add_endpoint d i = i\<lparr>iface_endpoints := iface_endpoints i @ [decode_endpoint_descriptor (overlay (take 9 d) (replicate 9 0))]\<rparr>"

definition map_last :: "('a \<Rightarrow> 'a) \<Rightarrow> 'a list \<Rightarrow> 'a list" where
  "map_last f xs = (if xs = [] then [] else butlast xs @ [f (last xs)])"

definition add_descriptor :: "byte list \<Rightarrow> usb_configuration \<Rightarrow> usb_configuration" where
  "add_descriptor d config =
     (if d ! 1 = USB_DT_CONFIG then config\<lparr>config_descriptor := decode_config_descriptor (take 9 d)\<rparr>
      else if d ! 1 = USB_DT_INTERFACE then
        config\<lparr>interfaces := interfaces config @
          [\<lparr>iface_descriptor = decode_interface_descriptor (take 9 d), iface_endpoints = [], iface_expert = None\<rparr>]\<rparr>
      else if d ! 1 = USB_DT_ENDPOINT then config\<lparr>interfaces := map_last (add_endpoint d) (interfaces config)\<rparr>
      else if d ! 1 = USB_DT_DFU_FUNCTIONAL \<and> interfaces config \<noteq> [] \<and> is_dfu_interface (last (interfaces config)) then
        config\<lparr>dfu_descriptor := overlay (take 7 d) (dfu_descriptor config), has_dfu_descriptor := True\<rparr>
      else config)"

text \<open>The pointer of the parser is to the last interface.\<close>

definition at_last :: "usb_configuration \<Rightarrow> nat option \<Rightarrow> bool" where
  "at_last config current \<longleftrightarrow>
     current = (if interfaces config = [] then None else Some (length (interfaces config) - 1))"

lemma update_last: "xs \<noteq> [] \<Longrightarrow> xs[length xs - Suc 0 := f (last xs)] = map_last f xs"
  by (cases xs rule: rev_cases) (simp_all add: map_last_def)

lemma field8_nth: "k < length bs \<Longrightarrow> field k (Suc 0) bs = (bs ! k :: byte)"
  by (simp add: field_def take_Suc_conv_app_nth flip: Cons_nth_drop_Suc)

lemma next_header_eq:
  "next_header data =
     (if 2 \<le> length data \<and> 2 \<le> descriptor_length data \<and> descriptor_length data \<le> length data
      then Some \<lparr>bLength = data ! 0, bDescriptorType = data ! 1\<rparr> else None)"
proof (cases "2 \<le> length data")
  case True
  then have "field 0 (Suc 0) (take 2 data) = data ! 0" "field (Suc 0) (Suc 0) (take 2 data) = data ! Suc 0"
    using field8_nth [of 0 "take 2 data"] field8_nth [of "Suc 0" "take 2 data"] by simp_all
  with True show ?thesis
    by (simp add: next_header_def descriptor_header_size_def decode_descriptor_header_def descriptor_length_def)
next
  case False
  then show ?thesis by (simp add: next_header_def descriptor_header_size_def readStruct_def)
qed

lemma parse_endpoint_acceptable:
  assumes "7 \<le> n" and "n \<le> length data" and "at_last config current" and "data ! 1 = USB_DT_ENDPOINT"
    and "unat (bLength header) = n" and "bDescriptorType header = data ! 1"
  shows "parse_descriptor header data config current = Some (Inr (add_descriptor (take n data) config, current)) \<and>
      at_last (add_descriptor (take n data) config) current"
proof (cases "interfaces config = []")
  case True
  with assms show ?thesis
    by (simp add: parse_descriptor_def parse_endpoint_def add_descriptor_def descriptor_sizes at_last_def map_last_def)
next
  case False
  with assms show ?thesis
    using update_last [OF False, of "add_endpoint (take n data)"]
    by (simp add: parse_descriptor_def parse_endpoint_def add_descriptor_def descriptor_sizes at_last_def
        add_endpoint_def min.commute last_conv_nth) (simp add: map_last_def)
qed

lemma parse_dfu_acceptable:
  assumes "2 \<le> n" and "n \<le> length data" and "at_last config current" and "data ! 1 = USB_DT_DFU_FUNCTIONAL"
    and "unat (bLength header) = n" and "bDescriptorType header = data ! 1"
  shows "parse_descriptor header data config current = Some (Inr (add_descriptor (take n data) config, current)) \<and>
      at_last (add_descriptor (take n data) config) current"
proof (cases "interfaces config = []")
  case True
  with assms show ?thesis by (simp add: parse_descriptor_def parse_dfu_def add_descriptor_def at_last_def)
next
  case False
  with assms show ?thesis
    by (simp add: parse_descriptor_def parse_dfu_def add_descriptor_def descriptor_sizes at_last_def last_conv_nth min.commute)
qed

lemma parse_descriptor_acceptable:
  assumes "acceptable data" and "at_last config current"
    and "header = \<lparr>bLength = data ! 0, bDescriptorType = data ! 1\<rparr>"
  shows "\<exists>current'. parse_descriptor header data config current =
      Some (Inr (add_descriptor (take (descriptor_length data) data) config, current')) \<and>
      at_last (add_descriptor (take (descriptor_length data) data) config) current'"
proof -
  let ?n = "descriptor_length data"
  have n: "2 \<le> ?n" "?n \<le> length data" using assms(1) by (simp_all add: acceptable_def)
  have ty: "take ?n data ! Suc 0 = data ! Suc 0" using n by simp
  have hd: "unat (bLength header) = ?n" "bDescriptorType header = data ! 1" by (simp_all add: assms(3) descriptor_length_def)
  consider "data ! 1 = USB_DT_CONFIG" | "data ! 1 = USB_DT_INTERFACE" | "data ! 1 = USB_DT_ENDPOINT"
    | "data ! 1 = USB_DT_DFU_FUNCTIONAL" | "data ! 1 \<notin> {USB_DT_CONFIG, USB_DT_INTERFACE, USB_DT_ENDPOINT, USB_DT_DFU_FUNCTIONAL}"
    by blast
  then show ?thesis
  proof cases
    case 1
    then have "9 \<le> ?n" using assms(1) by (simp add: acceptable_def)
    with 1 n assms(2) show ?thesis
      by (simp add: parse_descriptor_def parse_config_def add_descriptor_def hd ty descriptor_sizes at_last_def min_def)
  next
    case 2
    then have "9 \<le> ?n" using assms(1) by (simp add: acceptable_def)
    with 2 n show ?thesis
      by (simp add: parse_descriptor_def parse_interface_def add_descriptor_def hd ty descriptor_sizes at_last_def min_def Let_def)
  next
    case 3
    then have "7 \<le> ?n" using assms(1) by (simp add: acceptable_def)
    from parse_endpoint_acceptable [OF this n(2) assms(2) 3 hd] show ?thesis by blast
  next
    case 4
    from parse_dfu_acceptable [OF n assms(2) 4 hd] show ?thesis by blast
  next
    case 5
    with assms(2) show ?thesis by (simp add: parse_descriptor_def add_descriptor_def hd ty)
  qed
qed

lemma parse_descriptor_small:
  assumes "next_header data = Some header" and "\<not> acceptable data"
  shows "parse_descriptor header data config current = Some (Inl config)"
proof -
  have n: "2 \<le> length data" "2 \<le> descriptor_length data" "descriptor_length data \<le> length data"
    and h: "header = \<lparr>bLength = data ! 0, bDescriptorType = data ! 1\<rparr>"
    using assms(1) by (simp_all add: next_header_eq split: if_splits)
  with assms(2) show ?thesis
    by (auto simp: acceptable_def parse_descriptor_def parse_config_def parse_interface_def parse_endpoint_def
        descriptor_sizes descriptor_length_def)
qed

lemma next_header_acceptable:
  "acceptable data \<Longrightarrow> next_header data = Some \<lparr>bLength = data ! 0, bDescriptorType = data ! 1\<rparr>"
  by (simp add: next_header_eq acceptable_def)

section \<open>Correctness of the parser\<close>

lemma parse_loop_correct:
  "at_last config current \<Longrightarrow>
   parse_loop data config current =
     Some (snd (split_descriptors data) = [], fold add_descriptor (fst (split_descriptors data)) config)"
proof (induction data arbitrary: config current rule: split_descriptors.induct)
  case (1 data)
  show ?case
  proof (cases "acceptable data")
    case True
    let ?n = "descriptor_length data" and ?h = "\<lparr>bLength = data ! 0, bDescriptorType = data ! 1\<rparr>"
    obtain current' where step: "parse_descriptor ?h data config current =
        Some (Inr (add_descriptor (take ?n data) config, current'))"
      and last: "at_last (add_descriptor (take ?n data) config) current'"
      using parse_descriptor_acceptable [OF True "1.prems" refl] by blast
    have "data \<noteq> []" using True by (auto simp: acceptable_def)
    then show ?thesis
      using "1.IH" [OF True last] True
      by (simp add: parse_loop.simps [of data] split_descriptors.simps [of data] next_header_acceptable
          step [simplified] descriptor_length_def split_beta)
  next
    case False
    then have "parse_loop data config current = Some (data = [], config)"
      by (cases "next_header data") (simp_all add: parse_loop.simps [of data] parse_descriptor_small)
    with False show ?thesis by (simp add: split_descriptors.simps [of data])
  qed
qed

text \<open>The split is a split: it loses no byte, every part announces its own length, and what is left is not acceptable.\<close>

lemma split_descriptors_concat: "concat (fst (split_descriptors data)) @ snd (split_descriptors data) = data"
proof (induction data rule: split_descriptors.induct)
  case (1 data)
  then show ?case by (cases "acceptable data") (simp_all add: split_descriptors.simps [of data] split_beta)
qed

lemma acceptable_take: "acceptable data \<Longrightarrow> acceptable (take (descriptor_length data) data)"
  by (simp add: acceptable_def descriptor_length_def)

lemma descriptor_length_take: "acceptable data \<Longrightarrow> descriptor_length (take (descriptor_length data) data) = descriptor_length data"
  by (simp add: acceptable_def descriptor_length_def)

lemma split_descriptors_parts:
  "d \<in> set (fst (split_descriptors data)) \<Longrightarrow> acceptable d \<and> descriptor_length d = length d"
proof (induction data rule: split_descriptors.induct)
  case (1 data)
  show ?case
  proof (cases "acceptable data")
    case True
    then have "length (take (descriptor_length data) data) = descriptor_length data" by (simp add: acceptable_def)
    with True 1 show ?thesis
      by (auto simp: split_descriptors.simps [of data] split_beta acceptable_take descriptor_length_take)
  next
    case False
    with 1 show ?thesis by (simp add: split_descriptors.simps [of data])
  qed
qed

lemma split_descriptors_rest: "\<not> acceptable (snd (split_descriptors data))"
proof (induction data rule: split_descriptors.induct)
  case (1 data)
  then show ?case by (cases "acceptable data") (simp_all add: split_descriptors.simps [of data] split_beta)
qed

text \<open>The split of descriptors laid out one after the other is these descriptors.\<close>

lemma acceptable_append: "acceptable d \<Longrightarrow> acceptable (d @ rest)"
  by (auto simp: acceptable_def descriptor_length_def nth_append)

lemma split_descriptors_of_parts:
  "\<forall>d \<in> set ds. acceptable d \<and> descriptor_length d = length d \<Longrightarrow> \<not> acceptable rest \<Longrightarrow>
   split_descriptors (concat ds @ rest) = (ds, rest)"
proof (induction ds)
  case Nil
  then show ?case by (simp add: split_descriptors.simps)
next
  case (Cons d ds)
  then have d: "acceptable d" "descriptor_length d = length d" and IH: "split_descriptors (concat ds @ rest) = (ds, rest)"
    by simp_all
  have "d \<noteq> []" using d(1) by (auto simp: acceptable_def)
  then have "descriptor_length (d @ concat ds @ rest) = length d"
    using d(2) by (simp add: descriptor_length_def nth_append)
  with IH d(1) show ?case
    by (simp add: split_descriptors.simps [of "d @ concat ds @ rest"] acceptable_append [simplified])
qed

text \<open>
  C29: The parser equals a reference parser that splits the set into descriptors and folds them.  For every byte
  string it reads inside the set, follows only a valid pointer to an interface, ends, and leaves the configuration
  made of the descriptors before the first malformed one; it returns true just when there is none.  The split
  loses no byte, and each of its parts is a well formed descriptor of the length it announces.
\<close>

theorem configuration_parse_reference:
  "usb_configuration_parse new_usb_configuration data =
     Some (snd (split_descriptors data) = [], fold add_descriptor (fst (split_descriptors data)) new_usb_configuration) \<and>
   concat (fst (split_descriptors data)) @ snd (split_descriptors data) = data \<and>
   list_all (\<lambda>d. acceptable d \<and> descriptor_length d = length d) (fst (split_descriptors data)) \<and>
   \<not> acceptable (snd (split_descriptors data))"
  by (simp add: usb_configuration_parse_def parse_loop_correct at_last_def new_usb_configuration_def
      split_descriptors_concat list_all_iff split_descriptors_parts split_descriptors_rest)

section \<open>Configurations laid out by a device\<close>

text \<open>
  A configuration descriptor, then each interface descriptor followed by the descriptors of its endpoints, as
  a device lays them out; \<open>block\<close> gives the bytes of an interface descriptor with those of its endpoints.
\<close>

definition is_descriptor :: "u8 \<Rightarrow> nat \<Rightarrow> byte list \<Rightarrow> bool" where
  "is_descriptor t n d \<longleftrightarrow> length d = n \<and> d ! 0 = word_of_nat n \<and> d ! 1 = t"

type_synonym interface_block = "byte list \<times> byte list list"

definition is_block :: "interface_block \<Rightarrow> bool" where
  "is_block b \<longleftrightarrow> is_descriptor USB_DT_INTERFACE 9 (fst b) \<and> list_all (is_descriptor USB_DT_ENDPOINT 7) (snd b)"

definition block_interface :: "interface_block \<Rightarrow> usb_interface" where
  "block_interface b = \<lparr>iface_descriptor = decode_interface_descriptor (fst b),
     iface_endpoints = map (\<lambda>d. decode_endpoint_descriptor (d @ [0, 0])) (snd b), iface_expert = None\<rparr>"

definition block_descriptors :: "interface_block \<Rightarrow> byte list list" where
  "block_descriptors b = fst b # snd b"

lemma is_descriptor_acceptable:
  assumes "is_descriptor t n d" and "9 \<le> n \<or> t = USB_DT_ENDPOINT \<and> 7 \<le> n" and "n < 256"
  shows "acceptable d \<and> descriptor_length d = length d"
  using assms by (auto simp: is_descriptor_def acceptable_def descriptor_length_def)

lemma block_acceptable: "is_block b \<Longrightarrow> d \<in> set (block_descriptors b) \<Longrightarrow> acceptable d \<and> descriptor_length d = length d"
  using is_descriptor_acceptable [of USB_DT_INTERFACE 9 d] is_descriptor_acceptable [of USB_DT_ENDPOINT 7 d]
  by (auto simp: is_block_def block_descriptors_def list_all_iff)

lemma fold_add_endpoints:
  "list_all (is_descriptor USB_DT_ENDPOINT 7) es \<Longrightarrow> interfaces config = ifs @ [i] \<Longrightarrow>
   fold add_descriptor es config = config\<lparr>interfaces := ifs @ [i\<lparr>iface_endpoints := iface_endpoints i @
     map (\<lambda>d. decode_endpoint_descriptor (d @ [0, 0])) es\<rparr>]\<rparr>"
proof (induction es arbitrary: config i)
  case Nil
  then show ?case by (cases config; cases i) simp
next
  case (Cons d es)
  have z: "replicate 2 (0 :: byte) = [0, 0]" by (simp add: numeral_2_eq_2)
  have "add_descriptor d config = config\<lparr>interfaces := ifs @ [i\<lparr>iface_endpoints := iface_endpoints i @
      [decode_endpoint_descriptor (d @ [0, 0])]\<rparr>]\<rparr>"
    using Cons.prems by (simp add: add_descriptor_def is_descriptor_def map_last_def add_endpoint_def overlay_def z)
  with Cons.IH [of "add_descriptor d config" "i\<lparr>iface_endpoints := iface_endpoints i @ [decode_endpoint_descriptor (d @ [0, 0])]\<rparr>"]
    Cons.prems(1) show ?case by simp
qed

lemma fold_add_block:
  assumes "is_block b"
  shows "fold add_descriptor (block_descriptors b) config = config\<lparr>interfaces := interfaces config @ [block_interface b]\<rparr>"
proof -
  let ?i = "\<lparr>iface_descriptor = decode_interface_descriptor (fst b), iface_endpoints = [], iface_expert = None\<rparr>"
  have "add_descriptor (fst b) config = config\<lparr>interfaces := interfaces config @ [?i]\<rparr>"
    using assms by (simp add: is_block_def is_descriptor_def add_descriptor_def)
  with assms show ?thesis
    using fold_add_endpoints [of "snd b" "config\<lparr>interfaces := interfaces config @ [?i]\<rparr>" "interfaces config" ?i]
    by (simp add: is_block_def block_descriptors_def block_interface_def)
qed

lemma fold_add_blocks:
  "list_all is_block bs \<Longrightarrow> fold add_descriptor (concat (map block_descriptors bs)) config =
     config\<lparr>interfaces := interfaces config @ map block_interface bs\<rparr>"
  by (induction bs arbitrary: config) (simp_all add: fold_add_block)

lemma not_acceptable_Nil [simp]: "\<not> acceptable []"
  by (simp add: acceptable_def)

text \<open>
  A configuration laid out by a device is read back exactly: one interface per interface descriptor, in
  order, alternate settings included, each with its own endpoints in order, no expert attached yet and no DFU
  descriptor.
\<close>

theorem configuration_parse_layout:
  assumes "is_descriptor USB_DT_CONFIG 9 c" and "list_all is_block bs"
  shows "usb_configuration_parse new_usb_configuration (c @ concat (concat (map block_descriptors bs))) =
    Some (True, new_usb_configuration\<lparr>config_descriptor := decode_config_descriptor c, interfaces := map block_interface bs\<rparr>)"
proof -
  let ?ds = "c # concat (map block_descriptors bs)"
  have "\<forall>d \<in> set ?ds. acceptable d \<and> descriptor_length d = length d"
    using assms block_acceptable is_descriptor_acceptable [OF assms(1)] by (fastforce simp: list_all_iff)
  then have split: "split_descriptors (concat ?ds @ []) = (?ds, [])" by (rule split_descriptors_of_parts) simp
  have c: "add_descriptor c new_usb_configuration = new_usb_configuration\<lparr>config_descriptor := decode_config_descriptor c\<rparr>"
    using assms(1) by (simp add: add_descriptor_def is_descriptor_def)
  have "usb_configuration_parse new_usb_configuration (concat ?ds) =
      Some (True, fold add_descriptor ?ds new_usb_configuration)"
    using split by (simp add: usb_configuration_parse_def parse_loop_correct at_last_def new_usb_configuration_def)
  with assms(2) show ?thesis by (simp add: c fold_add_blocks) (simp add: new_usb_configuration_def)
qed

theorem configuration_parse_layout_witness:
  "usb_configuration_parse new_usb_configuration
     ([9, 2, 32, 0, 1, 1, 0, 0xC0, 250] @ concat (concat (map block_descriptors
       [([9, 4, 0, 0, 2, 0xFF, 0xFE, 2, 0], [[7, 5, 4, 2, 0, 2, 0], [7, 5, 0x85, 2, 0, 2, 0]])]))) =
   Some (True, new_usb_configuration\<lparr>config_descriptor := decode_config_descriptor [9, 2, 32, 0, 1, 1, 0, 0xC0, 250],
     interfaces := map block_interface
       [([9, 4, 0, 0, 2, 0xFF, 0xFE, 2, 0], [[7, 5, 4, 2, 0, 2, 0], [7, 5, 0x85, 2, 0, 2, 0]])]\<rparr>)"
  by (rule configuration_parse_layout) (simp_all add: is_descriptor_def is_block_def)

section \<open>Facts for the device\<close>

definition configuration_wf :: "usb_configuration \<Rightarrow> bool" where
  "configuration_wf c \<longleftrightarrow> length (dfu_descriptor c) = 7 \<and> list_all (\<lambda>i. iface_expert i = None) (interfaces c)"

lemma configuration_wf_add: "configuration_wf c \<Longrightarrow> configuration_wf (add_descriptor d c)"
  by (cases "interfaces c" rule: rev_cases)
    (auto simp: configuration_wf_def add_descriptor_def map_last_def add_endpoint_def overlay_def)

lemma configuration_wf_fold: "configuration_wf c \<Longrightarrow> configuration_wf (fold add_descriptor ds c)"
  by (induction ds arbitrary: c) (simp_all add: configuration_wf_add)

lemma configuration_wf_new [simp]: "configuration_wf new_usb_configuration"
  by (simp add: configuration_wf_def new_usb_configuration_def dfu_descriptor_sizeof_def)

lemma usb_configuration_parse_wf:
  "\<exists>ok c. usb_configuration_parse new_usb_configuration data = Some (ok, c) \<and> configuration_wf c"
  by (simp add: usb_configuration_parse_def parse_loop_correct at_last_def new_usb_configuration_def
      configuration_wf_fold [OF configuration_wf_new, unfolded new_usb_configuration_def])

lemma find_interface_found:
  "find_interface number alternate is = Some k \<Longrightarrow> k < length is \<and>
     bInterfaceNumber (iface_descriptor (is ! k)) = number \<and> bAlternateSetting (iface_descriptor (is ! k)) = alternate"
  by (induction number alternate "is" arbitrary: k rule: find_interface.induct) (auto split: if_splits)

end
