(* ===== verification/Utf16.thy ===== *)
theory Utf16
  imports Text_Format
begin

text \<open>
  \<open>utf16leToUtf8\<close> of \<open>demuxusb.hpp\<close>, which decodes USB string descriptors.  The code works on 32 bit
  words and appends to a string; the functions below follow it branch by branch.  The specification is
  arithmetic: the UTF-16LE and UTF-8 encodings of a Unicode scalar value.
\<close>

section \<open>The code\<close>

text \<open>The bytes appended for one code point.\<close>

definition utf8_push :: "u32 \<Rightarrow> byte list" where
  "utf8_push codepoint =
     (if codepoint < 0x80 then [ucast codepoint]
      else if codepoint < 0x800 then
        [ucast (0xC0 OR drop_bit 6 codepoint),
         ucast (0x80 OR (codepoint AND 0x3F))]
      else if codepoint < 0x10000 then
        [ucast (0xE0 OR drop_bit 12 codepoint),
         ucast (0x80 OR (drop_bit 6 codepoint AND 0x3F)),
         ucast (0x80 OR (codepoint AND 0x3F))]
      else
        [ucast (0xF0 OR drop_bit 18 codepoint),
         ucast (0x80 OR (drop_bit 12 codepoint AND 0x3F)),
         ucast (0x80 OR (drop_bit 6 codepoint AND 0x3F)),
         ucast (0x80 OR (codepoint AND 0x3F))])"

definition utf16_unit :: "byte \<Rightarrow> byte \<Rightarrow> u32" where
  "utf16_unit b0 b1 = ucast b0 OR push_bit 8 (ucast b1)"

text \<open>
  The loop reads the unit \<open>b0 b1\<close> at \<open>i\<close>.  A high surrogate with two more bytes behind it looks at the
  next unit; only a valid pair consumes it.
\<close>

fun utf16leToUtf8 :: "byte list \<Rightarrow> byte list" where
  "utf16leToUtf8 (b0 # b1 # b2 # b3 # rest) =
     (let unit = utf16_unit b0 b1 in
      if 0xD800 \<le> unit \<and> unit \<le> 0xDBFF then
        (let low = utf16_unit b2 b3 in
         if 0xDC00 \<le> low \<and> low \<le> 0xDFFF then
           utf8_push (0x10000 + push_bit 10 (unit - 0xD800) + (low - 0xDC00)) @ utf16leToUtf8 rest
         else utf8_push 0xFFFD @ utf16leToUtf8 (b2 # b3 # rest))
      else if 0xD800 \<le> unit \<and> unit \<le> 0xDFFF then
        utf8_push 0xFFFD @ utf16leToUtf8 (b2 # b3 # rest)
      else utf8_push unit @ utf16leToUtf8 (b2 # b3 # rest))"
| "utf16leToUtf8 (b0 # b1 # rest) =
     (let unit = utf16_unit b0 b1 in
      if 0xD800 \<le> unit \<and> unit \<le> 0xDFFF then utf8_push 0xFFFD @ utf16leToUtf8 rest
      else utf8_push unit @ utf16leToUtf8 rest)"
| "utf16leToUtf8 _ = []"

section \<open>The specification\<close>

definition scalar_value :: "nat \<Rightarrow> bool" where
  "scalar_value c \<longleftrightarrow> c < 0x110000 \<and> \<not> (0xD800 \<le> c \<and> c < 0xE000)"

definition utf8_enc :: "nat \<Rightarrow> byte list" where
  "utf8_enc c = map word_of_nat
     (if c < 0x80 then [c]
      else if c < 0x800 then [0xC0 + c div 64, 0x80 + c mod 64]
      else if c < 0x10000 then [0xE0 + c div 4096, 0x80 + c div 64 mod 64, 0x80 + c mod 64]
      else [0xF0 + c div 262144, 0x80 + c div 4096 mod 64, 0x80 + c div 64 mod 64, 0x80 + c mod 64])"

definition utf16le_enc :: "nat \<Rightarrow> byte list" where
  "utf16le_enc c =
     (if c < 0x10000 then le_bytes 2 c
      else le_bytes 2 (0xD800 + (c - 0x10000) div 1024) @ le_bytes 2 (0xDC00 + (c - 0x10000) mod 1024))"

section \<open>Words as numbers\<close>

lemma or_shifted_nat: "r < 2 ^ k \<Longrightarrow> (2 ^ k * q) OR r = 2 ^ k * q + (r :: nat)"
proof -
  assume "r < 2 ^ k"
  then have "take_bit k r = r" by (simp add: take_bit_nat_eq_self)
  then have "\<not> bit (2 ^ k * q) n \<or> \<not> bit r n" for n
    by (metis bit_push_bit_iff bit_take_bit_iff mult.commute not_less push_bit_eq_mult)
  then show ?thesis by (simp add: disjunctive_add)
qed

lemma unat_or_shifted:
  "unat v = 2 ^ k * q \<Longrightarrow> unat w < 2 ^ k \<Longrightarrow> unat (v OR w) = unat v + unat (w :: 'a::len word)"
  by (simp add: unsigned_or_eq or_shifted_nat)

lemma unat_utf16_unit: "unat (utf16_unit b0 b1) = unat b0 + 256 * unat b1"
proof -
  have b0: "unat b0 < 256" and b1: "unat b1 < 256" using unat_bound [of b0] unat_bound [of b1] by simp_all
  have lo: "unat (ucast b0 :: u32) = unat b0" using b0 by (simp add: unsigned_ucast_eq take_bit_nat_eq_self)
  have hi: "unat (push_bit 8 (ucast b1) :: u32) = 2 ^ 8 * unat b1"
    using b1 by (simp add: push_bit_eq_mult unat_word_ariths unsigned_ucast_eq take_bit_nat_eq_self)
  have "unat (push_bit 8 (ucast b1) OR ucast b0 :: u32) = 2 ^ 8 * unat b1 + unat b0"
    using unat_or_shifted [OF hi, of "ucast b0"] lo hi b0 by simp
  then show ?thesis by (simp add: utf16_unit_def or.commute)
qed

lemma utf16_unit_bound: "unat (utf16_unit b0 b1) < 65536"
  using unat_bound [of b0] unat_bound [of b1] by (simp add: unat_utf16_unit)

lemma unat_and_63: "unat (w AND 0x3F :: u32) = unat w mod 64"
proof -
  have "unat w AND 0x3F = unat w mod 64"
    using take_bit_eq_mask [of 6 "unat w"] by (simp add: take_bit_eq_mod mask_eq_exp_minus_1)
  then show ?thesis by (simp add: unsigned_and_eq)
qed

lemma unat_drop_bit: "unat (drop_bit n (w :: u32)) = unat w div 2 ^ n"
  by (simp only: unat_drop_bit_eq) (rule drop_bit_eq_div)

lemma ucast_lead:
  "unat a = 2 ^ k * q \<Longrightarrow> unat w < 2 ^ k \<Longrightarrow>
   (ucast (a OR w :: u32) :: byte) = word_of_nat (unat a + unat w)"
proof -
  assume "unat a = 2 ^ k * q" and "unat w < 2 ^ k"
  then have "unat (a OR w) = unat a + unat w" by (rule unat_or_shifted)
  then show ?thesis by (metis of_nat_unat)
qed

section \<open>The encoder of one code point\<close>

lemma utf8_push_eq: "unat c < 0x110000 \<Longrightarrow> utf8_push c = utf8_enc (unat c)"
proof -
  assume range: "unat c < 0x110000"
  let ?n = "unat c"
  have less: "c < w \<longleftrightarrow> ?n < unat w" for w by (rule word_less_nat_alt)
  have tail: "ucast (0x80 OR (v AND 0x3F) :: u32) = (word_of_nat (0x80 + unat v mod 64) :: byte)" for v
    using ucast_lead [of "0x80" 6 2 "v AND 0x3F"] by (simp add: unat_and_63)
  have "c < 0x80 \<Longrightarrow> (ucast c :: byte) = word_of_nat ?n" by (metis of_nat_unat)
  moreover have "c < 0x800 \<Longrightarrow> ucast (0xC0 OR drop_bit 6 c) = (word_of_nat (0xC0 + ?n div 64) :: byte)"
    using ucast_lead [of "0xC0" 6 3 "drop_bit 6 c"] by (simp add: less unat_drop_bit del: drop_bit_eq_div)
  moreover have "c < 0x10000 \<Longrightarrow> ucast (0xE0 OR drop_bit 12 c) = (word_of_nat (0xE0 + ?n div 4096) :: byte)"
    using ucast_lead [of "0xE0" 5 7 "drop_bit 12 c"] by (simp add: less unat_drop_bit)
  moreover have "ucast (0xF0 OR drop_bit 18 c) = (word_of_nat (0xF0 + ?n div 262144) :: byte)"
    using ucast_lead [of "0xF0" 4 15 "drop_bit 18 c"] range by (simp add: unat_drop_bit)
  ultimately show ?thesis
    by (simp add: utf8_push_def utf8_enc_def tail unat_drop_bit less)
qed

lemma utf8_push_scalar: "scalar_value (unat c) \<Longrightarrow> utf8_push c = utf8_enc (unat c)"
  by (rule utf8_push_eq) (simp add: scalar_value_def)

text \<open>The code point of a surrogate pair.\<close>

definition pair_value :: "u32 \<Rightarrow> u32 \<Rightarrow> u32" where
  "pair_value unit low = 0x10000 + push_bit 10 (unit - 0xD800) + (low - 0xDC00)"

lemma unat_pair_sum:
  "unat a < 1024 \<Longrightarrow> unat b < 1024 \<Longrightarrow>
   unat (0x10000 + push_bit 10 a + b :: u32) = 0x10000 + 1024 * unat a + unat b"
  by (simp add: push_bit_eq_mult unat_word_ariths)

lemma unat_pair_value:
  assumes "0xD800 \<le> unit" "unit \<le> 0xDBFF" "0xDC00 \<le> low" "low \<le> 0xDFFF"
  shows "unat (pair_value unit low) = 0x10000 + 1024 * (unat unit - 0xD800) + (unat low - 0xDC00)"
proof -
  have u: "0xD800 \<le> unat unit" "unat unit \<le> 0xDBFF" and l: "0xDC00 \<le> unat low" "unat low \<le> 0xDFFF"
    using assms by (simp_all add: word_le_nat_alt)
  have "unat (unit - 0xD800) = unat unit - 0xD800" using assms(1) by (simp add: unat_sub)
  moreover have "unat (low - 0xDC00) = unat low - 0xDC00" using assms(3) by (simp add: unat_sub)
  ultimately show ?thesis
    using u l unat_pair_sum [of "unit - 0xD800" "low - 0xDC00"] by (simp only: pair_value_def)
qed

lemma scalar_pair_value:
  assumes "0xD800 \<le> unit" "unit \<le> 0xDBFF" "0xDC00 \<le> low" "low \<le> 0xDFFF"
  shows "scalar_value (unat (pair_value unit low))"
  using unat_pair_value [OF assms] assms by (simp add: scalar_value_def word_le_nat_alt)

lemma scalar_replacement: "scalar_value (unat (0xFFFD :: u32))"
  by (simp add: scalar_value_def)

lemma scalar_unit:
  "\<not> (0xD800 \<le> utf16_unit b0 b1 \<and> utf16_unit b0 b1 \<le> 0xDFFF) \<Longrightarrow> scalar_value (unat (utf16_unit b0 b1))"
  using utf16_unit_bound [of b0 b1] by (auto simp: scalar_value_def word_le_nat_alt)

definition valid_utf8 :: "byte list \<Rightarrow> nat \<Rightarrow> bool" where
  "valid_utf8 out n \<longleftrightarrow> (\<exists>cps. (\<forall>c \<in> set cps. scalar_value c) \<and> out = concat (map utf8_enc cps) \<and> length cps \<le> n)"

lemma valid_utf8_Nil [simp]: "valid_utf8 [] n"
  by (auto simp: valid_utf8_def intro: exI [of _ "[]"])

lemma valid_utf8_push:
  "scalar_value (unat c) \<Longrightarrow> valid_utf8 out n \<Longrightarrow> Suc n \<le> m \<Longrightarrow> valid_utf8 (utf8_push c @ out) m"
proof -
  assume c: "scalar_value (unat c)" and v: "valid_utf8 out n" and m: "Suc n \<le> m"
  from v obtain cps where "\<forall>c \<in> set cps. scalar_value c" "out = concat (map utf8_enc cps)" "length cps \<le> n"
    by (auto simp: valid_utf8_def)
  then show ?thesis
    unfolding valid_utf8_def using c m by (intro exI [of _ "unat c # cps"]) (simp add: utf8_push_scalar)
qed

lemma valid_utf8_one: "scalar_value (unat c) \<Longrightarrow> valid_utf8 (utf8_push c) (Suc 0)"
  using valid_utf8_push [of c "[]" 0 "Suc 0"] by simp

lemma utf16leToUtf8_valid: "valid_utf8 (utf16leToUtf8 bs) (length bs div 2)"
proof (induction bs rule: utf16leToUtf8.induct)
  case (1 b0 b1 b2 b3 rest)
  let ?u = "utf16_unit b0 b1" and ?l = "utf16_unit b2 b3"
  consider (pair) "0xD800 \<le> ?u" "?u \<le> 0xDBFF" "0xDC00 \<le> ?l" "?l \<le> 0xDFFF"
    | (lone) "0xD800 \<le> ?u" "?u \<le> 0xDFFF" "\<not> (?u \<le> 0xDBFF \<and> 0xDC00 \<le> ?l \<and> ?l \<le> 0xDFFF)"
    | (bmp) "\<not> (0xD800 \<le> ?u \<and> ?u \<le> 0xDFFF)"
    by blast
  then show ?case
  proof cases
    case pair
    then have IH: "valid_utf8 (utf16leToUtf8 rest) (length rest div 2)" using 1 by blast
    have "valid_utf8 (utf8_push (pair_value ?u ?l) @ utf16leToUtf8 rest) (length rest div 2 + 2)"
      by (rule valid_utf8_push [OF scalar_pair_value [OF pair] IH]) simp
    with pair show ?thesis by (simp add: pair_value_def Let_def)
  next
    case lone
    then have IH: "valid_utf8 (utf16leToUtf8 (b2 # b3 # rest)) (length (b2 # b3 # rest) div 2)"
      using 1 by (metis (full_types))
    have "valid_utf8 (utf8_push 0xFFFD @ utf16leToUtf8 (b2 # b3 # rest)) (length rest div 2 + 2)"
      by (rule valid_utf8_push [OF scalar_replacement IH]) simp
    with lone show ?thesis by (auto simp: Let_def)
  next
    case bmp
    have "\<not> (0xD800 \<le> ?u \<and> ?u \<le> 0xDBFF)" using bmp by (auto simp: word_le_nat_alt)
    with bmp have IH: "valid_utf8 (utf16leToUtf8 (b2 # b3 # rest)) (length (b2 # b3 # rest) div 2)"
      using 1 by blast
    have "valid_utf8 (utf8_push ?u @ utf16leToUtf8 (b2 # b3 # rest)) (length rest div 2 + 2)"
      by (rule valid_utf8_push [OF scalar_unit [OF bmp] IH]) simp
    with bmp \<open>\<not> (0xD800 \<le> ?u \<and> ?u \<le> 0xDBFF)\<close> show ?thesis by (auto simp: Let_def)
  qed
qed (auto simp: Let_def intro: valid_utf8_one scalar_replacement scalar_unit)

section \<open>Decoding what a device encodes\<close>

lemma utf16_unit_le_bytes:
  "v < 65536 \<Longrightarrow> unat (utf16_unit (word_of_nat v) (word_of_nat (v div 256))) = v"
  by (simp add: unat_utf16_unit unat_of_nat take_bit_eq_mod)

lemma le_bytes_2: "le_bytes 2 v = [word_of_nat v, word_of_nat (v div 256)]"
  by (simp add: numeral_2_eq_2)

text \<open>A unit that is no surrogate is copied through, whatever follows it.\<close>

lemma utf16leToUtf8_bmp:
  assumes "\<not> (0xD800 \<le> utf16_unit b0 b1 \<and> utf16_unit b0 b1 \<le> 0xDFFF)"
  shows "utf16leToUtf8 (b0 # b1 # rest) = utf8_push (utf16_unit b0 b1) @ utf16leToUtf8 rest"
proof -
  have "\<not> (0xD800 \<le> utf16_unit b0 b1 \<and> utf16_unit b0 b1 \<le> 0xDBFF)"
    using assms by (auto simp: word_le_nat_alt)
  with assms show ?thesis
    by (cases rest rule: utf16leToUtf8.cases) (auto simp: Let_def)
qed

lemma utf16leToUtf8_scalar:
  assumes "scalar_value c"
  shows "utf16leToUtf8 (utf16le_enc c @ rest) = utf8_enc c @ utf16leToUtf8 rest"
proof (cases "c < 0x10000")
  case True
  let ?u = "utf16_unit (word_of_nat c) (word_of_nat (c div 256))"
  have u: "unat ?u = c" using True by (intro utf16_unit_le_bytes) simp
  then have "\<not> (0xD800 \<le> ?u \<and> ?u \<le> 0xDFFF)"
    using assms by (auto simp: word_le_nat_alt scalar_value_def)
  then show ?thesis
    using utf16leToUtf8_bmp [of "word_of_nat c" "word_of_nat (c div 256)" rest] True assms u
    by (simp add: utf16le_enc_def le_bytes_2 utf8_push_scalar)
next
  case False
  define hi lo where "hi = 0xD800 + (c - 0x10000) div 1024" and "lo = 0xDC00 + (c - 0x10000) mod 1024"
  have range: "c < 0x110000" using assms by (simp add: scalar_value_def)
  then have hi: "0xD800 \<le> hi" "hi \<le> 0xDBFF" and lo: "0xDC00 \<le> lo" "lo \<le> 0xDFFF"
    by (auto simp: hi_def lo_def)
  let ?u = "utf16_unit (word_of_nat hi) (word_of_nat (hi div 256))"
  let ?l = "utf16_unit (word_of_nat lo) (word_of_nat (lo div 256))"
  have u: "unat ?u = hi" and l: "unat ?l = lo" using hi lo by (auto intro: utf16_unit_le_bytes)
  have pair: "0xD800 \<le> ?u" "?u \<le> 0xDBFF" "0xDC00 \<le> ?l" "?l \<le> 0xDFFF"
    using hi lo by (simp_all add: word_le_nat_alt u l)
  have "unat (pair_value ?u ?l) = 0x10000 + 1024 * (hi - 0xD800) + (lo - 0xDC00)"
    by (simp only: unat_pair_value [OF pair] u l)
  also have "\<dots> = c" using False by (simp add: hi_def lo_def)
  finally have "unat (pair_value ?u ?l) = c" .
  then have "utf8_push (pair_value ?u ?l) = utf8_enc c"
    using utf8_push_scalar [OF scalar_pair_value [OF pair]] by simp
  then show ?thesis
    using False pair by (simp add: utf16le_enc_def le_bytes_2 hi_def [symmetric] lo_def [symmetric] Let_def pair_value_def)
qed

lemma utf16leToUtf8_roundtrip_aux:
  "(\<forall>c \<in> set cps. scalar_value c) \<Longrightarrow>
   utf16leToUtf8 (concat (map utf16le_enc cps)) = concat (map utf8_enc cps)"
  by (induction cps) (simp_all add: utf16leToUtf8_scalar)

section \<open>Properties\<close>

text \<open>
  C33: Whatever a device answers, a string descriptor is decoded to well formed UTF-8: the output is the
  encoding of a list of Unicode scalar values (no surrogates, none above U+10FFFF), at most one for
  every two bytes of the descriptor; unpaired surrogates become U+FFFD.
\<close>

theorem utf16leToUtf8_wellformed: "valid_utf8 (utf16leToUtf8 bs) (length bs div 2)"
  by (rule utf16leToUtf8_valid)

text \<open>
  C34: Decoding inverts encoding: a string that a device encodes as UTF-16LE, its supplementary characters
  as surrogate pairs, is decoded to exactly the UTF-8 encoding of the same characters.
\<close>

theorem utf16leToUtf8_roundtrip:
  assumes "\<forall>c \<in> set cps. scalar_value c"
  shows "utf16leToUtf8 (concat (map utf16le_enc cps)) = concat (map utf8_enc cps)"
  using assms by (rule utf16leToUtf8_roundtrip_aux)

lemma utf16leToUtf8_roundtrip_witness:
  "utf16leToUtf8 (concat (map utf16le_enc [0x69, 0xE9, 0x20AC, 0x1F600])) =
     concat (map utf8_enc [0x69, 0xE9, 0x20AC, 0x1F600]) \<and>
   concat (map utf8_enc [0x69, 0xE9, 0x20AC, 0x1F600]) =
     [0x69, 0xC3, 0xA9, 0xE2, 0x82, 0xAC, 0xF0, 0x9F, 0x98, 0x80]"
  using utf16leToUtf8_roundtrip [of "[0x69, 0xE9, 0x20AC, 0x1F600]"]
  by (simp add: scalar_value_def utf8_enc_def)

end
