(* ===== verification/Device_Model.thy ===== *)
theory Device_Model
  imports Experts Usb_Configuration Utf16
begin

text \<open>
  The class \<open>Device\<close> (\<open>src/usb/Device.h\<close>, \<open>Device.cpp\<close>): it learns the descriptors of a device from its
  control endpoint, attaches an expert to the interfaces it knows, and hands every transfer to the expert
  of its interface.

  Interfaces share their expert through a \<open>std::shared_ptr\<close>, so a device owns a heap of experts
  (\<open>m_experts\<close>) and a pointer is an address in it.  A result \<open>None\<close> is an access outside a packet or
  through an invalid pointer, in the device or in an expert.
\<close>

section \<open>State\<close>

record bos_descriptor =
  bos_header :: usb_bos_descriptor
  bos_data :: "byte list"

record 'p device =
  m_device_id :: u64
  m_packetCount :: u64
  m_byteCount :: u64
  m_controlPacketCount :: u64
  m_controlByteCount :: u64
  m_hasDeviceDescriptor :: bool
  m_currentConfiguration :: u8
  m_deviceDescriptor :: usb_device_descriptor
  m_configurations :: "(u8, usb_configuration) omap"
  m_alternates :: "(u8, u8) omap"
  m_strings :: "(u8, string) omap"
  m_bosDescriptors :: "bos_descriptor list"
  m_anomalies :: "string list"
  m_experts :: "'p expert list"

definition new_device :: "u64 \<Rightarrow> 'p device" where
  "new_device identifier =
     \<lparr>m_device_id = identifier, m_packetCount = 0, m_byteCount = 0, m_controlPacketCount = 0, m_controlByteCount = 0,
      m_hasDeviceDescriptor = False, m_currentConfiguration = 0, m_deviceDescriptor = zero_device_descriptor,
      m_configurations = om_empty, m_alternates = om_empty, m_strings = om_empty, m_bosDescriptors = [],
      m_anomalies = [], m_experts = []\<rparr>"

section \<open>What a device is\<close>

definition isApple :: "'p device \<Rightarrow> bool" where
  "isApple d \<longleftrightarrow> idVendor (m_deviceDescriptor d) = APPLE_VID"

definition isAppleDFU :: "'p device \<Rightarrow> bool" where
  "isAppleDFU d \<longleftrightarrow> idVendor (m_deviceDescriptor d) = APPLE_VID \<and>
     (idProduct (m_deviceDescriptor d) = IRECV_K_DFU_MODE \<or> idProduct (m_deviceDescriptor d) = IRECV_K_WTF_MODE)"

definition isAppleRecovery :: "'p device \<Rightarrow> bool" where
  "isAppleRecovery d =
     (if idVendor (m_deviceDescriptor d) = APPLE_VID
      then idProduct (m_deviceDescriptor d) = IRECV_K_RECOVERY_MODE_1 \<or>
           idProduct (m_deviceDescriptor d) = IRECV_K_RECOVERY_MODE_2 \<or>
           idProduct (m_deviceDescriptor d) = IRECV_K_RECOVERY_MODE_3 \<or>
           idProduct (m_deviceDescriptor d) = IRECV_K_RECOVERY_MODE_4
      else False)"

definition getMode :: "'p device \<Rightarrow> string" where
  "getMode d =
     (if \<not> m_hasDeviceDescriptor d then ''Unknown''
      else if isApple d then
        if idProduct (m_deviceDescriptor d) = IRECV_K_DFU_MODE then ''DFU''
        else if idProduct (m_deviceDescriptor d) = IRECV_K_WTF_MODE then ''WTF''
        else if isAppleRecovery d then ''Recovery''
        else ''Normal''
      else ''Unknown'')"

definition getString :: "u8 \<Rightarrow> 'p device \<Rightarrow> string" where
  "getString index d = (case om_find (m_strings d) index of Some s \<Rightarrow> s | None \<Rightarrow> ''<unknown>'')"

definition getProduct :: "'p device \<Rightarrow> string" where
  "getProduct d = getString (iProduct (m_deviceDescriptor d)) d"

definition getManufacturer :: "'p device \<Rightarrow> string" where
  "getManufacturer d = getString (iManufacturer (m_deviceDescriptor d)) d"

definition getSerial :: "'p device \<Rightarrow> string" where
  "getSerial d = getString (iSerialNumber (m_deviceDescriptor d)) d"

definition getAlternateSetting :: "u8 \<Rightarrow> 'p device \<Rightarrow> u8" where
  "getAlternateSetting interface d =
     (case om_find (m_alternates d) interface of None \<Rightarrow> 0 | Some v \<Rightarrow> v)"

text \<open>\<open>getExperts\<close>: \<open>seen\<close> holds the pointers of \<open>result\<close>.\<close>

definition see_expert :: "usb_interface \<Rightarrow> nat list \<Rightarrow> nat list" where
  "see_expert interface result =
     (case iface_expert interface of
        None \<Rightarrow> result
      | Some p \<Rightarrow> if p \<in> set result then result else result @ [p])"

definition getExperts :: "'p device \<Rightarrow> nat list" where
  "getExperts d = fold (\<lambda>configuration. fold see_expert (interfaces configuration)) (om_values (m_configurations d)) []"

section \<open>Attaching experts\<close>

definition set_expert :: "nat \<Rightarrow> usb_interface \<Rightarrow> usb_interface" where
  "set_expert p interface = interface\<lparr>iface_expert := Some p\<rparr>"

text \<open>\<open>std::make_shared\<close>.\<close>

definition make_shared :: "'p expert \<Rightarrow> 'p device \<Rightarrow> nat \<times> 'p device" where
  "make_shared e d = (length (m_experts d), d\<lparr>m_experts := m_experts d @ [e]\<rparr>)"

definition make_dfu :: "usb_configuration \<Rightarrow> u8 \<Rightarrow> 'p expert" where
  "make_dfu config number =
     (let dfu = new_dfu_expert (bConfigurationValue (config_descriptor config)) number
      in ExpertDFU (if has_dfu_descriptor config
                    then setTransferSize (wTransferSize (decode_dfu_descriptor (dfu_descriptor config))) dfu else dfu))"

text \<open>The one expert of a DFU or recovery device.\<close>

definition device_expert :: "usb_configuration \<Rightarrow> 'p device \<Rightarrow> nat option \<times> 'p device" where
  "device_expert config d =
     (if isAppleDFU d then case make_shared (make_dfu config 0) d of (p, d') \<Rightarrow> (Some p, d')
      else if isAppleRecovery d then
        case make_shared (ExpertRecovery (new_recovery_expert (bConfigurationValue (config_descriptor config)) 0)) d of
          (p, d') \<Rightarrow> (Some p, d')
      else (None, d))"

text \<open>The expert the class, subclass and protocol of an interface call for.\<close>

definition interface_protocol :: "usb_configuration \<Rightarrow> usb_interface_descriptor \<Rightarrow> 'p device \<Rightarrow> 'p expert option" where
  "interface_protocol config descriptor d =
     (if isApple d \<and> bInterfaceClass descriptor = USB_CLASS_APPLICATION_SPECIFIC \<and>
         bInterfaceSubClass descriptor = APPLE_SUBCLASS_USBMUX \<and>
         bInterfaceProtocol descriptor = APPLE_PROTOCOL_USBMUX2
      then Some (ExpertUSBMUX (new_usbmux_expert (bConfigurationValue (config_descriptor config)) (bInterfaceNumber descriptor)))
      else if bInterfaceClass descriptor = USB_CLASS_DFU \<and> bInterfaceSubClass descriptor = USB_SUBCLASS_DFU
      then Some (make_dfu config (bInterfaceNumber descriptor))
      else None)"

type_synonym 'p attaching = "usb_configuration \<times> (u8, nat) omap \<times> 'p device"

definition attach_interface :: "nat option \<Rightarrow> nat \<Rightarrow> 'p attaching \<Rightarrow> 'p attaching option" where
  "attach_interface deviceExpert k st = (case st of (config, byInterface, d) \<Rightarrow> do {
     interface \<leftarrow> elem_at k (interfaces config);
     let number = bInterfaceNumber (iface_descriptor interface);
     case deviceExpert of
       Some p \<Rightarrow> Some (config\<lparr>interfaces := (interfaces config)[k := set_expert p interface]\<rparr>, byInterface, d)
     | None \<Rightarrow>
         (case om_find byInterface number of
            Some p \<Rightarrow> Some (config\<lparr>interfaces := (interfaces config)[k := set_expert p interface]\<rparr>, byInterface, d)
          | None \<Rightarrow>
              (case interface_protocol config (iface_descriptor interface) d of
                 None \<Rightarrow> Some (config, byInterface, d)
               | Some e \<Rightarrow>
                   (case make_shared e d of (p, d') \<Rightarrow>
                      Some (config\<lparr>interfaces := map (\<lambda>other. if bInterfaceNumber (iface_descriptor other) = number
                                                             then set_expert p other else other) (interfaces config)\<rparr>,
                            om_put number p byInterface, d'))))
   })"

definition attachExperts :: "usb_configuration \<Rightarrow> 'p device \<Rightarrow> (usb_configuration \<times> 'p device) option" where
  "attachExperts config d = (case device_expert config d of (deviceExpert, d) \<Rightarrow> do {
     (config, byInterface, d) \<leftarrow> run_opt (attach_interface deviceExpert) [0..<length (interfaces config)] (config, om_empty, d);
     Some (config, d)
   })"

section \<open>Descriptors\<close>

definition process_device_descriptor :: "byte list \<Rightarrow> 'p device \<Rightarrow> 'p device" where
  "process_device_descriptor data d =
     (case readStruct USB_DT_DEVICE_SIZE decode_device_descriptor data of
        None \<Rightarrow> d
      | Some descriptor \<Rightarrow> d\<lparr>m_deviceDescriptor := descriptor, m_hasDeviceDescriptor := True\<rparr>)"

definition process_config_descriptor :: "byte list \<Rightarrow> 'p device \<Rightarrow> 'p device option" where
  "process_config_descriptor data d =
     (case readStruct USB_DT_CONFIG_SIZE decode_config_descriptor data of
        None \<Rightarrow> Some d
      | Some configDescriptor \<Rightarrow>
          if length data < unat (wTotalLength configDescriptor) \<or> unat (wTotalLength configDescriptor) \<le> USB_DT_CONFIG_SIZE
          then Some d
          else do {
            descriptors \<leftarrow> subspan 0 (unat (wTotalLength configDescriptor)) data;
            (ok, config) \<leftarrow> usb_configuration_parse new_usb_configuration descriptors;
            let d = (if ok then d else d\<lparr>m_anomalies := m_anomalies d @
              [''Malformed configuration descriptor '' @ dec (unat (bConfigurationValue configDescriptor))]\<rparr>);
            let value = bConfigurationValue (config_descriptor config);
            if om_contains (m_configurations d) value then Some d
            else do {
              (config, d) \<leftarrow> attachExperts config d;
              Some (d\<lparr>m_configurations := om_put value config (m_configurations d)\<rparr>)
            }
          })"

definition process_string_descriptor :: "u16 \<Rightarrow> usb_descriptor_header \<Rightarrow> byte list \<Rightarrow> 'p device \<Rightarrow> 'p device option" where
  "process_string_descriptor descriptorIndex header data d =
     (if descriptorIndex = 0 then Some d
      else if unat (bLength header) < 2 \<or> length data < unat (bLength header) then Some d
      else do {
        units \<leftarrow> subspan 2 (unat (bLength header) - 2) data;
        Some (d\<lparr>m_strings := om_put (ucast descriptorIndex) (text_of (utf16leToUtf8 units)) (m_strings d)\<rparr>)
      })"

definition process_bos_descriptor :: "byte list \<Rightarrow> 'p device \<Rightarrow> 'p device option" where
  "process_bos_descriptor data d =
     (case readStruct USB_DT_BOS_SIZE decode_bos_descriptor data of
        None \<Rightarrow> Some d
      | Some header \<Rightarrow>
          if unat (bos_wTotalLength header) < USB_DT_BOS_SIZE \<or> length data < unat (bos_wTotalLength header) then Some d
          else if unat (bos_wTotalLength header) = USB_DT_BOS_SIZE \<and> bNumDeviceCaps header \<noteq> 0 then Some d
          else do {
            capabilities \<leftarrow> subspan USB_DT_BOS_SIZE (unat (bos_wTotalLength header) - USB_DT_BOS_SIZE) data;
            Some (d\<lparr>m_bosDescriptors := m_bosDescriptors d @ [\<lparr>bos_header = header, bos_data = capabilities\<rparr>]\<rparr>)
          })"

definition wrong_type :: "u16 \<Rightarrow> u8 \<Rightarrow> string" where
  "wrong_type descriptorType actual = ''GET_DESCRIPTOR(0x'' @ zero_pad 2 (hex (unat descriptorType)) @
     '') returned descriptor type 0x'' @ zero_pad 2 (hex (unat actual))"

definition processDescriptor :: "usb_setup_t \<Rightarrow> byte list \<Rightarrow> 'p device \<Rightarrow> 'p device option" where
  "processDescriptor setup data d =
     (let descriptorType = drop_bit 8 (wValue setup); descriptorIndex = wValue setup AND 0xFF in
      case readStruct descriptor_header_size decode_descriptor_header data of
        None \<Rightarrow> Some d
      | Some header \<Rightarrow>
          if ucast (bDescriptorType header) \<noteq> descriptorType
          then Some (d\<lparr>m_anomalies := m_anomalies d @ [wrong_type descriptorType (bDescriptorType header)]\<rparr>)
          else if descriptorType = ucast USB_DT_DEVICE then
            (if length data < USB_DT_DEVICE_SIZE then Some d else Some (process_device_descriptor data d))
          else if descriptorType = ucast USB_DT_CONFIG then process_config_descriptor data d
          else if descriptorType = ucast USB_DT_STRING then process_string_descriptor descriptorIndex header data d
          else if descriptorType = ucast USB_DT_BOS then process_bos_descriptor data d
          else Some d)"

section \<open>Routing\<close>

definition activeConfiguration :: "'p device \<Rightarrow> usb_configuration option" where
  "activeConfiguration d =
     (if m_configurations d = [] then None
      else case om_find (m_configurations d) (m_currentConfiguration d) of
        Some found \<Rightarrow> Some found
      | None \<Rightarrow>
          if m_currentConfiguration d = 0 \<and> length (m_configurations d) = 1 then Some (snd (hd (m_configurations d)))
          else None)"

text \<open>The two nested loops of \<open>getExpertForEndpoint\<close>, over the interfaces with one of their endpoints.\<close>

definition interface_endpoints :: "usb_configuration \<Rightarrow> (usb_interface \<times> usb_endpoint_descriptor) list" where
  "interface_endpoints config = concat (map (\<lambda>i. map (\<lambda>e. (i, e)) (iface_endpoints i)) (interfaces config))"

fun endpoint_expert :: "'p device \<Rightarrow> u8 \<Rightarrow> nat option \<Rightarrow> (usb_interface \<times> usb_endpoint_descriptor) list \<Rightarrow> nat option" where
  "endpoint_expert d endpoint fallback [] = fallback"
| "endpoint_expert d endpoint fallback ((interface, interface_endpoint) # rest) =
     (if bEndpointAddress interface_endpoint \<noteq> endpoint then endpoint_expert d endpoint fallback rest
      else if bAlternateSetting (iface_descriptor interface) =
              getAlternateSetting (bInterfaceNumber (iface_descriptor interface)) d
      then iface_expert interface
      else endpoint_expert d endpoint (if fallback = None then iface_expert interface else fallback) rest)"

definition getExpertForEndpoint :: "u8 \<Rightarrow> 'p device \<Rightarrow> nat option" where
  "getExpertForEndpoint endpoint d =
     (case activeConfiguration d of
        None \<Rightarrow> None
      | Some config \<Rightarrow> endpoint_expert d endpoint None (interface_endpoints config))"

definition control_configuration :: "'p device \<Rightarrow> usb_configuration option" where
  "control_configuration d =
     (case activeConfiguration d of
        Some config \<Rightarrow> Some config
      | None \<Rightarrow> if m_configurations d = [] then None else Some (snd (hd (m_configurations d))))"

fun interface_expert_of :: "u16 \<Rightarrow> usb_interface list \<Rightarrow> nat option" where
  "interface_expert_of number [] = None"
| "interface_expert_of number (interface # rest) =
     (if ucast (bInterfaceNumber (iface_descriptor interface)) = number then iface_expert interface
      else interface_expert_of number rest)"

fun first_expert :: "usb_interface list \<Rightarrow> nat option" where
  "first_expert [] = None"
| "first_expert (interface # rest) = (case iface_expert interface of Some p \<Rightarrow> Some p | None \<Rightarrow> first_expert rest)"

definition getExpertForControl :: "usb_setup_t \<Rightarrow> 'p device \<Rightarrow> nat option" where
  "getExpertForControl setup d =
     (case control_configuration d of
        None \<Rightarrow> None
      | Some config \<Rightarrow>
          if bmRequestType setup AND USB_RECIP_MASK = USB_RECIP_INTERFACE
          then interface_expert_of (wIndex setup AND 0xFF) (interfaces config)
          else first_expert (interfaces config))"

section \<open>Transfers\<close>

text \<open>\<open>if (expert != nullptr) { expert->...; }\<close>\<close>

definition call_expert :: "('p expert \<Rightarrow> 'p expert option) \<Rightarrow> nat option \<Rightarrow> 'p device \<Rightarrow> 'p device option" where
  "call_expert f expert d =
     (case expert of
        None \<Rightarrow> Some d
      | Some p \<Rightarrow> do {
          e \<leftarrow> elem_at p (m_experts d);
          e' \<leftarrow> f e;
          Some (d\<lparr>m_experts := (m_experts d)[p := e']\<rparr>)
        })"

definition count_bulk :: "byte list \<Rightarrow> 'p device \<Rightarrow> 'p device" where
  "count_bulk data d = d\<lparr>m_packetCount := m_packetCount d + 1, m_byteCount := m_byteCount d + word_of_nat (length data)\<rparr>"

definition count_control :: "byte list \<Rightarrow> 'p device \<Rightarrow> 'p device" where
  "count_control data d = d\<lparr>m_controlPacketCount := m_controlPacketCount d + 1,
     m_controlByteCount := m_controlByteCount d + word_of_nat (length data)\<rparr>"

definition processBulkPacketIn :: "'p plist_api \<Rightarrow> u8 \<Rightarrow> byte list \<Rightarrow> 'p device \<Rightarrow> 'p device option" where
  "processBulkPacketIn api endpoint data d =
     (let endpoint = endpoint OR 0x80; d = count_bulk data d
      in call_expert (expert_processBulkIn api data) (getExpertForEndpoint endpoint d) d)"

definition processBulkPacketOut :: "'p plist_api \<Rightarrow> u8 \<Rightarrow> byte list \<Rightarrow> 'p device \<Rightarrow> 'p device option" where
  "processBulkPacketOut api endpoint data d =
     (let endpoint = USB_ENDPOINT_ID endpoint; d = count_bulk data d
      in call_expert (expert_processBulkOut api data) (getExpertForEndpoint endpoint d) d)"

definition processControlPacketIn :: "'p plist_api \<Rightarrow> u8 \<Rightarrow> usb_setup_t \<Rightarrow> byte list \<Rightarrow> 'p device \<Rightarrow> 'p device option" where
  "processControlPacketIn api endpoint setup data d =
     (let d = count_control data d in
      if USB_ENDPOINT_ID endpoint \<noteq> 0 then Some d
      else if bmRequestType setup AND USB_TYPE_MASK = USB_TYPE_STANDARD then
        (if bRequest setup = USB_REQ_GET_DESCRIPTOR \<and> bmRequestType setup AND USB_RECIP_MASK = USB_RECIP_DEVICE
         then processDescriptor setup data d else Some d)
      else call_expert (expert_processControlIn api setup data) (getExpertForControl setup d) d)"

definition standard_request :: "usb_setup_t \<Rightarrow> 'p device \<Rightarrow> 'p device" where
  "standard_request setup d =
     (let recipient = bmRequestType setup AND USB_RECIP_MASK in
      if recipient = USB_RECIP_DEVICE \<and> bRequest setup = USB_REQ_SET_CONFIGURATION
      then d\<lparr>m_currentConfiguration := ucast (wValue setup AND 0xFF), m_alternates := om_empty\<rparr>
      else if recipient = USB_RECIP_INTERFACE \<and> bRequest setup = USB_REQ_SET_INTERFACE
      then d\<lparr>m_alternates := om_put (ucast (wIndex setup AND 0xFF)) (ucast (wValue setup AND 0xFF)) (m_alternates d)\<rparr>
      else d)"

definition processControlPacketOut :: "'p plist_api \<Rightarrow> u8 \<Rightarrow> usb_setup_t \<Rightarrow> byte list \<Rightarrow> 'p device \<Rightarrow> 'p device option" where
  "processControlPacketOut api endpoint setup data d =
     (let d = count_control data d in
      if USB_ENDPOINT_ID endpoint \<noteq> 0 then Some d
      else if bmRequestType setup AND USB_TYPE_MASK = USB_TYPE_STANDARD then Some (standard_request setup d)
      else call_expert (expert_processControlOut api setup data) (getExpertForControl setup d) d)"

section \<open>Attaching experts: the pure description\<close>

abbreviation number_of :: "usb_interface \<Rightarrow> u8" where
  "number_of i \<equiv> bInterfaceNumber (iface_descriptor i)"

abbreviation protocol_of :: "usb_configuration \<Rightarrow> 'p device \<Rightarrow> usb_interface \<Rightarrow> 'p expert option" where
  "protocol_of c d i \<equiv> interface_protocol c (iface_descriptor i) d"

lemma interface_protocol_cong [simp]:
  "interface_protocol (c\<lparr>interfaces := is\<rparr>) x (d\<lparr>m_experts := es\<rparr>) = interface_protocol c x d"
  "interface_protocol (c\<lparr>interfaces := is\<rparr>) x d = interface_protocol c x d"
  "interface_protocol c x (d\<lparr>m_experts := es\<rparr>) = interface_protocol c x d"
  by (simp_all add: interface_protocol_def make_dfu_def isApple_def Let_def)

text \<open>The pointers of the interfaces follow from the map \<open>byInterface\<close>.\<close>

definition with_experts :: "(u8, nat) omap \<Rightarrow> usb_interface list \<Rightarrow> usb_interface list" where
  "with_experts by is = map (\<lambda>i. i\<lparr>iface_expert := om_find by (number_of i)\<rparr>) is"

lemma length_with_experts [simp]: "length (with_experts by is) = length is"
  by (simp add: with_experts_def)

lemma with_experts_nth: "k < length is \<Longrightarrow> with_experts by is ! k = (is ! k)\<lparr>iface_expert := om_find by (number_of (is ! k))\<rparr>"
  by (simp add: with_experts_def)

definition share_step :: "usb_configuration \<Rightarrow> 'p device \<Rightarrow> usb_interface \<Rightarrow> (u8, nat) omap \<times> 'p expert list \<Rightarrow>
    (u8, nat) omap \<times> 'p expert list" where
  "share_step c d i st = (case st of (by, es) \<Rightarrow>
     if om_find by (number_of i) \<noteq> None then (by, es)
     else case protocol_of c d i of None \<Rightarrow> (by, es) | Some e \<Rightarrow> (om_put (number_of i) (length es) by, es @ [e]))"

lemma with_experts_put:
  "map (\<lambda>other. if number_of other = n then set_expert p other else other) (with_experts by is) =
     with_experts (om_put n p by) is"
  by (auto simp: with_experts_def set_expert_def om.find_put)

lemma attach_interface_shared:
  assumes "k < length (interfaces c)"
  shows "attach_interface None k (c\<lparr>interfaces := with_experts by (interfaces c)\<rparr>, by, d\<lparr>m_experts := es\<rparr>) =
    (case share_step c d (interfaces c ! k) (by, es) of (by', es') \<Rightarrow>
       Some (c\<lparr>interfaces := with_experts by' (interfaces c)\<rparr>, by', d\<lparr>m_experts := es'\<rparr>))"
proof (cases "om_find by (number_of (interfaces c ! k))")
  case None
  then show ?thesis
    using assms by (cases "protocol_of c d (interfaces c ! k)")
      (simp_all add: attach_interface_def share_step_def with_experts_nth with_experts_put make_shared_def Let_def)
next
  case (Some p)
  have same: "(with_experts by (interfaces c))[k := set_expert p (with_experts by (interfaces c) ! k)] =
      with_experts by (interfaces c)"
    using assms Some by (simp add: with_experts_nth set_expert_def list_eq_iff_nth_eq nth_list_update)
  have "number_of (with_experts by (interfaces c) ! k) = number_of (interfaces c ! k)"
    using assms by (simp add: with_experts_nth)
  with same Some assms show ?thesis by (simp add: attach_interface_def share_step_def Let_def)
qed

lemma attach_loop_shared:
  assumes "list_all (\<lambda>i. iface_expert i = None) (interfaces c)" and "k \<le> length (interfaces c)"
  shows "run_opt (attach_interface None) [0..<k] (c, om_empty, d) =
    (case fold (share_step c d) (take k (interfaces c)) (om_empty, m_experts d) of (by, es) \<Rightarrow>
       Some (c\<lparr>interfaces := with_experts by (interfaces c)\<rparr>, by, d\<lparr>m_experts := es\<rparr>))"
  using assms(2)
proof (induction k)
  case 0
  have "with_experts om_empty (interfaces c) = interfaces c"
    unfolding with_experts_def by (rule map_idI) (use assms(1) in \<open>simp add: list_all_iff\<close>)
  then show ?case by simp
next
  case (Suc k)
  then show ?case
    by (simp add: run_opt_append take_Suc_conv_app_nth split_beta attach_interface_shared)
qed

lemma attach_loop_device:
  "k \<le> length (interfaces c) \<Longrightarrow> run_opt (attach_interface (Some p)) [0..<k] (c, by, d) =
     Some (c\<lparr>interfaces := map (set_expert p) (take k (interfaces c)) @ drop k (interfaces c)\<rparr>, by, d)"
proof (induction k)
  case 0
  then show ?case by simp
next
  case (Suc k)
  have len: "length (map (set_expert p) (take k (interfaces c))) = k" using Suc.prems by simp
  have "(map (set_expert p) (take k (interfaces c)) @ drop k (interfaces c))[k := set_expert p (interfaces c ! k)] =
      map (set_expert p) (take (Suc k) (interfaces c)) @ drop (Suc k) (interfaces c)"
    using Suc.prems by (simp add: list_update_append take_Suc_conv_app_nth flip: Cons_nth_drop_Suc)
  with Suc show ?case
    by (simp add: run_opt_append attach_interface_def Let_def nth_append)
qed

text \<open>What a fold of \<^const>\<open>share_step\<close> computes.\<close>

definition first_protocol :: "usb_configuration \<Rightarrow> 'p device \<Rightarrow> u8 \<Rightarrow> usb_interface list \<Rightarrow> 'p expert option" where
  "first_protocol c d n is =
     (case find (\<lambda>i. number_of i = n \<and> protocol_of c d i \<noteq> None) is of None \<Rightarrow> None | Some i \<Rightarrow> protocol_of c d i)"

definition share_inv :: "usb_configuration \<Rightarrow> 'p device \<Rightarrow> 'p expert list \<Rightarrow> usb_interface list \<Rightarrow>
    (u8, nat) omap \<times> 'p expert list \<Rightarrow> bool" where
  "share_inv c d es0 is st \<longleftrightarrow> (case st of (by, es) \<Rightarrow>
     take (length es0) es = es0 \<and> length es0 \<le> length es \<and>
     (\<forall>n p. om_find by n = Some p \<longrightarrow> length es0 \<le> p \<and> p < length es) \<and>
     (\<forall>n m p. om_find by n = Some p \<longrightarrow> om_find by m = Some p \<longrightarrow> n = m) \<and>
     (\<forall>n. map_option ((!) es) (om_find by n) = first_protocol c d n is) \<and>
     (\<forall>e \<in> set (drop (length es0) es). \<exists>i \<in> set is. protocol_of c d i = Some e))"

lemma find_holds: "find P xs = Some x \<Longrightarrow> P x \<and> x \<in> set xs"
  by (induction xs) (auto split: if_splits)

lemma find_append: "find P (xs @ ys) = (case find P xs of None \<Rightarrow> find P ys | Some x \<Rightarrow> Some x)"
  by (induction xs) auto

lemma first_protocol_None:
  "first_protocol c d n is = None \<longleftrightarrow> find (\<lambda>i. number_of i = n \<and> protocol_of c d i \<noteq> None) is = None"
proof (cases "find (\<lambda>i. number_of i = n \<and> protocol_of c d i \<noteq> None) is")
  case None
  then show ?thesis by (simp add: first_protocol_def)
next
  case (Some j)
  with find_holds [OF Some] show ?thesis by (simp add: first_protocol_def)
qed

lemma first_protocol_snoc:
  "first_protocol c d n (is @ [i]) =
     (if first_protocol c d n is = None \<and> number_of i = n then protocol_of c d i else first_protocol c d n is)"
  unfolding first_protocol_None
  by (cases "find (\<lambda>i. number_of i = n \<and> protocol_of c d i \<noteq> None) is"; cases "protocol_of c d i")
    (simp_all add: first_protocol_def find_append)

lemma share_inv_put:
  assumes inv: "share_inv c d es0 is (by, es)"
    and new: "om_find by (number_of i) = None" and e: "protocol_of c d i = Some e"
  shows "share_inv c d es0 (is @ [i]) (om_put (number_of i) (length es) by, es @ [e])"
proof -
  have prefix: "take (length es0) es = es0" "length es0 \<le> length es"
    and range: "\<And>n p. om_find by n = Some p \<Longrightarrow> length es0 \<le> p \<and> p < length es"
    and inj: "\<And>n m p. om_find by n = Some p \<Longrightarrow> om_find by m = Some p \<Longrightarrow> n = m"
    and fp: "\<And>n. map_option ((!) es) (om_find by n) = first_protocol c d n is"
    and src: "\<forall>e \<in> set (drop (length es0) es). \<exists>i \<in> set is. protocol_of c d i = Some e"
    using inv by (simp_all add: share_inv_def)
  have "map_option ((!) (es @ [e])) (om_find (om_put (number_of i) (length es) by) n) = first_protocol c d n (is @ [i])" for n
  proof (cases "n = number_of i")
    case True
    then have "first_protocol c d n is = None" using fp [of n] new by simp
    with True show ?thesis by (simp add: first_protocol_snoc e om.find_put)
  next
    case False
    have "map_option ((!) (es @ [e])) (om_find by n) = map_option ((!) es) (om_find by n)"
      using range [of n] by (cases "om_find by n") (simp_all add: nth_append)
    with False fp show ?thesis by (simp add: first_protocol_snoc om.find_put)
  qed
  moreover have "length es0 \<le> p \<and> p < length (es @ [e])"
    if "om_find (om_put (number_of i) (length es) by) n = Some p" for n p
    using that range [of n p] prefix(2) by (simp add: om.find_put split: if_splits)
  moreover have "n = m" if "om_find (om_put (number_of i) (length es) by) n = Some p"
    and "om_find (om_put (number_of i) (length es) by) m = Some p" for n m p
    using that range [of n p] range [of m p] inj [of n p m] by (simp add: om.find_put split: if_splits)
  ultimately show ?thesis
    using prefix src e by (simp add: share_inv_def)
qed

lemma share_inv_step:
  assumes "share_inv c d es0 is st"
  shows "share_inv c d es0 (is @ [i]) (share_step c d i st)"
proof -
  obtain "by" es where st: "st = (by, es)" by (cases st)
  have fp: "map_option ((!) es) (om_find by n) = first_protocol c d n is" for n
    using assms by (simp add: share_inv_def st)
  show ?thesis
  proof (cases "om_find by (number_of i) = None \<and> protocol_of c d i \<noteq> None")
    case True
    then obtain e where e: "protocol_of c d i = Some e" by auto
    from share_inv_put [OF assms [unfolded st] _ e] True e show ?thesis by (simp add: st share_step_def)
  next
    case False
    then have "share_step c d i st = st" by (auto simp: share_step_def st split: option.splits)
    moreover have "first_protocol c d n (is @ [i]) = first_protocol c d n is" for n
      using False fp [of n] by (auto simp: first_protocol_snoc)
    ultimately show ?thesis using assms by (simp add: share_inv_def st)
  qed
qed

lemma share_inv_fold: "share_inv c d es is (fold (share_step c d) is (om_empty, es))"
proof (induction "is" rule: rev_induct)
  case Nil
  then show ?case by (simp add: share_inv_def first_protocol_def)
next
  case (snoc i "is")
  from share_inv_step [OF snoc] show ?case by simp
qed

text \<open>
  The expert an interface should get: the one of the device in DFU or recovery mode, and otherwise the one the
  first alternate setting of its number with a known protocol calls for.
\<close>

definition expected_expert :: "usb_configuration \<Rightarrow> 'p device \<Rightarrow> usb_interface \<Rightarrow> 'p expert option" where
  "expected_expert c d i =
     (if isAppleDFU d then Some (make_dfu c 0)
      else if isAppleRecovery d then Some (ExpertRecovery (new_recovery_expert (bConfigurationValue (config_descriptor c)) 0))
      else first_protocol c d (number_of i) (interfaces c))"

abbreviation device_wide :: "'p device \<Rightarrow> bool" where
  "device_wide d \<equiv> isAppleDFU d \<or> isAppleRecovery d"

definition strip_expert :: "usb_interface \<Rightarrow> usb_interface" where
  "strip_expert i = i\<lparr>iface_expert := None\<rparr>"

text \<open>The result of attaching: the interfaces and the heap.\<close>

definition attached :: "usb_configuration \<Rightarrow> 'p device \<Rightarrow> usb_interface list \<times> 'p expert list" where
  "attached c d =
     (if isAppleDFU d then (map (set_expert (length (m_experts d))) (interfaces c), m_experts d @ [make_dfu c 0])
      else if isAppleRecovery d then
        (map (set_expert (length (m_experts d))) (interfaces c),
         m_experts d @ [ExpertRecovery (new_recovery_expert (bConfigurationValue (config_descriptor c)) 0)])
      else case fold (share_step c d) (interfaces c) (om_empty, m_experts d) of
        (by, es) \<Rightarrow> (with_experts by (interfaces c), es))"

lemma attachExperts_eq:
  assumes "configuration_wf c"
  shows "attachExperts c d = Some (c\<lparr>interfaces := fst (attached c d)\<rparr>, d\<lparr>m_experts := snd (attached c d)\<rparr>)"
  using assms
  by (simp add: attachExperts_def device_expert_def make_shared_def attach_loop_device attach_loop_shared
      configuration_wf_def attached_def split_beta)

lemma set_expert_simps [simp]:
  "iface_expert (set_expert p i) = Some p" "iface_descriptor (set_expert p i) = iface_descriptor i"
  "iface_endpoints (set_expert p i) = iface_endpoints i" "strip_expert (set_expert p i) = strip_expert i"
  by (simp_all add: set_expert_def strip_expert_def)

lemma attached_strip: "map strip_expert (fst (attached c d)) = map strip_expert (interfaces c)"
  by (simp add: attached_def split_beta comp_def with_experts_def strip_expert_def)

lemma attached_heap: "\<exists>new. snd (attached c d) = m_experts d @ new"
proof -
  obtain "by" es where f: "fold (share_step c d) (interfaces c) (om_empty, m_experts d) = (by, es)" by fastforce
  with share_inv_fold [of c d "m_experts d" "interfaces c"] have "take (length (m_experts d)) es = m_experts d"
    by (simp add: share_inv_def)
  then have "es = m_experts d @ drop (length (m_experts d)) es" by (metis append_take_drop_id)
  with f show ?thesis by (simp add: attached_def) metis
qed

lemma attached_interface:
  assumes "i \<in> set (fst (attached c d))"
  shows "map_option ((!) (snd (attached c d))) (iface_expert i) = expected_expert c d i"
    and "iface_expert i = Some p \<Longrightarrow> length (m_experts d) \<le> p \<and> p < length (snd (attached c d))"
proof -
  obtain "by" es where f: "fold (share_step c d) (interfaces c) (om_empty, m_experts d) = (by, es)" by fastforce
  with share_inv_fold [of c d "m_experts d" "interfaces c"] have inv: "share_inv c d (m_experts d) (interfaces c) (by, es)" by simp
  show "map_option ((!) (snd (attached c d))) (iface_expert i) = expected_expert c d i"
    using assms inv by (auto simp: attached_def expected_expert_def f with_experts_def share_inv_def nth_append split: if_splits)
  show "iface_expert i = Some p \<Longrightarrow> length (m_experts d) \<le> p \<and> p < length (snd (attached c d))"
    using assms inv by (auto simp: attached_def f with_experts_def share_inv_def split: if_splits)
qed

lemma attached_same:
  assumes "i \<in> set (fst (attached c d))" and "j \<in> set (fst (attached c d))" and "iface_expert i \<noteq> None"
  shows "iface_expert i = iface_expert j \<longleftrightarrow> device_wide d \<or> number_of i = number_of j"
proof -
  obtain "by" es where f: "fold (share_step c d) (interfaces c) (om_empty, m_experts d) = (by, es)" by fastforce
  with share_inv_fold [of c d "m_experts d" "interfaces c"] have inv: "share_inv c d (m_experts d) (interfaces c) (by, es)" by simp
  show ?thesis
  proof (cases "device_wide d")
    case True
    with assms show ?thesis by (cases "isAppleDFU d") (auto simp: attached_def)
  next
    case False
    then have "i \<in> set (with_experts by (interfaces c))" "j \<in> set (with_experts by (interfaces c))"
      using assms by (simp_all add: attached_def f)
    then have "iface_expert i = om_find by (number_of i)" "iface_expert j = om_find by (number_of j)"
      by (auto simp: with_experts_def)
    moreover obtain p where "iface_expert i = Some p" using assms(3) by auto
    moreover have "number_of i = number_of j" if "om_find by (number_of i) = Some p" "om_find by (number_of j) = Some p"
      using inv that by (simp add: share_inv_def)
    ultimately show ?thesis using False by auto
  qed
qed

text \<open>What an expert records about its origin.\<close>

lemma expert_base_new [simp]:
  "m_configuration (expert_base (make_dfu c n)) = bConfigurationValue (config_descriptor c)"
  "m_interface (expert_base (make_dfu c n)) = n"
  "m_configuration (expert_base (ExpertRecovery (new_recovery_expert v n))) = v"
  "m_interface (expert_base (ExpertRecovery (new_recovery_expert v n))) = n"
  "m_configuration (expert_base (ExpertUSBMUX (new_usbmux_expert v n))) = v"
  "m_interface (expert_base (ExpertUSBMUX (new_usbmux_expert v n))) = n"
  by (simp_all add: make_dfu_def expert_base_def new_dfu_expert_def setTransferSize_def Let_def
      new_recovery_expert_def new_usbmux_expert_def interface_expert.defs new_interface_expert_def base_of_def)

lemma make_dfu_ok [simp]: "expert_ok (make_dfu c n)"
  by (simp add: make_dfu_def Let_def)

lemma interface_protocol_new:
  "interface_protocol c x d = Some e \<Longrightarrow> expert_ok e \<and>
     m_configuration (expert_base e) = bConfigurationValue (config_descriptor c) \<and>
     m_interface (expert_base e) = bInterfaceNumber x"
  by (auto simp: interface_protocol_def split: if_splits)

lemma expected_expert_new:
  assumes "expected_expert c d i = Some e"
  shows "expert_ok e" and "m_configuration (expert_base e) = bConfigurationValue (config_descriptor c)"
    and "device_wide d \<or> m_interface (expert_base e) = number_of i"
proof -
  have "expert_ok e \<and> m_configuration (expert_base e) = bConfigurationValue (config_descriptor c) \<and>
      (device_wide d \<or> m_interface (expert_base e) = number_of i)"
  proof (cases "device_wide d")
    case True
    with assms show ?thesis by (auto simp: expected_expert_def split: if_splits)
  next
    case False
    with assms obtain j where "find (\<lambda>j. number_of j = number_of i \<and> protocol_of c d j \<noteq> None) (interfaces c) = Some j"
      "protocol_of c d j = Some e"
      by (auto simp: expected_expert_def first_protocol_def split: option.splits)
    with find_holds [OF this(1)] interface_protocol_new show ?thesis by metis
  qed
  then show "expert_ok e" and "m_configuration (expert_base e) = bConfigurationValue (config_descriptor c)"
    and "device_wide d \<or> m_interface (expert_base e) = number_of i" by simp_all
qed

lemma attached_experts_ok:
  assumes "\<forall>e \<in> set (m_experts d). expert_ok e"
  shows "\<forall>e \<in> set (snd (attached c d)). expert_ok e"
proof (cases "device_wide d")
  case True
  with assms show ?thesis by (cases "isAppleDFU d") (auto simp: attached_def)
next
  case False
  obtain "by" es where f: "fold (share_step c d) (interfaces c) (om_empty, m_experts d) = (by, es)" by fastforce
  with share_inv_fold [of c d "m_experts d" "interfaces c"]
  have pre: "take (length (m_experts d)) es = m_experts d"
    and src: "\<forall>e \<in> set (drop (length (m_experts d)) es). \<exists>i \<in> set (interfaces c). protocol_of c d i = Some e"
    by (simp_all add: share_inv_def)
  have "set es = set (take (length (m_experts d)) es) \<union> set (drop (length (m_experts d)) es)"
    by (metis append_take_drop_id set_append)
  moreover have "expert_ok e" if "e \<in> set (drop (length (m_experts d)) es)" for e
    using src that interface_protocol_new by blast
  ultimately show ?thesis using False assms pre by (auto simp: attached_def f)
qed

section \<open>The contract of a device\<close>

text \<open>
  The origin an expert records: the configuration and the interface it was created for.  A configuration of
  a device is in order when its pointers lead to experts created for it; settings of one interface share
  their expert, and an expert created for another interface number is the one of the whole device.
\<close>

definition origins :: "'p expert list \<Rightarrow> (u8 \<times> u8) list" where
  "origins es = map (\<lambda>e. (m_configuration (expert_base e), m_interface (expert_base e))) es"

definition shares_experts :: "usb_interface list \<Rightarrow> bool" where
  "shares_experts is \<longleftrightarrow>
     (\<forall>i \<in> set is. \<forall>j \<in> set is. number_of i = number_of j \<longrightarrow> iface_expert i = iface_expert j)"

definition configuration_ok :: "(u8 \<times> u8) list \<Rightarrow> u8 \<Rightarrow> usb_configuration \<Rightarrow> bool" where
  "configuration_ok os k c \<longleftrightarrow> bConfigurationValue (config_descriptor c) = k \<and>
     (\<forall>i \<in> set (interfaces c). \<forall>p. iface_expert i = Some p \<longrightarrow> p < length os \<and> fst (os ! p) = k \<and>
        (snd (os ! p) = number_of i \<or> (\<forall>j \<in> set (interfaces c). iface_expert j = Some p))) \<and>
     shares_experts (interfaces c)"

definition device_ok :: "'p device \<Rightarrow> bool" where
  "device_ok d \<longleftrightarrow> om_wf (m_configurations d) \<and> om_wf (m_alternates d) \<and> om_wf (m_strings d) \<and>
     (\<forall>e \<in> set (m_experts d). expert_ok e) \<and>
     (\<forall>k c. om_find (m_configurations d) k = Some c \<longrightarrow> configuration_ok (origins (m_experts d)) k c)"

lemma length_origins [simp]: "length (origins es) = length es"
  by (simp add: origins_def)

lemma origins_append [simp]: "origins (es @ es') = origins es @ origins es'"
  by (simp add: origins_def)

lemma configuration_ok_append: "configuration_ok os k c \<Longrightarrow> configuration_ok (os @ os') k c"
  by (auto simp: configuration_ok_def nth_append)

lemma new_device_ok [simp]: "device_ok (new_device i)"
  by (simp add: device_ok_def new_device_def)

lemma configuration_ok_attached:
  "configuration_ok (origins (snd (attached c d))) (bConfigurationValue (config_descriptor c))
     (c\<lparr>interfaces := fst (attached c d)\<rparr>)"
proof -
  let ?is = "fst (attached c d)" and ?es = "snd (attached c d)"
  have "p < length ?es \<and> fst (origins ?es ! p) = bConfigurationValue (config_descriptor c) \<and>
      (snd (origins ?es ! p) = number_of i \<or> (\<forall>j \<in> set ?is. iface_expert j = Some p))"
    if i: "i \<in> set ?is" and p: "iface_expert i = Some p" for i p
  proof -
    have len: "p < length ?es" using attached_interface(2) [OF i p] by simp
    have e: "expected_expert c d i = Some (?es ! p)" using attached_interface(1) [OF i] p by simp
    have "\<forall>j \<in> set ?is. iface_expert j = Some p" if "device_wide d"
      using attached_same [OF i] p that by (metis option.discI)
    with expected_expert_new [OF e] len show ?thesis by (auto simp: origins_def)
  qed
  moreover have "shares_experts ?is"
    unfolding shares_experts_def using attached_same by (metis (no_types))
  ultimately show ?thesis by (simp add: configuration_ok_def)
qed

lemma attachExperts_ok:
  assumes "configuration_wf c" and "device_ok d" and "om_find (m_configurations d) (bConfigurationValue (config_descriptor c)) = None"
  shows "\<exists>c' d'. attachExperts c d = Some (c', d') \<and>
    device_ok (d'\<lparr>m_configurations := om_put (bConfigurationValue (config_descriptor c)) c' (m_configurations d')\<rparr>)"
proof -
  obtain new where new: "snd (attached c d) = m_experts d @ new" using attached_heap by blast
  let ?v = "bConfigurationValue (config_descriptor c)"
  have "configuration_ok (origins (snd (attached c d))) k x"
    if "om_find (om_put ?v (c\<lparr>interfaces := fst (attached c d)\<rparr>) (m_configurations d)) k = Some x" for k x
  proof (cases "k = ?v")
    case True
    with that have "x = c\<lparr>interfaces := fst (attached c d)\<rparr>" by (simp add: om.find_put)
    with True configuration_ok_attached show ?thesis by metis
  next
    case False
    with that assms(2) have "configuration_ok (origins (m_experts d)) k x"
      by (simp add: om.find_put device_ok_def)
    then show ?thesis by (simp add: new configuration_ok_append)
  qed
  moreover have "\<forall>e \<in> set (snd (attached c d)). expert_ok e"
    by (rule attached_experts_ok) (use assms(2) in \<open>simp add: device_ok_def\<close>)
  ultimately show ?thesis
    using assms by (simp add: attachExperts_eq device_ok_def)
qed

section \<open>Every operation keeps the contract\<close>

definition counters :: "'p device \<Rightarrow> u64 \<times> u64 \<times> u64 \<times> u64 \<times> u64" where
  "counters d = (m_device_id d, m_packetCount d, m_byteCount d, m_controlPacketCount d, m_controlByteCount d)"

text \<open>A device learns: what it knew of its configurations, and the experts it had, stay.\<close>

definition learns :: "'p device \<Rightarrow> 'p device \<Rightarrow> bool" where
  "learns d d' \<longleftrightarrow> (\<forall>k c. om_find (m_configurations d) k = Some c \<longrightarrow> om_find (m_configurations d') k = Some c) \<and>
     (\<exists>new. m_experts d' = m_experts d @ new) \<and> counters d' = counters d"

lemma learns_refl [simp]: "learns d d"
  by (simp add: learns_def)

lemma process_config_descriptor_ok:
  assumes "device_ok d"
  shows "\<exists>d'. process_config_descriptor data d = Some d' \<and> device_ok d' \<and> learns d d' \<and>
    m_hasDeviceDescriptor d' = m_hasDeviceDescriptor d \<and> m_deviceDescriptor d' = m_deviceDescriptor d"
proof (cases "length data < 9 \<or> length data < unat (wTotalLength (decode_config_descriptor (take 9 data))) \<or>
    unat (wTotalLength (decode_config_descriptor (take 9 data))) \<le> 9")
  case True
  with assms show ?thesis
    by (auto simp: process_config_descriptor_def USB_DT_CONFIG_SIZE_def readStruct_def)
next
  case False
  let ?h = "decode_config_descriptor (take 9 data)"
  obtain ok c where parse: "usb_configuration_parse new_usb_configuration (take (unat (wTotalLength ?h)) data) = Some (ok, c)"
    and wf: "configuration_wf c" using usb_configuration_parse_wf by blast
  define d1 where "d1 = (if ok then d else d\<lparr>m_anomalies := m_anomalies d @
    [''Malformed configuration descriptor '' @ dec (unat (bConfigurationValue ?h))]\<rparr>)"
  have d1: "device_ok d1" "m_configurations d1 = m_configurations d" "m_experts d1 = m_experts d" "counters d1 = counters d"
    "m_hasDeviceDescriptor d1 = m_hasDeviceDescriptor d" "m_deviceDescriptor d1 = m_deviceDescriptor d"
    using assms by (simp_all add: d1_def device_ok_def counters_def)
  let ?v = "bConfigurationValue (config_descriptor c)"
  have eq: "process_config_descriptor data d =
      (if om_contains (m_configurations d1) ?v then Some d1
       else do { (c', d') \<leftarrow> attachExperts c d1; Some (d'\<lparr>m_configurations := om_put ?v c' (m_configurations d')\<rparr>) })"
    using False parse by (simp add: process_config_descriptor_def USB_DT_CONFIG_SIZE_def Let_def d1_def)
  show ?thesis
  proof (cases "om_contains (m_configurations d1) ?v")
    case True
    with eq d1 show ?thesis by (simp add: learns_def)
  next
    case False
    then have fresh: "om_find (m_configurations d1) ?v = None" by (simp add: om_contains_def)
    obtain new where "snd (attached c d1) = m_experts d1 @ new" using attached_heap by blast
    with eq attachExperts_ok [OF wf d1(1) fresh] False fresh d1 show ?thesis
      by (auto simp: attachExperts_eq [OF wf] learns_def om.find_put counters_def)
  qed
qed

lemma processDescriptor_ok:
  assumes "device_ok d"
  shows "\<exists>d'. processDescriptor setup data d = Some d' \<and> device_ok d' \<and> learns d d'"
proof -
  have dev: "device_ok (process_device_descriptor data d) \<and> learns d (process_device_descriptor data d)"
    using assms by (simp add: process_device_descriptor_def device_ok_def learns_def counters_def split: option.split)
  have str: "\<exists>d'. process_string_descriptor i h data d = Some d' \<and> device_ok d' \<and> learns d d'" for i h
    using assms by (auto simp: process_string_descriptor_def device_ok_def learns_def counters_def)
  have bos: "\<exists>d'. process_bos_descriptor data d = Some d' \<and> device_ok d' \<and> learns d d'"
    using assms by (auto simp: process_bos_descriptor_def USB_DT_BOS_SIZE_def readStruct_def device_ok_def learns_def counters_def)
  have anomaly: "device_ok (d\<lparr>m_anomalies := a\<rparr>) \<and> learns d (d\<lparr>m_anomalies := a\<rparr>)" for a
    using assms by (simp add: device_ok_def learns_def counters_def)
  show ?thesis
    using assms dev str bos anomaly process_config_descriptor_ok [OF assms, of data]
    by (auto simp: processDescriptor_def Let_def split: option.split)
qed

text \<open>Routing depends only on the configurations and the alternate settings, and leads into the heap.\<close>

lemma routing_cong:
  assumes "m_configurations d' = m_configurations d" and "m_currentConfiguration d' = m_currentConfiguration d"
    and "m_alternates d' = m_alternates d"
  shows "getExpertForEndpoint ep d' = getExpertForEndpoint ep d" and "getExpertForControl s d' = getExpertForControl s d"
proof -
  have a: "activeConfiguration d' = activeConfiguration d" by (simp only: activeConfiguration_def assms)
  have "endpoint_expert d' ep fb xs = endpoint_expert d ep fb xs" for fb xs
    using assms(3) by (induction d ep fb xs rule: endpoint_expert.induct) (simp_all add: getAlternateSetting_def)
  with a show "getExpertForEndpoint ep d' = getExpertForEndpoint ep d"
    by (simp add: getExpertForEndpoint_def split: option.split)
  show "getExpertForControl s d' = getExpertForControl s d"
    by (simp only: getExpertForControl_def control_configuration_def a assms)
qed

lemma routing_count [simp]:
  "getExpertForEndpoint ep (count_bulk data d) = getExpertForEndpoint ep d"
  "getExpertForControl s (count_control data d) = getExpertForControl s d"
  by (rule routing_cong; simp add: count_bulk_def count_control_def)+

lemma om_first: "m \<noteq> [] \<Longrightarrow> om_find m (fst (hd m)) = Some (snd (hd m))"
  by (cases m) auto

lemma activeConfiguration_known:
  assumes "activeConfiguration d = Some c"
  shows "\<exists>k. om_find (m_configurations d) k = Some c"
proof (cases "om_find (m_configurations d) (m_currentConfiguration d)")
  case None
  with assms have "m_configurations d \<noteq> []" "c = snd (hd (m_configurations d))"
    by (simp_all add: activeConfiguration_def split: if_splits)
  with om_first show ?thesis by metis
next
  case (Some x)
  with assms show ?thesis by (auto simp: activeConfiguration_def split: if_splits)
qed

lemma control_configuration_known:
  assumes "control_configuration d = Some c"
  shows "\<exists>k. om_find (m_configurations d) k = Some c"
proof (cases "activeConfiguration d")
  case None
  with assms have "m_configurations d \<noteq> []" "c = snd (hd (m_configurations d))"
    by (simp_all add: control_configuration_def split: if_splits)
  with om_first show ?thesis by metis
next
  case (Some x)
  with assms activeConfiguration_known show ?thesis by (simp add: control_configuration_def)
qed

lemma endpoint_expert_source:
  "endpoint_expert d ep fb xs = Some p \<Longrightarrow>
   fb = Some p \<or> (\<exists>i e. (i, e) \<in> set xs \<and> bEndpointAddress e = ep \<and> iface_expert i = Some p)"
  by (induction d ep fb xs rule: endpoint_expert.induct) (auto split: if_splits)

lemma interface_expert_of_source:
  "interface_expert_of n xs = Some p \<Longrightarrow> \<exists>i \<in> set xs. ucast (number_of i) = n \<and> iface_expert i = Some p"
  by (induction n xs rule: interface_expert_of.induct) (auto split: if_splits)

lemma first_expert_source: "first_expert xs = Some p \<Longrightarrow> \<exists>i \<in> set xs. iface_expert i = Some p"
  by (induction xs) (auto split: option.splits)

lemma getExpertForEndpoint_source:
  assumes "getExpertForEndpoint ep d = Some p"
  shows "\<exists>c i e. activeConfiguration d = Some c \<and> i \<in> set (interfaces c) \<and> e \<in> set (iface_endpoints i) \<and>
    bEndpointAddress e = ep \<and> iface_expert i = Some p"
  using assms
  by (auto simp: getExpertForEndpoint_def interface_endpoints_def split: option.splits dest!: endpoint_expert_source) blast

lemma getExpertForControl_source:
  assumes "getExpertForControl s d = Some p"
  shows "\<exists>c i. control_configuration d = Some c \<and> i \<in> set (interfaces c) \<and> iface_expert i = Some p"
  using assms
  by (auto simp: getExpertForControl_def split: option.splits if_splits dest!: interface_expert_of_source first_expert_source)

lemma pointer_valid:
  assumes "device_ok d" and "om_find (m_configurations d) k = Some c" and "i \<in> set (interfaces c)" and "iface_expert i = Some p"
  shows "p < length (m_experts d)"
  using assms by (auto simp: device_ok_def configuration_ok_def)

lemma route_valid:
  assumes "device_ok d"
  shows "getExpertForEndpoint ep d = Some p \<Longrightarrow> p < length (m_experts d)"
    and "getExpertForControl s d = Some p \<Longrightarrow> p < length (m_experts d)"
  using pointer_valid [OF assms] activeConfiguration_known [of d] control_configuration_known [of d]
    getExpertForEndpoint_source [of ep d p] getExpertForControl_source [of s d p] by blast+

section \<open>Transfers as events\<close>

datatype device_event =
    DeviceControlIn u8 usb_setup_t "byte list"
  | DeviceControlOut u8 usb_setup_t "byte list"
  | DeviceBulkIn u8 "byte list"
  | DeviceBulkOut u8 "byte list"

fun device_step :: "'p plist_api \<Rightarrow> device_event \<Rightarrow> 'p device \<Rightarrow> 'p device option" where
  "device_step api (DeviceControlIn endpoint setup data) d = processControlPacketIn api endpoint setup data d"
| "device_step api (DeviceControlOut endpoint setup data) d = processControlPacketOut api endpoint setup data d"
| "device_step api (DeviceBulkIn endpoint data) d = processBulkPacketIn api endpoint data d"
| "device_step api (DeviceBulkOut endpoint data) d = processBulkPacketOut api endpoint data d"

fun event_count :: "device_event \<Rightarrow> 'p device \<Rightarrow> 'p device" where
  "event_count (DeviceControlIn endpoint setup data) d = count_control data d"
| "event_count (DeviceControlOut endpoint setup data) d = count_control data d"
| "event_count (DeviceBulkIn endpoint data) d = count_bulk data d"
| "event_count (DeviceBulkOut endpoint data) d = count_bulk data d"

text \<open>The expert a transfer is for, with the call it gets; none for the standard requests and other control endpoints.\<close>

abbreviation is_standard :: "usb_setup_t \<Rightarrow> bool" where
  "is_standard setup \<equiv> bmRequestType setup AND USB_TYPE_MASK = USB_TYPE_STANDARD"

fun device_route :: "'p device \<Rightarrow> device_event \<Rightarrow> (nat option \<times> expert_event) option" where
  "device_route d (DeviceControlIn endpoint setup data) =
     (if USB_ENDPOINT_ID endpoint \<noteq> 0 \<or> is_standard setup then None else Some (getExpertForControl setup d, ControlIn setup data))"
| "device_route d (DeviceControlOut endpoint setup data) =
     (if USB_ENDPOINT_ID endpoint \<noteq> 0 \<or> is_standard setup then None else Some (getExpertForControl setup d, ControlOut setup data))"
| "device_route d (DeviceBulkIn endpoint data) = Some (getExpertForEndpoint (endpoint OR 0x80) d, BulkIn data)"
| "device_route d (DeviceBulkOut endpoint data) = Some (getExpertForEndpoint (USB_ENDPOINT_ID endpoint) d, BulkOut data)"

text \<open>What the device does itself with the other events.\<close>

fun device_own :: "device_event \<Rightarrow> 'p device \<Rightarrow> 'p device option" where
  "device_own (DeviceControlIn endpoint setup data) d =
     (if USB_ENDPOINT_ID endpoint = 0 \<and> bRequest setup = USB_REQ_GET_DESCRIPTOR \<and>
         bmRequestType setup AND USB_RECIP_MASK = USB_RECIP_DEVICE then processDescriptor setup data d else Some d)"
| "device_own (DeviceControlOut endpoint setup data) d =
     (if USB_ENDPOINT_ID endpoint = 0 then Some (standard_request setup d) else Some d)"
| "device_own _ d = Some d"

lemma virtual_step_calls [simp]:
  "virtual_step api (ControlIn setup data) = expert_processControlIn api setup data"
  "virtual_step api (ControlOut setup data) = expert_processControlOut api setup data"
  "virtual_step api (BulkIn data) = expert_processBulkIn api data"
  "virtual_step api (BulkOut data) = expert_processBulkOut api data"
  by (simp_all add: virtual_step_def fun_eq_iff)

lemma device_step_eq:
  "device_step api ev d =
     (case device_route d ev of
        Some (p, x) \<Rightarrow> call_expert (virtual_step api x) p (event_count ev d)
      | None \<Rightarrow> device_own ev (event_count ev d))"
  by (cases ev)
    (simp_all add: processControlPacketIn_def processControlPacketOut_def processBulkPacketIn_def processBulkPacketOut_def
      Let_def)

lemma standard_request_ok:
  "device_ok d \<Longrightarrow> device_ok (standard_request setup d) \<and> learns d (standard_request setup d)"
  by (simp add: standard_request_def device_ok_def learns_def counters_def Let_def)

lemma device_own_ok:
  assumes "device_ok d"
  shows "\<exists>d'. device_own ev d = Some d' \<and> device_ok d' \<and> learns d d'"
  using assms processDescriptor_ok [OF assms] standard_request_ok [OF assms] by (cases ev) auto

lemma origins_update:
  "p < length es \<Longrightarrow> m_configuration (expert_base e) = m_configuration (expert_base (es ! p)) \<Longrightarrow>
   m_interface (expert_base e) = m_interface (expert_base (es ! p)) \<Longrightarrow> origins (es[p := e]) = origins es"
  by (simp add: origins_def list_eq_iff_nth_eq nth_list_update)

lemma call_expert_ok:
  assumes "device_ok d" and "\<And>p. q = Some p \<Longrightarrow> p < length (m_experts d)"
  shows "\<exists>d'. call_expert (virtual_step api x) q d = Some d' \<and> device_ok d' \<and>
    d' = d\<lparr>m_experts := m_experts d'\<rparr> \<and> origins (m_experts d') = origins (m_experts d) \<and>
    (\<forall>k < length (m_experts d). (if q = Some k then virtual_step api x (m_experts d ! k) else Some (m_experts d ! k)) =
       Some (m_experts d' ! k))"
proof (cases q)
  case None
  with assms show ?thesis by (simp add: call_expert_def)
next
  case (Some p)
  with assms have p: "p < length (m_experts d)" and ok: "expert_ok (m_experts d ! p)" by (simp_all add: device_ok_def)
  obtain e where e: "virtual_step api x (m_experts d ! p) = Some e" "expert_ok e"
      "expert_base e = base_count x (expert_base (m_experts d ! p))"
    using virtual_step_ok [OF ok] by blast
  have or: "origins ((m_experts d)[p := e]) = origins (m_experts d)"
    by (rule origins_update) (simp_all add: p e(3) base_count_counters)
  have "\<forall>e' \<in> set ((m_experts d)[p := e]). expert_ok e'"
    using assms(1) e(2) set_update_subset_insert [of "m_experts d" p e] by (auto simp: device_ok_def)
  with Some p e(1) assms(1) or show ?thesis
    by (auto simp: call_expert_def device_ok_def nth_list_update)
qed

lemma event_count_ok [simp]:
  "device_ok (event_count ev d) = device_ok d" "m_experts (event_count ev d) = m_experts d"
  "m_configurations (event_count ev d) = m_configurations d"
  "m_currentConfiguration (event_count ev d) = m_currentConfiguration d"
  "m_alternates (event_count ev d) = m_alternates d"
  by (cases ev; simp add: count_bulk_def count_control_def device_ok_def)+

lemma device_route_valid:
  "device_ok d \<Longrightarrow> device_route d ev = Some (Some p, x) \<Longrightarrow> p < length (m_experts d)"
  by (cases ev) (auto dest: route_valid split: if_splits)

text \<open>One event, in either form.\<close>

lemma device_step_routed:
  assumes "device_ok d" and "device_route d ev = Some (q, x)"
  shows "\<exists>d'. device_step api ev d = Some d' \<and> device_ok d' \<and>
    d' = (event_count ev d)\<lparr>m_experts := m_experts d'\<rparr> \<and> origins (m_experts d') = origins (m_experts d) \<and>
    (\<forall>k < length (m_experts d). (if q = Some k then virtual_step api x (m_experts d ! k) else Some (m_experts d ! k)) =
       Some (m_experts d' ! k))"
  using call_expert_ok [of "event_count ev d" q api x] assms device_route_valid [OF assms(1), of ev _ x]
  by (simp add: device_step_eq cong: if_cong split del: if_split)

lemma device_step_own:
  assumes "device_ok d" and "device_route d ev = None"
  shows "\<exists>d'. device_step api ev d = Some d' \<and> device_ok d' \<and> learns (event_count ev d) d'"
  using device_own_ok [of "event_count ev d" ev] assms by (simp add: device_step_eq)

section \<open>Properties of a device\<close>

lemma device_step_ok:
  assumes "device_ok d"
  shows "\<exists>d'. device_step api ev d = Some d' \<and> device_ok d' \<and> counters d' = counters (event_count ev d) \<and>
    (\<forall>k c. om_find (m_configurations d) k = Some c \<longrightarrow> om_find (m_configurations d') k = Some c) \<and>
    (\<exists>new. origins (m_experts d') = origins (m_experts d) @ new)"
proof (cases "device_route d ev")
  case None
  from device_step_own [OF assms None, of api] obtain d' where
    d': "device_step api ev d = Some d'" "device_ok d'" "learns (event_count ev d) d'" by blast
  then have "\<exists>new. origins (m_experts d') = origins (m_experts d) @ new" by (auto simp: learns_def)
  with d' show ?thesis by (simp add: learns_def)
next
  case (Some r)
  obtain q x where "r = (q, x)" by (cases r)
  with device_step_routed [OF assms Some [unfolded \<open>r = (q, x)\<close>], of api] obtain d' where
    d': "device_step api ev d = Some d'" "device_ok d'" "d' = (event_count ev d)\<lparr>m_experts := m_experts d'\<rparr>"
    "origins (m_experts d') = origins (m_experts d)" by blast
  have "counters d' = counters (event_count ev d)" "m_configurations d' = m_configurations d"
    by (subst d'(3), simp add: counters_def)+
  with d' show ?thesis by auto
qed

interpretation device: safe_machine device_ok "device_step api" for api
  by unfold_locales (use device_step_ok in blast)

text \<open>
  A device never faults.  Whatever transfers it is given, with whatever descriptors, setup packets and data,
  no step reads outside a packet, follows a null or dangling expert pointer or makes an expert fault; afterwards
  its maps are ordered, its experts are in order, and every pointer of its configurations leads to an expert
  created for that configuration, shared by the settings of one interface.
\<close>

theorem device_never_faults:
  "\<exists>d. run_opt (device_step api) evs (new_device n) = Some d \<and> device_ok d"
  by (rule device.safe_run) simp

text \<open>The counters of the transfers.\<close>

fun event_bulk :: "device_event \<Rightarrow> bool" where
  "event_bulk (DeviceBulkIn endpoint data) = True"
| "event_bulk (DeviceBulkOut endpoint data) = True"
| "event_bulk (DeviceControlIn endpoint setup data) = False"
| "event_bulk (DeviceControlOut endpoint setup data) = False"

fun event_bytes :: "device_event \<Rightarrow> byte list" where
  "event_bytes (DeviceControlIn endpoint setup data) = data"
| "event_bytes (DeviceControlOut endpoint setup data) = data"
| "event_bytes (DeviceBulkIn endpoint data) = data"
| "event_bytes (DeviceBulkOut endpoint data) = data"

definition counted :: "(device_event \<Rightarrow> bool) \<Rightarrow> device_event list \<Rightarrow> u64 \<times> u64" where
  "counted P evs = (word_of_nat (length (filter P evs)), word_of_nat (length (concat (map event_bytes (filter P evs)))))"

lemma counters_event:
  "counters (event_count ev d) = (case counters d of (n, p, b, cp, cb) \<Rightarrow>
     if event_bulk ev then (n, p + 1, b + word_of_nat (length (event_bytes ev)), cp, cb)
     else (n, p, b, cp + 1, cb + word_of_nat (length (event_bytes ev))))"
  by (cases ev) (simp_all add: counters_def count_bulk_def count_control_def)

lemma run_counters:
  "device_ok d \<Longrightarrow> counters d = (n, p, b, cp, cb) \<Longrightarrow>
   \<exists>d'. run_opt (device_step api) evs d = Some d' \<and> counters d' =
     (n, p + fst (counted event_bulk evs), b + snd (counted event_bulk evs),
      cp + fst (counted (\<lambda>ev. \<not> event_bulk ev) evs), cb + snd (counted (\<lambda>ev. \<not> event_bulk ev) evs))"
proof (induction evs arbitrary: d p b cp cb)
  case Nil
  then show ?case by (simp add: counted_def)
next
  case (Cons ev evs)
  obtain d1 where d1: "device_step api ev d = Some d1" "device_ok d1" "counters d1 = counters (event_count ev d)"
    using device_step_ok [OF Cons.prems(1)] by blast
  then show ?case
    using Cons.IH [OF d1(2)] Cons.prems(2)
    by (cases "event_bulk ev") (simp_all add: counters_event counted_def algebra_simps)
qed

text \<open>
  The counters of a device are exact (modulo the width of the counters): after any transfers they are the
  number of bulk and of control transfers and the bytes these carried, whatever became of the transfers.
\<close>

theorem device_counters_exact:
  "map_option counters (run_opt (device_step api) evs (new_device n)) =
     Some (n, fst (counted event_bulk evs), snd (counted event_bulk evs),
       fst (counted (\<lambda>ev. \<not> event_bulk ev) evs), snd (counted (\<lambda>ev. \<not> event_bulk ev) evs))"
  using run_counters [OF new_device_ok, of n n 0 0 0 0 api evs] by (auto simp: counters_def new_device_def)

section \<open>Demultiplexing\<close>

text \<open>The events that can change the routing: standard requests on the default control endpoint.\<close>

fun reroutes :: "device_event \<Rightarrow> bool" where
  "reroutes (DeviceControlIn endpoint setup data) \<longleftrightarrow> USB_ENDPOINT_ID endpoint = 0 \<and> is_standard setup"
| "reroutes (DeviceControlOut endpoint setup data) \<longleftrightarrow> USB_ENDPOINT_ID endpoint = 0 \<and> is_standard setup"
| "reroutes (DeviceBulkIn endpoint data) \<longleftrightarrow> False"
| "reroutes (DeviceBulkOut endpoint data) \<longleftrightarrow> False"

text \<open>The calls the expert at \<open>p\<close> gets out of some transfers.\<close>

definition calls_for :: "nat \<Rightarrow> 'p device \<Rightarrow> device_event list \<Rightarrow> expert_event list" where
  "calls_for p d evs = List.map_filter (\<lambda>ev. case device_route d ev of
     Some (q, x) \<Rightarrow> if q = Some p then Some x else None | None \<Rightarrow> None) evs"

lemma calls_for_simps [simp]:
  "calls_for p d [] = []"
  "calls_for p d (ev # evs) =
     (case device_route d ev of Some (q, x) \<Rightarrow> if q = Some p then [x] else [] | None \<Rightarrow> []) @ calls_for p d evs"
  by (auto simp: calls_for_def map_filter_simps split: option.split)

lemma device_route_cong:
  assumes "m_configurations d' = m_configurations d" and "m_currentConfiguration d' = m_currentConfiguration d"
    and "m_alternates d' = m_alternates d"
  shows "device_route d' ev = device_route d ev"
  by (cases ev) (simp_all only: device_route.simps routing_cong [OF assms])

lemma calls_for_cong: "(\<And>ev. device_route d' ev = device_route d ev) \<Longrightarrow> calls_for p d' evs = calls_for p d evs"
  by (simp add: calls_for_def)

lemma device_step_stable:
  assumes "device_ok d" and "\<not> reroutes ev"
  shows "\<exists>d'. device_step api ev d = Some d' \<and> device_ok d' \<and> (\<forall>ev'. device_route d' ev' = device_route d ev') \<and>
    length (m_experts d') = length (m_experts d) \<and>
    (\<forall>k < length (m_experts d). run_opt (virtual_step api) (calls_for k d [ev]) (m_experts d ! k) = Some (m_experts d' ! k))"
proof (cases "device_route d ev")
  case None
  then have "device_own ev (event_count ev d) = Some (event_count ev d)" using assms(2) by (cases ev) (auto split: if_splits)
  moreover have "device_route (event_count ev d) ev' = device_route d ev'" for ev'
    by (rule device_route_cong) simp_all
  ultimately show ?thesis using None assms(1) by (simp add: device_step_eq)
next
  case (Some r)
  obtain q x where r: "r = (q, x)" by (cases r)
  from device_step_routed [OF assms(1) Some [unfolded r], of api] obtain d' where
    d': "device_step api ev d = Some d'" "device_ok d'" "d' = (event_count ev d)\<lparr>m_experts := m_experts d'\<rparr>"
    and orig: "origins (m_experts d') = origins (m_experts d)"
    and upd: "\<forall>k < length (m_experts d). (if q = Some k then virtual_step api x (m_experts d ! k) else Some (m_experts d ! k)) =
       Some (m_experts d' ! k)" by (elim exE conjE)
  have "m_configurations d' = m_configurations d" "m_currentConfiguration d' = m_currentConfiguration d"
    "m_alternates d' = m_alternates d" by (subst d'(3), simp)+
  then have "device_route d' ev' = device_route d ev'" for ev' by (rule device_route_cong)
  moreover have "length (m_experts d') = length (m_experts d)" using orig length_origins by metis
  moreover have "run_opt (virtual_step api) (calls_for k d [ev]) (m_experts d ! k) = Some (m_experts d' ! k)"
    if "k < length (m_experts d)" for k
    using upd [rule_format, OF that] Some r by (cases "q = Some k") simp_all
  ultimately show ?thesis using d'(1,2) by (intro exI [of _ d'] conjI) simp_all
qed

text \<open>
  C27: Demultiplexing.  Over any transfers other than standard requests, every expert of a device ends in the
  state it reaches by itself on the calls routed to it, in their order: no transfer is lost, doubled or handed
  to another expert, and no expert is affected by the transfers of the others.
\<close>

theorem device_demultiplexes:
  assumes "device_ok d" and "list_all (\<lambda>ev. \<not> reroutes ev) evs"
  shows "\<exists>d'. run_opt (device_step api) evs d = Some d' \<and> length (m_experts d') = length (m_experts d) \<and>
    (\<forall>p < length (m_experts d).
       run_opt (virtual_step api) (calls_for p d evs) (m_experts d ! p) = Some (m_experts d' ! p))"
  using assms
proof (induction evs arbitrary: d)
  case Nil
  then show ?case by simp
next
  case (Cons ev evs)
  then obtain d1 where d1: "device_step api ev d = Some d1" "device_ok d1" "\<And>ev'. device_route d1 ev' = device_route d ev'"
      "length (m_experts d1) = length (m_experts d)"
    and e1: "\<forall>k < length (m_experts d). run_opt (virtual_step api) (calls_for k d [ev]) (m_experts d ! k) = Some (m_experts d1 ! k)"
    using device_step_stable [of d ev api] by auto
  obtain d' where d': "run_opt (device_step api) evs d1 = Some d'" "length (m_experts d') = length (m_experts d1)"
    and e': "\<forall>p < length (m_experts d1). run_opt (virtual_step api) (calls_for p d1 evs) (m_experts d1 ! p) = Some (m_experts d' ! p)"
    using Cons.IH [OF d1(2)] Cons.prems(2) by auto
  have "run_opt (virtual_step api) (calls_for p d (ev # evs)) (m_experts d ! p) = Some (m_experts d' ! p)"
    if "p < length (m_experts d)" for p
  proof -
    have "calls_for p d (ev # evs) = calls_for p d [ev] @ calls_for p d1 evs"
      using calls_for_cong [OF d1(3)] by simp
    with e1 e' d1(4) that show ?thesis by (simp only: run_opt_append) simp
  qed
  with d1 d' show ?case by simp
qed

section \<open>What a device keeps\<close>

text \<open>
  A device never unlearns: over any transfers, a configuration it has read stays as it was read, with the
  same experts on its interfaces, and the experts stay where they are; a re-read configuration, a malformed one
  or a change of the active configuration does not replace them.
\<close>

theorem device_keeps_experts:
  assumes "device_ok d" and "om_find (m_configurations d) k = Some c"
  shows "\<exists>d'. run_opt (device_step api) evs d = Some d' \<and> om_find (m_configurations d') k = Some c \<and>
    (\<exists>new. origins (m_experts d') = origins (m_experts d) @ new)"
  using assms
proof (induction evs arbitrary: d)
  case Nil
  then show ?case by simp
next
  case (Cons ev evs)
  obtain d1 new where d1: "device_step api ev d = Some d1" "device_ok d1"
      "om_find (m_configurations d1) k = Some c" "origins (m_experts d1) = origins (m_experts d) @ new"
    using device_step_ok [OF Cons.prems(1), of api ev] Cons.prems(2) by blast
  with Cons.IH [OF d1(2,3)] show ?case by auto
qed

text \<open>
  C28: What attaching does.  Reading a configuration gives every interface the expert its device or protocol calls
  for and leaves the others without one.  The experts are new, and two interfaces share theirs just when
  they are settings of one interface or the device is in DFU or recovery mode.
\<close>

theorem attach_experts_exact:
  assumes "configuration_wf c"
  shows "\<exists>is es. attachExperts c d = Some (c\<lparr>interfaces := is\<rparr>, d\<lparr>m_experts := m_experts d @ es\<rparr>) \<and>
    map strip_expert is = map strip_expert (interfaces c) \<and>
    (\<forall>i \<in> set is. map_option (\<lambda>p. (m_experts d @ es) ! p) (iface_expert i) = expected_expert c d i) \<and>
    (\<forall>i \<in> set is. \<forall>p. iface_expert i = Some p \<longrightarrow> length (m_experts d) \<le> p \<and> p < length (m_experts d) + length es) \<and>
    (\<forall>i \<in> set is. \<forall>j \<in> set is. iface_expert i \<noteq> None \<longrightarrow>
       (iface_expert i = iface_expert j \<longleftrightarrow> device_wide d \<or> number_of i = number_of j))"
proof -
  obtain es where es: "snd (attached c d) = m_experts d @ es" using attached_heap by blast
  have "attachExperts c d = Some (c\<lparr>interfaces := fst (attached c d)\<rparr>, d\<lparr>m_experts := m_experts d @ es\<rparr>)"
    by (simp add: attachExperts_eq [OF assms] es)
  moreover have "map_option (\<lambda>p. (m_experts d @ es) ! p) (iface_expert i) = expected_expert c d i"
    if "i \<in> set (fst (attached c d))" for i
    using attached_interface(1) [OF that] by (simp add: es)
  moreover have "length (m_experts d) \<le> p \<and> p < length (m_experts d) + length es"
    if "i \<in> set (fst (attached c d))" "iface_expert i = Some p" for i p
    using attached_interface(2) [OF that] by (simp add: es)
  ultimately show ?thesis
    using attached_same [of _ c d]
    by (intro exI [of _ "fst (attached c d)"] exI [of _ es] conjI attached_strip) blast+
qed

section \<open>Routing by declared endpoint\<close>

text \<open>An interface with one of its endpoints declares an address, and may be the selected alternate setting.\<close>

definition declares :: "u8 \<Rightarrow> usb_interface \<times> usb_endpoint_descriptor \<Rightarrow> bool" where
  "declares endpoint ie \<longleftrightarrow> bEndpointAddress (snd ie) = endpoint"

definition selected :: "'p device \<Rightarrow> usb_interface \<times> usb_endpoint_descriptor \<Rightarrow> bool" where
  "selected d ie \<longleftrightarrow> bAlternateSetting (iface_descriptor (fst ie)) = getAlternateSetting (number_of (fst ie)) d"

lemma endpoint_expert_spec:
  "endpoint_expert d ep fb xs =
     (case find (\<lambda>x. declares ep x \<and> selected d x) xs of
        Some x \<Rightarrow> iface_expert (fst x)
      | None \<Rightarrow> (case fb of Some p \<Rightarrow> Some p | None \<Rightarrow>
          (case find (\<lambda>x. declares ep x \<and> iface_expert (fst x) \<noteq> None) xs of
             Some x \<Rightarrow> iface_expert (fst x) | None \<Rightarrow> None)))"
proof (induction d ep fb xs rule: endpoint_expert.induct)
  case (1 d ep fb)
  then show ?case by (simp split: option.split)
next
  case (2 d ep fb i e rest)
  consider "bEndpointAddress e \<noteq> ep" | "bEndpointAddress e = ep" "selected d (i, e)"
    | "bEndpointAddress e = ep" "\<not> selected d (i, e)" by blast
  then show ?case
  proof cases
    case 1
    with 2(1) have "endpoint_expert d ep fb ((i, e) # rest) = endpoint_expert d ep fb rest" by simp
    moreover have "find (\<lambda>x. declares ep x \<and> P x) ((i, e) # rest) = find (\<lambda>x. declares ep x \<and> P x) rest" for P
      using 1 by (simp add: declares_def)
    ultimately show ?thesis using 2(1) [OF 1] by (simp only:)
  next
    case 2
    then show ?thesis by (simp add: declares_def selected_def)
  next
    case 3
    with 2(2) show ?thesis
      by (cases fb; cases "iface_expert i") (simp_all add: declares_def selected_def split: option.split)
  qed
qed

text \<open>
  C30: Routing of bulk and interrupt transfers, as a specification: of the active configuration, the first
  interface setting that declares the endpoint and is the selected alternate setting decides; when there is none
  (the selection was not captured) it is the first expert of a setting that declares the endpoint.
\<close>

theorem endpoint_routing:
  "getExpertForEndpoint endpoint d =
     (case activeConfiguration d of
        None \<Rightarrow> None
      | Some c \<Rightarrow>
          (case find (\<lambda>x. declares endpoint x \<and> selected d x) (interface_endpoints c) of
             Some x \<Rightarrow> iface_expert (fst x)
           | None \<Rightarrow>
               (case find (\<lambda>x. declares endpoint x \<and> iface_expert (fst x) \<noteq> None) (interface_endpoints c) of
                  Some x \<Rightarrow> iface_expert (fst x)
                | None \<Rightarrow> None)))"
  by (simp add: getExpertForEndpoint_def endpoint_expert_spec split: option.split)

section \<open>The experts of a device\<close>

definition attached_pointers :: "'p device \<Rightarrow> nat list" where
  "attached_pointers d =
     List.map_filter iface_expert (concat (map interfaces (om_values (m_configurations d))))"

lemma see_fold:
  "distinct r \<Longrightarrow> distinct (fold see_expert is r) \<and> set (fold see_expert is r) = set r \<union> set (List.map_filter iface_expert is)"
  by (induction "is" arbitrary: r) (auto simp: see_expert_def map_filter_simps split: option.splits)

lemma getExperts_fold: "getExperts d = fold see_expert (concat (map interfaces (om_values (m_configurations d)))) []"
proof -
  have "fold (\<lambda>c. fold see_expert (interfaces c)) cs r = fold see_expert (concat (map interfaces cs)) r" for cs r
    by (induction cs arbitrary: r) simp_all
  then show ?thesis by (simp add: getExperts_def)
qed

text \<open>
  The experts a device reports are exactly those attached to an interface of one of its configurations, each
  reported once although interfaces share them.
\<close>

theorem getExperts_exact:
  "distinct (getExperts d) \<and> set (getExperts d) = set (attached_pointers d)"
  using see_fold [of "[]"] by (simp add: getExperts_fold attached_pointers_def)

lemma getExperts_valid:
  assumes "device_ok d" and "p \<in> set (getExperts d)"
  shows "p < length (m_experts d)"
proof -
  obtain k c i where "(k, c) \<in> set (m_configurations d)" "i \<in> set (interfaces c)" "iface_expert i = Some p"
    using assms(2) see_fold [of "[]" "concat (map interfaces (om_values (m_configurations d)))"]
    by (auto simp: getExperts_fold om_values_def map_filter_def)
  with assms(1) show ?thesis using pointer_valid [OF assms(1)] by (metis device_ok_def om_find_in_wf)
qed

section \<open>Strings\<close>

lemma ucast_index: "(ucast (ucast index :: u16) :: u8) = index"
  by (rule bit_word_eqI) (simp add: bit_simps)

lemma ucast_index_0: "(ucast (index :: u8) :: u16) = 0 \<longleftrightarrow> index = 0"
  using ucast_index [of index] by (metis ucast_0)

lemma process_string:
  assumes "unat b = length units + 2" and "index \<noteq> 0"
    and "drop_bit 8 (wValue setup) = 3" and "wValue setup AND 0xFF = ucast index"
  shows "processDescriptor setup (b # 3 # units) d =
    Some (d\<lparr>m_strings := om_put index (text_of (utf16leToUtf8 units)) (m_strings d)\<rparr>)"
proof -
  have two: "take 2 (b # 3 # units) = [b, 3]" by (simp add: numeral_2_eq_2)
  have h: "decode_descriptor_header (take 2 (b # 3 # units)) = \<lparr>bLength = b, bDescriptorType = 3\<rparr>"
    unfolding two decode_descriptor_header_def
    using field8_nth [of 0 "[b, 3]"] field8_nth [of "Suc 0" "[b, 3]"] by simp
  have "process_string_descriptor (ucast index) \<lparr>bLength = b, bDescriptorType = 3\<rparr> (b # 3 # units) d =
      Some (d\<lparr>m_strings := om_put index (text_of (utf16leToUtf8 units)) (m_strings d)\<rparr>)"
    using assms(1,2) by (simp add: process_string_descriptor_def ucast_index ucast_index_0)
  then show ?thesis
    using h assms(3,4) by (simp add: processDescriptor_def descriptor_header_size_def Let_def)
qed

text \<open>
  String descriptors are read back: when a device answers a GET_DESCRIPTOR request for a string with the
  UTF-16LE encoding of some characters, the device reports the UTF-8 encoding of the same characters under that
  index, and its other strings are unchanged.
\<close>

theorem device_string_read:
  assumes "bmRequestType setup = 0x80" and "bRequest setup = USB_REQ_GET_DESCRIPTOR"
    and "drop_bit 8 (wValue setup) = 3" and "wValue setup AND 0xFF = ucast index" and "index \<noteq> 0"
    and "\<forall>c \<in> set cps. scalar_value c" and "length (concat (map utf16le_enc cps)) < 254"
  shows "\<exists>d'. processControlPacketIn api 0 setup
        (word_of_nat (length (concat (map utf16le_enc cps)) + 2) # 3 # concat (map utf16le_enc cps)) d = Some d' \<and>
    getString index d' = text_of (concat (map utf8_enc cps)) \<and>
    (\<forall>other. other \<noteq> index \<longrightarrow> getString other d' = getString other d)"
proof -
  let ?u = "concat (map utf16le_enc cps)"
  define b :: byte where "b = word_of_nat (length ?u + 2)"
  have "unat b = length ?u + 2" unfolding b_def using assms(7) by (intro unat_word_of_nat_small) simp
  from process_string [OF this assms(5,3,4), of "count_control (b # 3 # ?u) d"]
  have "processControlPacketIn api 0 setup (b # 3 # ?u) d = Some ((count_control (b # 3 # ?u) d)
      \<lparr>m_strings := om_put index (text_of (utf16leToUtf8 ?u)) (m_strings d)\<rparr>)"
    using assms(1,2) by (simp add: processControlPacketIn_def Let_def count_control_def)
  then show ?thesis
    using utf16leToUtf8_roundtrip_aux [OF assms(6)]
    unfolding b_def by (simp add: getString_def om.find_put count_control_def del: of_nat_add of_nat_Suc)
qed

section \<open>Concrete instances\<close>

definition sample_configuration :: usb_configuration where
  "sample_configuration = new_usb_configuration
     \<lparr>config_descriptor := decode_config_descriptor [9, 2, 64, 0, 2, 1, 0, 0xC0, 250],
      interfaces := map block_interface
        [([9, 4, 0, 0, 2, 0xFF, 0xFE, 2, 0], [[7, 5, 4, 2, 0, 2, 0], [7, 5, 0x85, 2, 0, 2, 0]]),
         ([9, 4, 1, 0, 1, 8, 6, 0x50, 0], [[7, 5, 0x83, 2, 0, 2, 0]])]\<rparr>"

definition sample_device :: "sample_node device" where
  "sample_device = (new_device 7)
     \<lparr>m_hasDeviceDescriptor := True,
      m_deviceDescriptor := zero_device_descriptor\<lparr>idVendor := APPLE_VID, idProduct := 0x12A8\<rparr>,
      m_configurations := [(1, sample_configuration\<lparr>interfaces :=
        [set_expert 0 (interfaces sample_configuration ! 0), interfaces sample_configuration ! 1]\<rparr>)],
      m_experts := [ExpertUSBMUX (new_usbmux_expert 1 0)]\<rparr>"

definition sample_class_setup :: usb_setup_t where
  "sample_class_setup = \<lparr>bmRequestType = 0x21, bRequest = 1, wValue = 0, wIndex = 0, wLength = 2\<rparr>"

lemma sample_interfaces:
  "interfaces sample_configuration =
     [block_interface ([9, 4, 0, 0, 2, 0xFF, 0xFE, 2, 0], [[7, 5, 4, 2, 0, 2, 0], [7, 5, 0x85, 2, 0, 2, 0]]),
      block_interface ([9, 4, 1, 0, 1, 8, 6, 0x50, 0], [[7, 5, 0x83, 2, 0, 2, 0]])]"
  by (simp add: sample_configuration_def)

lemma sample_configuration_wf [simp]: "configuration_wf sample_configuration"
  by (simp add: configuration_wf_def sample_interfaces block_interface_def)
    (simp add: sample_configuration_def new_usb_configuration_def dfu_descriptor_sizeof_def)

lemma field8_Cons: "field 0 (Suc 0) (b # bs) = (b :: byte)" "field (Suc k) n (b # bs) = field k n bs"
  by (simp_all add: field_def)

lemma sample_device_ok [simp]: "device_ok sample_device"
  by (simp add: sample_device_def device_ok_def new_device_def om_wf_def om_empty_def configuration_ok_def shares_experts_def
      origins_def sample_interfaces block_interface_def decode_interface_descriptor_def numeral_eq_Suc field8_Cons)
    (simp add: sample_configuration_def decode_config_descriptor_def numeral_eq_Suc field8_Cons)

theorem device_demultiplexes_witness:
  "\<exists>d'. run_opt (device_step sample_api)
      [DeviceBulkOut 4 [1, 2], DeviceControlOut 0 sample_class_setup [3, 4], DeviceBulkIn 5 [5]] sample_device = Some d' \<and>
    length (m_experts d') = length (m_experts sample_device) \<and>
    (\<forall>p < length (m_experts sample_device).
       run_opt (virtual_step sample_api)
         (calls_for p sample_device
            [DeviceBulkOut 4 [1, 2], DeviceControlOut 0 sample_class_setup [3, 4], DeviceBulkIn 5 [5]])
         (m_experts sample_device ! p) = Some (m_experts d' ! p))"
  by (rule device_demultiplexes) (simp_all add: sample_class_setup_def)

theorem device_keeps_experts_witness:
  "\<exists>d'. run_opt (device_step sample_api)
      [DeviceBulkOut 4 [1, 2], DeviceControlIn 0 (sample_class_setup\<lparr>bmRequestType := 0x80, bRequest := 6, wValue := 0x200\<rparr>)
         [9, 2, 9, 0, 0, 1, 0, 0, 0]] sample_device = Some d' \<and>
    om_find (m_configurations d') 1 = Some (snd (hd (m_configurations sample_device))) \<and>
    (\<exists>new. origins (m_experts d') = origins (m_experts sample_device) @ new)"
  by (rule device_keeps_experts) (simp, simp add: sample_device_def)

theorem attach_experts_exact_witness:
  "\<exists>is es. attachExperts sample_configuration (sample_device\<lparr>m_experts := []\<rparr>) =
      Some (sample_configuration\<lparr>interfaces := is\<rparr>, sample_device\<lparr>m_experts := [] @ es\<rparr>) \<and>
    map strip_expert is = map strip_expert (interfaces sample_configuration) \<and>
    (\<forall>i \<in> set is. map_option (\<lambda>p. ([] @ es) ! p) (iface_expert i) =
       expected_expert sample_configuration (sample_device\<lparr>m_experts := []\<rparr>) i)"
  using attach_experts_exact [of sample_configuration "sample_device\<lparr>m_experts := []\<rparr>"] by auto

theorem device_string_read_witness:
  "\<exists>d'. processControlPacketIn sample_api 0
        \<lparr>bmRequestType = 0x80, bRequest = 6, wValue = 0x0302, wIndex = 0x0409, wLength = 0xFF\<rparr>
        (word_of_nat (length (concat (map utf16le_enc [0x69, 0x50])) + 2) # 3 # concat (map utf16le_enc [0x69, 0x50]))
        sample_device = Some d' \<and>
    getString 2 d' = text_of (concat (map utf8_enc [0x69, 0x50])) \<and>
    (\<forall>other. other \<noteq> 2 \<longrightarrow> getString other d' = getString other sample_device)"
  by (rule device_string_read) (simp_all add: scalar_value_def utf16le_enc_def)

end
