(* ===== verification/Device_Handle.thy ===== *)
theory Device_Handle
  imports Device_Model "HOL-Library.Product_Lexorder"
begin

text \<open>
  The class \<open>DeviceHandle\<close> (\<open>src/file/InputFile.h\<close>, \<open>InputFile.cpp\<close>): it pairs the submission of a USB
  transfer with its completion and hands the completed transfer to the current session of the device
  address, opening a new session when the address comes back as another device.

  A byte array of the code is the list of its bytes; its pointer is null only where its length is zero.  A
  result \<open>None\<close> is a fault of the device, or the use of a session of an address without any.
\<close>

section \<open>State\<close>

record pending =
  pending_control :: bool
  pending_setup :: usb_setup_t
  pending_data :: "byte list"

type_synonym transfer_key = "u8 \<times> u64"

record 'p device_handle =
  m_handle_id :: u64
  m_unmatched :: u64
  m_inflight :: "(transfer_key, pending) omap"
  m_sessions :: "'p device list"

definition new_device_handle :: "u64 \<Rightarrow> 'p device_handle" where
  "new_device_handle i = \<lparr>m_handle_id = i, m_unmatched = 0, m_inflight = om_empty, m_sessions = [new_device i]\<rparr>"

definition current_device :: "'p device_handle \<Rightarrow> 'p device option" where
  "current_device h = (if m_sessions h = [] then None else Some (last (m_sessions h)))"

definition handle_devices :: "'p device_handle \<Rightarrow> 'p device list" where
  "handle_devices h = m_sessions h"

section \<open>Transfers\<close>

definition isControlDescriptorRead :: "usb_setup_t \<Rightarrow> bool" where
  "isControlDescriptorRead setup \<longleftrightarrow>
     bmRequestType setup = USB_DIR_IN OR USB_TYPE_STANDARD OR USB_RECIP_DEVICE \<and>
     bRequest setup = USB_REQ_GET_DESCRIPTOR \<and> drop_bit 8 (wValue setup) = ucast USB_DT_DEVICE"

text \<open>A call on \<open>this->device()\<close>.\<close>

definition on_device :: "('p device \<Rightarrow> 'p device option) \<Rightarrow> 'p device_handle \<Rightarrow> 'p device_handle option" where
  "on_device f h = do {
     d \<leftarrow> current_device h;
     d' \<leftarrow> f d;
     Some (h\<lparr>m_sessions := butlast (m_sessions h) @ [d']\<rparr>)
   }"

definition beginControl :: "u8 \<Rightarrow> u64 \<Rightarrow> usb_setup_t \<Rightarrow> byte list \<Rightarrow> 'p device_handle \<Rightarrow> 'p device_handle" where
  "beginControl endpoint i setup data h =
     h\<lparr>m_inflight := om_put (USB_ENDPOINT_ID endpoint, i)
         \<lparr>pending_control = True, pending_setup = setup, pending_data = data\<rparr> (m_inflight h)\<rparr>"

definition appendControl :: "u8 \<Rightarrow> u64 \<Rightarrow> byte list \<Rightarrow> 'p device_handle \<Rightarrow> 'p device_handle" where
  "appendControl endpoint i data h =
     (case om_find (m_inflight h) (USB_ENDPOINT_ID endpoint, i) of
        None \<Rightarrow> h
      | Some found \<Rightarrow>
          if data = [] then h
          else h\<lparr>m_inflight := om_put (USB_ENDPOINT_ID endpoint, i)
                  (found\<lparr>pending_data := pending_data found @ data\<rparr>) (m_inflight h)\<rparr>)"

text \<open>Whether the answer to a device descriptor read shows another device than the current session's.\<close>

definition reenumerates :: "usb_setup_t \<Rightarrow> byte list \<Rightarrow> 'p device \<Rightarrow> bool" where
  "reenumerates setup data d \<longleftrightarrow>
     isControlDescriptorRead setup \<and> USB_DT_DEVICE_SIZE \<le> length data \<and> m_hasDeviceDescriptor d \<and>
     encode_device_descriptor (m_deviceDescriptor d) \<noteq> take USB_DT_DEVICE_SIZE data"

definition dispatchControl :: "'p plist_api \<Rightarrow> u8 \<Rightarrow> usb_setup_t \<Rightarrow> byte list \<Rightarrow> 'p device_handle \<Rightarrow> 'p device_handle option" where
  "dispatchControl api endpoint setup data h = do {
     d \<leftarrow> current_device h;
     let h = (if reenumerates setup data d
              then h\<lparr>m_sessions := m_sessions h @ [new_device (m_handle_id h)]\<rparr> else h);
     if bmRequestType setup AND USB_DIR_IN \<noteq> 0
     then on_device (processControlPacketIn api endpoint setup data) h
     else on_device (processControlPacketOut api endpoint setup data) h
   }"

definition control_payload :: "pending \<Rightarrow> byte list \<Rightarrow> byte list" where
  "control_payload urb data =
     (let payload =
        (if bmRequestType (pending_setup urb) AND USB_DIR_IN \<noteq> 0 then
           if data = [] \<and> pending_data urb \<noteq> [] then pending_data urb else data
         else if pending_data urb \<noteq> [] then pending_data urb else data)
      in take (unat (wLength (pending_setup urb))) payload)"

definition endControl :: "'p plist_api \<Rightarrow> u8 \<Rightarrow> u64 \<Rightarrow> byte list \<Rightarrow> 'p device_handle \<Rightarrow> 'p device_handle option" where
  "endControl api endpoint i data h =
     (case om_find (m_inflight h) (USB_ENDPOINT_ID endpoint, i) of
        None \<Rightarrow> Some (h\<lparr>m_unmatched := m_unmatched h + 1\<rparr>)
      | Some urb \<Rightarrow>
          if \<not> pending_control urb then Some (h\<lparr>m_unmatched := m_unmatched h + 1\<rparr>)
          else dispatchControl api (USB_ENDPOINT_ID endpoint) (pending_setup urb) (control_payload urb data)
                 (h\<lparr>m_inflight := om_erase (USB_ENDPOINT_ID endpoint, i) (m_inflight h)\<rparr>))"

definition beginBulk :: "u8 \<Rightarrow> u64 \<Rightarrow> byte list \<Rightarrow> 'p device_handle \<Rightarrow> 'p device_handle" where
  "beginBulk endpoint i data h =
     h\<lparr>m_inflight := om_put (endpoint, i)
         \<lparr>pending_control = False, pending_setup = zero_setup,
          pending_data = (if data \<noteq> [] \<and> USB_ENDPOINT_OUT endpoint then data else [])\<rparr> (m_inflight h)\<rparr>"

definition endBulk :: "'p plist_api \<Rightarrow> u8 \<Rightarrow> u64 \<Rightarrow> byte list \<Rightarrow> 'p device_handle \<Rightarrow> 'p device_handle option" where
  "endBulk api endpoint i data h =
     (let (submitted, h) =
        (case om_find (m_inflight h) (endpoint, i) of
           Some urb \<Rightarrow> (pending_data urb, h\<lparr>m_inflight := om_erase (endpoint, i) (m_inflight h)\<rparr>)
         | None \<Rightarrow> ([], h\<lparr>m_unmatched := m_unmatched h + 1\<rparr>))
      in if USB_ENDPOINT_IN endpoint
         then on_device (processBulkPacketIn api (USB_ENDPOINT_ID endpoint) data) h
         else on_device (processBulkPacketOut api (USB_ENDPOINT_ID endpoint)
                (if data = [] \<and> submitted \<noteq> [] then submitted else data)) h)"

definition abort_transfer :: "u8 \<Rightarrow> u64 \<Rightarrow> 'p device_handle \<Rightarrow> 'p device_handle" where
  "abort_transfer endpoint i h =
     h\<lparr>m_inflight := om_erase (USB_ENDPOINT_ID endpoint, i) (om_erase (endpoint, i) (m_inflight h))\<rparr>"

section \<open>The events of an address\<close>

datatype transfer_event =
    BeginControl u8 u64 usb_setup_t "byte list"
  | AppendControl u8 u64 "byte list"
  | EndControl u8 u64 "byte list"
  | BeginBulk u8 u64 "byte list"
  | EndBulk u8 u64 "byte list"
  | AbortTransfer u8 u64

fun handle_step :: "'p plist_api \<Rightarrow> transfer_event \<Rightarrow> 'p device_handle \<Rightarrow> 'p device_handle option" where
  "handle_step api (BeginControl ep i setup data) h = Some (beginControl ep i setup data h)"
| "handle_step api (AppendControl ep i data) h = Some (appendControl ep i data h)"
| "handle_step api (EndControl ep i data) h = endControl api ep i data h"
| "handle_step api (BeginBulk ep i data) h = Some (beginBulk ep i data h)"
| "handle_step api (EndBulk ep i data) h = endBulk api ep i data h"
| "handle_step api (AbortTransfer ep i) h = Some (abort_transfer ep i h)"

text \<open>What an event does to the transfers in flight, and the transfer it completes.\<close>

fun inflight_step :: "transfer_event \<Rightarrow> (transfer_key, pending) omap \<Rightarrow> (transfer_key, pending) omap" where
  "inflight_step (BeginControl ep i setup data) m =
     om_put (USB_ENDPOINT_ID ep, i) \<lparr>pending_control = True, pending_setup = setup, pending_data = data\<rparr> m"
| "inflight_step (AppendControl ep i data) m =
     (case om_find m (USB_ENDPOINT_ID ep, i) of
        None \<Rightarrow> m
      | Some p \<Rightarrow> if data = [] then m else om_put (USB_ENDPOINT_ID ep, i) (p\<lparr>pending_data := pending_data p @ data\<rparr>) m)"
| "inflight_step (EndControl ep i data) m =
     (case om_find m (USB_ENDPOINT_ID ep, i) of
        None \<Rightarrow> m | Some p \<Rightarrow> if pending_control p then om_erase (USB_ENDPOINT_ID ep, i) m else m)"
| "inflight_step (BeginBulk ep i data) m =
     om_put (ep, i) \<lparr>pending_control = False, pending_setup = zero_setup,
       pending_data = (if data \<noteq> [] \<and> USB_ENDPOINT_OUT ep then data else [])\<rparr> m"
| "inflight_step (EndBulk ep i data) m = (case om_find m (ep, i) of None \<Rightarrow> m | Some p \<Rightarrow> om_erase (ep, i) m)"
| "inflight_step (AbortTransfer ep i) m = om_erase (USB_ENDPOINT_ID ep, i) (om_erase (ep, i) m)"

text \<open>A completed transfer, as the device sees it.\<close>

definition control_event :: "u8 \<Rightarrow> usb_setup_t \<Rightarrow> byte list \<Rightarrow> device_event" where
  "control_event ep setup data =
     (if bmRequestType setup AND USB_DIR_IN \<noteq> 0 then DeviceControlIn ep setup data else DeviceControlOut ep setup data)"

definition bulk_event :: "u8 \<Rightarrow> byte list \<Rightarrow> byte list \<Rightarrow> device_event" where
  "bulk_event ep submitted data =
     (if USB_ENDPOINT_IN ep then DeviceBulkIn (USB_ENDPOINT_ID ep) data
      else DeviceBulkOut (USB_ENDPOINT_ID ep) (if data = [] \<and> submitted \<noteq> [] then submitted else data))"

fun completed :: "(transfer_key, pending) omap \<Rightarrow> transfer_event \<Rightarrow> device_event option" where
  "completed m (EndControl ep i data) =
     (case om_find m (USB_ENDPOINT_ID ep, i) of
        None \<Rightarrow> None
      | Some p \<Rightarrow> if pending_control p then Some (control_event (USB_ENDPOINT_ID ep) (pending_setup p) (control_payload p data)) else None)"
| "completed m (EndBulk ep i data) =
     Some (bulk_event ep (case om_find m (ep, i) of None \<Rightarrow> [] | Some p \<Rightarrow> pending_data p) data)"
| "completed m _ = None"

text \<open>The current session takes a completed transfer; another device descriptor first opens the next session.\<close>

fun opens_session :: "device_event \<Rightarrow> 'p device \<Rightarrow> bool" where
  "opens_session (DeviceControlIn ep setup data) d = reenumerates setup data d"
| "opens_session _ d = False"

definition session_step :: "'p plist_api \<Rightarrow> u64 \<Rightarrow> device_event \<Rightarrow> 'p device list \<Rightarrow> 'p device list option" where
  "session_step api i ev ds =
     (if ds = [] then None
      else if opens_session ev (last ds) then map_option (\<lambda>d. ds @ [d]) (device_step api ev (new_device i))
      else map_option (\<lambda>d. butlast ds @ [d]) (device_step api ev (last ds)))"

section \<open>The decomposition of an event\<close>

fun unmatched_step :: "(transfer_key, pending) omap \<Rightarrow> transfer_event \<Rightarrow> u64 \<Rightarrow> u64" where
  "unmatched_step m (EndControl ep i data) u =
     (case om_find m (USB_ENDPOINT_ID ep, i) of None \<Rightarrow> u + 1 | Some p \<Rightarrow> if pending_control p then u else u + 1)"
| "unmatched_step m (EndBulk ep i data) u = (if om_find m (ep, i) = None then u + 1 else u)"
| "unmatched_step m _ u = u"

definition advance_handle :: "transfer_event \<Rightarrow> 'p device_handle \<Rightarrow> 'p device_handle" where
  "advance_handle ev h = h\<lparr>m_inflight := inflight_step ev (m_inflight h),
     m_unmatched := unmatched_step (m_inflight h) ev (m_unmatched h)\<rparr>"

lemma on_device_eq:
  "on_device f h = (if m_sessions h = [] then None
     else map_option (\<lambda>d. h\<lparr>m_sessions := butlast (m_sessions h) @ [d]\<rparr>) (f (last (m_sessions h))))"
  by (cases "f (last (m_sessions h))") (simp_all add: on_device_def current_device_def)

lemma dispatchControl_eq:
  "dispatchControl api ep setup data h =
     map_option (\<lambda>ds. h\<lparr>m_sessions := ds\<rparr>)
       (session_step api (m_handle_id h) (control_event ep setup data) (m_sessions h))"
proof (cases "m_sessions h = []")
  case True
  then show ?thesis by (simp add: dispatchControl_def current_device_def session_step_def)
next
  case False
  have out: "\<not> reenumerates setup data d" if "bmRequestType setup AND 0x80 = 0" for d :: "'a device"
    using that by (auto simp: reenumerates_def isControlDescriptorRead_def)
  show ?thesis
    using False out
    by (simp add: dispatchControl_def current_device_def session_step_def control_event_def on_device_eq Let_def
        option.map_comp comp_def)
qed

lemma handle_step_eq:
  "handle_step api ev h =
     (case completed (m_inflight h) ev of
        None \<Rightarrow> Some (advance_handle ev h)
      | Some x \<Rightarrow> map_option (\<lambda>ds. (advance_handle ev h)\<lparr>m_sessions := ds\<rparr>)
          (session_step api (m_handle_id h) x (m_sessions h)))"
proof (cases ev)
  case (BeginControl ep i s data)
  then show ?thesis by (simp add: beginControl_def advance_handle_def)
next
  case (AppendControl ep i data)
  then show ?thesis by (simp add: appendControl_def advance_handle_def split: option.split)
next
  case (EndControl ep i data)
  then show ?thesis
    by (cases "om_find (m_inflight h) (USB_ENDPOINT_ID ep, i)")
      (simp_all add: endControl_def advance_handle_def dispatchControl_eq)
next
  case (BeginBulk ep i data)
  then show ?thesis by (simp add: beginBulk_def advance_handle_def)
next
  case (EndBulk ep i data)
  show ?thesis
  proof (cases "m_sessions h = []")
    case True
    with EndBulk show ?thesis
      by (simp add: endBulk_def on_device_eq session_step_def split: option.split)
  next
    case False
    with EndBulk show ?thesis
      by (cases "om_find (m_inflight h) (ep, i)")
        (simp_all add: endBulk_def on_device_eq session_step_def bulk_event_def advance_handle_def option.map_comp comp_def)
  qed
next
  case (AbortTransfer ep i)
  then show ?thesis by (simp add: abort_transfer_def advance_handle_def)
qed

section \<open>Sessions\<close>

definition sessions_ok :: "u64 \<Rightarrow> 'p device list \<Rightarrow> bool" where
  "sessions_ok i ds \<longleftrightarrow> ds \<noteq> [] \<and> (\<forall>d \<in> set ds. device_ok d \<and> m_device_id d = i)"

definition handle_ok :: "'p device_handle \<Rightarrow> bool" where
  "handle_ok h \<longleftrightarrow> om_wf (m_inflight h) \<and> sessions_ok (m_handle_id h) (m_sessions h)"

lemma new_device_handle_ok [simp]: "handle_ok (new_device_handle i)"
  by (simp add: handle_ok_def new_device_handle_def sessions_ok_def) (simp add: new_device_def)

lemma event_count_id: "fst (counters (event_count ev d)) = fst (counters d)"
  by (cases ev) (simp_all add: counters_def count_bulk_def count_control_def)

lemma device_step_id:
  assumes "device_ok d" and "device_step api ev d = Some d'"
  shows "device_ok d'" and "m_device_id d' = m_device_id d"
proof -
  have "device_ok d' \<and> counters d' = counters (event_count ev d)" using device_step_ok [OF assms(1), of api ev] assms(2) by auto
  then show "device_ok d'" and "m_device_id d' = m_device_id d"
    using event_count_id [of ev d] by (simp_all add: counters_def)
qed

lemma session_step_ok:
  assumes "sessions_ok i ds"
  shows "\<exists>ds'. session_step api i x ds = Some ds' \<and> sessions_ok i ds'"
proof (cases "opens_session x (last ds)")
  case True
  obtain d' where d': "device_step api x (new_device i) = Some d'" using device_step_ok [OF new_device_ok, of api x i] by blast
  have "m_device_id d' = i" using device_step_id(2) [OF new_device_ok d'] by (simp add: new_device_def)
  with True d' assms device_step_id(1) [OF new_device_ok d'] show ?thesis
    by (auto simp: session_step_def sessions_ok_def)
next
  case False
  have l: "device_ok (last ds)" "m_device_id (last ds) = i" using assms by (auto simp: sessions_ok_def)
  obtain d' where d': "device_step api x (last ds) = Some d'" using device_step_ok [OF l(1), of api x] by blast
  with False assms device_step_id [OF l(1) d'] l(2) show ?thesis
    by (auto simp: session_step_def sessions_ok_def dest: in_set_butlastD)
qed

lemma inflight_step_wf: "om_wf m \<Longrightarrow> om_wf (inflight_step ev m)"
  by (cases ev) (auto split: option.split)

lemma handle_step_ok:
  assumes "handle_ok h"
  shows "\<exists>h'. handle_step api ev h = Some h' \<and> handle_ok h' \<and> m_handle_id h' = m_handle_id h"
proof (cases "completed (m_inflight h) ev")
  case None
  with assms show ?thesis by (simp add: handle_step_eq handle_ok_def advance_handle_def inflight_step_wf)
next
  case (Some x)
  with assms session_step_ok [of "m_handle_id h" "m_sessions h" api x] show ?thesis
    by (auto simp: handle_step_eq handle_ok_def advance_handle_def inflight_step_wf)
qed

interpretation handle: safe_machine handle_ok "handle_step api" for api
  by unfold_locales (use handle_step_ok in blast)

interpretation session: safe_machine "sessions_ok i" "session_step api i" for api i
  by unfold_locales (use session_step_ok in blast)

lemmas handle_run_ok = handle.safe_run

section \<open>A session is one device\<close>

definition same_descriptor :: "'p device \<Rightarrow> 'p device \<Rightarrow> bool" where
  "same_descriptor d d' \<longleftrightarrow>
     (m_hasDeviceDescriptor d \<longrightarrow> m_hasDeviceDescriptor d' \<and> m_deviceDescriptor d' = m_deviceDescriptor d)"

lemma same_descriptor_refl [simp]: "same_descriptor d d"
  by (simp add: same_descriptor_def)

lemma same_descriptor_trans: "same_descriptor d d1 \<Longrightarrow> same_descriptor d1 d2 \<Longrightarrow> same_descriptor d d2"
  by (simp add: same_descriptor_def)

lemma device_descriptor_request:
  fixes x :: u8
  assumes "x AND 0x80 \<noteq> 0" and "x AND 0x60 = 0" and "x AND 0x1F = 0"
  shows "x = 0x80"
proof (rule bit_word_eqI)
  fix k assume "k < LENGTH(8)"
  then consider "k = 0" | "k = 1" | "k = 2" | "k = 3" | "k = 4" | "k = 5" | "k = 6" | "k = 7" by fastforce
  moreover have "\<not> bit x k" if "bit (0x60 :: u8) k \<or> bit (0x1F :: u8) k" for k
    using that assms(2,3) by (metis bit_and_iff bit_0_eq bot_apply bot_bool_def)
  moreover have "bit x 7"
  proof (rule ccontr)
    assume n: "\<not> bit x 7"
    have "x AND 0x80 = 0"
    proof (rule bit_word_eqI)
      fix k assume "k < LENGTH(8)"
      then consider "k = 0" | "k = 1" | "k = 2" | "k = 3" | "k = 4" | "k = 5" | "k = 6" | "k = 7" by fastforce
      then show "bit (x AND 0x80) k = bit (0 :: u8) k" using n by cases (simp_all add: bit_and_iff)
    qed
    with assms(1) show False by simp
  qed
  ultimately show "bit x k = bit (0x80 :: u8) k" by cases simp_all
qed

lemma processDescriptor_same:
  assumes "device_ok d" and "bmRequestType setup = 0x80" and "bRequest setup = USB_REQ_GET_DESCRIPTOR"
    and "\<not> reenumerates setup data d" and "processDescriptor setup data d = Some d'"
  shows "same_descriptor d d'"
proof (cases "readStruct descriptor_header_size decode_descriptor_header data")
  case None
  with assms(5) show ?thesis by (simp add: processDescriptor_def)
next
  case (Some header)
  let ?t = "drop_bit 8 (wValue setup)"
  consider "ucast (bDescriptorType header) \<noteq> ?t" | "ucast (bDescriptorType header) = ?t" "?t = ucast USB_DT_DEVICE"
    | "ucast (bDescriptorType header) = ?t" "?t = ucast USB_DT_CONFIG"
    | "ucast (bDescriptorType header) = ?t" "?t \<noteq> ucast USB_DT_DEVICE" "?t \<noteq> ucast USB_DT_CONFIG" by blast
  then show ?thesis
  proof cases
    case 1
    with assms(5) Some show ?thesis by (auto simp: processDescriptor_def Let_def same_descriptor_def)
  next
    case 2
    show ?thesis
    proof (cases "length data < 18")
      case True
      with 2 assms(5) Some show ?thesis by (simp add: processDescriptor_def Let_def USB_DT_DEVICE_SIZE_def)
    next
      case False
      with 2 assms(5) Some have d': "d' = d\<lparr>m_deviceDescriptor := decode_device_descriptor (take 18 data), m_hasDeviceDescriptor := True\<rparr>"
        by (simp add: processDescriptor_def Let_def USB_DT_DEVICE_SIZE_def process_device_descriptor_def)
      have "take 18 data = encode_device_descriptor (m_deviceDescriptor d)" if "m_hasDeviceDescriptor d"
        using assms(2-4) 2 False that by (simp add: reenumerates_def isControlDescriptorRead_def USB_DT_DEVICE_SIZE_def)
      with d' show ?thesis by (simp add: same_descriptor_def decode_encode_device_descriptor)
    qed
  next
    case 3
    then have "process_config_descriptor data d = Some d'" using assms(5) Some by (simp add: processDescriptor_def Let_def)
    with process_config_descriptor_ok [OF assms(1), of data] show ?thesis by (auto simp: same_descriptor_def)
  next
    case 4
    then show ?thesis
      using assms(5) Some
      by (auto simp: processDescriptor_def Let_def same_descriptor_def process_string_descriptor_def process_bos_descriptor_def
          elim!: bind_Some_elim split: if_splits option.splits)
  qed
qed

text \<open>The events a handle produces: a control transfer is IN just when its setup packet says so.\<close>

fun genuine :: "device_event \<Rightarrow> bool" where
  "genuine (DeviceControlIn ep setup data) \<longleftrightarrow> bmRequestType setup AND USB_DIR_IN \<noteq> 0"
| "genuine (DeviceControlOut ep setup data) \<longleftrightarrow> bmRequestType setup AND USB_DIR_IN = 0"
| "genuine _ \<longleftrightarrow> True"

lemma completed_genuine: "completed m ev = Some x \<Longrightarrow> genuine x"
  by (cases ev) (auto simp: control_event_def bulk_event_def split: option.splits if_splits)

lemma event_count_descriptor [simp]:
  "m_hasDeviceDescriptor (event_count ev d) = m_hasDeviceDescriptor d"
  "m_deviceDescriptor (event_count ev d) = m_deviceDescriptor d"
  by (cases ev; simp add: count_bulk_def count_control_def)+

lemma device_step_same:
  assumes "device_ok d" and "genuine ev" and "\<not> opens_session ev d" and "device_step api ev d = Some d'"
  shows "same_descriptor d d'"
proof (cases "device_route d ev")
  case None
  then have own: "device_own ev (event_count ev d) = Some d'" using assms(4) by (simp add: device_step_eq)
  show ?thesis
  proof (cases ev)
    case (DeviceControlIn ep s data)
    show ?thesis
    proof (cases "ep AND 0x7F = 0 \<and> bRequest s = USB_REQ_GET_DESCRIPTOR \<and> bmRequestType s AND USB_RECIP_MASK = USB_RECIP_DEVICE")
      case True
      then have "bmRequestType s AND USB_TYPE_MASK = 0" using None DeviceControlIn by (auto split: if_splits)
      with True assms(2) DeviceControlIn have "bmRequestType s = 0x80" using device_descriptor_request by simp
      moreover have "\<not> reenumerates s data (event_count ev d)"
        using assms(3) DeviceControlIn by (simp add: reenumerates_def count_control_def)
      moreover have "processDescriptor s data (event_count ev d) = Some d'" using own True DeviceControlIn by simp
      ultimately have "same_descriptor (event_count ev d) d'"
        using processDescriptor_same [of "event_count ev d" s data d'] assms(1) True by simp
      then show ?thesis by (simp add: same_descriptor_def)
    next
      case False
      with own DeviceControlIn show ?thesis by (auto simp: same_descriptor_def count_control_def)
    qed
  next
    case (DeviceControlOut ep s data)
    with own show ?thesis by (auto simp: same_descriptor_def standard_request_def Let_def count_control_def split: if_splits)
  qed (use None in simp_all)
next
  case (Some r)
  obtain q x where r: "r = (q, x)" by (cases r)
  from device_step_routed [OF assms(1) Some [unfolded r], of api] assms(4)
  have "d' = (event_count ev d)\<lparr>m_experts := m_experts d'\<rparr>" by auto
  then have "m_hasDeviceDescriptor d' = m_hasDeviceDescriptor d" "m_deviceDescriptor d' = m_deviceDescriptor d"
    by (metis event_count_descriptor device.select_convs(6,8) device.surjective device.update_convs(14))+
  then show ?thesis by (simp add: same_descriptor_def)
qed

text \<open>Later sessions only follow earlier ones: the past is frozen, and no session changes its device.\<close>

definition sessions_extend :: "'p device list \<Rightarrow> 'p device list \<Rightarrow> bool" where
  "sessions_extend ds ds' \<longleftrightarrow> length ds \<le> length ds' \<and> take (length ds - 1) ds' = butlast ds \<and>
     list_all2 same_descriptor ds (take (length ds) ds')"

lemma sessions_extend_refl [simp]: "sessions_extend ds ds"
  by (simp add: sessions_extend_def butlast_conv_take list_all2_refl)

lemma sessions_extend_trans:
  assumes "sessions_extend ds ds1" and "sessions_extend ds1 ds2"
  shows "sessions_extend ds ds2"
proof -
  have len: "length ds \<le> length ds1" "length ds1 \<le> length ds2" using assms by (simp_all add: sessions_extend_def)
  have t: "take (length ds - 1) ds2 = butlast ds"
  proof -
    have "take (length ds - 1) ds2 = take (length ds - 1) (take (length ds1 - 1) ds2)" using len by (simp add: min_def)
    also have "\<dots> = take (length ds - 1) (butlast ds1)" using assms(2) by (simp add: sessions_extend_def)
    also have "\<dots> = take (length ds - 1) ds1" using len by (simp add: butlast_conv_take min_def)
    finally show ?thesis using assms(1) by (simp add: sessions_extend_def)
  qed
  have "list_all2 same_descriptor (take (length ds) ds1) (take (length ds) (take (length ds1) ds2))"
    by (rule list_all2_takeI) (use assms(2) in \<open>simp add: sessions_extend_def\<close>)
  then have "list_all2 same_descriptor (take (length ds) ds1) (take (length ds) ds2)" using len by (simp add: min_def)
  moreover have "list_all2 same_descriptor ds (take (length ds) ds1)" using assms(1) by (simp add: sessions_extend_def)
  ultimately have "list_all2 same_descriptor ds (take (length ds) ds2)"
    using list_all2_trans [of same_descriptor same_descriptor same_descriptor] same_descriptor_trans by metis
  with t len show ?thesis by (simp add: sessions_extend_def)
qed

lemma session_step_extend:
  assumes "sessions_ok i ds" and "genuine x" and "session_step api i x ds = Some ds'"
  shows "sessions_extend ds ds'"
proof (cases "opens_session x (last ds)")
  case True
  then obtain d where "ds' = ds @ [d]" using assms(1,3) by (auto simp: session_step_def sessions_ok_def)
  then show ?thesis by (simp add: sessions_extend_def butlast_conv_take list_all2_refl)
next
  case False
  then obtain d where d: "device_step api x (last ds) = Some d" "ds' = butlast ds @ [d]"
    using assms(1,3) by (auto simp: session_step_def sessions_ok_def)
  have ne: "ds \<noteq> []" and ok: "device_ok (last ds)" using assms(1) by (auto simp: sessions_ok_def)
  have "same_descriptor (last ds) d" by (rule device_step_same [OF ok assms(2) False d(1)])
  then have "list_all2 same_descriptor (butlast ds @ [last ds]) ds'" by (simp add: d(2) list_all2_appendI list_all2_refl)
  then have "list_all2 same_descriptor ds ds'" using ne by simp
  moreover have "length ds' = length ds" "take (length ds - 1) ds' = butlast ds" using d(2) ne by simp_all
  ultimately show ?thesis by (simp add: sessions_extend_def)
qed

lemma handle_step_extend:
  assumes "handle_ok h" and "handle_step api ev h = Some h'"
  shows "sessions_extend (m_sessions h) (m_sessions h')"
proof (cases "completed (m_inflight h) ev")
  case None
  with assms(2) show ?thesis by (auto simp: handle_step_eq advance_handle_def)
next
  case (Some x)
  with assms(2) obtain ds where "session_step api (m_handle_id h) x (m_sessions h) = Some ds" "m_sessions h' = ds"
    by (auto simp: handle_step_eq)
  with session_step_extend [OF _ completed_genuine [OF Some]] assms(1) show ?thesis by (auto simp: handle_ok_def)
qed

text \<open>
  C20: Every session of an address is one device.  Whatever the events, an address has a session; sessions are only
  added at the end; a session that is not the current one never changes again, its traffic being complete; and a
  device descriptor, once a session has one, stays that session's descriptor, another one being the start of the
  next session.
\<close>

theorem sessions_are_devices:
  assumes "handle_ok h"
  shows "\<exists>h'. run_opt (handle_step api) evs h = Some h' \<and> handle_ok h' \<and> sessions_extend (m_sessions h) (m_sessions h')"
  using assms
proof (induction evs arbitrary: h)
  case Nil
  then show ?case by simp
next
  case (Cons ev evs)
  obtain h1 where h1: "handle_step api ev h = Some h1" "handle_ok h1" using handle_step_ok [OF Cons.prems] by blast
  from handle_step_extend [OF Cons.prems h1(1)] Cons.IH [OF h1(2)] h1(1) show ?case
    using sessions_extend_trans by auto
qed

section \<open>Pairing submissions with completions\<close>

fun event_keys :: "transfer_event \<Rightarrow> transfer_key list" where
  "event_keys (BeginControl ep i setup data) = [(USB_ENDPOINT_ID ep, i)]"
| "event_keys (AppendControl ep i data) = [(USB_ENDPOINT_ID ep, i)]"
| "event_keys (EndControl ep i data) = [(USB_ENDPOINT_ID ep, i)]"
| "event_keys (BeginBulk ep i data) = [(ep, i)]"
| "event_keys (EndBulk ep i data) = [(ep, i)]"
| "event_keys (AbortTransfer ep i) = [(ep, i), (USB_ENDPOINT_ID ep, i)]"

text \<open>An event leaves the transfer \<open>k\<close> in flight, at most adding a data stage to it; the data stages of \<open>k\<close>.\<close>

fun is_append :: "transfer_event \<Rightarrow> bool" where
  "is_append (AppendControl ep i data) = True"
| "is_append _ = False"

definition spares :: "transfer_key \<Rightarrow> transfer_event \<Rightarrow> bool" where
  "spares k ev \<longleftrightarrow> k \<notin> set (event_keys ev) \<or> is_append ev"

fun stage_data :: "transfer_key \<Rightarrow> transfer_event \<Rightarrow> byte list" where
  "stage_data k (AppendControl ep i data) = (if k = (USB_ENDPOINT_ID ep, i) then data else [])"
| "stage_data k _ = []"

definition data_stages :: "transfer_key \<Rightarrow> transfer_event list \<Rightarrow> byte list" where
  "data_stages k evs = concat (map (stage_data k) evs)"

lemma inflight_step_frame: "k \<notin> set (event_keys ev) \<Longrightarrow> om_find (inflight_step ev m) k = om_find m k"
  by (cases ev) (auto simp: om.find_put om.find_erase split: option.split)

lemma inflight_step_spared:
  assumes "spares k ev" and "om_find m k = Some p"
  shows "om_find (inflight_step ev m) k = Some (p\<lparr>pending_data := pending_data p @ stage_data k ev\<rparr>)"
proof (cases "is_append ev")
  case True
  then obtain ep i data where ev: "ev = AppendControl ep i data" by (cases ev) auto
  with assms(2) show ?thesis by (cases "k = (ep AND 0x7F, i)"; cases "data = []") (auto simp: om.find_put split: option.split)
next
  case False
  then have "stage_data k ev = []" by (cases ev) auto
  with False assms inflight_step_frame show ?thesis by (simp add: spares_def)
qed

lemma inflight_fold_spared:
  "list_all (spares k) evs \<Longrightarrow> om_find m k = Some p \<Longrightarrow>
   om_find (fold inflight_step evs m) k = Some (p\<lparr>pending_data := pending_data p @ data_stages k evs\<rparr>)"
  by (induction evs arbitrary: m p) (simp_all add: inflight_step_spared data_stages_def)

lemma handle_step_inflight:
  "handle_step api ev h = Some h' \<Longrightarrow> m_inflight h' = inflight_step ev (m_inflight h) \<and> m_handle_id h' = m_handle_id h"
  by (auto simp: handle_step_eq advance_handle_def split: option.splits)

text \<open>The completions of a run that nothing in flight matches: they are counted, and do nothing else.\<close>

fun unmatched_run :: "(transfer_key, pending) omap \<Rightarrow> transfer_event list \<Rightarrow> u64 \<Rightarrow> u64" where
  "unmatched_run m [] u = u"
| "unmatched_run m (ev # evs) u = unmatched_run (inflight_step ev m) evs (unmatched_step m ev u)"

lemma handle_run_unmatched:
  "run_opt (handle_step api) evs h = Some h' \<Longrightarrow> m_unmatched h' = unmatched_run (m_inflight h) evs (m_unmatched h)"
proof (induction evs arbitrary: h)
  case (Cons ev evs)
  then obtain h1 where h1: "handle_step api ev h = Some h1" "run_opt (handle_step api) evs h1 = Some h'"
    by (auto elim!: bind_Some_elim)
  have "m_unmatched h1 = unmatched_step (m_inflight h) ev (m_unmatched h)" "m_inflight h1 = inflight_step ev (m_inflight h)"
    using h1(1) by (auto simp: handle_step_eq advance_handle_def split: option.splits)
  with Cons.IH [OF h1(2)] show ?case by simp
qed simp

lemma handle_run_inflight:
  "run_opt (handle_step api) evs h = Some h' \<Longrightarrow>
   m_inflight h' = fold inflight_step evs (m_inflight h) \<and> m_handle_id h' = m_handle_id h"
proof (induction evs arbitrary: h)
  case Nil
  then show ?case by simp
next
  case (Cons ev evs)
  then obtain h1 where "handle_step api ev h = Some h1" "run_opt (handle_step api) evs h1 = Some h'"
    by (auto elim: bind_Some_elim)
  with Cons.IH handle_step_inflight [of api ev h h1] show ?case by simp
qed

text \<open>
  C11: A control transfer is delivered.  After its submission, however the events of other transfers and its own data
  stages interleave, the completion hands the current session exactly one control transfer: the setup packet
  submitted, with the payload of the completion for an IN transfer (or what the stages before it carried, when
  it has none) and the submitted data for an OUT transfer (or what the completion carried), cut to the
  length the setup packet asks for.  The transfer is then no longer in flight.
\<close>

theorem control_transfer_delivered:
  assumes "handle_ok h" and "list_all (spares (USB_ENDPOINT_ID ep, i)) evs" and "USB_ENDPOINT_ID ep' = USB_ENDPOINT_ID ep"
    and "submitted = out @ data_stages (USB_ENDPOINT_ID ep, i) evs"
    and "payload = (if bmRequestType setup AND USB_DIR_IN \<noteq> 0
                    then if data = [] then submitted else data else if submitted = [] then data else submitted)"
  shows "\<exists>h1 h2. run_opt (handle_step api) (BeginControl ep i setup out # evs) h = Some h1 \<and>
    handle_step api (EndControl ep' i data) h1 = Some h2 \<and>
    session_step api (m_handle_id h) (control_event (USB_ENDPOINT_ID ep) setup (take (unat (wLength setup)) payload))
      (m_sessions h1) = Some (m_sessions h2) \<and>
    om_find (m_inflight h2) (USB_ENDPOINT_ID ep, i) = None \<and> m_unmatched h2 = m_unmatched h1"
proof -
  let ?k = "(USB_ENDPOINT_ID ep, i)"
  let ?p = "\<lparr>pending_control = True, pending_setup = setup, pending_data = out\<rparr>"
  obtain h1 where h1: "run_opt (handle_step api) (BeginControl ep i setup out # evs) h = Some h1" "handle_ok h1"
    using handle_run_ok [OF assms(1)] by blast
  have inf: "m_inflight h1 = fold inflight_step (BeginControl ep i setup out # evs) (m_inflight h)" "m_handle_id h1 = m_handle_id h"
    using handle_run_inflight [OF h1(1)] by simp_all
  have k: "om_find (m_inflight h1) ?k = Some (?p\<lparr>pending_data := submitted\<rparr>)"
    using inflight_fold_spared [OF assms(2), of "om_put ?k ?p (m_inflight h)" ?p] assms(4) by (simp add: inf om.find_put)
  obtain h2 where h2: "handle_step api (EndControl ep' i data) h1 = Some h2"
    using handle_step_ok [OF h1(2)] by blast
  have "control_payload (?p\<lparr>pending_data := submitted\<rparr>) data = take (unat (wLength setup)) payload"
    by (simp add: control_payload_def assms(5))
  then have "completed (m_inflight h1) (EndControl ep' i data) =
      Some (control_event (USB_ENDPOINT_ID ep) setup (take (unat (wLength setup)) payload))"
    using k assms(3) by simp
  with h1 h2 k assms(3) show ?thesis
    by (auto simp: handle_step_eq advance_handle_def om.find_erase inf(2))
qed

text \<open>A bulk transfer is delivered likewise; OUT data travels with the submission.\<close>

lemma bulk_transfer_delivered:
  assumes "handle_ok h" and "list_all (\<lambda>ev. (ep, i) \<notin> set (event_keys ev)) evs"
  shows "\<exists>h1 h2. run_opt (handle_step api) (BeginBulk ep i out # evs) h = Some h1 \<and>
    handle_step api (EndBulk ep i data) h1 = Some h2 \<and>
    session_step api (m_handle_id h) (bulk_event ep (if USB_ENDPOINT_OUT ep then out else []) data) (m_sessions h1) =
      Some (m_sessions h2) \<and> om_find (m_inflight h2) (ep, i) = None \<and> m_unmatched h2 = m_unmatched h1"
proof -
  let ?out = "if USB_ENDPOINT_OUT ep then out else []"
  let ?p = "\<lparr>pending_control = False, pending_setup = zero_setup, pending_data = ?out\<rparr>"
  have sp: "list_all (spares (ep, i)) evs" using assms(2) by (auto simp: list_all_iff spares_def)
  have "stage_data (ep, i) ev = []" if "(ep, i) \<notin> set (event_keys ev)" for ev using that by (cases ev) auto
  then have none: "data_stages (ep, i) evs = []" using assms(2) by (auto simp: data_stages_def list_all_iff)
  obtain h1 where h1: "run_opt (handle_step api) (BeginBulk ep i out # evs) h = Some h1" "handle_ok h1"
    using handle_run_ok [OF assms(1)] by blast
  have inf: "m_inflight h1 = fold inflight_step (BeginBulk ep i out # evs) (m_inflight h)" "m_handle_id h1 = m_handle_id h"
    using handle_run_inflight [OF h1(1)] by simp_all
  have "(if out \<noteq> [] \<and> USB_ENDPOINT_OUT ep then out else []) = ?out" by auto
  then have k: "om_find (m_inflight h1) (ep, i) = Some ?p"
    using inflight_fold_spared [OF sp, of "om_put (ep, i) ?p (m_inflight h)" ?p] by (simp add: inf om.find_put none)
  obtain h2 where h2: "handle_step api (EndBulk ep i data) h1 = Some h2"
    using handle_step_ok [OF h1(2)] by blast
  with h1 k show ?thesis by (auto simp: handle_step_eq advance_handle_def om.find_erase inf(2))
qed

text \<open>A completion without its submission is counted, and a control one changes nothing else.\<close>

lemma unmatched_control:
  "om_find (m_inflight h) (USB_ENDPOINT_ID ep, i) = None \<Longrightarrow>
   handle_step api (EndControl ep i data) h = Some (h\<lparr>m_unmatched := m_unmatched h + 1\<rparr>)"
  by (simp add: endControl_def)

section \<open>A session opened by a response of the wrong type\<close>

text \<open>
  C40: A response of at least 18 bytes to a device descriptor read that differs from the descriptor of the session
  opens a new session even when it is not a device descriptor: the new session stays without a descriptor,
  and the configurations and experts of the device are left behind in the session before it.
\<close>

theorem wrong_type_opens_session:
  assumes "m_sessions h = ds @ [d]" and "m_hasDeviceDescriptor d" and "bDescriptorType (m_deviceDescriptor d) = USB_DT_DEVICE"
    and "isControlDescriptorRead setup" and "18 \<le> length data" and "data ! 1 \<noteq> USB_DT_DEVICE"
  shows "\<exists>d'. dispatchControl api 0 setup data h = Some (h\<lparr>m_sessions := ds @ [d, d']\<rparr>) \<and>
    \<not> m_hasDeviceDescriptor d' \<and> m_configurations d' = om_empty"
proof -
  have t: "bmRequestType setup = 0x80" "bRequest setup = 6" "drop_bit 8 (wValue setup) = 1"
    using assms(4) by (simp_all add: isControlDescriptorRead_def)
  have len: "2 \<le> length data" using assms(5) by simp
  have b1: "field (Suc 0) (Suc 0) bs = bs ! Suc 0" if "2 \<le> length bs" for bs :: "byte list"
    using field8_nth [of "Suc 0" bs] that by simp
  have "bDescriptorType (decode_device_descriptor (take 18 data)) = data ! Suc 0"
    using assms(5) b1 [of "take 18 data"] by (simp add: decode_device_descriptor_def)
  then have "encode_device_descriptor (m_deviceDescriptor d) \<noteq> take 18 data"
    using assms(3,6) by (metis One_nat_def decode_encode_device_descriptor)
  then have re: "reenumerates setup data d"
    using assms(2,4,5) by (simp add: reenumerates_def USB_DT_DEVICE_SIZE_def)
  have "bDescriptorType (decode_descriptor_header (take 2 data)) = data ! Suc 0"
    using b1 [of "take 2 data"] len by (simp add: decode_descriptor_header_def)
  moreover have "ucast (data ! Suc 0) \<noteq> (1 :: u16)" using assms(6) ucast_index [of "data ! Suc 0"] by (metis One_nat_def ucast_1)
  ultimately have "processDescriptor setup data (count_control data (new_device (m_handle_id h))) =
      Some ((count_control data (new_device (m_handle_id h)))\<lparr>m_anomalies := [wrong_type 1 (data ! Suc 0)]\<rparr>)"
    using t len by (simp add: processDescriptor_def Let_def descriptor_header_size_def count_control_def new_device_def)
  then have "processControlPacketIn api 0 setup data (new_device (m_handle_id h)) =
      Some ((count_control data (new_device (m_handle_id h)))\<lparr>m_anomalies := [wrong_type 1 (data ! Suc 0)]\<rparr>)"
    using t by (simp add: processControlPacketIn_def Let_def)
  then have "dispatchControl api 0 setup data h = Some (h\<lparr>m_sessions := ds @
      [d, (count_control data (new_device (m_handle_id h)))\<lparr>m_anomalies := [wrong_type 1 (data ! Suc 0)]\<rparr>]\<rparr>)"
    using assms(1) re t by (simp add: dispatchControl_eq session_step_def control_event_def)
  moreover have "\<not> m_hasDeviceDescriptor (count_control data (new_device n)\<lparr>m_anomalies := a\<rparr>) \<and>
      m_configurations (count_control data (new_device n)\<lparr>m_anomalies := a\<rparr>) = om_empty" for n a
    by (simp add: count_control_def new_device_def)
  ultimately show ?thesis by blast
qed

section \<open>Concrete instances\<close>

definition sample_handle :: "sample_node device_handle" where
  "sample_handle = (new_device_handle 7)\<lparr>m_sessions := [sample_device]\<rparr>"

lemma sample_handle_ok [simp]: "handle_ok sample_handle"
  by (simp add: sample_handle_def handle_ok_def new_device_handle_def sessions_ok_def)
    (simp add: sample_device_def new_device_def)

definition device_read :: usb_setup_t where
  "device_read = \<lparr>bmRequestType = 0x80, bRequest = 6, wValue = 0x0100, wIndex = 0, wLength = 18\<rparr>"

theorem sessions_are_devices_witness:
  "\<exists>h'. run_opt (handle_step sample_api)
      [BeginControl 0 1 device_read [], BeginBulk 4 2 [1, 2], EndControl 0x80 1 (replicate 18 1), EndBulk 4 2 []] sample_handle = Some h' \<and>
    handle_ok h' \<and> sessions_extend (m_sessions sample_handle) (m_sessions h')"
  by (rule sessions_are_devices) simp

theorem control_transfer_delivered_witness:
  "\<exists>h1 h2. run_opt (handle_step sample_api)
      (BeginControl 0x80 1 device_read [] # [BeginBulk 4 2 [1, 2], AppendControl 0 1 [18, 1], EndControl 0 3 [], AppendControl 0 1 [0, 2]])
      sample_handle = Some h1 \<and>
    handle_step sample_api (EndControl 0 1 []) h1 = Some h2 \<and>
    session_step sample_api (m_handle_id sample_handle)
      (control_event (USB_ENDPOINT_ID 0x80) device_read (take (unat (wLength device_read)) [18, 1, 0, 2]))
      (m_sessions h1) = Some (m_sessions h2) \<and>
    om_find (m_inflight h2) (USB_ENDPOINT_ID 0x80, 1) = None \<and> m_unmatched h2 = m_unmatched h1"
  by (rule control_transfer_delivered [where out = "[]" and submitted = "[18, 1, 0, 2]"])
    (simp_all add: spares_def data_stages_def device_read_def)

theorem wrong_type_opens_session_witness:
  "\<exists>d'. dispatchControl sample_api 0 device_read (replicate 18 2)
      (sample_handle\<lparr>m_sessions := [] @ [sample_device\<lparr>m_deviceDescriptor := zero_device_descriptor\<lparr>bDescriptorType := 1\<rparr>\<rparr>]\<rparr>) =
    Some (sample_handle\<lparr>m_sessions := [] @ [sample_device\<lparr>m_deviceDescriptor := zero_device_descriptor\<lparr>bDescriptorType := 1\<rparr>\<rparr>, d']\<rparr>) \<and>
    \<not> m_hasDeviceDescriptor d' \<and> m_configurations d' = om_empty"
  using wrong_type_opens_session [of "sample_handle\<lparr>m_sessions := [] @ [sample_device\<lparr>m_deviceDescriptor := zero_device_descriptor\<lparr>bDescriptorType := 1\<rparr>\<rparr>]\<rparr>"
      "[]" "sample_device\<lparr>m_deviceDescriptor := zero_device_descriptor\<lparr>bDescriptorType := 1\<rparr>\<rparr>" device_read "replicate 18 2" sample_api]
  by (simp add: isControlDescriptorRead_def device_read_def) (simp add: sample_device_def)

end
