(* ===== verification/Input_File.thy ===== *)
theory Input_File
  imports Device_Handle
begin

text \<open>
  The class \<open>InputFile\<close> (\<open>src/file/InputFile.h\<close>, \<open>InputFile.cpp\<close>) without its file: the addresses of a
  capture, its warnings, and the decoders of the packets of the three capture drivers (Darwin, USBPcap,
  Linux usbmon), which turn a packet into an event of the handle of its device address.

  A decoder returns what the code returns, with the new state; \<open>None\<close> is an access outside the packet, or
  a fault of a handle.
\<close>

section \<open>Constants\<close>

abbreviation (input) USB_EP_CONTROL :: u8 where "USB_EP_CONTROL \<equiv> 0"
abbreviation (input) USB_EP_BULK :: u8 where "USB_EP_BULK \<equiv> 2"
abbreviation (input) USB_EP_INTERRUPT :: u8 where "USB_EP_INTERRUPT \<equiv> 3"
abbreviation (input) DARWIN_IO_SUBMIT :: u8 where "DARWIN_IO_SUBMIT \<equiv> 0"
abbreviation (input) DARWIN_IO_COMPLETE :: u8 where "DARWIN_IO_COMPLETE \<equiv> 1"
abbreviation (input) DARWIN_USB_HEADER_VERSION_1_0 :: u16 where "DARWIN_USB_HEADER_VERSION_1_0 \<equiv> 0x0100"
abbreviation (input) DARWIN_USB_HEADER_VERSION_1_1 :: u16 where "DARWIN_USB_HEADER_VERSION_1_1 \<equiv> 0x0101"
abbreviation (input) USBMON_EVENT_SUBMIT :: u8 where "USBMON_EVENT_SUBMIT \<equiv> 83"
abbreviation (input) USBMON_EVENT_COMPLETE :: u8 where "USBMON_EVENT_COMPLETE \<equiv> 67"
abbreviation (input) USBMON_EVENT_ERROR :: u8 where "USBMON_EVENT_ERROR \<equiv> 69"
abbreviation (input) USBMON_TRANSFER_INTERRUPT :: u8 where "USBMON_TRANSFER_INTERRUPT \<equiv> 1"
abbreviation (input) USBMON_TRANSFER_CONTROL :: u8 where "USBMON_TRANSFER_CONTROL \<equiv> 2"
abbreviation (input) USBMON_TRANSFER_BULK :: u8 where "USBMON_TRANSFER_BULK \<equiv> 3"
abbreviation (input) USBPCAP_INFO_PDO_TO_FDO :: u8 where "USBPCAP_INFO_PDO_TO_FDO \<equiv> 1"
abbreviation (input) USBPCAP_TRANSFER_INTERRUPT :: u8 where "USBPCAP_TRANSFER_INTERRUPT \<equiv> 1"
abbreviation (input) USBPCAP_TRANSFER_CONTROL :: u8 where "USBPCAP_TRANSFER_CONTROL \<equiv> 2"
abbreviation (input) USBPCAP_TRANSFER_BULK :: u8 where "USBPCAP_TRANSFER_BULK \<equiv> 3"
abbreviation (input) USBPCAP_CONTROL_STAGE_SETUP :: u8 where "USBPCAP_CONTROL_STAGE_SETUP \<equiv> 0"
abbreviation (input) USBPCAP_CONTROL_STAGE_DATA :: u8 where "USBPCAP_CONTROL_STAGE_DATA \<equiv> 1"
abbreviation (input) USBPCAP_CONTROL_STAGE_COMPLETE :: u8 where "USBPCAP_CONTROL_STAGE_COMPLETE \<equiv> 3"

definition MAX_WARNINGS :: nat where "MAX_WARNINGS = 100"

section \<open>State\<close>

record 'p input_file =
  m_filePacketCount :: u64
  m_warningCount :: u64
  m_warnings :: "string list"
  m_unsupportedLinktypes :: "u32 set"
  m_devices :: "(u64, 'p device_handle) omap"
  m_deviceOrder :: "u64 list"

definition new_input_file :: "'p input_file" where
  "new_input_file = \<lparr>m_filePacketCount = 0, m_warningCount = 0, m_warnings = [], m_unsupportedLinktypes = {},
     m_devices = om_empty, m_deviceOrder = []\<rparr>"

text \<open>\<open>getDevices\<close>; \<open>m_devices[id]\<close> of an address that has no handle would be a null pointer.\<close>

fun collect_devices :: "u64 list \<Rightarrow> 'p input_file \<Rightarrow> 'p device list option" where
  "collect_devices [] f = Some []"
| "collect_devices (i # is) f = do {
     h \<leftarrow> om_find (m_devices f) i;
     rest \<leftarrow> collect_devices is f;
     Some (handle_devices h @ rest)
   }"

definition getDevices :: "'p input_file \<Rightarrow> 'p device list option" where
  "getDevices f = collect_devices (m_deviceOrder f) f"

definition handleFor :: "u64 \<Rightarrow> 'p input_file \<Rightarrow> 'p input_file" where
  "handleFor i f =
     (if om_find (m_devices f) i = None
      then f\<lparr>m_devices := om_put i (new_device_handle i) (m_devices f), m_deviceOrder := m_deviceOrder f @ [i]\<rparr>
      else f)"

definition warn :: "string \<Rightarrow> 'p input_file \<Rightarrow> 'p input_file" where
  "warn warning f = f\<lparr>m_warningCount := m_warningCount f + 1,
     m_warnings := (if length (m_warnings f) < MAX_WARNINGS then m_warnings f @ [warning] else m_warnings f)\<rparr>"

text \<open>A call on the handle that \<open>handleFor\<close> returned.\<close>

definition on_handle :: "'p plist_api \<Rightarrow> u64 \<Rightarrow> transfer_event \<Rightarrow> 'p input_file \<Rightarrow> 'p input_file option" where
  "on_handle api i ev f = do {
     h \<leftarrow> om_find (m_devices f) i;
     h' \<leftarrow> handle_step api ev h;
     Some (f\<lparr>m_devices := om_put i h' (m_devices f)\<rparr>)
   }"

definition accept :: "'p input_file option \<Rightarrow> (bool \<times> 'p input_file) option" where
  "accept r = map_option (\<lambda>f. (True, f)) r"

definition reject :: "string \<Rightarrow> 'p input_file \<Rightarrow> (bool \<times> 'p input_file) option" where
  "reject warning f = Some (False, warn warning f)"

section \<open>Darwin\<close>

definition darwin_transfer :: "'p plist_api \<Rightarrow> darwin_usb_header \<Rightarrow> u64 \<Rightarrow> byte list \<Rightarrow> 'p input_file \<Rightarrow>
    (bool \<times> 'p input_file) option" where
  "darwin_transfer api usbHeader address payload f =
     (let endpoint = darwin_endpointId usbHeader; i = darwin_uniqueId usbHeader in
      if darwin_endpointType usbHeader = USB_EP_CONTROL then
        if darwin_type usbHeader = DARWIN_IO_SUBMIT then
          (case readStruct setup_size decode_setup payload of
             None \<Rightarrow> reject ''Darwin control submission without a setup packet'' f
           | Some setup \<Rightarrow> do {
               data \<leftarrow> advance setup_size payload;
               accept (on_handle api address (BeginControl endpoint i setup data) f)
             })
        else if darwin_type usbHeader = DARWIN_IO_COMPLETE then accept (on_handle api address (EndControl endpoint i payload) f)
        else Some (True, f)
      else if darwin_endpointType usbHeader = USB_EP_BULK \<or> darwin_endpointType usbHeader = USB_EP_INTERRUPT then
        if darwin_type usbHeader = DARWIN_IO_SUBMIT then accept (on_handle api address (BeginBulk endpoint i payload) f)
        else if darwin_type usbHeader = DARWIN_IO_COMPLETE then accept (on_handle api address (EndBulk endpoint i payload) f)
        else Some (True, f)
      else Some (True, f))"

definition process_darwin_packet :: "'p plist_api \<Rightarrow> byte list \<Rightarrow> 'p input_file \<Rightarrow> (bool \<times> 'p input_file) option" where
  "process_darwin_packet api data f =
     (case readStruct darwin_header_size decode_darwin_header data of
        None \<Rightarrow> reject ''Darwin packet shorter than its header'' f
      | Some usbHeader \<Rightarrow>
          if darwin_version usbHeader \<noteq> DARWIN_USB_HEADER_VERSION_1_0 \<and> darwin_version usbHeader \<noteq> DARWIN_USB_HEADER_VERSION_1_1
          then reject (''Unsupported Darwin USB header version 0x'' @ zero_pad 4 (hex (unat (darwin_version usbHeader)))) f
          else if unat (darwin_headerLength usbHeader) < darwin_header_size \<or> length data < unat (darwin_headerLength usbHeader)
          then reject ''Darwin packet header length is out of bounds'' f
          else do {
            let address = (push_bit 32 (ucast (darwin_locationId usbHeader)) OR ucast (darwin_deviceId usbHeader) :: u64);
            room \<leftarrow> size_sub (length data) (unat (darwin_headerLength usbHeader));
            payload \<leftarrow> subspan (unat (darwin_headerLength usbHeader)) (min (unat (darwin_length usbHeader)) room) data;
            darwin_transfer api usbHeader address payload (handleFor address f)
          })"

section \<open>USBPcap\<close>

definition usbpcap_control :: "'p plist_api \<Rightarrow> usbpcap_packet_header \<Rightarrow> u8 \<Rightarrow> u64 \<Rightarrow> byte list \<Rightarrow> 'p input_file \<Rightarrow>
    (bool \<times> 'p input_file) option" where
  "usbpcap_control api usbHeader stage address payload f =
     (let endpoint = pcap_endpoint usbHeader; i = irpId usbHeader in
      if stage = USBPCAP_CONTROL_STAGE_SETUP then
        (case readStruct setup_size decode_setup payload of
           None \<Rightarrow> reject ''USBPcap setup stage without a setup packet'' f
         | Some setup \<Rightarrow> do {
             data \<leftarrow> advance setup_size payload;
             accept (on_handle api address (BeginControl endpoint i setup data) f)
           })
      else if stage = USBPCAP_CONTROL_STAGE_DATA then accept (on_handle api address (AppendControl endpoint i payload) f)
      else if stage = USBPCAP_CONTROL_STAGE_COMPLETE then accept (on_handle api address (EndControl endpoint i payload) f)
      else Some (True, f))"

definition usbpcap_transfer :: "'p plist_api \<Rightarrow> usbpcap_packet_header \<Rightarrow> byte list \<Rightarrow> u64 \<Rightarrow> byte list \<Rightarrow> 'p input_file \<Rightarrow>
    (bool \<times> 'p input_file) option" where
  "usbpcap_transfer api usbHeader data address payload f =
     (let endpoint = pcap_endpoint usbHeader; i = irpId usbHeader in
      if pcap_transfer usbHeader = USBPCAP_TRANSFER_CONTROL then
        if unat (headerLen usbHeader) < usbpcap_control_header_size
        then reject ''USBPcap control packet without a stage'' f
        else (case readStruct usbpcap_control_header_size decode_usbpcap_control_header data of
                None \<Rightarrow> reject ''USBPcap control packet without a stage'' f
              | Some controlHeader \<Rightarrow> usbpcap_control api usbHeader (control_stage controlHeader) address payload f)
      else if pcap_transfer usbHeader = USBPCAP_TRANSFER_BULK \<or> pcap_transfer usbHeader = USBPCAP_TRANSFER_INTERRUPT then
        if pcap_info usbHeader AND USBPCAP_INFO_PDO_TO_FDO \<noteq> 0
        then accept (on_handle api address (EndBulk endpoint i payload) f)
        else accept (on_handle api address (BeginBulk endpoint i payload) f)
      else Some (True, f))"

definition process_usbpcap_packet :: "'p plist_api \<Rightarrow> byte list \<Rightarrow> 'p input_file \<Rightarrow> (bool \<times> 'p input_file) option" where
  "process_usbpcap_packet api data f =
     (case readStruct usbpcap_header_size decode_usbpcap_header data of
        None \<Rightarrow> reject ''USBPcap packet shorter than its header'' f
      | Some usbHeader \<Rightarrow>
          if unat (headerLen usbHeader) < usbpcap_header_size \<or> length data < unat (headerLen usbHeader)
          then reject ''USBPcap packet header length is out of bounds'' f
          else do {
            let address = (push_bit 16 (ucast (pcap_bus usbHeader)) OR ucast (pcap_device usbHeader) :: u64);
            room \<leftarrow> size_sub (length data) (unat (headerLen usbHeader));
            payload \<leftarrow> subspan (unat (headerLen usbHeader)) (min (unat (dataLength usbHeader)) room) data;
            usbpcap_transfer api usbHeader data address payload (handleFor address f)
          })"

section \<open>usbmon\<close>

definition usbmon_transfer :: "'p plist_api \<Rightarrow> usbmon_header \<Rightarrow> u64 \<Rightarrow> byte list \<Rightarrow> 'p input_file \<Rightarrow>
    (bool \<times> 'p input_file) option" where
  "usbmon_transfer api usbHeader address payload f =
     (let endpoint = endpoint_number usbHeader; i = mon_id usbHeader in
      if event_type usbHeader = USBMON_EVENT_ERROR then accept (on_handle api address (AbortTransfer endpoint i) f)
      else if transfer_type usbHeader = USBMON_TRANSFER_CONTROL then
        if event_type usbHeader = USBMON_EVENT_SUBMIT then
          if setup_flag usbHeader \<noteq> 0 then reject ''usbmon control submission without a setup packet'' f
          else accept (on_handle api address (BeginControl endpoint i (mon_setup usbHeader) payload) f)
        else if event_type usbHeader = USBMON_EVENT_COMPLETE then accept (on_handle api address (EndControl endpoint i payload) f)
        else Some (True, f)
      else if transfer_type usbHeader = USBMON_TRANSFER_BULK \<or> transfer_type usbHeader = USBMON_TRANSFER_INTERRUPT then
        if event_type usbHeader = USBMON_EVENT_SUBMIT then accept (on_handle api address (BeginBulk endpoint i payload) f)
        else if event_type usbHeader = USBMON_EVENT_COMPLETE then accept (on_handle api address (EndBulk endpoint i payload) f)
        else Some (True, f)
      else Some (True, f))"

definition process_usbmon_packet :: "'p plist_api \<Rightarrow> byte list \<Rightarrow> bool \<Rightarrow> 'p input_file \<Rightarrow> (bool \<times> 'p input_file) option" where
  "process_usbmon_packet api data mmapped f =
     (let headerLength = (if mmapped then usbmon_mmapped_header_size else usbmon_header_size) in
      if length data < headerLength then reject ''usbmon packet shorter than its header'' f
      else (case readStruct usbmon_header_size decode_usbmon_header data of
        None \<Rightarrow> reject ''usbmon packet shorter than its header'' f
      | Some usbHeader \<Rightarrow> do {
          let address = (push_bit 8 (ucast (bus_id usbHeader)) OR ucast (device_address usbHeader) :: u64);
          room \<leftarrow> size_sub (length data) headerLength;
          payload \<leftarrow> subspan headerLength (min (unat (data_len usbHeader)) room) data;
          usbmon_transfer api usbHeader address payload (handleFor address f)
        }))"

section \<open>Packets\<close>

definition unsupported :: "u32 \<Rightarrow> 'p input_file \<Rightarrow> (bool \<times> 'p input_file) option" where
  "unsupported linktype f =
     Some (False,
       if linktype \<in> m_unsupportedLinktypes f then f
       else warn (''Skipping packets with unsupported link type '' @ dec (unat linktype))
              (f\<lparr>m_unsupportedLinktypes := insert linktype (m_unsupportedLinktypes f)\<rparr>))"

definition inputfile_processPacket :: "'p plist_api \<Rightarrow> u32 \<Rightarrow> byte list \<Rightarrow> 'p input_file \<Rightarrow> (bool \<times> 'p input_file) option" where
  "inputfile_processPacket api linktype data f =
     (let f = f\<lparr>m_filePacketCount := m_filePacketCount f + 1\<rparr> in
      if linktype = LINKTYPE_USB_DARWIN then process_darwin_packet api data f
      else if linktype = LINKTYPE_USBPCAP then process_usbpcap_packet api data f
      else if linktype = LINKTYPE_USB_LINUX then process_usbmon_packet api data False f
      else if linktype = LINKTYPE_USB_LINUX_MMAPPED then process_usbmon_packet api data True f
      else unsupported linktype f)"

section \<open>The meaning of a packet\<close>

text \<open>
  A packet is undecodable, or concerns a device address: with a warning about it, or with at most one event.  The
  meaning is a function of the packet alone.
\<close>

datatype packet_meaning =
    Undecodable string
  | Concerns u64 "string + transfer_event option"

definition setup_event :: "string \<Rightarrow> u8 \<Rightarrow> u64 \<Rightarrow> byte list \<Rightarrow> string + transfer_event option" where
  "setup_event warning ep i payload =
     (if length payload < 8 then Inl warning
      else Inr (Some (BeginControl ep i (decode_setup (take 8 payload)) (drop 8 payload))))"

definition darwin_event :: "darwin_usb_header \<Rightarrow> byte list \<Rightarrow> string + transfer_event option" where
  "darwin_event h payload =
     (let ep = darwin_endpointId h; i = darwin_uniqueId h in
      if darwin_endpointType h = 0 then
        if darwin_type h = 0 then setup_event ''Darwin control submission without a setup packet'' ep i payload
        else if darwin_type h = 1 then Inr (Some (EndControl ep i payload)) else Inr None
      else if darwin_endpointType h = 2 \<or> darwin_endpointType h = 3 then
        if darwin_type h = 0 then Inr (Some (BeginBulk ep i payload))
        else if darwin_type h = 1 then Inr (Some (EndBulk ep i payload)) else Inr None
      else Inr None)"

definition darwin_address :: "u32 \<Rightarrow> u8 \<Rightarrow> u64" where
  "darwin_address location device = push_bit 32 (ucast location) OR ucast device"

definition darwin_meaning :: "byte list \<Rightarrow> packet_meaning" where
  "darwin_meaning data =
     (let h = decode_darwin_header (take 32 data); n = unat (darwin_headerLength h) in
      if length data < 32 then Undecodable ''Darwin packet shorter than its header''
      else if darwin_version h \<noteq> 0x0100 \<and> darwin_version h \<noteq> 0x0101
      then Undecodable (''Unsupported Darwin USB header version 0x'' @ zero_pad 4 (hex (unat (darwin_version h))))
      else if n < 32 \<or> length data < n then Undecodable ''Darwin packet header length is out of bounds''
      else Concerns (darwin_address (darwin_locationId h) (darwin_deviceId h))
             (darwin_event h (take (unat (darwin_length h)) (drop n data))))"

definition usbpcap_event :: "usbpcap_packet_header \<Rightarrow> u8 \<Rightarrow> byte list \<Rightarrow> string + transfer_event option" where
  "usbpcap_event h stage payload =
     (let ep = pcap_endpoint h; i = irpId h in
      if pcap_transfer h = 2 then
        if unat (headerLen h) < 28 then Inl ''USBPcap control packet without a stage''
        else if stage = 0 then setup_event ''USBPcap setup stage without a setup packet'' ep i payload
        else if stage = 1 then Inr (Some (AppendControl ep i payload))
        else if stage = 3 then Inr (Some (EndControl ep i payload)) else Inr None
      else if pcap_transfer h = 3 \<or> pcap_transfer h = 1 then
        if pcap_info h AND 1 \<noteq> 0 then Inr (Some (EndBulk ep i payload)) else Inr (Some (BeginBulk ep i payload))
      else Inr None)"

definition usbpcap_address :: "u16 \<Rightarrow> u16 \<Rightarrow> u64" where
  "usbpcap_address bus device = push_bit 16 (ucast bus) OR ucast device"

definition usbpcap_meaning :: "byte list \<Rightarrow> packet_meaning" where
  "usbpcap_meaning data =
     (let h = decode_usbpcap_header (take 27 data); n = unat (headerLen h) in
      if length data < 27 then Undecodable ''USBPcap packet shorter than its header''
      else if n < 27 \<or> length data < n then Undecodable ''USBPcap packet header length is out of bounds''
      else Concerns (usbpcap_address (pcap_bus h) (pcap_device h))
             (usbpcap_event h (field8 27 data) (take (unat (dataLength h)) (drop n data))))"

definition usbmon_event :: "usbmon_header \<Rightarrow> byte list \<Rightarrow> string + transfer_event option" where
  "usbmon_event h payload =
     (let ep = endpoint_number h; i = mon_id h in
      if event_type h = 69 then Inr (Some (AbortTransfer ep i))
      else if transfer_type h = 2 then
        if event_type h = 83 then
          if setup_flag h \<noteq> 0 then Inl ''usbmon control submission without a setup packet''
          else Inr (Some (BeginControl ep i (mon_setup h) payload))
        else if event_type h = 67 then Inr (Some (EndControl ep i payload)) else Inr None
      else if transfer_type h = 3 \<or> transfer_type h = 1 then
        if event_type h = 83 then Inr (Some (BeginBulk ep i payload))
        else if event_type h = 67 then Inr (Some (EndBulk ep i payload)) else Inr None
      else Inr None)"

definition usbmon_address :: "u16 \<Rightarrow> u8 \<Rightarrow> u64" where
  "usbmon_address bus device = push_bit 8 (ucast bus) OR ucast device"

definition usbmon_meaning :: "nat \<Rightarrow> byte list \<Rightarrow> packet_meaning" where
  "usbmon_meaning n data =
     (let h = decode_usbmon_header (take 48 data) in
      if length data < n then Undecodable ''usbmon packet shorter than its header''
      else Concerns (usbmon_address (bus_id h) (device_address h))
             (usbmon_event h (take (unat (data_len h)) (drop n data))))"

definition meaning :: "u32 \<Rightarrow> byte list \<Rightarrow> packet_meaning option" where
  "meaning linktype data =
     (if linktype = LINKTYPE_USB_DARWIN then Some (darwin_meaning data)
      else if linktype = LINKTYPE_USBPCAP then Some (usbpcap_meaning data)
      else if linktype = LINKTYPE_USB_LINUX then Some (usbmon_meaning 48 data)
      else if linktype = LINKTYPE_USB_LINUX_MMAPPED then Some (usbmon_meaning 64 data)
      else None)"

definition concern :: "'p plist_api \<Rightarrow> u64 \<Rightarrow> string + transfer_event option \<Rightarrow> 'p input_file \<Rightarrow> (bool \<times> 'p input_file) option" where
  "concern api a x f =
     (case x of Inl w \<Rightarrow> reject w f | Inr None \<Rightarrow> Some (True, f) | Inr (Some ev) \<Rightarrow> accept (on_handle api a ev f))"

definition apply_meaning :: "'p plist_api \<Rightarrow> packet_meaning \<Rightarrow> 'p input_file \<Rightarrow> (bool \<times> 'p input_file) option" where
  "apply_meaning api m f =
     (case m of Undecodable w \<Rightarrow> reject w f | Concerns a x \<Rightarrow> concern api a x (handleFor a f))"

definition count_packet :: "'p input_file \<Rightarrow> 'p input_file" where
  "count_packet f = f\<lparr>m_filePacketCount := m_filePacketCount f + 1\<rparr>"

lemma setup_event_eq:
  "concern api a (setup_event w ep i payload) f =
     (case readStruct setup_size decode_setup payload of
        None \<Rightarrow> reject w f
      | Some s \<Rightarrow> do { data \<leftarrow> advance setup_size payload; accept (on_handle api a (BeginControl ep i s data) f) })"
  by (simp add: setup_event_def concern_def setup_size_def readStruct_def)

lemma concern_simps [simp]:
  "concern api a (Inl w) f = reject w f" "concern api a (Inr None) f = Some (True, f)"
  "concern api a (Inr (Some ev)) f = accept (on_handle api a ev f)"
  by (simp_all add: concern_def)

lemma darwin_transfer_eq: "darwin_transfer api h a payload f = concern api a (darwin_event h payload) f"
  by (simp add: darwin_transfer_def darwin_event_def Let_def setup_event_eq [symmetric])

lemma usbpcap_transfer_eq:
  assumes "unat (headerLen h) \<le> length data"
  shows "usbpcap_transfer api h data a payload f = concern api a (usbpcap_event h (field8 27 data) payload) f"
  using assms
  by (simp add: usbpcap_transfer_def usbpcap_event_def usbpcap_control_def Let_def setup_event_eq [symmetric]
      usbpcap_control_header_size_def decode_usbpcap_control_header_def field_take)

lemma usbmon_transfer_eq: "usbmon_transfer api h a payload f = concern api a (usbmon_event h payload) f"
  by (simp add: usbmon_transfer_def usbmon_event_def Let_def)

lemma subspan_rest [simp]:
  "k \<le> length xs \<Longrightarrow> subspan k (min n (length xs - k)) xs = Some (take n (drop k xs))"
  by (auto simp: subspan_def min_def)

lemma take_min_drop: "take (min n (length xs - k)) (drop k xs) = take n (drop k xs)"
  by (simp add: min_def)

lemma process_darwin_eq: "process_darwin_packet api data f = apply_meaning api (darwin_meaning data) f"
  by (simp add: process_darwin_packet_def darwin_meaning_def apply_meaning_def readStruct_def darwin_header_size_def
      darwin_transfer_eq darwin_address_def Let_def not_less)

lemma process_usbpcap_eq: "process_usbpcap_packet api data f = apply_meaning api (usbpcap_meaning data) f"
  by (simp add: process_usbpcap_packet_def usbpcap_meaning_def apply_meaning_def readStruct_def usbpcap_header_size_def
      usbpcap_transfer_eq usbpcap_address_def Let_def not_less)

lemma process_usbmon_eq:
  "process_usbmon_packet api data mmapped f = apply_meaning api (usbmon_meaning (if mmapped then 64 else 48) data) f"
  by (simp add: process_usbmon_packet_def usbmon_meaning_def apply_meaning_def readStruct_def usbmon_header_size_def
      usbmon_mmapped_header_size_def usbmon_transfer_eq usbmon_address_def Let_def not_less
      take_min_drop)

lemma processPacket_eq:
  "inputfile_processPacket api linktype data f =
     (case meaning linktype data of
        Some m \<Rightarrow> apply_meaning api m (count_packet f)
      | None \<Rightarrow> unsupported linktype (count_packet f))"
  by (simp add: inputfile_processPacket_def meaning_def count_packet_def process_darwin_eq process_usbpcap_eq
      process_usbmon_eq Let_def)

section \<open>The addresses of a capture\<close>

type_synonym packet = "u32 \<times> byte list"

definition packet_step :: "'p plist_api \<Rightarrow> packet \<Rightarrow> 'p input_file \<Rightarrow> 'p input_file option" where
  "packet_step api p f = map_option snd (inputfile_processPacket api (fst p) (snd p) f)"

definition process_packets :: "'p plist_api \<Rightarrow> packet list \<Rightarrow> 'p input_file \<Rightarrow> 'p input_file option" where
  "process_packets api = run_opt (packet_step api)"

text \<open>The address a packet concerns, the event it is, and the addresses in order of first appearance.\<close>

definition concerned :: "packet \<Rightarrow> u64 option" where
  "concerned p = (case meaning (fst p) (snd p) of Some (Concerns a x) \<Rightarrow> Some a | _ \<Rightarrow> None)"

definition packet_event :: "u64 \<Rightarrow> packet \<Rightarrow> transfer_event list" where
  "packet_event a p =
     (case meaning (fst p) (snd p) of
        Some (Concerns b (Inr (Some ev))) \<Rightarrow> if b = a then [ev] else []
      | _ \<Rightarrow> [])"

definition events_for :: "u64 \<Rightarrow> packet list \<Rightarrow> transfer_event list" where
  "events_for a ps = concat (map (packet_event a) ps)"

definition see_address :: "packet \<Rightarrow> u64 list \<Rightarrow> u64 list" where
  "see_address p as = (case concerned p of None \<Rightarrow> as | Some a \<Rightarrow> if a \<in> set as then as else as @ [a])"

definition seen_addresses :: "packet list \<Rightarrow> u64 list" where
  "seen_addresses ps = fold see_address ps []"

definition handle_at :: "u64 \<Rightarrow> 'p input_file \<Rightarrow> 'p device_handle" where
  "handle_at a f = (case om_find (m_devices f) a of None \<Rightarrow> new_device_handle a | Some h \<Rightarrow> h)"

definition file_ok :: "'p input_file \<Rightarrow> bool" where
  "file_ok f \<longleftrightarrow> om_wf (m_devices f) \<and> (\<forall>a h. om_find (m_devices f) a = Some h \<longrightarrow> handle_ok h \<and> m_handle_id h = a) \<and>
     distinct (m_deviceOrder f) \<and> (\<forall>a. a \<in> set (m_deviceOrder f) \<longleftrightarrow> om_find (m_devices f) a \<noteq> None) \<and>
     length (m_warnings f) \<le> MAX_WARNINGS"

lemma new_input_file_ok [simp]: "file_ok new_input_file"
  by (simp add: file_ok_def new_input_file_def)

lemma handle_at_ok: "file_ok f \<Longrightarrow> handle_ok (handle_at a f) \<and> m_handle_id (handle_at a f) = a"
  by (auto simp: file_ok_def handle_at_def new_device_handle_def [of a] split: option.split)
    (simp flip: new_device_handle_def)

text \<open>What does not touch the addresses.\<close>

lemma warn_frame [simp]:
  "m_devices (warn w f) = m_devices f" "m_deviceOrder (warn w f) = m_deviceOrder f" "handle_at a (warn w f) = handle_at a f"
  "m_devices (count_packet f) = m_devices f" "m_deviceOrder (count_packet f) = m_deviceOrder f"
  "handle_at a (count_packet f) = handle_at a f"
  by (simp_all add: warn_def count_packet_def handle_at_def)

lemma warn_ok: "file_ok f \<Longrightarrow> file_ok (warn w f)" "file_ok (count_packet f) = file_ok f"
  by (simp_all add: file_ok_def warn_def count_packet_def)

lemma handleFor_frame [simp]:
  "handle_at a (handleFor b f) = handle_at a f"
  "m_deviceOrder (handleFor b f) = (if om_find (m_devices f) b = None then m_deviceOrder f @ [b] else m_deviceOrder f)"
  "om_find (m_devices (handleFor b f)) b \<noteq> None" "m_warnings (handleFor b f) = m_warnings f"
  by (auto simp: handleFor_def handle_at_def om.find_put)

lemma handleFor_ok:
  assumes "file_ok f"
  shows "file_ok (handleFor b f)"
proof (cases "om_find (m_devices f) b = None")
  case True
  have "m_handle_id (new_device_handle b) = b" by (simp add: new_device_handle_def)
  with True assms show ?thesis
    by (simp add: file_ok_def handleFor_def om.find_put)
next
  case False
  then have "handleFor b f = f" by (auto simp: handleFor_def)
  with assms show ?thesis by simp
qed

lemma on_handle_ok:
  assumes "file_ok f" and "om_find (m_devices f) b \<noteq> None"
  shows "\<exists>f'. on_handle api b ev f = Some f' \<and> file_ok f' \<and> m_deviceOrder f' = m_deviceOrder f \<and>
    m_warnings f' = m_warnings f \<and> m_warningCount f' = m_warningCount f \<and> m_unsupportedLinktypes f' = m_unsupportedLinktypes f \<and>
    m_filePacketCount f' = m_filePacketCount f \<and>
    (\<forall>a. run_opt (handle_step api) (if a = b then [ev] else []) (handle_at a f) = Some (handle_at a f'))"
proof -
  obtain h where h: "om_find (m_devices f) b = Some h" using assms(2) by auto
  with assms(1) have "handle_ok h" "m_handle_id h = b" by (auto simp: file_ok_def)
  then obtain h' where "handle_step api ev h = Some h'" "handle_ok h'" "m_handle_id h' = b"
    using handle_step_ok [of h api ev] by auto
  with h assms(1) show ?thesis
    by (simp add: on_handle_def file_ok_def handle_at_def om.find_put)
qed

section \<open>Warnings\<close>

definition unsupported_warning :: "u32 \<Rightarrow> string" where
  "unsupported_warning linktype = ''Skipping packets with unsupported link type '' @ dec (unat linktype)"

text \<open>The warnings of a packet are about its own bytes; that a completion matches nothing is not one of them.\<close>

definition packet_warning :: "u32 set \<Rightarrow> packet \<Rightarrow> string list" where
  "packet_warning seen p =
     (case meaning (fst p) (snd p) of
        None \<Rightarrow> if fst p \<in> seen then [] else [unsupported_warning (fst p)]
      | Some (Undecodable w) \<Rightarrow> [w]
      | Some (Concerns a (Inl w)) \<Rightarrow> [w]
      | Some (Concerns a (Inr x)) \<Rightarrow> [])"

definition packet_linktypes :: "packet \<Rightarrow> u32 set \<Rightarrow> u32 set" where
  "packet_linktypes p seen = (case meaning (fst p) (snd p) of None \<Rightarrow> insert (fst p) seen | Some m \<Rightarrow> seen)"

fun packet_warnings :: "u32 set \<Rightarrow> packet list \<Rightarrow> string list" where
  "packet_warnings seen [] = []"
| "packet_warnings seen (p # ps) = packet_warning seen p @ packet_warnings (packet_linktypes p seen) ps"

text \<open>The effect of some warnings.\<close>

definition warned :: "string list \<Rightarrow> 'p input_file \<Rightarrow> 'p input_file \<Rightarrow> bool" where
  "warned ws f f' \<longleftrightarrow> m_warnings f' = take MAX_WARNINGS (m_warnings f @ ws) \<and>
     m_warningCount f' = m_warningCount f + word_of_nat (length ws)"

lemma warned_none: "file_ok f \<Longrightarrow> m_warnings f' = m_warnings f \<Longrightarrow> m_warningCount f' = m_warningCount f \<Longrightarrow> warned [] f f'"
  by (simp add: warned_def file_ok_def)

lemma warned_warn: "file_ok f \<Longrightarrow> m_warnings f1 = m_warnings f \<Longrightarrow> m_warningCount f1 = m_warningCount f \<Longrightarrow> warned [w] f (warn w f1)"
  by (auto simp: warned_def warn_def file_ok_def)

lemma warned_trans: "warned ws f f1 \<Longrightarrow> warned ws' f1 f2 \<Longrightarrow> warned (ws @ ws') f f2"
  by (simp add: warned_def min_def)

section \<open>One packet\<close>

definition packet_result :: "'p plist_api \<Rightarrow> packet \<Rightarrow> 'p input_file \<Rightarrow> 'p input_file \<Rightarrow> bool" where
  "packet_result api p f f' \<longleftrightarrow> file_ok f' \<and> m_deviceOrder f' = see_address p (m_deviceOrder f) \<and>
     m_filePacketCount f' = m_filePacketCount f + 1 \<and>
     warned (packet_warning (m_unsupportedLinktypes f) p) f f' \<and>
     m_unsupportedLinktypes f' = packet_linktypes p (m_unsupportedLinktypes f) \<and>
     (\<forall>a. run_opt (handle_step api) (packet_event a p) (handle_at a f) = Some (handle_at a f'))"

lemma count_packet_frame [simp]:
  "m_warnings (count_packet f) = m_warnings f" "m_warningCount (count_packet f) = m_warningCount f"
  "m_unsupportedLinktypes (count_packet f) = m_unsupportedLinktypes f"
  "m_filePacketCount (count_packet f) = m_filePacketCount f + 1"
  by (simp_all add: count_packet_def)

lemma warn_frame' [simp]:
  "m_unsupportedLinktypes (warn w f) = m_unsupportedLinktypes f" "m_filePacketCount (warn w f) = m_filePacketCount f"
  by (simp_all add: warn_def)

lemma handleFor_frame' [simp]:
  "m_unsupportedLinktypes (handleFor a f) = m_unsupportedLinktypes f"
  "m_filePacketCount (handleFor a f) = m_filePacketCount f" "m_warningCount (handleFor a f) = m_warningCount f"
  by (simp_all add: handleFor_def)

lemma packet_step_unsupported:
  assumes "file_ok f" and "meaning lt data = None"
  shows "\<exists>f'. packet_step api (lt, data) f = Some f' \<and> packet_result api (lt, data) f f'"
proof -
  let ?f = "(count_packet f)\<lparr>m_unsupportedLinktypes := insert lt (m_unsupportedLinktypes f)\<rparr>"
  have "packet_step api (lt, data) f = Some (if lt \<in> m_unsupportedLinktypes f then count_packet f else warn (unsupported_warning lt) ?f)"
    using assms(2) by (simp add: packet_step_def processPacket_eq unsupported_def unsupported_warning_def)
  moreover have "packet_result api (lt, data) f (count_packet f)" if "lt \<in> m_unsupportedLinktypes f"
    using assms that
    by (auto simp: packet_result_def see_address_def concerned_def packet_warning_def packet_linktypes_def packet_event_def
        warn_ok warned_none)
  moreover have "packet_result api (lt, data) f (warn (unsupported_warning lt) ?f)" if "lt \<notin> m_unsupportedLinktypes f"
  proof -
    have "file_ok ?f" "handle_at a ?f = handle_at a f" for a
      using assms(1) by (simp_all add: file_ok_def count_packet_def handle_at_def)
    with assms that show ?thesis
      by (auto simp: packet_result_def see_address_def concerned_def packet_warning_def packet_linktypes_def packet_event_def
          warn_ok warned_warn)
  qed
  ultimately show ?thesis by auto
qed

lemma packet_step_undecodable:
  assumes "file_ok f" and "meaning lt data = Some (Undecodable w)"
  shows "\<exists>f'. packet_step api (lt, data) f = Some f' \<and> packet_result api (lt, data) f f'"
  using assms
  by (auto simp: packet_step_def processPacket_eq apply_meaning_def reject_def packet_result_def see_address_def
      concerned_def packet_warning_def packet_linktypes_def packet_event_def warn_ok warned_warn)

lemma packet_step_concerns:
  assumes "file_ok f" and "meaning lt data = Some (Concerns b x)"
  shows "\<exists>f'. packet_step api (lt, data) f = Some f' \<and> packet_result api (lt, data) f f'"
proof -
  let ?f = "handleFor b (count_packet f)"
  have f: "file_ok ?f" "om_find (m_devices ?f) b \<noteq> None" using assms(1) by (simp_all add: handleFor_ok warn_ok)
  have order: "m_deviceOrder ?f = see_address (lt, data) (m_deviceOrder f)"
    using assms by (simp add: see_address_def concerned_def file_ok_def)
  have step: "packet_step api (lt, data) f = map_option snd (concern api b x ?f)"
    using assms(2) by (simp add: packet_step_def processPacket_eq apply_meaning_def)
  consider w where "x = Inl w" | "x = Inr None" | ev where "x = Inr (Some ev)" by (cases x) auto
  then show ?thesis
  proof cases
    case 1
    with assms f(1) order step show ?thesis
      by (simp add: reject_def packet_result_def packet_warning_def packet_linktypes_def packet_event_def warn_ok warned_warn)
  next
    case 2
    with assms f(1) order step show ?thesis
      by (simp add: packet_result_def packet_warning_def packet_linktypes_def packet_event_def warned_none)
  next
    case 3
    from on_handle_ok [OF f, of api ev] obtain f' where f': "on_handle api b ev ?f = Some f'" "file_ok f'"
      "m_deviceOrder f' = m_deviceOrder ?f" "m_warnings f' = m_warnings ?f" "m_warningCount f' = m_warningCount ?f"
      "m_unsupportedLinktypes f' = m_unsupportedLinktypes ?f" "m_filePacketCount f' = m_filePacketCount ?f"
      and run: "\<forall>a. run_opt (handle_step api) (if a = b then [ev] else []) (handle_at a ?f) = Some (handle_at a f')" by blast
    have "packet_event a (lt, data) = (if a = b then [ev] else [])" for a
      using assms(2) 3 by (auto simp: packet_event_def)
    with 3 assms f' order step run show ?thesis
      by (simp add: accept_def packet_result_def packet_warning_def packet_linktypes_def warned_none)
  qed
qed

lemma packet_step_ok:
  assumes "file_ok f"
  shows "\<exists>f'. packet_step api p f = Some f' \<and> packet_result api p f f'"
proof (cases p)
  case (Pair lt data)
  show ?thesis
  proof (cases "meaning lt data")
    case None
    with Pair packet_step_unsupported [OF assms] show ?thesis by simp
  next
    case (Some m)
    with Pair packet_step_undecodable [OF assms] packet_step_concerns [OF assms] show ?thesis by (cases m) auto
  qed
qed

interpretation capture: safe_machine file_ok "packet_step api" for api
  by unfold_locales (use packet_step_ok in \<open>fastforce simp: packet_result_def\<close>)

section \<open>A capture\<close>

lemma process_packets_result:
  "file_ok f \<Longrightarrow> \<exists>f'. process_packets api ps f = Some f' \<and> file_ok f' \<and>
     m_deviceOrder f' = fold see_address ps (m_deviceOrder f) \<and>
     m_filePacketCount f' = m_filePacketCount f + word_of_nat (length ps) \<and>
     warned (packet_warnings (m_unsupportedLinktypes f) ps) f f' \<and>
     (\<forall>a. run_opt (handle_step api) (events_for a ps) (handle_at a f) = Some (handle_at a f'))"
proof (induction ps arbitrary: f)
  case Nil
  then show ?case by (simp add: process_packets_def events_for_def warned_none)
next
  case (Cons p ps)
  obtain f1 where f1: "packet_step api p f = Some f1" "packet_result api p f f1"
    using packet_step_ok [OF Cons.prems] by blast
  then have ok: "file_ok f1" by (simp add: packet_result_def)
  obtain f' where f': "process_packets api ps f1 = Some f'" "file_ok f'"
     "m_deviceOrder f' = fold see_address ps (m_deviceOrder f1)"
     "m_filePacketCount f' = m_filePacketCount f1 + word_of_nat (length ps)"
     "warned (packet_warnings (m_unsupportedLinktypes f1) ps) f1 f'"
     "\<forall>a. run_opt (handle_step api) (events_for a ps) (handle_at a f1) = Some (handle_at a f')"
    using Cons.IH [OF ok] by blast
  have ev: "events_for a (p # ps) = packet_event a p @ events_for a ps" for a by (simp add: events_for_def)
  have w: "warned (packet_warnings (m_unsupportedLinktypes f) (p # ps)) f f'"
    using f1(2) f'(5) warned_trans by (fastforce simp: packet_result_def)
  have "\<forall>a. run_opt (handle_step api) (events_for a (p # ps)) (handle_at a f) = Some (handle_at a f')"
    using f1(2) f'(6) unfolding packet_result_def by (simp only: ev run_opt_append) simp
  with f1 f' w show ?case by (simp add: process_packets_def packet_result_def algebra_simps)
qed

lemma collect_devices_eq:
  "(\<forall>a \<in> set as. om_find (m_devices f) a \<noteq> None) \<Longrightarrow>
   collect_devices as f = Some (concat (map (\<lambda>a. m_sessions (handle_at a f)) as))"
  by (induction as) (auto simp: handle_at_def handle_devices_def)

lemma getDevices_eq: "file_ok f \<Longrightarrow> getDevices f = Some (concat (map (\<lambda>a. m_sessions (handle_at a f)) (m_deviceOrder f)))"
  unfolding getDevices_def by (rule collect_devices_eq) (simp add: file_ok_def)

text \<open>
  C10: A capture is demultiplexed by device address.  Whatever packets of whatever link types are processed, no access
  is outside a packet, no handle faults; every address ends with the handle that the events of its own packets, in
  their order, produce by themselves, and the devices reported are the sessions of the addresses in the
  order in which these first appeared.
\<close>

theorem capture_demultiplexed:
  "\<exists>f. process_packets api ps new_input_file = Some f \<and> m_deviceOrder f = seen_addresses ps \<and>
     (\<forall>a. run_opt (handle_step api) (events_for a ps) (new_device_handle a) = Some (handle_at a f)) \<and>
     getDevices f = Some (concat (map (\<lambda>a. m_sessions (handle_at a f)) (seen_addresses ps)))"
proof -
  obtain f where f: "process_packets api ps new_input_file = Some f" "file_ok f"
     "m_deviceOrder f = fold see_address ps (m_deviceOrder (new_input_file :: 'a input_file))"
     "\<forall>a. run_opt (handle_step api) (events_for a ps) (handle_at a new_input_file) = Some (handle_at a f)"
    using process_packets_result [OF new_input_file_ok] by blast
  then show ?thesis
    by (simp add: getDevices_eq) (simp add: seen_addresses_def new_input_file_def handle_at_def)
qed

text \<open>
  C25: Warnings are bounded and counted.  After any packets the file keeps exactly the first hundred warnings, in
  order, while the count is that of all of them; an unsupported link type is warned about once.  The warnings are those
  of packets that cannot be decoded.  A completion that matches no transfer in flight is not among them, although
  \<open>InputFile.h\<close> names unmatched completions as an example of a warning: it is only counted, by the handle of its
  address.
\<close>

theorem warnings_bounded:
  "\<exists>f. process_packets api ps new_input_file = Some f \<and>
     m_warnings f = take 100 (packet_warnings {} ps) \<and> length (m_warnings f) \<le> 100 \<and>
     m_warningCount f = word_of_nat (length (packet_warnings {} ps)) \<and>
     m_filePacketCount f = word_of_nat (length ps) \<and>
     (\<forall>a. m_unmatched (handle_at a f) = unmatched_run om_empty (events_for a ps) 0)"
proof -
  obtain f where f: "process_packets api ps new_input_file = Some f"
     "m_filePacketCount f = m_filePacketCount (new_input_file :: 'a input_file) + word_of_nat (length ps)"
     "warned (packet_warnings (m_unsupportedLinktypes (new_input_file :: 'a input_file)) ps) new_input_file f"
     "\<forall>a. run_opt (handle_step api) (events_for a ps) (handle_at a new_input_file) = Some (handle_at a f)"
    using process_packets_result [OF new_input_file_ok, of api ps] by blast
  have "m_unmatched (handle_at a f) = unmatched_run om_empty (events_for a ps) 0" for a
    using handle_run_unmatched [OF f(4) [rule_format, of a]]
    by (simp add: new_input_file_def handle_at_def new_device_handle_def)
  with f(1-3) show ?thesis by (simp add: warned_def MAX_WARNINGS_def new_input_file_def)
qed

section \<open>Packets as the capture drivers write them\<close>

definition encode_setup :: "usb_setup_t \<Rightarrow> byte list" where
  "encode_setup s = enc8 (bmRequestType s) @ enc8 (bRequest s) @ enc16 (wValue s) @ enc16 (wIndex s) @ enc16 (wLength s)"

definition darwin_header :: "u32 \<Rightarrow> u8 \<Rightarrow> u8 \<Rightarrow> u8 \<Rightarrow> u8 \<Rightarrow> u64 \<Rightarrow> nat \<Rightarrow> byte list" where
  "darwin_header location device ty epty ep i n =
     enc16 0x0100 @ enc8 32 @ enc8 ty @ enc32 (word_of_nat n) @ enc32 0 @ enc32 0 @ enc64 i @ enc32 location @
     enc8 2 @ enc8 device @ enc8 ep @ enc8 epty"

definition usbpcap_header :: "nat \<Rightarrow> u16 \<Rightarrow> u16 \<Rightarrow> u8 \<Rightarrow> u8 \<Rightarrow> u8 \<Rightarrow> u64 \<Rightarrow> nat \<Rightarrow> byte list" where
  "usbpcap_header hl bus device info ep ty i n =
     enc16 (word_of_nat hl) @ enc64 i @ enc32 0 @ enc16 0 @ enc8 info @ enc16 bus @ enc16 device @ enc8 ep @ enc8 ty @
     enc32 (word_of_nat n)"

definition usbmon_header_bytes :: "u16 \<Rightarrow> u8 \<Rightarrow> u8 \<Rightarrow> u8 \<Rightarrow> u8 \<Rightarrow> u64 \<Rightarrow> usb_setup_t \<Rightarrow> nat \<Rightarrow> byte list" where
  "usbmon_header_bytes bus device evty ty ep i s n =
     enc64 i @ enc8 evty @ enc8 ty @ enc8 ep @ enc8 device @ enc16 bus @ enc8 0 @ enc8 0 @ enc64 0 @ enc32 0 @ enc32 0 @
     enc32 (word_of_nat n) @ enc32 (word_of_nat n) @ encode_setup s"

text \<open>A device address of one of the drivers, and the packet the driver writes for an event there, if it can.\<close>

datatype bus_address =
    Darwin u32 u8
  | USBPcap u16 u16
  | Usbmon u16 u8

fun address_of :: "bus_address \<Rightarrow> u64" where
  "address_of (Darwin location device) = darwin_address location device"
| "address_of (USBPcap bus device) = usbpcap_address bus device"
| "address_of (Usbmon bus device) = usbmon_address bus device"

fun darwin_encode :: "u32 \<Rightarrow> u8 \<Rightarrow> transfer_event \<Rightarrow> byte list option" where
  "darwin_encode l d (BeginControl ep i s data) = Some (darwin_header l d 0 0 ep i (8 + length data) @ encode_setup s @ data)"
| "darwin_encode l d (EndControl ep i data) = Some (darwin_header l d 1 0 ep i (length data) @ data)"
| "darwin_encode l d (BeginBulk ep i data) = Some (darwin_header l d 0 2 ep i (length data) @ data)"
| "darwin_encode l d (EndBulk ep i data) = Some (darwin_header l d 1 2 ep i (length data) @ data)"
| "darwin_encode l d _ = None"

fun usbpcap_encode :: "u16 \<Rightarrow> u16 \<Rightarrow> transfer_event \<Rightarrow> byte list option" where
  "usbpcap_encode b d (BeginControl ep i s data) =
     Some (usbpcap_header 28 b d 0 ep 2 i (8 + length data) @ enc8 0 @ encode_setup s @ data)"
| "usbpcap_encode b d (AppendControl ep i data) = Some (usbpcap_header 28 b d 0 ep 2 i (length data) @ enc8 1 @ data)"
| "usbpcap_encode b d (EndControl ep i data) = Some (usbpcap_header 28 b d 1 ep 2 i (length data) @ enc8 3 @ data)"
| "usbpcap_encode b d (BeginBulk ep i data) = Some (usbpcap_header 27 b d 0 ep 3 i (length data) @ data)"
| "usbpcap_encode b d (EndBulk ep i data) = Some (usbpcap_header 27 b d 1 ep 3 i (length data) @ data)"
| "usbpcap_encode b d (AbortTransfer ep i) = None"

fun usbmon_encode :: "u16 \<Rightarrow> u8 \<Rightarrow> transfer_event \<Rightarrow> byte list option" where
  "usbmon_encode b d (BeginControl ep i s data) = Some (usbmon_header_bytes b d 83 2 ep i s (length data) @ data)"
| "usbmon_encode b d (EndControl ep i data) = Some (usbmon_header_bytes b d 67 2 ep i zero_setup (length data) @ data)"
| "usbmon_encode b d (BeginBulk ep i data) = Some (usbmon_header_bytes b d 83 3 ep i zero_setup (length data) @ data)"
| "usbmon_encode b d (EndBulk ep i data) = Some (usbmon_header_bytes b d 67 3 ep i zero_setup (length data) @ data)"
| "usbmon_encode b d (AbortTransfer ep i) = Some (usbmon_header_bytes b d 69 3 ep i zero_setup 0)"
| "usbmon_encode b d (AppendControl ep i data) = None"

fun encode_packet :: "bus_address \<Rightarrow> transfer_event \<Rightarrow> packet option" where
  "encode_packet (Darwin l d) ev = map_option (\<lambda>bs. (LINKTYPE_USB_DARWIN, bs)) (darwin_encode l d ev)"
| "encode_packet (USBPcap b d) ev = map_option (\<lambda>bs. (LINKTYPE_USBPCAP, bs)) (usbpcap_encode b d ev)"
| "encode_packet (Usbmon b d) ev = map_option (\<lambda>bs. (LINKTYPE_USB_LINUX, bs)) (usbmon_encode b d ev)"

lemma length_headers [simp]:
  "length (encode_setup s) = 8" "length (darwin_header l d ty epty ep i n) = 32"
  "length (usbpcap_header hl b d16 info ep ty i n) = 27" "length (usbmon_header_bytes b d evty ty ep i s n) = 48"
  by (simp_all add: encode_setup_def darwin_header_def usbpcap_header_def usbmon_header_bytes_def)

lemma field_nat:
  assumes "256 ^ n = (2::nat) ^ LENGTH('a)"
  shows "field 0 n (le_bytes n v @ post) = (word_of_nat v :: 'a::len word)"
  using assms by (simp add: field_def le_nat_le_bytes word_of_nat_eq_iff take_bit_eq_mod)

lemmas field_codec = field_skip field_nat field_nat [where post = "[]", simplified]

lemma decode_encode_setup [codec]: "decode_setup (encode_setup s) = s"
  by (cases s) (simp add: decode_setup_def encode_setup_def field_codec del: One_nat_def)

lemma decode_darwin [codec]:
  "decode_darwin_header (darwin_header l d ty epty ep i n) =
     \<lparr>darwin_version = 0x0100, darwin_headerLength = 32, darwin_type = ty, darwin_length = word_of_nat n, darwin_status = 0,
      darwin_isoFrames = 0, darwin_uniqueId = i, darwin_locationId = l, darwin_speed = 2, darwin_deviceId = d,
      darwin_endpointId = ep, darwin_endpointType = epty\<rparr>"
  by (simp add: decode_darwin_header_def darwin_header_def field_codec del: One_nat_def)

lemma decode_usbpcap [codec]:
  "decode_usbpcap_header (usbpcap_header hl b d info ep ty i n) =
     \<lparr>headerLen = word_of_nat hl, irpId = i, pcap_status = 0, pcap_function = 0, pcap_info = info, pcap_bus = b,
      pcap_device = d, pcap_endpoint = ep, pcap_transfer = ty, dataLength = word_of_nat n\<rparr>"
  by (simp add: decode_usbpcap_header_def usbpcap_header_def field_codec del: One_nat_def)

lemma decode_usbmon [codec]:
  "decode_usbmon_header (usbmon_header_bytes b d evty ty ep i s n) =
     \<lparr>mon_id = i, event_type = evty, transfer_type = ty, endpoint_number = ep, device_address = d, bus_id = b,
      setup_flag = 0, data_flag = 0, mon_ts_sec = 0, mon_ts_usec = 0, mon_status = 0, urb_len = word_of_nat n,
      data_len = word_of_nat n, mon_setup = s\<rparr>"
  by (simp add: decode_usbmon_header_def usbmon_header_bytes_def field_codec decode_encode_setup del: One_nat_def)

lemma unat_length32: "n < 4294967296 \<Longrightarrow> unat (word_of_nat n :: u32) = n"
  by simp

lemma darwin_packet_meaning:
  assumes "length payload < 4294967296"
  shows "darwin_meaning (darwin_header l d ty epty ep i (length payload) @ payload) =
    Concerns (darwin_address l d)
      (darwin_event (decode_darwin_header (darwin_header l d ty epty ep i (length payload))) payload)"
  using assms by (simp add: darwin_meaning_def decode_darwin Let_def)

lemma darwin_roundtrip:
  assumes "darwin_encode l d ev = Some bs" and "length bs < 4294967296"
  shows "darwin_meaning bs = Concerns (darwin_address l d) (Inr (Some ev))"
proof -
  have "bs = darwin_header l d ty epty ep i (length payload) @ payload \<Longrightarrow> darwin_meaning bs = Concerns (darwin_address l d)
      (darwin_event (decode_darwin_header (darwin_header l d ty epty ep i (length payload))) payload)" for ty epty ep i payload
    using darwin_packet_meaning [of payload] assms(2) by simp
  note m = this
  show ?thesis
  proof (cases ev)
    case (BeginControl ep i s data)
    with assms(1) m [of 0 0 ep i "encode_setup s @ data"] show ?thesis
      by (simp add: decode_darwin darwin_event_def setup_event_def Let_def decode_encode_setup)
  next
    case (EndControl ep i data)
    with assms(1) m [of 1 0 ep i data] show ?thesis by (simp add: decode_darwin darwin_event_def Let_def)
  next
    case (BeginBulk ep i data)
    with assms(1) m [of 0 2 ep i data] show ?thesis by (simp add: decode_darwin darwin_event_def Let_def)
  next
    case (EndBulk ep i data)
    with assms(1) m [of 1 2 ep i data] show ?thesis by (simp add: decode_darwin darwin_event_def Let_def)
  qed (use assms(1) in simp_all)
qed

lemma stage_byte: "field 27 (Suc 0) (usbpcap_header hl b d info ep ty i n @ w # rest) = w"
  by (simp add: field_skip field8_Cons)

lemma usbpcap_control_meaning:
  assumes "length payload < 4294967296"
  shows "usbpcap_meaning (usbpcap_header 28 b d info ep 2 i (length payload) @ stage # payload) =
    Concerns (usbpcap_address b d) (usbpcap_event
      (decode_usbpcap_header (usbpcap_header 28 b d info ep 2 i (length payload))) stage payload)"
  using assms by (simp add: usbpcap_meaning_def decode_usbpcap Let_def stage_byte)

lemma usbpcap_bulk_meaning:
  assumes "length payload < 4294967296"
  shows "usbpcap_meaning (usbpcap_header 27 b d info ep 3 i (length payload) @ payload) =
    Concerns (usbpcap_address b d) (Inr (Some (if info AND 1 \<noteq> 0 then EndBulk ep i payload else BeginBulk ep i payload)))"
  using assms by (simp add: usbpcap_meaning_def decode_usbpcap Let_def usbpcap_event_def)

lemma usbpcap_roundtrip:
  assumes "usbpcap_encode b d ev = Some bs" and "length bs < 4294967296"
  shows "usbpcap_meaning bs = Concerns (usbpcap_address b d) (Inr (Some ev))"
proof (cases ev)
  case (BeginControl ep i s data)
  then have bs: "bs = usbpcap_header 28 b d 0 ep 2 i (length (encode_setup s @ data)) @ 0 # encode_setup s @ data"
    using assms(1) by simp
  have "length (encode_setup s @ data) < 4294967296" using assms(2) unfolding bs by simp
  from usbpcap_control_meaning [OF this] show ?thesis
    unfolding bs BeginControl by (simp add: decode_usbpcap usbpcap_event_def setup_event_def Let_def decode_encode_setup)
next
  case (AppendControl ep i data)
  then have bs: "bs = usbpcap_header 28 b d 0 ep 2 i (length data) @ 1 # data" using assms(1) by simp
  have "length data < 4294967296" using assms(2) unfolding bs by simp
  from usbpcap_control_meaning [OF this] show ?thesis
    unfolding bs AppendControl by (simp add: decode_usbpcap usbpcap_event_def Let_def)
next
  case (EndControl ep i data)
  then have bs: "bs = usbpcap_header 28 b d 1 ep 2 i (length data) @ 3 # data" using assms(1) by simp
  have "length data < 4294967296" using assms(2) unfolding bs by simp
  from usbpcap_control_meaning [OF this] show ?thesis
    unfolding bs EndControl by (simp add: decode_usbpcap usbpcap_event_def Let_def)
next
  case (BeginBulk ep i data)
  then have bs: "bs = usbpcap_header 27 b d 0 ep 3 i (length data) @ data" using assms(1) by simp
  have "length data < 4294967296" using assms(2) unfolding bs by simp
  from usbpcap_bulk_meaning [OF this] show ?thesis unfolding bs BeginBulk by simp
next
  case (EndBulk ep i data)
  then have bs: "bs = usbpcap_header 27 b d 1 ep 3 i (length data) @ data" using assms(1) by simp
  have "length data < 4294967296" using assms(2) unfolding bs by simp
  from usbpcap_bulk_meaning [OF this] show ?thesis unfolding bs EndBulk by simp
next
  case (AbortTransfer ep i)
  with assms(1) show ?thesis by simp
qed

lemma usbmon_roundtrip:
  assumes "usbmon_encode b d ev = Some bs" and "length bs < 4294967296"
  shows "usbmon_meaning 48 bs = Concerns (usbmon_address b d) (Inr (Some ev))"
  using assms
  by (cases ev)
    (auto simp: usbmon_meaning_def decode_usbmon usbmon_event_def Let_def unat_length32 simp del: of_nat_add)

lemma encode_packet_meaning:
  assumes "encode_packet at ev = Some (linktype, bs)" and "length bs < 4294967296"
  shows "meaning linktype bs = Some (Concerns (address_of at) (Inr (Some ev)))"
proof (cases at)
  case (Darwin l d)
  with assms show ?thesis by (auto simp: meaning_def darwin_roundtrip)
next
  case (USBPcap b d)
  with assms show ?thesis by (auto simp: meaning_def usbpcap_roundtrip)
next
  case (Usbmon b d)
  with assms show ?thesis by (auto simp: meaning_def usbmon_roundtrip)
qed

text \<open>
  Decoding inverts the drivers: a packet that the Darwin, USBPcap or usbmon driver writes for an event of an
  address is counted and has exactly one effect, that event with its endpoint, its identifier, its setup packet and
  all its data, on the handle of that address, which is created when the address is new; no warning is given.
\<close>

theorem packet_roundtrip:
  assumes "encode_packet at ev = Some (linktype, bs)" and "length bs < 4294967296"
  shows "inputfile_processPacket api linktype bs f =
    accept (on_handle api (address_of at) ev (handleFor (address_of at) (f\<lparr>m_filePacketCount := m_filePacketCount f + 1\<rparr>)))"
  using encode_packet_meaning [OF assms]
  by (simp add: processPacket_eq apply_meaning_def concern_def count_packet_def)

theorem packet_roundtrip_witness:
  "inputfile_processPacket sample_api LINKTYPE_USBPCAP
     (usbpcap_header 28 1 5 0 0 2 7 (8 + length [1, 2 :: byte]) @ enc8 0 @ encode_setup device_read @ [1, 2]) new_input_file =
   accept (on_handle sample_api (address_of (USBPcap 1 5)) (BeginControl 0 7 device_read [1, 2])
     (handleFor (address_of (USBPcap 1 5)) (new_input_file\<lparr>m_filePacketCount := m_filePacketCount (new_input_file :: sample_node input_file) + 1\<rparr>)))"
  by (rule packet_roundtrip) simp_all

end
