(* ===== verification/Capture_Readers.thy ===== *)
theory Capture_Readers
  imports Input_File
begin

text \<open>
  The readers of capture files: \<open>PcapInputFile::parse\<close>, \<open>PcapNGInputFile::parse\<close> and the choice between them in
  \<open>InputFile::open\<close> (\<open>src/file/PcapInputFile.cpp\<close>, \<open>PcapNGInputFile.cpp\<close>, \<open>InputFile.cpp\<close>).

  The mapped file is the list of its bytes.  \<open>parse\<close> returns the state it leaves, with the message of the
  \<open>ParseError\<close> if it threw one: what was read before the error is reported.  A result \<open>None\<close> is an access outside the
  file, or a fault below.
\<close>

section \<open>Classic pcap\<close>

definition pcap_swapped :: "u32 \<Rightarrow> bool option" where
  "pcap_swapped magic =
     (if magic = PCAP_MAGIC_MICROSECONDS \<or> magic = PCAP_MAGIC_NANOSECONDS then Some False
      else if magic = PCAP_MAGIC_MICROSECONDS_SWAPPED \<or> magic = PCAP_MAGIC_NANOSECONDS_SWAPPED then Some True
      else None)"

definition pcap_value :: "bool \<Rightarrow> u32 \<Rightarrow> u32" where
  "pcap_value swapped f = (if swapped then endian_reverse32 f else f)"

text \<open>One turn of the loop: it breaks with a state, or goes on at an offset.\<close>

definition pcap_record :: "'p plist_api \<Rightarrow> bool \<Rightarrow> u32 \<Rightarrow> byte list \<Rightarrow> nat \<Rightarrow> 'p input_file \<Rightarrow>
    ('p input_file + nat \<times> 'p input_file) option" where
  "pcap_record api swapped linktype data offset f = do {
     remaining \<leftarrow> size_sub (length data) offset;
     p \<leftarrow> advance offset data;
     case readStruct pcap_record_size decode_pcap_record p of
       None \<Rightarrow> Some (Inl (warn ''Capture ends with a truncated record header'' f))
     | Some record \<Rightarrow> do {
         let included = unat (pcap_value swapped (incl_len record));
         room \<leftarrow> size_sub remaining pcap_record_size;
         if included > room
         then Some (Inl (warn (''Record at offset '' @ dec offset @ '' overruns the file; stopping'') f))
         else do {
           packet \<leftarrow> subspan (offset + pcap_record_size) included data;
           (ok, f) \<leftarrow> inputfile_processPacket api linktype packet f;
           Some (Inr (offset + (pcap_record_size + included), f))
         }
       }
   }"

lemma pcap_record_offset:
  "pcap_record api swapped linktype data offset f = Some (Inr (offset', f')) \<Longrightarrow> offset < offset' \<and> offset' \<le> length data"
  by (auto simp: pcap_record_def Let_def pcap_record_size_def size_sub_def elim!: bind_Some_elim split: option.splits if_splits)

function pcap_loop :: "'p plist_api \<Rightarrow> bool \<Rightarrow> u32 \<Rightarrow> byte list \<Rightarrow> nat \<Rightarrow> 'p input_file \<Rightarrow> 'p input_file option" where
  "pcap_loop api swapped linktype data offset f =
     (if offset < length data
      then (case pcap_record api swapped linktype data offset f of
              None \<Rightarrow> None
            | Some (Inl f') \<Rightarrow> Some f'
            | Some (Inr (offset', f')) \<Rightarrow> pcap_loop api swapped linktype data offset' f')
      else Some f)"
  by pat_completeness auto
termination
  by (relation "measure (\<lambda>(api, swapped, linktype, data, offset, f). length data - offset)")
    (auto dest!: pcap_record_offset)

declare pcap_loop.simps [simp del]

definition pcap_parse :: "'p plist_api \<Rightarrow> byte list \<Rightarrow> 'p input_file \<Rightarrow> ('p input_file \<times> string option) option" where
  "pcap_parse api data f =
     (case readStruct pcap_header_size decode_pcap_header data of
        None \<Rightarrow> Some (f, Some ''Truncated pcap file header'')
      | Some header \<Rightarrow>
          (case pcap_swapped (pcap_magic header) of
             None \<Rightarrow> Some (f, Some ''Not a pcap file: bad magic'')
           | Some swapped \<Rightarrow>
               map_option (\<lambda>f. (f, None))
                 (pcap_loop api swapped (pcap_value swapped (pcap_linktype header) AND 0x0FFFFFFF) data pcap_header_size f)))"

section \<open>PCAPNG\<close>

definition BLOCK_OVERHEAD :: nat where "BLOCK_OVERHEAD = 12"

record pcapng_interface =
  ng_linktype :: u16
  ng_snaplen :: u32

datatype 'p block_result =
    Throws string
  | Stops "'p input_file"
  | Continues nat "pcapng_interface list" "'p input_file"

text \<open>The blocks with packets and interfaces.\<close>

definition ng_interface_block :: "byte list \<Rightarrow> pcapng_interface list \<Rightarrow> 'p input_file \<Rightarrow> pcapng_interface list \<times> 'p input_file" where
  "ng_interface_block body ifaces f =
     (case readStruct idb_size decode_idb body of
        None \<Rightarrow> (ifaces, warn ''Truncated interface description block'' f)
      | Some d \<Rightarrow> (ifaces @ [\<lparr>ng_linktype = idb_linktype d, ng_snaplen = idb_snaplen d\<rparr>], f))"

definition ng_enhanced_block :: "'p plist_api \<Rightarrow> byte list \<Rightarrow> pcapng_interface list \<Rightarrow> 'p input_file \<Rightarrow> 'p input_file option" where
  "ng_enhanced_block api body ifaces f =
     (case readStruct epb_size decode_epb body of
        None \<Rightarrow> Some (warn ''Truncated enhanced packet block'' f)
      | Some epb \<Rightarrow>
          if length ifaces \<le> unat (interface_id epb)
          then Some (warn (''Packet references undeclared interface '' @ dec (unat (interface_id epb))) f)
          else do {
            room \<leftarrow> size_sub (length body) epb_size;
            if unat (captured_len epb) > room then Some (warn ''Enhanced packet block data overruns the block'' f)
            else do {
              interface \<leftarrow> elem_at (unat (interface_id epb)) ifaces;
              packet \<leftarrow> subspan epb_size (unat (captured_len epb)) body;
              (ok, f) \<leftarrow> inputfile_processPacket api (ucast (ng_linktype interface)) packet f;
              Some f
            }
          })"

definition ng_simple_block :: "'p plist_api \<Rightarrow> byte list \<Rightarrow> pcapng_interface list \<Rightarrow> 'p input_file \<Rightarrow> 'p input_file option" where
  "ng_simple_block api body ifaces f =
     (case readStruct spb_size decode_spb body of
        None \<Rightarrow> Some (warn ''Simple packet block without an interface'' f)
      | Some spb \<Rightarrow>
          if ifaces = [] then Some (warn ''Simple packet block without an interface'' f)
          else do {
            room \<leftarrow> size_sub (length body) spb_size;
            interface \<leftarrow> elem_at 0 ifaces;
            let captured = min (unat (packet_len spb)) room;
            let captured = (if ng_snaplen interface \<noteq> 0 then min captured (unat (ng_snaplen interface)) else captured);
            packet \<leftarrow> subspan spb_size captured body;
            (ok, f) \<leftarrow> inputfile_processPacket api (ucast (ng_linktype interface)) packet f;
            Some f
          })"

definition ng_body :: "'p plist_api \<Rightarrow> u32 \<Rightarrow> byte list \<Rightarrow> pcapng_interface list \<Rightarrow> 'p input_file \<Rightarrow>
    (pcapng_interface list \<times> 'p input_file) option" where
  "ng_body api ty body ifaces f =
     (if ty = TIME_INTERFACE_DESCRIPTOR_BLOCK then Some (ng_interface_block body ifaces f)
      else if ty = TYPE_ENHANCED_PACKET_BLOCK then map_option (Pair ifaces) (ng_enhanced_block api body ifaces f)
      else if ty = TYPE_SIMPLE_PACKET_BLOCK then map_option (Pair ifaces) (ng_simple_block api body ifaces f)
      else Some (ifaces, f))"

text \<open>The checks of a section header: the message of the error it throws, if any.\<close>

definition ng_section_error :: "byte list \<Rightarrow> string option" where
  "ng_section_error p =
     (case readStruct shb_size decode_shb p of
        None \<Rightarrow> Some ''Truncated PCAPNG section header block''
      | Some header \<Rightarrow>
          if byte_order_magic header = PCAPNG_BYTE_ORDER_MAGIC_SWAPPED then Some ''Big endian PCAPNG captures are not supported''
          else if byte_order_magic header \<noteq> PCAPNG_BYTE_ORDER_MAGIC then Some ''Corrupt PCAPNG section header byte order magic''
          else None)"

text \<open>From the length checks on, with the interfaces of the section.\<close>

definition ng_sized_block :: "'p plist_api \<Rightarrow> block_t \<Rightarrow> byte list \<Rightarrow> nat \<Rightarrow> pcapng_interface list \<Rightarrow> 'p input_file \<Rightarrow>
    'p block_result option" where
  "ng_sized_block api block blockStart offset ifaces f =
     (let n = unat (block_length block) in
      if n < BLOCK_OVERHEAD \<or> n mod 4 \<noteq> 0 \<or> n > length blockStart then
        Some (if offset = 0 then Throws ''Corrupt PCAPNG section header block length''
              else Stops (warn (''Corrupt or truncated block at offset '' @ dec offset @ ''; stopping'') f))
      else do {
        trailer \<leftarrow> size_sub n 4;
        trailing \<leftarrow> subspan trailer 4 blockStart;
        if field32 0 trailing \<noteq> block_length block then
          Some (if offset = 0 then Throws ''Corrupt PCAPNG section header block''
                else Stops (warn (''Block at offset '' @ dec offset @ '' has mismatched trailing length; stopping'') f))
        else do {
          bodyLength \<leftarrow> size_sub n BLOCK_OVERHEAD;
          body \<leftarrow> subspan block_size bodyLength blockStart;
          (ifaces, f) \<leftarrow> ng_body api (block_type block) body ifaces f;
          Some (Continues (offset + n) ifaces f)
        }
      })"

definition ng_block :: "'p plist_api \<Rightarrow> byte list \<Rightarrow> nat \<Rightarrow> pcapng_interface list \<Rightarrow> 'p input_file \<Rightarrow> 'p block_result option" where
  "ng_block api data offset ifaces f = do {
     remaining \<leftarrow> size_sub (length data) offset;
     blockStart \<leftarrow> advance offset data;
     if remaining < BLOCK_OVERHEAD then Some (Stops (warn ''Capture ends with a truncated block'' f))
     else case readStruct block_size decode_block blockStart of
       None \<Rightarrow> Some (Stops (warn ''Capture ends with a truncated block'' f))
     | Some block \<Rightarrow>
         if offset = 0 \<and> block_type block \<noteq> TYPE_SECTION_HEADER
         then Some (Throws ''Not a PCAPNG file: missing section header block'')
         else if block_type block = TYPE_SECTION_HEADER then do {
           p \<leftarrow> advance block_size blockStart;
           case ng_section_error p of
             Some message \<Rightarrow> Some (Throws message)
           | None \<Rightarrow> ng_sized_block api block blockStart offset [] f
         }
         else ng_sized_block api block blockStart offset ifaces f
   }"

lemma ng_sized_block_offset:
  "ng_sized_block api block blockStart offset ifaces f = Some (Continues offset' ifaces' f') \<Longrightarrow>
   offset < offset' \<and> offset' - offset \<le> length blockStart"
  by (auto simp: ng_sized_block_def Let_def BLOCK_OVERHEAD_def elim!: bind_Some_elim split: if_splits)

lemma ng_block_offset:
  "ng_block api data offset ifaces f = Some (Continues offset' ifaces' f') \<Longrightarrow> offset < offset' \<and> offset' \<le> length data"
  by (auto simp: ng_block_def size_sub_def advance_def elim!: bind_Some_elim split: option.splits if_splits
      dest!: ng_sized_block_offset)

function pcapng_loop :: "'p plist_api \<Rightarrow> byte list \<Rightarrow> nat \<Rightarrow> pcapng_interface list \<Rightarrow> 'p input_file \<Rightarrow>
    ('p input_file \<times> string option) option" where
  "pcapng_loop api data offset ifaces f =
     (if offset < length data
      then (case ng_block api data offset ifaces f of
              None \<Rightarrow> None
            | Some (Throws message) \<Rightarrow> Some (f, Some message)
            | Some (Stops f') \<Rightarrow> Some (f', None)
            | Some (Continues offset' ifaces' f') \<Rightarrow> pcapng_loop api data offset' ifaces' f')
      else Some (f, None))"
  by pat_completeness auto
termination
  by (relation "measure (\<lambda>(api, data, offset, ifaces, f). length data - offset)")
    (auto dest!: ng_block_offset)

declare pcapng_loop.simps [simp del]

definition pcapng_parse :: "'p plist_api \<Rightarrow> byte list \<Rightarrow> 'p input_file \<Rightarrow> ('p input_file \<times> string option) option" where
  "pcapng_parse api data f = pcapng_loop api data 0 [] f"

section \<open>Opening a capture\<close>

text \<open>
  \<open>InputFile::open\<close> and the constructor, on the contents of the file at \<open>path\<close> (\<open>None\<close> when it cannot be opened): the
  message of the error, or the reader for the capture.
\<close>

datatype reader = PcapInputFile | PcapNGInputFile

definition inputfile_open :: "string \<Rightarrow> byte list option \<Rightarrow> string + reader" where
  "inputfile_open path contents =
     (case contents of
        None \<Rightarrow> Inl (''Unable to open '' @ path)
      | Some data \<Rightarrow>
          if length data < 4 then Inl (path @ '' is too short to be a capture'')
          else
            let magic = field32 0 (take 4 data) in
            if magic = TYPE_SECTION_HEADER then Inr PcapNGInputFile
            else if magic = PCAP_MAGIC_MICROSECONDS \<or> magic = PCAP_MAGIC_NANOSECONDS \<or>
                    magic = PCAP_MAGIC_MICROSECONDS_SWAPPED \<or> magic = PCAP_MAGIC_NANOSECONDS_SWAPPED
            then Inr PcapInputFile
            else Inl (path @ '' is not a pcap or pcapng capture''))"

definition reader_parse :: "'p plist_api \<Rightarrow> reader \<Rightarrow> byte list \<Rightarrow> 'p input_file \<Rightarrow> ('p input_file \<times> string option) option" where
  "reader_parse api reader = (case reader of PcapInputFile \<Rightarrow> pcap_parse api | PcapNGInputFile \<Rightarrow> pcapng_parse api)"

section \<open>No capture makes a reader fault\<close>

lemma file_processPacket_ok:
  assumes "file_ok f"
  shows "\<exists>ok f'. inputfile_processPacket api lt data f = Some (ok, f') \<and> file_ok f' \<and> packet_result api (lt, data) f f'"
proof -
  obtain f' where "packet_step api (lt, data) f = Some f'" "packet_result api (lt, data) f f'"
    using packet_step_ok [OF assms] by blast
  then show ?thesis by (auto simp: packet_step_def packet_result_def)
qed

lemma pcap_record_ok:
  assumes "file_ok f" and "offset \<le> length data"
  shows "\<exists>r. pcap_record api swapped lt data offset f = Some r \<and> (case r of Inl f' \<Rightarrow> file_ok f' | Inr (o', f') \<Rightarrow> file_ok f')"
proof (cases "length data - offset < 16")
  case True
  with assms show ?thesis by (simp add: pcap_record_def pcap_record_size_def warn_ok readStruct_def)
next
  case False
  define n where "n = unat (pcap_value swapped (incl_len (decode_pcap_record (take 16 (drop offset data)))))"
  have eq: "pcap_record api swapped lt data offset f =
      (if n > length data - offset - 16
       then Some (Inl (warn (''Record at offset '' @ dec offset @ '' overruns the file; stopping'') f))
       else do { packet \<leftarrow> subspan (offset + 16) n data; (ok, f) \<leftarrow> inputfile_processPacket api lt packet f;
                 Some (Inr (offset + (16 + n), f)) })"
    using False assms(2) by (simp add: pcap_record_def pcap_record_size_def Let_def n_def)
  show ?thesis
  proof (cases "n > length data - offset - 16")
    case True
    with assms(1) show ?thesis by (simp add: eq warn_ok)
  next
    case fits: False
    then have "offset + 16 + n \<le> length data" using False by simp
    with fits file_processPacket_ok [OF assms(1), of api lt "take n (drop (offset + 16) data)"] show ?thesis
      by (auto simp: eq add.assoc)
  qed
qed

lemma pcap_loop_ok:
  "file_ok f \<Longrightarrow> \<exists>f'. pcap_loop api swapped lt data offset f = Some f' \<and> file_ok f'"
proof (induction api swapped lt data offset f rule: pcap_loop.induct)
  case (1 api swapped lt data offset f)
  show ?case
  proof (cases "offset < length data")
    case True
    obtain r where r: "pcap_record api swapped lt data offset f = Some r"
      "case r of Inl f' \<Rightarrow> file_ok f' | Inr (o', f') \<Rightarrow> file_ok f'"
      using pcap_record_ok [OF "1.prems"] True by (meson less_imp_le)
    show ?thesis
    proof (cases r)
      case (Inl f')
      with r True show ?thesis by (simp add: pcap_loop.simps [of api])
    next
      case (Inr x)
      obtain o' f' where x: "x = (o', f')" by (cases x)
      with r Inr have "file_ok f'" by simp
      from "1.IH" [OF True r(1) Inr x [symmetric] this] show ?thesis
        using True r(1) Inr x by (simp add: pcap_loop.simps [of api swapped lt data offset])
    qed
  next
    case False
    with "1.prems" show ?thesis by (simp add: pcap_loop.simps [of api])
  qed
qed

lemma pcap_parse_ok: "file_ok f \<Longrightarrow> \<exists>f' err. pcap_parse api data f = Some (f', err) \<and> file_ok f'"
  using pcap_loop_ok by (auto simp: pcap_parse_def split: option.split) blast

lemma ng_enhanced_ok:
  assumes "file_ok f"
  shows "\<exists>f'. ng_enhanced_block api body ifaces f = Some f' \<and> file_ok f'"
proof (cases "20 \<le> length body \<and> unat (interface_id (decode_epb (take 20 body))) < length ifaces \<and>
    unat (captured_len (decode_epb (take 20 body))) \<le> length body - 20")
  case True
  let ?e = "decode_epb (take 20 body)"
  obtain ok f' where "inputfile_processPacket api (ucast (ng_linktype (ifaces ! unat (interface_id ?e))))
      (take (unat (captured_len ?e)) (drop 20 body)) f = Some (ok, f')" "file_ok f'"
    using file_processPacket_ok [OF assms] by blast
  moreover have "20 + unat (captured_len ?e) \<le> length body" using True by linarith
  ultimately show ?thesis using True by (simp add: ng_enhanced_block_def epb_size_def)
next
  case False
  then show ?thesis
    using assms by (auto simp: ng_enhanced_block_def epb_size_def warn_ok readStruct_def)
qed

lemma ng_simple_ok:
  assumes "file_ok f"
  shows "\<exists>f'. ng_simple_block api body ifaces f = Some f' \<and> file_ok f'"
proof (cases "4 \<le> length body \<and> ifaces \<noteq> []")
  case True
  have "\<exists>ok f'. inputfile_processPacket api lt data f = Some (ok, f') \<and> file_ok f'" for lt data
    using file_processPacket_ok [OF assms] by blast
  note p = this
  define c where "c = (let c = min (unat (packet_len (decode_spb (take 4 body)))) (length body - 4)
    in if ng_snaplen (ifaces ! 0) \<noteq> 0 then min c (unat (ng_snaplen (ifaces ! 0))) else c)"
  have "4 + c \<le> length body" using True by (simp add: c_def Let_def min_def) linarith
  moreover have "ng_simple_block api body ifaces f =
      do { packet \<leftarrow> subspan 4 c body; (ok, f) \<leftarrow> inputfile_processPacket api (ucast (ng_linktype (ifaces ! 0))) packet f; Some f }"
    using True by (simp add: ng_simple_block_def spb_size_def c_def Let_def)
  ultimately show ?thesis using p [of "ucast (ng_linktype (ifaces ! 0))" "take c (drop 4 body)"] by auto
next
  case False
  then show ?thesis
    using assms by (auto simp: ng_simple_block_def spb_size_def warn_ok readStruct_def)
qed

lemma ng_body_ok:
  assumes "file_ok f"
  shows "\<exists>ifaces' f'. ng_body api ty body ifaces f = Some (ifaces', f') \<and> file_ok f'"
  using assms ng_enhanced_ok [OF assms, of api body ifaces] ng_simple_ok [OF assms, of api body ifaces]
  by (auto simp: ng_body_def ng_interface_block_def warn_ok split: option.split)

definition result_ok :: "'p block_result \<Rightarrow> bool" where
  "result_ok r = (case r of Throws m \<Rightarrow> True | Stops f \<Rightarrow> file_ok f | Continues n ifaces f \<Rightarrow> file_ok f)"

lemma ng_sized_block_ok:
  assumes "file_ok f"
  shows "\<exists>r. ng_sized_block api block bs offset ifaces f = Some r \<and> result_ok r"
proof (cases "unat (block_length block) < 12 \<or> unat (block_length block) mod 4 \<noteq> 0 \<or> unat (block_length block) > length bs")
  case True
  with assms show ?thesis by (auto simp: ng_sized_block_def Let_def BLOCK_OVERHEAD_def result_ok_def warn_ok)
next
  case False
  let ?n = "unat (block_length block)"
  have n: "?n - 4 + 4 \<le> length bs" "8 + (?n - 12) \<le> length bs" "12 \<le> ?n" "4 \<le> ?n" using False by linarith+
  have eq: "ng_sized_block api block bs offset ifaces f =
      (if field32 0 (take 4 (drop (?n - 4) bs)) \<noteq> block_length block then
          Some (if offset = 0 then Throws ''Corrupt PCAPNG section header block''
                else Stops (warn (''Block at offset '' @ dec offset @ '' has mismatched trailing length; stopping'') f))
       else do { (ifaces, f) \<leftarrow> ng_body api (block_type block) (take (?n - 12) (drop 8 bs)) ifaces f;
                 Some (Continues (offset + ?n) ifaces f) })"
    using False n by (simp add: ng_sized_block_def Let_def BLOCK_OVERHEAD_def block_size_def)
  show ?thesis
    using assms ng_body_ok [OF assms, of api "block_type block" "take (?n - 12) (drop 8 bs)" ifaces]
    by (auto simp: eq result_ok_def warn_ok)
qed

lemma ng_block_ok:
  assumes "file_ok f" and "offset \<le> length data"
  shows "\<exists>r. ng_block api data offset ifaces f = Some r \<and> result_ok r"
proof (cases "length data - offset < 12")
  case True
  with assms show ?thesis by (simp add: ng_block_def BLOCK_OVERHEAD_def result_ok_def warn_ok)
next
  case False
  let ?s = "drop offset data"
  have s: "8 \<le> length ?s" using False by simp
  show ?thesis
    using False assms(2) s ng_sized_block_ok [OF assms(1), of api "decode_block (take 8 ?s)" ?s offset]
    by (auto simp: ng_block_def BLOCK_OVERHEAD_def block_size_def result_ok_def split: option.split)
qed

lemma pcapng_loop_ok:
  "file_ok f \<Longrightarrow> \<exists>f' err. pcapng_loop api data offset ifaces f = Some (f', err) \<and> file_ok f'"
proof (induction api data offset ifaces f rule: pcapng_loop.induct)
  case (1 api data offset ifaces f)
  show ?case
  proof (cases "offset < length data")
    case True
    obtain r where r: "ng_block api data offset ifaces f = Some r" "result_ok r"
      using ng_block_ok [OF "1.prems"] True by (meson less_imp_le)
    show ?thesis
    proof (cases r)
      case (Continues o' is' f')
      with r have "file_ok f'" by (simp add: result_ok_def)
      from "1.IH" [OF True r(1) Continues this] show ?thesis
        using True r(1) Continues by (simp add: pcapng_loop.simps [of api data offset])
    qed (use r True "1.prems" in \<open>simp_all add: pcapng_loop.simps [of api data offset] result_ok_def\<close>)
  next
    case False
    with "1.prems" show ?thesis by (simp add: pcapng_loop.simps [of api data offset])
  qed
qed

lemma reader_parse_ok: "\<exists>f err. reader_parse api reader data new_input_file = Some (f, err) \<and> file_ok f"
  using pcap_parse_ok [OF new_input_file_ok, of api data] pcapng_loop_ok [OF new_input_file_ok, of api data 0 "[]"]
  by (cases reader) (simp_all add: reader_parse_def pcapng_parse_def)

text \<open>
  C23: Reading any file ends without a fault.  Whatever bytes the file has, the reader that \<open>open\<close> chooses for it
  terminates, never reads outside the file, and leaves a consistent state, with an error or without.
\<close>

theorem readers_total:
  "\<exists>f err. reader_parse api reader data new_input_file = Some (f, err) \<and> file_ok f"
  by (rule reader_parse_ok)

section \<open>Classic captures as they are written\<close>

text \<open>In the byte order of the writing host (\<open>swapped\<close>: big endian), with micro or nanosecond time stamps.\<close>

definition pcap_word :: "bool \<Rightarrow> u32 \<Rightarrow> byte list" where
  "pcap_word swapped w = (if swapped then enc_be32 w else enc32 w)"

definition pcap_version :: "bool \<Rightarrow> byte list" where
  "pcap_version swapped = (if swapped then [0, 2, 0, 4] else [2, 0, 4, 0])"

definition magic_of :: "bool \<Rightarrow> u32" where
  "magic_of nano = (if nano then PCAP_MAGIC_NANOSECONDS else PCAP_MAGIC_MICROSECONDS)"

definition write_pcap_header :: "bool \<Rightarrow> bool \<Rightarrow> u32 \<Rightarrow> byte list" where
  "write_pcap_header swapped nano linktype =
     pcap_word swapped (magic_of nano) @ pcap_version swapped @ pcap_word swapped 0 @ pcap_word swapped 0 @
     pcap_word swapped 0x40000 @ pcap_word swapped linktype"

definition write_pcap_record :: "bool \<Rightarrow> byte list \<Rightarrow> byte list" where
  "write_pcap_record swapped data =
     pcap_word swapped 0 @ pcap_word swapped 0 @ pcap_word swapped (word_of_nat (length data)) @
     pcap_word swapped (word_of_nat (length data)) @ data"

lemma length_pcap_word [simp]: "length (pcap_word swapped w) = 4" "length (pcap_version swapped) = 4"
  by (simp_all add: pcap_word_def pcap_version_def)

lemma length_write_pcap [simp]:
  "length (write_pcap_header swapped nano linktype) = 24" "length (write_pcap_record swapped data) = 16 + length data"
  by (simp_all add: write_pcap_header_def write_pcap_record_def)

lemma pcap_value_word [codec]:
  "pcap_value swapped (field 0 4 (pcap_word swapped w @ rest)) = w"
  "pcap_value swapped (field 0 4 (pcap_word swapped w)) = w"
proof -
  show a: "pcap_value swapped (field 0 4 (pcap_word swapped w @ rest)) = w" for rest
    using be32_enc [of w rest]
    by (simp add: pcap_value_def pcap_word_def be32_def field_take field_here field_prefix field_here [where post = "[]", simplified])
  show "pcap_value swapped (field 0 4 (pcap_word swapped w)) = w" using a [of "[]"] by simp
qed

lemma pcap_value_involutive [simp]: "pcap_value swapped (pcap_value swapped w) = w"
  by (simp add: pcap_value_def)

lemma endian_reverse32_eq: "endian_reverse32 w = word_of_nat (le_nat (enc_be32 w))"
  by (simp add: endian_reverse32_def enc_be32_def)

lemma swapped_magics:
  "endian_reverse32 PCAP_MAGIC_MICROSECONDS = PCAP_MAGIC_MICROSECONDS_SWAPPED"
  "endian_reverse32 PCAP_MAGIC_NANOSECONDS = PCAP_MAGIC_NANOSECONDS_SWAPPED"
  by (simp_all add: endian_reverse32_eq enc_be32_eq)

lemma pcap_header_read:
  "pcap_swapped (pcap_magic (decode_pcap_header (write_pcap_header swapped nano linktype))) = Some swapped"
  "pcap_value swapped (pcap_linktype (decode_pcap_header (write_pcap_header swapped nano linktype))) = linktype"
proof -
  have "pcap_value swapped (pcap_magic (decode_pcap_header (write_pcap_header swapped nano linktype))) = magic_of nano"
    by (simp add: decode_pcap_header_def write_pcap_header_def pcap_value_word)
  then have "pcap_magic (decode_pcap_header (write_pcap_header swapped nano linktype)) = pcap_value swapped (magic_of nano)"
    by (metis pcap_value_involutive)
  moreover have "pcap_swapped (pcap_value swapped (magic_of nano)) = Some swapped"
    by (cases swapped; cases nano) (simp_all add: pcap_swapped_def pcap_value_def swapped_magics magic_of_def)
  ultimately show "pcap_swapped (pcap_magic (decode_pcap_header (write_pcap_header swapped nano linktype))) = Some swapped"
    by simp
  show "pcap_value swapped (pcap_linktype (decode_pcap_header (write_pcap_header swapped nano linktype))) = linktype"
    by (simp add: decode_pcap_header_def write_pcap_header_def field_skip pcap_value_word)
qed

lemma pcap_record_read:
  "pcap_value swapped (incl_len (decode_pcap_record (take 16 (write_pcap_record swapped data @ rest)))) = word_of_nat (length data)"
  unfolding decode_pcap_record_def write_pcap_record_def by (simp add: field_skip pcap_value_word)

lemma pcap_record_complete:
  assumes "data = pre @ write_pcap_record swapped packet @ rest" and "length packet < 4294967296"
  shows "pcap_record api swapped lt data (length pre) f =
    map_option (\<lambda>f. Inr (length (pre @ write_pcap_record swapped packet), f)) (packet_step api (lt, packet) f)"
proof -
  have n: "unat (pcap_value swapped (incl_len (decode_pcap_record (take 16 (drop (length pre) data))))) = length packet"
    using pcap_record_read [of swapped packet rest] assms by (simp add: unat_length32 del: take_append)
  have d: "take (length packet) (drop (length pre + 16) data) = packet"
    by (simp add: assms(1) write_pcap_record_def)
  have len: "length data = length pre + 16 + length packet + length rest" by (simp add: assms(1))
  have "pcap_record api swapped lt data (length pre) f =
      do { (ok, f) \<leftarrow> inputfile_processPacket api lt packet f; Some (Inr (length pre + (16 + length packet), f)) }"
    using len n d by (simp add: pcap_record_def pcap_record_size_def Let_def)
  then show ?thesis by (cases "inputfile_processPacket api lt packet f") (auto simp: packet_step_def)
qed

lemma pcap_record_cut:
  assumes "data = pre @ take m (write_pcap_record swapped packet)" and "length packet < 4294967296"
    and "0 < m" and "m < 16 + length packet"
  shows "\<exists>w. pcap_record api swapped lt data (length pre) f = Some (Inl (warn w f))"
proof (cases "m < 16")
  case True
  with assms(1,4) show ?thesis by (auto simp: pcap_record_def pcap_record_size_def readStruct_def)
next
  case False
  have "take 16 (drop (length pre) data) = take 16 (write_pcap_record swapped packet)"
    using False by (simp add: assms(1) min_def)
  then have n: "unat (pcap_value swapped (incl_len (decode_pcap_record (take 16 (drop (length pre) data))))) = length packet"
    using pcap_record_read [of swapped packet "[]"] assms(2) by (simp add: unat_length32)
  have len: "length data = length pre + m" using assms(1,4) by simp
  show ?thesis
    using len n False assms(4)
    by (intro exI [of _ "''Record at offset '' @ dec (length pre) @ '' overruns the file; stopping''"])
      (simp add: pcap_record_def pcap_record_size_def Let_def, linarith)
qed

lemma pcap_loop_written:
  assumes "length lost < 4294967296" and "m < 16 + length lost"
  shows "list_all (\<lambda>p. length p < 4294967296) packets \<Longrightarrow> file_ok f \<Longrightarrow>
   \<exists>w f'. process_packets api (map (Pair lt) packets) f = Some f' \<and>
     pcap_loop api swapped lt (pre @ concat (map (write_pcap_record swapped) packets) @ take m (write_pcap_record swapped lost))
       (length pre) f = Some (if m = 0 then f' else warn w f')"
proof (induction packets arbitrary: pre f)
  case Nil
  show ?case
  proof (cases "m = 0")
    case True
    then show ?thesis by (simp add: pcap_loop.simps [of api swapped lt _ "length pre"] process_packets_def)
  next
    case False
    let ?data = "pre @ take m (write_pcap_record swapped lost)"
    obtain w where "pcap_record api swapped lt ?data (length pre) f = Some (Inl (warn w f))"
      using pcap_record_cut [OF refl assms(1), of m] False assms(2) by blast
    moreover have "length pre < length ?data" using False by simp
    ultimately show ?thesis
      using False by (auto simp: pcap_loop.simps [of api swapped lt ?data] process_packets_def)
  qed
next
  case (Cons p ps)
  let ?data = "pre @ concat (map (write_pcap_record swapped) (p # ps)) @ take m (write_pcap_record swapped lost)"
  obtain f1 where f1: "packet_step api (lt, p) f = Some f1" "file_ok f1"
    using packet_step_ok [OF Cons.prems(2), of api "(lt, p)"] by (auto simp: packet_result_def)
  have step: "pcap_record api swapped lt ?data (length pre) f = Some (Inr (length (pre @ write_pcap_record swapped p), f1))"
    using pcap_record_complete [of ?data pre swapped p "concat (map (write_pcap_record swapped) ps) @ take m (write_pcap_record swapped lost)" api lt f]
      Cons.prems(1) f1(1) by simp
  have "length pre < length ?data" by simp
  then have "pcap_loop api swapped lt ?data (length pre) f =
      pcap_loop api swapped lt ?data (length (pre @ write_pcap_record swapped p)) f1"
    using step by (subst pcap_loop.simps) (simp del: length_append)
  moreover have "?data = (pre @ write_pcap_record swapped p) @ concat (map (write_pcap_record swapped) ps) @
      take m (write_pcap_record swapped lost)" by simp
  ultimately show ?case
    using Cons.IH [OF _ f1(2), of "pre @ write_pcap_record swapped p"] Cons.prems(1) f1(1)
    by (simp add: process_packets_def)
qed

lemma pcap_parse_written:
  assumes "linktype AND 0x0FFFFFFF = linktype" and "list_all (\<lambda>p. length p < 4294967296) packets"
    and "length lost < 4294967296" and "m < 16 + length lost"
  shows "\<exists>w f. process_packets api (map (Pair linktype) packets) new_input_file = Some f \<and>
    pcap_parse api (write_pcap_header swapped nano linktype @ concat (map (write_pcap_record swapped) packets) @
        take m (write_pcap_record swapped lost)) new_input_file =
      Some (if m = 0 then f else warn w f, None)"
proof -
  let ?data = "write_pcap_header swapped nano linktype @ concat (map (write_pcap_record swapped) packets) @
      take m (write_pcap_record swapped lost)"
  obtain w f where wf: "process_packets api (map (Pair linktype) packets) new_input_file = Some f"
      "pcap_loop api swapped linktype ?data 24 new_input_file = Some (if m = 0 then f else warn w f)"
    using pcap_loop_written [OF assms(3,4,2) new_input_file_ok, of api linktype swapped "write_pcap_header swapped nano linktype"]
    by auto
  have "pcap_parse api ?data new_input_file = map_option (\<lambda>f. (f, None)) (pcap_loop api swapped linktype ?data 24 new_input_file)"
    using assms(1) by (simp add: pcap_parse_def pcap_header_size_def pcap_header_read)
  with wf show ?thesis by auto
qed

text \<open>
  C22: A classic capture is read back, also when it was cut off.  For either byte order and time stamp resolution, the
  packets handed on are exactly those written, with the link type of the header; a capture that ends inside a
  record loses that record only, with one warning, and no error is raised.
\<close>

theorem pcap_read_back:
  assumes "linktype AND 0x0FFFFFFF = linktype" and "list_all (\<lambda>p. length p < 4294967296) packets"
    and "length lost < 4294967296" and "m < 16 + length lost"
  shows "\<exists>w f. process_packets api (map (Pair linktype) packets) new_input_file = Some f \<and>
    pcap_parse api (write_pcap_header swapped nano linktype @ concat (map (write_pcap_record swapped) packets) @
        take m (write_pcap_record swapped lost)) new_input_file =
      Some (if m = 0 then f else warn w f, None)"
  using assms by (rule pcap_parse_written)

theorem pcap_read_back_witness:
  "\<exists>w f. process_packets sample_api (map (Pair 266) [[1, 2, 3], []]) new_input_file = Some f \<and>
    pcap_parse sample_api (write_pcap_header True False 266 @ concat (map (write_pcap_record True) [[1, 2, 3], []]) @
        take 17 (write_pcap_record True [4, 5])) new_input_file =
      Some (if (17 :: nat) = 0 then f else warn w f, None)"
  by (rule pcap_read_back) simp_all

section \<open>PCAPNG captures as they are written\<close>

datatype ng_item =
    NgSection
  | NgInterface u16 u32
  | NgPacket u32 "byte list"
  | NgSimple "byte list"
  | NgOther u32 "byte list"

definition padding :: "nat \<Rightarrow> byte list" where
  "padding n = replicate ((4 - n mod 4) mod 4) 0"

definition write_block :: "u32 \<Rightarrow> byte list \<Rightarrow> byte list" where
  "write_block ty body =
     enc32 ty @ enc32 (word_of_nat (12 + length body)) @ body @ enc32 (word_of_nat (12 + length body))"

definition section_body :: "byte list" where
  "section_body = enc32 PCAPNG_BYTE_ORDER_MAGIC @ enc16 1 @ enc16 0 @ enc64 (- 1)"

definition packet_body :: "u32 \<Rightarrow> byte list \<Rightarrow> byte list" where
  "packet_body i p = enc32 i @ enc32 0 @ enc32 0 @ enc32 (word_of_nat (length p)) @ enc32 (word_of_nat (length p)) @ p @ padding (length p)"

fun ng_type :: "ng_item \<Rightarrow> u32" where
  "ng_type NgSection = TYPE_SECTION_HEADER"
| "ng_type (NgInterface lt sl) = TIME_INTERFACE_DESCRIPTOR_BLOCK"
| "ng_type (NgPacket i p) = TYPE_ENHANCED_PACKET_BLOCK"
| "ng_type (NgSimple p) = TYPE_SIMPLE_PACKET_BLOCK"
| "ng_type (NgOther ty body) = ty"

fun ng_content :: "ng_item \<Rightarrow> byte list" where
  "ng_content NgSection = section_body"
| "ng_content (NgInterface lt sl) = enc16 lt @ enc16 0 @ enc32 sl"
| "ng_content (NgPacket i p) = packet_body i p"
| "ng_content (NgSimple p) = enc32 (word_of_nat (length p)) @ p @ padding (length p)"
| "ng_content (NgOther ty body) = body @ padding (length body)"

definition ng_bytes :: "ng_item \<Rightarrow> byte list" where
  "ng_bytes item = write_block (ng_type item) (ng_content item)"

text \<open>The interfaces in force after an item, and the packets a sequence of items holds.\<close>

fun ng_interfaces :: "ng_item \<Rightarrow> pcapng_interface list \<Rightarrow> pcapng_interface list" where
  "ng_interfaces NgSection ifs = []"
| "ng_interfaces (NgInterface lt sl) ifs = ifs @ [\<lparr>ng_linktype = lt, ng_snaplen = sl\<rparr>]"
| "ng_interfaces _ ifs = ifs"

definition snap :: "pcapng_interface \<Rightarrow> byte list \<Rightarrow> byte list" where
  "snap i p = (if ng_snaplen i \<noteq> 0 then take (unat (ng_snaplen i)) p else p)"

fun ng_item_packets :: "pcapng_interface list \<Rightarrow> ng_item \<Rightarrow> packet list" where
  "ng_item_packets ifs (NgPacket i p) = [(ucast (ng_linktype (ifs ! unat i)), p)]"
| "ng_item_packets ifs (NgSimple p) = [(ucast (ng_linktype (ifs ! 0)), snap (ifs ! 0) p)]"
| "ng_item_packets ifs _ = []"

fun ng_packets :: "pcapng_interface list \<Rightarrow> ng_item list \<Rightarrow> packet list" where
  "ng_packets ifs [] = []"
| "ng_packets ifs (item # items) = ng_item_packets ifs item @ ng_packets (ng_interfaces item ifs) items"

text \<open>A capture is well formed when its packets refer to interfaces of their section and its blocks have a length.\<close>

fun ng_item_ok :: "pcapng_interface list \<Rightarrow> ng_item \<Rightarrow> bool" where
  "ng_item_ok ifs (NgPacket i p) \<longleftrightarrow> unat i < length ifs"
| "ng_item_ok ifs (NgSimple p) \<longleftrightarrow> ifs \<noteq> []"
| "ng_item_ok ifs (NgOther ty body) \<longleftrightarrow> ty \<notin> {TYPE_SECTION_HEADER, 1, 3, 6}"
| "ng_item_ok ifs _ \<longleftrightarrow> True"

fun ng_ok :: "pcapng_interface list \<Rightarrow> ng_item list \<Rightarrow> bool" where
  "ng_ok ifs [] \<longleftrightarrow> True"
| "ng_ok ifs (item # items) \<longleftrightarrow> ng_item_ok ifs item \<and> 12 + length (ng_content item) < 4294967296 \<and>
     ng_ok (ng_interfaces item ifs) items"

lemma padding_aligned: "(n + length (padding n)) mod 4 = 0"
proof -
  have "(r + (4 - r) mod 4) mod 4 = 0" if "r < 4" for r :: nat
  proof -
    from that consider "r = 0" | "r = 1" | "r = 2" | "r = 3" by linarith
    then show ?thesis by cases simp_all
  qed
  then have "(n mod 4 + (4 - n mod 4) mod 4) mod 4 = 0" by simp
  then have "(n + (4 - n mod 4) mod 4) mod 4 = 0" by (simp only: mod_add_left_eq)
  then show ?thesis by (simp add: padding_def)
qed

lemma ng_content_aligned: "length (ng_content item) mod 4 = 0"
proof (cases item)
  case (NgPacket i p)
  have "(20 + (length p + length (padding (length p)))) mod 4 = 0" using padding_aligned [of "length p"] by presburger
  with NgPacket show ?thesis by (simp add: packet_body_def)
next
  case (NgSimple p)
  have "(4 + (length p + length (padding (length p)))) mod 4 = 0" using padding_aligned [of "length p"] by presburger
  with NgSimple show ?thesis by simp
next
  case (NgOther ty body)
  with padding_aligned [of "length body"] show ?thesis by simp
qed (simp_all add: section_body_def)

lemma length_write_block [simp]: "length (write_block ty body) = 12 + length body"
  by (simp add: write_block_def)

lemma write_block_read:
  assumes "12 + length body < 4294967296"
  shows "block_type (decode_block (take 8 (write_block ty body @ rest))) = ty"
    and "unat (block_length (decode_block (take 8 (write_block ty body @ rest)))) = 12 + length body"
    and "take (length body) (drop 8 (write_block ty body @ rest)) = body"
    and "field 0 4 (take 4 (drop (8 + length body) (write_block ty body @ rest))) = (word_of_nat (12 + length body) :: u32)"
proof -
  have h: "take 8 (write_block ty body @ rest) = enc32 ty @ enc32 (word_of_nat (12 + length body))"
    by (simp add: write_block_def)
  show "block_type (decode_block (take 8 (write_block ty body @ rest))) = ty"
    unfolding h by (simp add: decode_block_def field_here)
  show "unat (block_length (decode_block (take 8 (write_block ty body @ rest)))) = 12 + length body"
    unfolding h using assms
    by (simp add: decode_block_def field_skip field_nat [where post = "[]", simplified] unat_length32 del: of_nat_add)
  show "take (length body) (drop 8 (write_block ty body @ rest)) = body"
    by (simp add: write_block_def)
  have "take 4 (drop (8 + length body) (write_block ty body @ rest)) = enc32 (word_of_nat (12 + length body))"
    by (simp add: write_block_def)
  then show "field 0 4 (take 4 (drop (8 + length body) (write_block ty body @ rest))) = (word_of_nat (12 + length body) :: u32)"
    by (simp only: field_here [where post = "[]" and 'a = 32 and n = 4, simplified])
qed

lemma section_accepted: "ng_section_error (section_body @ rest) = None"
proof -
  have "byte_order_magic (decode_shb (take 16 (section_body @ rest))) = PCAPNG_BYTE_ORDER_MAGIC"
    by (simp add: section_body_def decode_shb_def field_nat)
  moreover have "16 \<le> length (section_body @ rest)" by (simp add: section_body_def)
  ultimately show ?thesis by (simp add: ng_section_error_def shb_size_def)
qed

lemma ng_sized_written:
  assumes "12 + length body < 4294967296" and "length body mod 4 = 0"
  shows "ng_sized_block api (decode_block (take 8 (write_block ty body @ rest))) (write_block ty body @ rest) offset ifs f =
    map_option (\<lambda>(ifs', f'). Continues (offset + (12 + length body)) ifs' f') (ng_body api ty body ifs f)"
proof -
  let ?b = "decode_block (take 8 (write_block ty body @ rest))"
  note r = write_block_read [OF assms(1), of ty rest]
  have n: "unat (block_length ?b) = 12 + length body" by (rule r(2))
  then have l: "block_length ?b = word_of_nat (12 + length body)" unfolding n [symmetric] by simp
  have "(12 + length body) mod 4 = 0" using assms(2) by presburger
  then have "ng_sized_block api ?b (write_block ty body @ rest) offset ifs f =
      do { (ifs', f') \<leftarrow> ng_body api ty body ifs f; Some (Continues (offset + (12 + length body)) ifs' f') }"
    using r(1,3,4) n l by (simp add: ng_sized_block_def Let_def BLOCK_OVERHEAD_def block_size_def del: of_nat_add)
  then show ?thesis by (cases "ng_body api ty body ifs f") auto
qed

lemma ng_block_written:
  assumes "data = pre @ ng_bytes item @ rest" and "12 + length (ng_content item) < 4294967296"
    and "pre \<noteq> [] \<or> item = NgSection" and "ng_item_ok ifs item"
  shows "ng_block api data (length pre) ifs f =
    map_option (\<lambda>(ifs', f'). Continues (length (pre @ ng_bytes item)) ifs' f')
      (ng_body api (ng_type item) (ng_content item) (if item = NgSection then [] else ifs) f)"
proof -
  let ?s = "write_block (ng_type item) (ng_content item) @ rest"
  have s: "drop (length pre) data = ?s" "length data - length pre = length ?s" "length pre \<le> length data"
    by (simp_all add: assms(1) ng_bytes_def)
  have ty: "block_type (decode_block (take 8 ?s)) = ng_type item" by (rule write_block_read(1) [OF assms(2)])
  have len: "length pre + (12 + length (ng_content item)) = length (pre @ ng_bytes item)" by (simp add: ng_bytes_def)
  have sized: "ng_sized_block api (decode_block (take 8 ?s)) ?s (length pre) is f =
      map_option (\<lambda>(ifs', f'). Continues (length (pre @ ng_bytes item)) ifs' f') (ng_body api (ng_type item) (ng_content item) is f)" for "is"
    unfolding len [symmetric] by (rule ng_sized_written [OF assms(2) ng_content_aligned])
  have room: "12 \<le> length ?s" "8 \<le> length ?s" by simp_all
  show ?thesis
  proof (cases "item = NgSection")
    case True
    have "drop 8 ?s = section_body @ drop (8 + length section_body) ?s"
      using True by (simp add: write_block_def)
    then have "ng_section_error (drop 8 ?s) = None" using section_accepted by metis
    with True s ty sized room show ?thesis
      by (simp add: ng_block_def BLOCK_OVERHEAD_def block_size_def del: length_append append_assoc)
  next
    case False
    then have "ng_type item \<noteq> TYPE_SECTION_HEADER" using assms(4) by (cases item) auto
    with False assms(3) s ty sized room show ?thesis
      by (simp add: ng_block_def BLOCK_OVERHEAD_def block_size_def del: length_append append_assoc)
  qed
qed

lemma packet_body_read:
  assumes "length p < 4294967296"
  shows "interface_id (decode_epb (take 20 (packet_body i p))) = i"
    and "unat (captured_len (decode_epb (take 20 (packet_body i p)))) = length p"
    and "take (length p) (drop 20 (packet_body i p)) = p" and "20 + length p \<le> length (packet_body i p)"
  using assms
  by (simp_all add: packet_body_def decode_epb_def field_skip field_here field_nat unat_length32)

lemma ng_body_written:
  assumes "ng_item_ok ifs item" and "12 + length (ng_content item) < 4294967296"
  shows "ng_body api (ng_type item) (ng_content item) (if item = NgSection then [] else ifs) f =
    map_option (Pair (ng_interfaces item ifs)) (process_packets api (ng_item_packets ifs item) f)"
proof (cases item)
  case NgSection
  then show ?thesis by (simp add: ng_body_def process_packets_def)
next
  case (NgInterface lt sl)
  then show ?thesis
    by (simp add: ng_body_def ng_interface_block_def process_packets_def idb_size_def decode_idb_def field_skip field_here
        field_here [where post = "[]", simplified])
next
  case (NgPacket i p)
  then have "length p < 4294967296" using assms(2) by (simp add: packet_body_def)
  note r = packet_body_read [OF this, of i]
  have "ng_enhanced_block api (packet_body i p) ifs f = packet_step api (ucast (ng_linktype (ifs ! unat i)), p) f"
    using r assms(1) NgPacket
    by (cases "inputfile_processPacket api (ucast (ng_linktype (ifs ! unat i))) p f")
      (auto simp: ng_enhanced_block_def epb_size_def packet_step_def)
  with NgPacket show ?thesis
    by (cases "packet_step api (ucast (ng_linktype (ifs ! unat i)), p) f") (simp_all add: ng_body_def process_packets_def)
next
  case (NgSimple p)
  let ?body = "enc32 (word_of_nat (length p)) @ p @ padding (length p)" and ?i = "ifs ! 0"
  have len: "length p < 4294967296" using assms(2) NgSimple by simp
  then have pl: "unat (packet_len (decode_spb (take 4 ?body))) = length p"
    by (simp add: decode_spb_def field_nat [where post = "[]", simplified] unat_length32)
  define c where "c = (if ng_snaplen ?i \<noteq> 0 then min (length p) (unat (ng_snaplen ?i)) else length p)"
  have c: "c \<le> length p" "take c p = snap ?i p" by (simp_all add: c_def snap_def min_def)
  have "ng_simple_block api ?body ifs f = packet_step api (ucast (ng_linktype ?i), snap ?i p) f"
  proof -
    have "ng_simple_block api ?body ifs f = do { packet \<leftarrow> subspan 4 c ?body;
        (ok, f) \<leftarrow> inputfile_processPacket api (ucast (ng_linktype ?i)) packet f; Some f }"
      using assms(1) NgSimple pl by (simp add: ng_simple_block_def spb_size_def Let_def c_def)
    moreover have "subspan 4 c ?body = Some (snap ?i p)" using c by (simp add: subspan_def)
    ultimately show ?thesis
      by (cases "inputfile_processPacket api (ucast (ng_linktype ?i)) (snap ?i p) f") (auto simp: packet_step_def)
  qed
  with NgSimple show ?thesis
    by (cases "packet_step api (ucast (ng_linktype ?i), snap ?i p) f") (simp_all add: ng_body_def process_packets_def)
next
  case (NgOther ty body)
  with assms(1) show ?thesis by (simp add: ng_body_def process_packets_def)
qed

lemma ng_bytes_nonempty: "ng_bytes item \<noteq> []"
proof
  assume "ng_bytes item = []"
  then have "length (ng_bytes item) = 0" by simp
  then show False by (simp add: ng_bytes_def)
qed

lemma pcapng_loop_written:
  "ng_ok ifs items \<Longrightarrow> file_ok f \<Longrightarrow> pre \<noteq> [] \<or> items = [] \<or> hd items = NgSection \<Longrightarrow>
   pcapng_loop api (pre @ concat (map ng_bytes items)) (length pre) ifs f =
     map_option (\<lambda>f'. (f', None)) (process_packets api (ng_packets ifs items) f)"
proof (induction items arbitrary: ifs f pre)
  case Nil
  then show ?case by (simp add: pcapng_loop.simps [of api _ "length pre"] process_packets_def)
next
  case (Cons item items)
  let ?data = "pre @ concat (map ng_bytes (item # items))"
  have item: "ng_item_ok ifs item" "12 + length (ng_content item) < 4294967296" "ng_ok (ng_interfaces item ifs) items"
    and first: "pre \<noteq> [] \<or> item = NgSection" using Cons.prems by auto
  obtain f1 where f1: "process_packets api (ng_item_packets ifs item) f = Some f1" "file_ok f1"
    using process_packets_result [OF Cons.prems(2), of api "ng_item_packets ifs item"] by blast
  have "?data = pre @ ng_bytes item @ concat (map ng_bytes items)" by simp
  from ng_block_written [OF this item(2) first item(1), of api f]
  have step: "ng_block api ?data (length pre) ifs f =
      Some (Continues (length (pre @ ng_bytes item)) (ng_interfaces item ifs) f1)"
    unfolding ng_body_written [OF item(1,2)] using f1(1) by simp
  have "length pre < length ?data" using ng_bytes_nonempty [of item] by simp
  then have "pcapng_loop api ?data (length pre) ifs f =
      pcapng_loop api ?data (length (pre @ ng_bytes item)) (ng_interfaces item ifs) f1"
    using step by (subst pcapng_loop.simps) (simp del: length_append)
  also have "?data = (pre @ ng_bytes item) @ concat (map ng_bytes items)" by simp
  also have "pcapng_loop api \<dots> (length (pre @ ng_bytes item)) (ng_interfaces item ifs) f1 =
      map_option (\<lambda>f'. (f', None)) (process_packets api (ng_packets (ng_interfaces item ifs) items) f1)"
    using ng_bytes_nonempty [of item] by (intro Cons.IH item(3) f1(2)) simp
  finally show ?case using f1(1) by (simp add: process_packets_def run_opt_append)
qed

text \<open>
  C21: A PCAPNG capture is read back.  For any sections, interfaces and packet blocks, with other blocks anywhere
  between them, the packets handed on are exactly those written, each with the link type of the interface it
  refers to in its own section, simple packets cut to the snap length of the first interface; no warning and no
  error is added.
\<close>

theorem pcapng_read_back:
  assumes "ng_ok [] (NgSection # items)"
  shows "pcapng_parse api (concat (map ng_bytes (NgSection # items))) new_input_file =
    map_option (\<lambda>f. (f, None)) (process_packets api (ng_packets [] items) new_input_file)"
  using pcapng_loop_written [OF assms new_input_file_ok, of "[]" api] by (simp add: pcapng_parse_def)

definition sample_items :: "ng_item list" where
  "sample_items = [NgInterface 266 0, NgPacket 0 [1, 2, 3], NgOther 5 [7], NgInterface 249 2, NgSimple [9, 9, 9], NgPacket 1 [4],
     NgSection, NgInterface 220 1, NgSimple [5, 6]]"

theorem pcapng_read_back_witness:
  "ng_packets [] sample_items = [(266, [1, 2, 3]), (266, [9, 9, 9]), (249, [4]), (220, [5])] \<and>
   pcapng_parse sample_api (concat (map ng_bytes (NgSection # sample_items))) new_input_file =
     map_option (\<lambda>f. (f, None)) (process_packets sample_api (ng_packets [] sample_items) new_input_file)"
  using pcapng_read_back [of sample_items sample_api]
  by (simp add: sample_items_def packet_body_def padding_def section_body_def snap_def)

section \<open>Choosing the reader\<close>

lemma open_chooses:
  "inputfile_open path (Some (write_pcap_header swapped nano linktype @ rest)) = Inr PcapInputFile"
  "inputfile_open path (Some (ng_bytes NgSection @ rest)) = Inr PcapNGInputFile"
proof -
  have m: "field 0 4 (take 4 (pcap_word swapped w @ x)) = pcap_value swapped w" for w x
    by (metis field_take order_refl add_0 pcap_value_word(1) pcap_value_involutive)
  have "field 0 4 (take 4 (write_pcap_header swapped nano linktype @ rest)) = pcap_value swapped (magic_of nano)"
    unfolding write_pcap_header_def append_assoc by (rule m)
  then show "inputfile_open path (Some (write_pcap_header swapped nano linktype @ rest)) = Inr PcapInputFile"
    by (cases swapped; cases nano) (simp_all add: inputfile_open_def pcap_value_def swapped_magics magic_of_def)
  have "field 0 4 (take 4 (ng_bytes NgSection @ rest)) = (TYPE_SECTION_HEADER :: u32)"
    unfolding ng_bytes_def write_block_def append_assoc ng_type.simps by (simp add: field_take field_nat field_nat [where post = "[]", simplified])
  then show "inputfile_open path (Some (ng_bytes NgSection @ rest)) = Inr PcapNGInputFile"
    by (simp add: inputfile_open_def ng_bytes_def)
qed

section \<open>Capture formats\<close>

text \<open>
  What a format of capture files promises to those who read captures: the reader chosen for a file written in it hands
  on the packets written, and nothing else.  Both formats keep it, for packets of less than 4 GiB and link types of
  16 bits.
\<close>

locale capture_format =
  fixes encode :: "u32 \<Rightarrow> byte list list \<Rightarrow> byte list" and reader :: reader and api :: "'p plist_api"
  assumes chosen: "inputfile_open path (Some (encode linktype packets)) = Inr reader"
    and read_back: "linktype < 65536 \<Longrightarrow> list_all (\<lambda>p. length p \<le> 0xFFFFFF00) packets \<Longrightarrow>
      reader_parse api reader (encode linktype packets) new_input_file =
        map_option (\<lambda>f. (f, None)) (process_packets api (map (Pair linktype) packets) new_input_file)"
begin

lemma read_state:
  assumes "linktype < 65536" and "list_all (\<lambda>p. length p \<le> 0xFFFFFF00) packets"
  shows "\<exists>f. reader_parse api reader (encode linktype packets) new_input_file = Some (f, None) \<and> file_ok f \<and>
    warned (packet_warnings {} (map (Pair linktype) packets)) new_input_file f \<and>
    (\<forall>a. run_opt (handle_step api) (events_for a (map (Pair linktype) packets)) (new_device_handle a) = Some (handle_at a f))"
proof -
  obtain f where f: "process_packets api (map (Pair linktype) packets) new_input_file = Some f" "file_ok f"
    "warned (packet_warnings (m_unsupportedLinktypes (new_input_file :: 'p input_file)) (map (Pair linktype) packets)) new_input_file f"
    "\<forall>a. run_opt (handle_step api) (events_for a (map (Pair linktype) packets)) (handle_at a new_input_file) = Some (handle_at a f)"
    using process_packets_result [OF new_input_file_ok] by blast
  then show ?thesis
    by (simp add: read_back [OF assms]) (simp add: new_input_file_def handle_at_def)
qed

end

definition write_pcap :: "bool \<Rightarrow> bool \<Rightarrow> u32 \<Rightarrow> byte list list \<Rightarrow> byte list" where
  "write_pcap swapped nano linktype packets =
     write_pcap_header swapped nano linktype @ concat (map (write_pcap_record swapped) packets)"

text \<open>A PCAPNG capture with one section and one interface.\<close>

definition write_pcapng :: "u32 \<Rightarrow> byte list list \<Rightarrow> byte list" where
  "write_pcapng linktype packets = concat (map ng_bytes (NgSection # NgInterface (ucast linktype) 0x40000 # map (NgPacket 0) packets))"

lemma take_bit_small:
  assumes "w < 65536" and "16 \<le> n"
  shows "take_bit n (w :: u32) = w"
proof -
  have "unat w < 2 ^ 16" using assms(1) by (simp add: word_less_nat_alt)
  also have "(2 :: nat) ^ 16 \<le> 2 ^ n" by (rule power_increasing [OF assms(2)]) simp
  finally have "unat (take_bit n w) = unat w" by (simp add: unsigned_take_bit_eq take_bit_nat_eq_self)
  then show ?thesis by (rule unsigned_word_eqI)
qed

lemma linktype_codec:
  assumes "linktype < 65536"
  shows "(linktype :: u32) AND 0x0FFFFFFF = linktype" and "ucast (ucast linktype :: u16) = linktype"
proof -
  have "linktype AND mask 28 = linktype" using take_bit_small [OF assms, of 28] by (simp add: take_bit_eq_mask)
  then show "linktype AND 0x0FFFFFFF = linktype" by (simp add: mask_eq_exp_minus_1)
  have "unat (ucast (ucast linktype :: u16) :: u32) = unat (take_bit 16 linktype)" by (simp add: unsigned_ucast_eq)
  then show "ucast (ucast linktype :: u16) = linktype"
    using take_bit_small [OF assms, of 16] by (intro unsigned_word_eqI) simp
qed

interpretation classic: capture_format "write_pcap swapped nano" PcapInputFile api for swapped nano api
proof
  show "inputfile_open path (Some (write_pcap swapped nano linktype packets)) = Inr PcapInputFile" for path linktype and packets :: "byte list list"
    by (simp add: write_pcap_def open_chooses)
next
  fix linktype :: u32 and packets :: "byte list list"
  assume l: "linktype < 65536" and p: "list_all (\<lambda>p. length p \<le> 0xFFFFFF00) packets"
  have "list_all (\<lambda>p. length p < 4294967296) packets" using p by (auto simp: list_all_iff)
  from pcap_parse_written [OF linktype_codec(1) [OF l] this, of "[]" 0 api swapped nano]
  show "reader_parse api PcapInputFile (write_pcap swapped nano linktype packets) new_input_file =
      map_option (\<lambda>f. (f, None)) (process_packets api (map (Pair linktype) packets) new_input_file)"
    by (auto simp: reader_parse_def write_pcap_def)
qed

lemma single_interface_packets: "ng_packets [i] (map (NgPacket 0) packets) = map (Pair (ucast (ng_linktype i))) packets"
  by (induction packets) simp_all

lemma single_interface_ok:
  "list_all (\<lambda>p. length p \<le> 0xFFFFFF00) packets \<Longrightarrow> ng_ok [i] (map (NgPacket 0) packets)"
proof (induction packets)
  case Nil
  then show ?case by simp
next
  case (Cons p packets)
  have "length (padding (length p)) < 4" by (simp add: padding_def)
  with Cons show ?case by (simp add: packet_body_def)
qed

interpretation pcapng: capture_format write_pcapng PcapNGInputFile api for api
proof
  show "inputfile_open path (Some (write_pcapng linktype packets)) = Inr PcapNGInputFile" for path linktype and packets :: "byte list list"
    by (simp add: write_pcapng_def open_chooses)
next
  fix linktype :: u32 and packets :: "byte list list"
  assume l: "linktype < 65536" and p: "list_all (\<lambda>p. length p \<le> 0xFFFFFF00) packets"
  have lt: "ucast (ucast linktype :: u16) = linktype"
    using linktype_codec(2) [OF l] .
  show "reader_parse api PcapNGInputFile (write_pcapng linktype packets) new_input_file =
      map_option (\<lambda>f. (f, None)) (process_packets api (map (Pair linktype) packets) new_input_file)"
    using pcapng_loop_written [of "[]" "NgSection # NgInterface (ucast linktype) 0x40000 # map (NgPacket 0) packets" new_input_file "[]" api]
      single_interface_ok [OF p] lt
    by (simp add: reader_parse_def pcapng_parse_def write_pcapng_def single_interface_packets section_body_def)
qed

text \<open>The formats as data.\<close>

datatype file_format = Classic bool bool | PcapNG

fun write_capture :: "file_format \<Rightarrow> u32 \<Rightarrow> byte list list \<Rightarrow> byte list" where
  "write_capture (Classic swapped nano) = write_pcap swapped nano"
| "write_capture PcapNG = write_pcapng"

fun format_reader :: "file_format \<Rightarrow> reader" where
  "format_reader (Classic swapped nano) = PcapInputFile"
| "format_reader PcapNG = PcapNGInputFile"

interpretation any_format: capture_format "write_capture fmt" "format_reader fmt" api for fmt api
  by (cases fmt) (simp_all add: classic.capture_format_axioms pcapng.capture_format_axioms)

end
