(* ===== verification/Main_Program.thy ===== *)
theory Main_Program
  imports Capture_Readers "HOL-Library.Multiset"
begin

text \<open>
  The program (\<open>src/main.cpp\<close>): its options, the report it prints, the files it extracts and its exit status, as a
  function of its arguments and of the contents of the capture.

  The standard streams are strings, and the files written are a list of paths with contents, in the order of the
  writes.  The joining of paths is \<open>boost::filesystem\<close>'s, a parameter \<open>path_join\<close>; the reading of a file is a function
  \<open>contents\<close> that may fail.  What the file system answers to the extraction is a parameter too: a directory that cannot
  be created throws an exception that \<open>main\<close> does not handle, and a failing stream goes unnoticed.
\<close>

section \<open>Options\<close>

record cli_options =
  opt_verbose :: bool
  opt_plists :: bool
  opt_warnings :: bool
  opt_extract :: string
  opt_input :: string

definition new_cli_options :: cli_options where
  "new_cli_options = \<lparr>opt_verbose = False, opt_plists = False, opt_warnings = False, opt_extract = [], opt_input = []\<rparr>"

abbreviation (input) endl :: string where "endl \<equiv> [CHR 0x0A]"

definition usage :: "string \<Rightarrow> string" where
  "usage program =
     ''Usage: '' @ program @ '' [options] <capture_file.pcapng|capture_file.pcap>'' @ endl @ endl @
     ''Options:'' @ endl @
     ''  -v, --verbose        Show decoded protocol details (recovery commands, plist summaries,'' @ endl @
     ''                       DFU requests and anomalies)'' @ endl @
     ''  -p, --plists         Print every decoded USBMUX property list as XML'' @ endl @
     ''  -x, --extract <dir>  Write DFU images, recovery uploads and plist transcripts to <dir>'' @ endl @
     ''  -w, --warnings       Print packets that could not be decoded'' @ endl @
     ''  -h, --help           Show this help'' @ endl"

text \<open>The loop over the arguments: the program exits with a status and a message, or runs with options.\<close>

datatype cli_result =
    CliExit nat string
  | CliRun cli_options

fun parse_arguments :: "string \<Rightarrow> string list \<Rightarrow> cli_options \<Rightarrow> cli_result" where
  "parse_arguments program [] opts =
     (if opt_input opts = [] then CliExit 1 (usage program) else CliRun opts)"
| "parse_arguments program (argument # rest) opts =
     (if argument = ''-v'' \<or> argument = ''--verbose'' then parse_arguments program rest (opts\<lparr>opt_verbose := True\<rparr>)
      else if argument = ''-p'' \<or> argument = ''--plists'' then parse_arguments program rest (opts\<lparr>opt_plists := True\<rparr>)
      else if argument = ''-w'' \<or> argument = ''--warnings'' then parse_arguments program rest (opts\<lparr>opt_warnings := True\<rparr>)
      else if argument = ''-x'' \<or> argument = ''--extract'' then
        (case rest of
           [] \<Rightarrow> CliExit 1 (usage program)
         | directory # rest' \<Rightarrow> parse_arguments program rest' (opts\<lparr>opt_extract := directory\<rparr>))
      else if argument = ''-h'' \<or> argument = ''--help'' then CliExit 0 (usage program)
      else if argument \<noteq> [] \<and> hd argument = CHR ''-''
      then CliExit 1 (''Unknown option '' @ argument @ endl @ usage program)
      else if opt_input opts = [] then parse_arguments program rest (opts\<lparr>opt_input := argument\<rparr>)
      else CliExit 1 (usage program))"

section \<open>Extraction\<close>

type_synonym written_file = "string \<times> byte list"

definition device_directory :: "(string \<Rightarrow> string \<Rightarrow> string) \<Rightarrow> string \<Rightarrow> nat \<Rightarrow> 'p device \<Rightarrow> string" where
  "device_directory path_join directory index d =
     path_join directory (''device-'' @ dec index @ ''-'' @ hex (unat (m_device_id d)))"

text \<open>The expert behind a pointer that \<open>getExperts\<close> returned.\<close>

definition expert_at :: "'p device \<Rightarrow> nat \<Rightarrow> 'p expert option" where
  "expert_at d p = elem_at p (m_experts d)"

fun traverse :: "('a \<Rightarrow> 'b option) \<Rightarrow> 'a list \<Rightarrow> 'b list option" where
  "traverse f [] = Some []"
| "traverse f (x # xs) = do { y \<leftarrow> f x; ys \<leftarrow> traverse f xs; Some (y # ys) }"

definition device_experts :: "'p device \<Rightarrow> 'p expert list option" where
  "device_experts d = traverse (expert_at d) (getExperts d)"

definition extracted_line :: "written_file \<Rightarrow> string" where
  "extracted_line f = ''  Extracted '' @ fst f @ '' ('' @ dec (length (snd f)) @ '' bytes)'' @ endl"

text \<open>
  The answers of the file system to the extraction, which may depend on the files stored so far.  \<open>make_directories\<close> is
  \<open>fs::create_directories\<close>: \<open>None\<close> when the directory is there afterwards, and otherwise what the \<open>filesystem_error\<close> says.
  \<open>store_file\<close> is the \<open>std::ofstream\<close>: \<open>None\<close> when the file does not open, and otherwise the bytes that it holds after the
  write.  The streams do not throw, so the code goes on in any case.
\<close>

record output_system =
  make_directories :: "written_file list \<Rightarrow> string \<Rightarrow> string option"
  store_file :: "written_file list \<Rightarrow> string \<Rightarrow> byte list \<Rightarrow> byte list option"

text \<open>What is printed, the files stored so far, and the exception that ended it.\<close>

type_synonym extraction = "string \<times> written_file list \<times> string option"

definition store_artifact :: "output_system \<Rightarrow> string \<Rightarrow> byte list \<Rightarrow> written_file list \<Rightarrow> written_file list" where
  "store_artifact out path data stored =
     (case store_file out stored path data of None \<Rightarrow> stored | Some bytes \<Rightarrow> stored @ [(path, bytes)])"

fun write_artifacts :: "output_system \<Rightarrow> (string \<Rightarrow> string \<Rightarrow> string) \<Rightarrow> string \<Rightarrow> extracted_artifact list \<Rightarrow> written_file list \<Rightarrow> extraction" where
  "write_artifacts out path_join directory [] stored = ([], stored, None)"
| "write_artifacts out path_join directory (a # as) stored =
     (case make_directories out stored directory of
        Some thrown \<Rightarrow> ([], stored, Some thrown)
      | None \<Rightarrow>
          let path = path_join directory (artifact_name a);
              (text, stored', thrown) = write_artifacts out path_join directory as (store_artifact out path (artifact_data a) stored)
          in (extracted_line (path, artifact_data a) @ text, stored', thrown))"

definition extract_artifacts :: "output_system \<Rightarrow> 'p plist_api \<Rightarrow> (string \<Rightarrow> string \<Rightarrow> string) \<Rightarrow> string \<Rightarrow> nat \<Rightarrow> 'p device \<Rightarrow>
    written_file list \<Rightarrow> extraction option" where
  "extract_artifacts out api path_join directory index d stored = do {
     es \<leftarrow> device_experts d;
     Some (write_artifacts out path_join (device_directory path_join directory index d) (concat (map (expert_getArtifacts api) es)) stored)
   }"

section \<open>The report\<close>

definition message_report :: "'p plist_api \<Rightarrow> u64 \<Rightarrow> 'p mux_message \<Rightarrow> string" where
  "message_report api i message =
     ''    --- stream '' @ hex (unat i) @ '' '' @
     (if outbound message then ''host -> device'' else ''device -> host'') @ '' ---'' @ endl @ xml api message"

definition plists_report :: "'p plist_api \<Rightarrow> 'p expert \<Rightarrow> string" where
  "plists_report api e =
     (case e of
        ExpertUSBMUX u \<Rightarrow> concat (map (\<lambda>(i, stream). concat (map (message_report api i) (m_messages stream))) (m_streams u))
      | _ \<Rightarrow> [])"

definition expert_report :: "'p plist_api \<Rightarrow> cli_options \<Rightarrow> 'p expert \<Rightarrow> string" where
  "expert_report api opts e =
     (if expert_isEmpty e then []
      else ''    '' @ expert_toString e @ endl @ (if opt_verbose opts then expert_details api e else []) @
        (if opt_plists opts then plists_report api e else []))"

definition device_summary :: "cli_options \<Rightarrow> 'p device \<Rightarrow> string" where
  "device_summary opts d =
     endl @ endl @ ''Device ID: '' @ hex (unat (m_device_id d)) @ endl @
     (if m_hasDeviceDescriptor d
      then ''  VID/PID: '' @ zero_pad 4 (hex (unat (idVendor (m_deviceDescriptor d)))) @ '':'' @
        zero_pad 4 (hex (unat (idProduct (m_deviceDescriptor d)))) @ '' ('' @ getMode d @ '' mode)'' @ endl
      else []) @
     ''  Manufacturer: '' @ getManufacturer d @ endl @ ''  Product: '' @ getProduct d @ endl @
     ''  Serial: '' @ getSerial d @ endl @
     ''  Statistics: '' @ dec (unat (m_packetCount d)) @ '' packets and '' @ dec (unat (m_byteCount d)) @
     '' bytes. (control '' @ dec (unat (m_controlPacketCount d)) @ '' packets, '' @
     dec (unat (m_controlByteCount d)) @ '' bytes).'' @ endl @
     (if opt_verbose opts then concat (map (\<lambda>a. ''  ! '' @ a @ endl) (m_anomalies d)) else [])"

definition device_report :: "output_system \<Rightarrow> 'p plist_api \<Rightarrow> (string \<Rightarrow> string \<Rightarrow> string) \<Rightarrow> cli_options \<Rightarrow> nat \<times> 'p device \<Rightarrow>
    written_file list \<Rightarrow> extraction option" where
  "device_report out api path_join opts x stored = (case x of (index, d) \<Rightarrow> do {
     es \<leftarrow> device_experts d;
     let report = device_summary opts d @ ''  Interface Experts:'' @ endl @ concat (map (expert_report api opts) es);
     (extracted, stored, thrown) \<leftarrow>
       (if opt_extract opts \<noteq> [] then extract_artifacts out api path_join (opt_extract opts) index d stored else Some ([], stored, None));
     Some (report @ extracted, stored, thrown)
   })"

text \<open>The loop over the devices, which an exception leaves.\<close>

fun report_devices :: "output_system \<Rightarrow> 'p plist_api \<Rightarrow> (string \<Rightarrow> string \<Rightarrow> string) \<Rightarrow> cli_options \<Rightarrow> (nat \<times> 'p device) list \<Rightarrow>
    written_file list \<Rightarrow> extraction option" where
  "report_devices out api path_join opts [] stored = Some ([], stored, None)"
| "report_devices out api path_join opts (x # xs) stored = do {
     (report, stored, thrown) \<leftarrow> device_report out api path_join opts x stored;
     if thrown \<noteq> None then Some (report, stored, thrown)
     else do {
       (reports, stored, thrown) \<leftarrow> report_devices out api path_join opts xs stored;
       Some (report @ reports, stored, thrown)
     }
   }"

definition warnings_report :: "cli_options \<Rightarrow> 'p input_file \<Rightarrow> string" where
  "warnings_report opts f =
     (if m_warningCount f > 0 then
        endl @ dec (unat (m_warningCount f)) @ '' packets could not be fully decoded'' @
        (if opt_warnings opts then '':'' else '' (use --warnings to list them)'') @ endl @
        (if opt_warnings opts then
           concat (map (\<lambda>w. ''  '' @ w @ endl) (m_warnings f)) @
           (if unat (m_warningCount f) > length (m_warnings f) then ''  ...'' @ endl else [])
         else [])
      else [])"

section \<open>The program\<close>

record run_output =
  standard_output :: string
  standard_error :: string
  written_files :: "written_file list"

record run_result = run_output +
  exit_status :: nat

text \<open>\<open>main\<close> returns a status, or an exception that nothing handles terminates the program; then the output is what it had written.\<close>

datatype program_end =
    Returned run_result
  | Terminated string run_output

definition exit_with :: "nat \<Rightarrow> string \<Rightarrow> run_result" where
  "exit_with status message = \<lparr>standard_output = [], standard_error = message, written_files = [], exit_status = status\<rparr>"

definition report_input :: "output_system \<Rightarrow> 'p plist_api \<Rightarrow> (string \<Rightarrow> string \<Rightarrow> string) \<Rightarrow> cli_options \<Rightarrow> string option \<Rightarrow>
    'p input_file \<Rightarrow> program_end option" where
  "report_input out api path_join opts failure f = do {
     ds \<leftarrow> getDevices f;
     (reports, stored, thrown) \<leftarrow> report_devices out api path_join opts (List.enumerate 0 ds) [];
     let errors = (case failure of None \<Rightarrow> []
         | Some message \<Rightarrow> ''Error: '' @ message @ endl @ ''Reporting what was parsed before the error.'' @ endl);
     Some (case thrown of
         Some what \<Rightarrow> Terminated what \<lparr>standard_output = reports, standard_error = errors, written_files = stored\<rparr>
       | None \<Rightarrow> Returned \<lparr>standard_output = reports, standard_error = errors @ warnings_report opts f, written_files = stored,
           exit_status = 0\<rparr>)
   }"

text \<open>The program on the contents of its files, with any file system to extract to.\<close>

definition run_contents :: "output_system \<Rightarrow> 'p plist_api \<Rightarrow> (string \<Rightarrow> string \<Rightarrow> string) \<Rightarrow> (string \<Rightarrow> byte list option) \<Rightarrow> string \<Rightarrow>
    string list \<Rightarrow> program_end option" where
  "run_contents out api path_join contents program arguments =
     (case parse_arguments program arguments new_cli_options of
        CliExit status message \<Rightarrow> Some (Returned (exit_with status message))
      | CliRun opts \<Rightarrow>
          (case inputfile_open (opt_input opts) (contents (opt_input opts)) of
             Inl message \<Rightarrow> Some (Returned (exit_with 1 (''Error: '' @ message @ endl)))
           | Inr reader \<Rightarrow> do {
               data \<leftarrow> contents (opt_input opts);
               (f, failure) \<leftarrow> reader_parse api reader data new_input_file;
               report_input out api path_join opts failure f
             }))"

text \<open>
  The program on a file system that creates the directories it is asked for and stores the files whole: then it always
  returns.  The properties of what is extracted are about this run.
\<close>

definition accepting :: output_system where
  "accepting = \<lparr>make_directories = \<lambda>stored directory. None, store_file = \<lambda>stored path data. Some data\<rparr>"

definition run_program :: "'p plist_api \<Rightarrow> (string \<Rightarrow> string \<Rightarrow> string) \<Rightarrow> (string \<Rightarrow> byte list option) \<Rightarrow> string \<Rightarrow> string list \<Rightarrow> run_result option" where
  "run_program api path_join contents program arguments = do {
     ended \<leftarrow> run_contents accepting api path_join contents program arguments;
     case ended of Returned r \<Rightarrow> Some r | Terminated what r \<Rightarrow> None
   }"

section \<open>What the program stores, and how it ends\<close>

lemma traverse_ok: "(\<And>x. x \<in> set xs \<Longrightarrow> \<exists>y. f x = Some y) \<Longrightarrow> \<exists>ys. traverse f xs = Some ys \<and> list_all2 (\<lambda>x y. f x = Some y) xs ys"
proof (induction xs)
  case Nil
  then show ?case by simp
next
  case (Cons x xs)
  obtain y where "f x = Some y" using Cons.prems by force
  moreover obtain ys where "traverse f xs = Some ys" "list_all2 (\<lambda>x y. f x = Some y) xs ys"
    using Cons.IH Cons.prems by force
  ultimately show ?case by simp
qed

lemma device_experts_ok: "device_ok d \<Longrightarrow> device_experts d = Some (map (\<lambda>p. m_experts d ! p) (getExperts d))"
proof -
  assume d: "device_ok d"
  have "traverse (expert_at d) ps = Some (map (\<lambda>p. m_experts d ! p) ps)" if "set ps \<subseteq> set (getExperts d)" for ps
    using that getExperts_valid [OF d] by (induction ps) (auto simp: expert_at_def)
  then show ?thesis by (simp add: device_experts_def)
qed

text \<open>The files of a device: every artifact of every expert it reports, in their order, in its directory.\<close>

definition device_files :: "'p plist_api \<Rightarrow> (string \<Rightarrow> string \<Rightarrow> string) \<Rightarrow> string \<Rightarrow> nat \<Rightarrow> 'p device \<Rightarrow> written_file list" where
  "device_files api path_join directory k d =
     concat (map (\<lambda>p. map (\<lambda>a. (path_join (device_directory path_join directory k d) (artifact_name a), artifact_data a))
       (expert_getArtifacts api (m_experts d ! p))) (getExperts d))"

definition capture_files :: "'p plist_api \<Rightarrow> (string \<Rightarrow> string \<Rightarrow> string) \<Rightarrow> string \<Rightarrow> 'p device list \<Rightarrow> written_file list" where
  "capture_files api path_join directory ds =
     (if directory = [] then [] else concat (map (\<lambda>(k, d). device_files api path_join directory k d) (List.enumerate 0 ds)))"

text \<open>The same files, each with the directory that has to be there first.\<close>

definition device_stores :: "'p plist_api \<Rightarrow> (string \<Rightarrow> string \<Rightarrow> string) \<Rightarrow> string \<Rightarrow> nat \<times> 'p device \<Rightarrow> (string \<times> written_file) list" where
  "device_stores api path_join directory x =
     (if directory = [] then []
      else map (Pair (device_directory path_join directory (fst x) (snd x))) (device_files api path_join directory (fst x) (snd x)))"

definition capture_stores :: "'p plist_api \<Rightarrow> (string \<Rightarrow> string \<Rightarrow> string) \<Rightarrow> string \<Rightarrow> 'p device list \<Rightarrow> (string \<times> written_file) list" where
  "capture_stores api path_join directory ds = concat (map (device_stores api path_join directory) (List.enumerate 0 ds))"

lemma capture_stores_files: "map snd (capture_stores api path_join directory ds) = capture_files api path_join directory ds"
proof -
  have "map snd (device_stores api path_join directory x) = (if directory = [] then [] else device_files api path_join directory (fst x) (snd x))" for x
    by (simp add: device_stores_def comp_def)
  moreover have "concat (map (\<lambda>x. []) xs) = []" for xs :: "(nat \<times> 'a device) list" by (induction xs) simp_all
  ultimately show ?thesis by (simp add: capture_stores_def capture_files_def map_concat comp_def case_prod_unfold)
qed

text \<open>
  What becomes of a list of stores: the first one whose directory is refused, after the files of those before it, ends
  the program.
\<close>

definition stored_files :: "output_system \<Rightarrow> (string \<times> written_file) list \<Rightarrow> written_file list \<Rightarrow> written_file list" where
  "stored_files out xs stored = fold (\<lambda>x. store_artifact out (fst (snd x)) (snd (snd x))) xs stored"

definition refusal :: "output_system \<Rightarrow> (string \<times> written_file) list \<Rightarrow> written_file list \<Rightarrow> nat \<Rightarrow> string option" where
  "refusal out xs stored k = make_directories out (stored_files out (take k xs) stored) (fst (xs ! k))"

definition first_refused :: "output_system \<Rightarrow> (string \<times> written_file) list \<Rightarrow> written_file list \<Rightarrow> nat option" where
  "first_refused out xs stored = find (\<lambda>k. refusal out xs stored k \<noteq> None) [0..<length xs]"

fun store_all :: "output_system \<Rightarrow> (string \<times> written_file) list \<Rightarrow> written_file list \<Rightarrow> written_file list \<times> string option" where
  "store_all out [] stored = (stored, None)"
| "store_all out (x # xs) stored =
     (case make_directories out stored (fst x) of
        Some thrown \<Rightarrow> (stored, Some thrown)
      | None \<Rightarrow> store_all out xs (store_artifact out (fst (snd x)) (snd (snd x)) stored))"

lemma find_map: "find P (map f xs) = map_option f (find (P \<circ> f) xs)"
  by (induction xs) simp_all

lemma first_refused_Cons:
  "first_refused out (x # xs) stored =
     (if make_directories out stored (fst x) \<noteq> None then Some 0
      else map_option Suc (first_refused out xs (store_artifact out (fst (snd x)) (snd (snd x)) stored)))"
proof -
  let ?next = "store_artifact out (fst (snd x)) (snd (snd x)) stored"
  have "refusal out (x # xs) stored 0 = make_directories out stored (fst x)" by (simp add: refusal_def stored_files_def)
  moreover have "(\<lambda>k. refusal out (x # xs) stored k \<noteq> None) \<circ> Suc = (\<lambda>k. refusal out xs ?next k \<noteq> None)"
    by (simp add: fun_eq_iff refusal_def stored_files_def)
  moreover have "[0..<length (x # xs)] = 0 # map Suc [0..<length xs]"
    by (simp add: upt_conv_Cons map_Suc_upt del: upt_Suc)
  ultimately show ?thesis unfolding first_refused_def by (simp add: find_map)
qed

lemma store_all_refused:
  "store_all out xs stored =
     (case first_refused out xs stored of
        None \<Rightarrow> (stored_files out xs stored, None)
      | Some k \<Rightarrow> (stored_files out (take k xs) stored, refusal out xs stored k))"
proof (induction xs arbitrary: stored)
  case Nil
  then show ?case by (simp add: first_refused_def stored_files_def)
next
  case (Cons x xs)
  then show ?case
    by (cases "make_directories out stored (fst x)")
      (auto simp: first_refused_Cons stored_files_def refusal_def split: option.split)
qed

lemma store_all_append:
  "store_all out (xs @ ys) stored =
     (case store_all out xs stored of (stored', thrown) \<Rightarrow> if thrown = None then store_all out ys stored' else (stored', thrown))"
  by (induction xs arbitrary: stored) (auto split: option.split)

lemma store_all_accepting: "store_all accepting xs stored = (stored @ map snd xs, None)"
  by (induction xs arbitrary: stored) (simp_all add: accepting_def store_artifact_def)

lemma write_artifacts_stores:
  "\<exists>text. write_artifacts out path_join directory as stored =
     (text, store_all out (map (\<lambda>a. (directory, path_join directory (artifact_name a), artifact_data a)) as) stored)"
proof (induction "as" arbitrary: stored)
  case (Cons a "as")
  show ?case
  proof (cases "make_directories out stored directory")
    case None
    obtain printed where "write_artifacts out path_join directory as
        (store_artifact out (path_join directory (artifact_name a)) (artifact_data a) stored) =
      (printed, store_all out (map (\<lambda>a. (directory, path_join directory (artifact_name a), artifact_data a)) as)
        (store_artifact out (path_join directory (artifact_name a)) (artifact_data a) stored))"
      using Cons.IH by blast
    then show ?thesis by (simp add: None Let_def split: prod.split)
  qed simp
qed simp

lemma device_report_stores:
  assumes "device_ok (snd x)"
  shows "\<exists>text. device_report out api path_join opts x stored =
    Some (text, store_all out (device_stores api path_join (opt_extract opts) x) stored)"
proof -
  obtain k d where x: "x = (k, d)" by fastforce
  let ?dir = "device_directory path_join (opt_extract opts) k d"
  let ?as = "concat (map (expert_getArtifacts api) (map (\<lambda>p. m_experts d ! p) (getExperts d)))"
  obtain printed where "write_artifacts out path_join ?dir ?as stored =
      (printed, store_all out (map (\<lambda>a. (?dir, path_join ?dir (artifact_name a), artifact_data a)) ?as) stored)"
    using write_artifacts_stores by blast
  moreover have "map (\<lambda>a. (?dir, path_join ?dir (artifact_name a), artifact_data a)) ?as =
      map (Pair ?dir) (device_files api path_join (opt_extract opts) k d)"
    by (simp add: device_files_def map_concat comp_def)
  ultimately show ?thesis
    using assms by (simp add: x device_report_def extract_artifacts_def device_experts_ok device_stores_def Let_def split: prod.split)
qed

lemma report_devices_stores:
  "\<forall>x \<in> set xs. device_ok (snd x) \<Longrightarrow>
   \<exists>text. report_devices out api path_join opts xs stored =
     Some (text, store_all out (concat (map (device_stores api path_join (opt_extract opts)) xs)) stored)"
proof (induction xs arbitrary: stored)
  case (Cons x xs)
  obtain printed where printed: "device_report out api path_join opts x stored =
      Some (printed, store_all out (device_stores api path_join (opt_extract opts) x) stored)"
    using device_report_stores [of x out api path_join opts stored] Cons.prems by auto
  obtain stored' thrown where one: "store_all out (device_stores api path_join (opt_extract opts) x) stored = (stored', thrown)"
    by fastforce
  obtain printed' where "report_devices out api path_join opts xs stored' =
      Some (printed', store_all out (concat (map (device_stores api path_join (opt_extract opts)) xs)) stored')"
    using Cons.IH [of stored'] Cons.prems by auto
  then show ?case by (simp add: printed one store_all_append split: prod.split)
qed simp

lemma getDevices_ok:
  assumes "file_ok f"
  shows "\<exists>ds. getDevices f = Some ds \<and> (\<forall>d \<in> set ds. device_ok d)"
proof -
  have "\<forall>d \<in> set (m_sessions (handle_at a f)). device_ok d" for a
    using handle_at_ok [OF assms, of a] by (simp add: handle_ok_def sessions_ok_def)
  then show ?thesis by (auto simp: getDevices_eq [OF assms])
qed

text \<open>How a report ends: with the first directory that is refused, or in order.\<close>

definition ends_with :: "output_system \<Rightarrow> (string \<times> written_file) list \<Rightarrow> program_end \<Rightarrow> bool" where
  "ends_with out xs ended \<longleftrightarrow>
     (case first_refused out xs [] of
        None \<Rightarrow> \<exists>r. ended = Returned r \<and> exit_status r = 0 \<and> written_files r = stored_files out xs []
      | Some k \<Rightarrow> \<exists>what r. ended = Terminated what r \<and> refusal out xs [] k = Some what \<and>
          written_files r = stored_files out (take k xs) [])"

lemma report_input_ends:
  assumes "file_ok f" and "getDevices f = Some ds"
  shows "\<exists>ended. report_input out api path_join opts failure f = Some ended \<and>
    ends_with out (capture_stores api path_join (opt_extract opts) ds) ended"
proof -
  let ?xs = "capture_stores api path_join (opt_extract opts) ds"
  have "\<forall>x \<in> set (List.enumerate 0 ds). device_ok (snd x)"
    using getDevices_ok [OF assms(1)] assms(2) by (auto simp: enumerate_eq_zip dest: set_zip_rightD)
  from report_devices_stores [OF this] obtain printed where
    printed: "report_devices out api path_join opts (List.enumerate 0 ds) [] = Some (printed, store_all out ?xs [])"
    unfolding capture_stores_def by blast
  show ?thesis
  proof (cases "first_refused out ?xs []")
    case None
    then show ?thesis by (simp add: report_input_def assms(2) printed store_all_refused ends_with_def)
  next
    case (Some k)
    then have "refusal out ?xs [] k \<noteq> None"
      unfolding first_refused_def by (metis (mono_tags, lifting) find_Some_iff)
    with Some show ?thesis by (auto simp: report_input_def assms(2) printed store_all_refused ends_with_def)
  qed
qed

lemma report_input_accepting:
  assumes "file_ok f" and "getDevices f = Some ds"
  shows "\<exists>r. report_input accepting api path_join opts failure f = Some (Returned r) \<and> exit_status r = 0 \<and>
    written_files r = capture_files api path_join (opt_extract opts) ds"
proof -
  let ?xs = "capture_stores api path_join (opt_extract opts) ds"
  have first: "first_refused accepting ?xs [] = None"
    by (simp add: first_refused_def find_None_iff refusal_def accepting_def)
  then have none: "first_refused accepting ?xs [] = None" "stored_files accepting ?xs [] = map snd ?xs"
    using store_all_accepting [of ?xs "[]"] by (simp_all add: store_all_refused)
  from report_input_ends [OF assms, of accepting api path_join opts failure] show ?thesis
    unfolding ends_with_def none capture_stores_files by auto
qed

text \<open>A run on a capture that can be opened.\<close>

lemma run_program_opened:
  assumes "parse_arguments program arguments new_cli_options = CliRun opts"
    and "contents (opt_input opts) = Some data" and "inputfile_open (opt_input opts) (Some data) = Inr reader"
    and "reader_parse api reader data new_input_file = Some (f, failure)" and "file_ok f" and "getDevices f = Some ds"
  shows "\<exists>r. run_program api path_join contents program arguments = Some r \<and> exit_status r = 0 \<and>
    written_files r = capture_files api path_join (opt_extract opts) ds"
  using report_input_accepting [OF assms(5,6), of api path_join opts failure] assms(1-4)
  by (auto simp: run_program_def run_contents_def)

lemma parse_arguments_status: "parse_arguments program as opts = CliExit s m \<Longrightarrow> s \<le> 1"
  by (induction program as opts rule: parse_arguments.induct) (auto split: if_splits list.splits)

section \<open>Extraction is exact\<close>

text \<open>The pointers to experts that the interfaces of a device hold.\<close>

definition expert_pointers :: "'p device \<Rightarrow> nat set" where
  "expert_pointers d = {p. \<exists>v c i. (v, c) \<in> set (m_configurations d) \<and> i \<in> set (interfaces c) \<and> iface_expert i = Some p}"

lemma expert_pointers: "set (getExperts d) = expert_pointers d"
proof -
  have "set (List.map_filter f xs) = {y. \<exists>x \<in> set xs. f x = Some y}" for f :: "usb_interface \<Rightarrow> nat option" and xs
    by (induction xs) (auto simp: map_filter_simps split: option.split)
  then show ?thesis
    using getExperts_exact [of d] by (force simp: attached_pointers_def expert_pointers_def om_values_def)
qed

definition artifact_file :: "(string \<Rightarrow> string \<Rightarrow> string) \<Rightarrow> string \<Rightarrow> extracted_artifact \<Rightarrow> written_file" where
  "artifact_file path_join directory a = (path_join directory (artifact_name a), artifact_data a)"

lemma device_files_mset:
  "mset (device_files api path_join directory k d) =
     (\<Sum>p \<in> expert_pointers d. image_mset (artifact_file path_join (device_directory path_join directory k d))
        (mset (expert_getArtifacts api (m_experts d ! p))))"
proof -
  have "mset (concat (map f ps)) = (\<Sum>p \<leftarrow> ps. mset (f p))" for f :: "nat \<Rightarrow> written_file list" and ps
    by (induction ps) simp_all
  then have "mset (device_files api path_join directory k d) =
      (\<Sum>p \<leftarrow> getExperts d. image_mset (artifact_file path_join (device_directory path_join directory k d))
        (mset (expert_getArtifacts api (m_experts d ! p))))"
    by (simp add: device_files_def artifact_file_def [abs_def])
  then show ?thesis using getExperts_exact [of d] by (simp add: sum_list_distinct_conv_sum_set expert_pointers)
qed

lemma capture_files_mset:
  assumes "directory \<noteq> []"
  shows "mset (capture_files api path_join directory ds) =
     (\<Sum>k < length ds. \<Sum>p \<in> expert_pointers (ds ! k).
        image_mset (artifact_file path_join (device_directory path_join directory k (ds ! k)))
          (mset (expert_getArtifacts api (m_experts (ds ! k) ! p))))"
proof -
  have "mset (concat (map (\<lambda>(k, d). device_files api path_join directory k d) (List.enumerate 0 ds))) =
      (\<Sum>k < length ds. mset (device_files api path_join directory k (ds ! k)))"
  proof (induction ds rule: rev_induct)
    case (snoc d ds)
    have "(\<Sum>k < length ds. mset (device_files api path_join directory k ((ds @ [d]) ! k))) =
        (\<Sum>k < length ds. mset (device_files api path_join directory k (ds ! k)))"
      by (rule sum.cong) (simp_all add: nth_append)
    with snoc show ?case by (simp add: enumerate_append_eq)
  qed simp
  with assms show ?thesis by (simp add: capture_files_def device_files_mset)
qed

text \<open>
  C13: Extraction is complete and exact.  When the capture can be opened (also when it turns out to be corrupt, for what
  was read before the error), the files written are, as a multiset, the artifacts of the experts that the interfaces of
  the devices point to: each expert counts once for its device, however many interfaces and configurations share
  it, and each of its artifacts is written once, in the directory of the device.  Without the option nothing is written.
\<close>

theorem extraction_exact:
  assumes "parse_arguments program arguments new_cli_options = CliRun opts"
    and "contents (opt_input opts) = Some data" and "inputfile_open (opt_input opts) (Some data) = Inr reader"
  shows "\<exists>f failure ds r. reader_parse api reader data new_input_file = Some (f, failure) \<and> getDevices f = Some ds \<and>
    run_program api path_join contents program arguments = Some r \<and> exit_status r = 0 \<and>
    mset (written_files r) =
      (if opt_extract opts = [] then {#}
       else \<Sum>k < length ds. \<Sum>p \<in> expert_pointers (ds ! k).
         image_mset (artifact_file path_join (device_directory path_join (opt_extract opts) k (ds ! k)))
           (mset (expert_getArtifacts api (m_experts (ds ! k) ! p))))"
proof -
  obtain f failure where f: "reader_parse api reader data new_input_file = Some (f, failure)" "file_ok f"
    using reader_parse_ok by blast
  obtain ds where ds: "getDevices f = Some ds" using getDevices_ok [OF f(2)] by blast
  obtain r where r: "run_program api path_join contents program arguments = Some r" "exit_status r = 0"
      "written_files r = capture_files api path_join (opt_extract opts) ds"
    using run_program_opened [where path_join = path_join and contents = contents and opts = opts, OF assms f ds] by blast
  have "opt_extract opts = [] \<Longrightarrow> capture_files api path_join (opt_extract opts) ds = []" by (simp add: capture_files_def)
  with f(1) ds r show ?thesis by (simp add: capture_files_mset)
qed

theorem extraction_exact_witness:
  "\<exists>f failure ds r. reader_parse sample_api PcapInputFile (write_pcap_header False False 266) new_input_file = Some (f, failure) \<and>
    getDevices f = Some ds \<and>
    run_program sample_api (\<lambda>a b. a @ ''/'' @ b) (\<lambda>path. Some (write_pcap_header False False 266)) ''demuxusb'' [''-x'', ''out'', ''in.pcap''] = Some r \<and>
    exit_status r = 0 \<and>
    mset (written_files r) = (\<Sum>k < length ds. \<Sum>p \<in> expert_pointers (ds ! k).
      image_mset (artifact_file (\<lambda>a b. a @ ''/'' @ b) (device_directory (\<lambda>a b. a @ ''/'' @ b) ''out'' k (ds ! k)))
        (mset (expert_getArtifacts sample_api (m_experts (ds ! k) ! p))))"
  using extraction_exact [where data = "write_pcap_header False False 266" and reader = PcapInputFile
      and opts = "\<lparr>opt_verbose = False, opt_plists = False, opt_warnings = False, opt_extract = ''out'', opt_input = ''in.pcap''\<rparr>"
      and contents = "\<lambda>path. Some (write_pcap_header False False 266)" and arguments = "[''-x'', ''out'', ''in.pcap'']"
      and path_join = "\<lambda>a b. a @ ''/'' @ b" and program = "''demuxusb''" and api = sample_api]
    open_chooses(1) [of _ False False 266 "[]"]
  by (simp add: new_cli_options_def)

end
