(* ===== verification/Firmware.thy ===== *)
theory Firmware
  imports Main_Program
begin

text \<open>
  A firmware download over DFU, from the capture to the extracted file.  The components meet here: the transfers of an
  address, as \<open>DeviceHandle\<close> completes them, enumerate a device in DFU mode, the \<open>Device\<close> attaches one
  \<open>DFUInterfaceExpert\<close> to its interfaces and hands it the class requests, and \<open>main\<close> writes its images.
\<close>

section \<open>Transfers that leave a device as it is\<close>

definition gets_descriptor :: "u16 \<Rightarrow> usb_setup_t \<Rightarrow> bool" where
  "gets_descriptor t setup \<longleftrightarrow> is_standard setup \<and> bmRequestType setup AND USB_RECIP_MASK = USB_RECIP_DEVICE \<and>
     bRequest setup = USB_REQ_GET_DESCRIPTOR \<and> drop_bit 8 (wValue setup) = t"

text \<open>
  Every transfer except the answer to a read of the device descriptor or of a whole configuration: strings, the first
  bytes of either, other standard, class and vendor requests, bulk transfers.
\<close>

fun quiet :: "device_event \<Rightarrow> bool" where
  "quiet (DeviceControlIn endpoint setup data) \<longleftrightarrow>
     \<not> (gets_descriptor 1 setup \<and> 18 \<le> length data) \<and> \<not> (gets_descriptor 2 setup \<and> 9 < length data)"
| "quiet _ \<longleftrightarrow> True"

definition same_identity :: "'p device \<Rightarrow> 'p device \<Rightarrow> bool" where
  "same_identity d d' \<longleftrightarrow> m_configurations d' = m_configurations d \<and>
     m_hasDeviceDescriptor d' = m_hasDeviceDescriptor d \<and> m_deviceDescriptor d' = m_deviceDescriptor d"

lemma processDescriptor_quiet:
  assumes "processDescriptor setup data d = Some d'"
    and "\<not> (drop_bit 8 (wValue setup) = 1 \<and> 18 \<le> length data)" and "\<not> (drop_bit 8 (wValue setup) = 2 \<and> 9 < length data)"
  shows "same_identity d d' \<and> m_experts d' = m_experts d"
proof (cases "readStruct descriptor_header_size decode_descriptor_header data")
  case None
  with assms(1) show ?thesis by (simp add: processDescriptor_def same_identity_def)
next
  case (Some header)
  let ?t = "drop_bit 8 (wValue setup)"
  consider "ucast (bDescriptorType header) \<noteq> ?t" | "ucast (bDescriptorType header) = ?t" "?t = 1" "length data < 18"
    | "ucast (bDescriptorType header) = ?t" "?t = 2" "length data \<le> 9"
    | "ucast (bDescriptorType header) = ?t" "?t \<noteq> 1" "?t \<noteq> 2" using assms(2,3) by fastforce
  then show ?thesis
  proof cases
    case 1
    with assms(1) Some show ?thesis by (auto simp: processDescriptor_def Let_def same_identity_def)
  next
    case 2
    with assms(1) Some show ?thesis by (simp add: processDescriptor_def Let_def same_identity_def USB_DT_DEVICE_SIZE_def)
  next
    case 3
    then have "process_config_descriptor data d = Some d'" using assms(1) Some by (simp add: processDescriptor_def Let_def)
    with 3(3) show ?thesis
      by (auto simp: process_config_descriptor_def USB_DT_CONFIG_SIZE_def readStruct_def same_identity_def split: if_splits)
  next
    case 4
    then show ?thesis
      using assms(1) Some
      by (auto simp: processDescriptor_def Let_def same_identity_def process_string_descriptor_def process_bos_descriptor_def
          elim!: bind_Some_elim split: if_splits option.splits)
  qed
qed

lemma same_identity_count [simp]:
  "same_identity (event_count ev d) d' = same_identity d d'" "same_identity (count_control data d) d' = same_identity d d'"
  "m_experts (count_control data d) = m_experts d"
  by (simp_all add: same_identity_def) (simp_all add: count_control_def)

lemma quiet_own:
  assumes "quiet ev" and "device_route d ev = None" and "device_own ev (event_count ev d) = Some d'"
  shows "same_identity d d' \<and> m_experts d' = m_experts d"
proof (cases ev)
  case (DeviceControlIn ep s data)
  show ?thesis
  proof (cases "ep AND 0x7F = 0 \<and> bRequest s = USB_REQ_GET_DESCRIPTOR \<and> bmRequestType s AND USB_RECIP_MASK = USB_RECIP_DEVICE")
    case True
    then have std: "is_standard s" using assms(2) DeviceControlIn by (auto split: if_splits)
    have "processDescriptor s data (count_control data d) = Some d'" using True assms(3) DeviceControlIn by simp
    moreover have "\<not> (drop_bit 8 (wValue s) = 1 \<and> 18 \<le> length data)" "\<not> (drop_bit 8 (wValue s) = 2 \<and> 9 < length data)"
      using True std assms(1) DeviceControlIn by (simp_all add: gets_descriptor_def)
    ultimately have "same_identity (count_control data d) d' \<and> m_experts d' = m_experts (count_control data d)"
      by (rule processDescriptor_quiet)
    then show ?thesis by simp
  next
    case False
    with assms(3) DeviceControlIn show ?thesis by (auto simp: same_identity_def count_control_def)
  qed
next
  case (DeviceControlOut ep s data)
  with assms(3) show ?thesis
    by (auto simp: same_identity_def standard_request_def Let_def count_control_def split: if_splits)
qed (use assms(2) in simp_all)

lemma quiet_step:
  assumes "device_ok d" and "quiet ev"
  shows "\<exists>d'. device_step api ev d = Some d' \<and> device_ok d' \<and> same_identity d d' \<and> length (m_experts d') = length (m_experts d) \<and>
    (\<forall>k < length (m_experts d). run_opt (virtual_step api) (calls_for k d [ev]) (m_experts d ! k) = Some (m_experts d' ! k))"
proof (cases "device_route d ev")
  case None
  obtain d' where d': "device_step api ev d = Some d'" "device_ok d'" using device_step_ok [OF assms(1)] by blast
  then have "same_identity d d' \<and> m_experts d' = m_experts d"
    using quiet_own [OF assms(2) None] None by (simp add: device_step_eq)
  with d' None show ?thesis by simp
next
  case (Some r)
  obtain q x where r: "r = (q, x)" by (cases r)
  have nr: "\<not> reroutes ev" using Some by (cases ev) (auto split: if_splits)
  obtain d' where d': "device_step api ev d = Some d'" "d' = (event_count ev d)\<lparr>m_experts := m_experts d'\<rparr>"
    using device_step_routed [OF assms(1) Some [unfolded r], of api] by blast
  have "same_identity d d'" by (subst d'(2)) (simp add: same_identity_def)
  with d'(1) device_step_stable [OF assms(1) nr, of api] show ?thesis by auto
qed

section \<open>Enumeration\<close>

text \<open>A device nothing is known of yet.\<close>

definition unknown_device :: "'p device \<Rightarrow> bool" where
  "unknown_device d \<longleftrightarrow> device_ok d \<and> m_configurations d = om_empty \<and> m_experts d = []"

lemma quiet_unknown:
  assumes "unknown_device d" and "quiet ev"
  shows "\<exists>d'. device_step api ev d = Some d' \<and> unknown_device d' \<and> same_identity d d'"
  using quiet_step [OF _ assms(2), of d api] assms(1) by (auto simp: unknown_device_def same_identity_def)

text \<open>The answers of a device in DFU mode: its device descriptor and a configuration.\<close>

definition dfu_mode_descriptor :: "byte list \<Rightarrow> bool" where
  "dfu_mode_descriptor data \<longleftrightarrow> 18 \<le> length data \<and> data ! 1 = USB_DT_DEVICE \<and>
     (let descriptor = decode_device_descriptor (take 18 data) in
      idVendor descriptor = APPLE_VID \<and> (idProduct descriptor = IRECV_K_DFU_MODE \<or> idProduct descriptor = IRECV_K_WTF_MODE))"

definition answered_configuration :: "byte list \<Rightarrow> usb_configuration option" where
  "answered_configuration data =
     (let n = unat (wTotalLength (decode_config_descriptor (take 9 data))) in
      if 9 < n \<and> n \<le> length data \<and> data ! 1 = USB_DT_CONFIG
      then Some (fold add_descriptor (fst (split_descriptors (take n data))) new_usb_configuration) else None)"

lemma header_type: "2 \<le> length data \<Longrightarrow> bDescriptorType (decode_descriptor_header (take 2 data)) = data ! 1"
  using field8_nth [of "Suc 0" "take 2 data"] by (simp add: decode_descriptor_header_def)

lemma descriptor_read:
  assumes "gets_descriptor t setup" and "USB_ENDPOINT_ID ep = 0"
  shows "processControlPacketIn api ep setup data d = processDescriptor setup data (count_control data d)"
  using assms by (simp add: gets_descriptor_def processControlPacketIn_def Let_def)

lemma device_descriptor_read:
  assumes "gets_descriptor 1 setup" and "18 \<le> length data" and "data ! 1 = USB_DT_DEVICE"
  shows "processDescriptor setup data d = Some (process_device_descriptor data d)"
proof -
  have "bDescriptorType (decode_descriptor_header (take 2 data)) = 1" using header_type [of data] assms(2,3) by simp
  with assms show ?thesis
    by (simp add: processDescriptor_def descriptor_header_size_def USB_DT_DEVICE_SIZE_def gets_descriptor_def Let_def)
qed

lemma configuration_read:
  assumes "gets_descriptor 2 setup" and "9 \<le> length data" and "data ! 1 = USB_DT_CONFIG"
  shows "processDescriptor setup data d = process_config_descriptor data d"
proof -
  have "bDescriptorType (decode_descriptor_header (take 2 data)) = 2" using header_type [of data] assms(2,3) by simp
  with assms show ?thesis
    by (simp add: processDescriptor_def descriptor_header_size_def gets_descriptor_def Let_def)
qed

lemma unknown_step: "unknown_device d \<Longrightarrow> \<exists>d'. device_step api ev d = Some d' \<and> device_ok d'"
  using device_step_ok [of d api ev] unfolding unknown_device_def by blast

lemma dfu_descriptor_read:
  assumes "unknown_device d" and "dfu_mode_descriptor data" and "gets_descriptor 1 setup" and "USB_ENDPOINT_ID ep = 0"
  shows "\<exists>d'. device_step api (DeviceControlIn ep setup data) d = Some d' \<and> unknown_device d' \<and> isAppleDFU d'"
proof -
  obtain d' where d': "device_step api (DeviceControlIn ep setup data) d = Some d'" "device_ok d'"
    using unknown_step [OF assms(1)] by blast
  then have "d' = process_device_descriptor data (count_control data d)"
    using assms(2) device_descriptor_read [OF assms(3), of data "count_control data d"] by (simp add: descriptor_read [OF assms(3,4)] dfu_mode_descriptor_def)
  with d' assms(1,2) show ?thesis
    by (auto simp: process_device_descriptor_def USB_DT_DEVICE_SIZE_def dfu_mode_descriptor_def unknown_device_def
        isAppleDFU_def count_control_def Let_def)
qed

section \<open>A device in DFU mode\<close>

text \<open>
  Its one configuration has one expert for all its interfaces: what the expert has of completed images, and of the one
  in flight.
\<close>

definition dfu_device :: "usb_configuration \<Rightarrow> byte list list \<Rightarrow> byte list \<Rightarrow> 'p device \<Rightarrow> bool" where
  "dfu_device c images current d \<longleftrightarrow> device_ok d \<and>
     (\<exists>v. m_configurations d = [(v, c\<lparr>interfaces := map (set_expert 0) (interfaces c)\<rparr>)]) \<and>
     (\<exists>e. m_experts d = [ExpertDFU e] \<and> m_images e = images \<and> m_currentImage e = current)"

lemma make_dfu_images: "\<exists>e. make_dfu c n = ExpertDFU e \<and> m_images e = [] \<and> m_currentImage e = []"
  by (simp add: make_dfu_def Let_def setTransferSize_def new_dfu_expert_def interface_expert.defs dfu_expert.defs
      new_interface_expert_def)

lemma dfu_configuration_read:
  assumes "unknown_device d" and "isAppleDFU d" and "answered_configuration data = Some c"
    and "gets_descriptor 2 setup" and "USB_ENDPOINT_ID ep = 0"
  shows "\<exists>d'. device_step api (DeviceControlIn ep setup data) d = Some d' \<and> dfu_device c [] [] d' \<and> m_experts d' = [make_dfu c 0]"
proof -
  obtain d' where d': "device_step api (DeviceControlIn ep setup data) d = Some d'" "device_ok d'"
    using unknown_step [OF assms(1)] by blast
  let ?n = "unat (wTotalLength (decode_config_descriptor (take 9 data)))"
  have n: "9 < ?n" "?n \<le> length data" "data ! 1 = USB_DT_CONFIG"
    and c: "c = fold add_descriptor (fst (split_descriptors (take ?n data))) new_usb_configuration"
    using assms(3) by (auto simp: answered_configuration_def Let_def split: if_splits)
  have wf: "configuration_wf c" unfolding c by (simp add: configuration_wf_fold)
  have parse: "usb_configuration_parse new_usb_configuration (take ?n data) =
      Some (snd (split_descriptors (take ?n data)) = [], c)"
    by (simp add: c usb_configuration_parse_def parse_loop_correct at_last_def new_usb_configuration_def)
  have heap: "m_configurations (count_control data d\<lparr>m_anomalies := as\<rparr>) = []"
      "m_experts (count_control data d\<lparr>m_anomalies := as\<rparr>) = []" "isAppleDFU (count_control data d\<lparr>m_anomalies := as\<rparr>)"
      "m_configurations (count_control data d) = []" "m_experts (count_control data d) = []" "isAppleDFU (count_control data d)"
      "m_experts d = []" for as
    using assms(1,2) by (simp_all add: unknown_device_def isAppleDFU_def count_control_def om_empty_def)
  have "process_config_descriptor data (count_control data d) = Some d'"
    using d'(1) n configuration_read [OF assms(4), of data "count_control data d"] by (simp add: descriptor_read [OF assms(4,5)])
  then have "m_configurations d' = [(bConfigurationValue (config_descriptor c), c\<lparr>interfaces := map (set_expert 0) (interfaces c)\<rparr>)] \<and>
      m_experts d' = [make_dfu c 0]"
    using n
    by (auto simp: process_config_descriptor_def USB_DT_CONFIG_SIZE_def parse Let_def om_contains_def attachExperts_eq [OF wf]
        attached_def heap split: if_splits)
  with d' make_dfu_images [of c 0] show ?thesis
    unfolding dfu_device_def by auto
qed

text \<open>The calls on the expert: class and vendor requests to the device or to one of its interfaces.\<close>

definition addressed :: "usb_configuration \<Rightarrow> usb_setup_t \<Rightarrow> bool" where
  "addressed c setup \<longleftrightarrow>
     (if bmRequestType setup AND USB_RECIP_MASK = USB_RECIP_INTERFACE
      then \<exists>i \<in> set (interfaces c). ucast (number_of i) = wIndex setup AND 0xFF else interfaces c \<noteq> [])"

fun dfu_call :: "usb_configuration \<Rightarrow> device_event \<Rightarrow> expert_event list" where
  "dfu_call c (DeviceControlIn endpoint setup data) =
     (if USB_ENDPOINT_ID endpoint = 0 \<and> \<not> is_standard setup \<and> addressed c setup then [ControlIn setup data] else [])"
| "dfu_call c (DeviceControlOut endpoint setup data) =
     (if USB_ENDPOINT_ID endpoint = 0 \<and> \<not> is_standard setup \<and> addressed c setup then [ControlOut setup data] else [])"
| "dfu_call c _ = []"

definition dfu_calls :: "usb_configuration \<Rightarrow> device_event list \<Rightarrow> expert_event list" where
  "dfu_calls c evs = concat (map (dfu_call c) evs)"

lemma interface_expert_of_shared:
  "interface_expert_of n (map (set_expert p) is) = (if \<exists>i \<in> set is. ucast (number_of i) = n then Some p else None)"
  by (induction "is") auto

lemma first_expert_shared: "first_expert (map (set_expert p) is) = (if is = [] then None else Some p)"
  by (cases "is") auto

lemma dfu_device_control:
  assumes "dfu_device c images current d"
  shows "getExpertForControl s d = (if addressed c s then Some 0 else None)"
proof -
  obtain v where "m_configurations d = [(v, c\<lparr>interfaces := map (set_expert 0) (interfaces c)\<rparr>)]"
    using assms by (auto simp: dfu_device_def)
  then have "control_configuration d = Some (c\<lparr>interfaces := map (set_expert 0) (interfaces c)\<rparr>)"
    by (simp add: control_configuration_def activeConfiguration_def)
  then show ?thesis
    by (simp add: getExpertForControl_def addressed_def interface_expert_of_shared first_expert_shared)
qed

text \<open>The expert of the device gets these calls, and possibly bulk transfers, which do not concern its images.\<close>

fun is_bulk_call :: "expert_event \<Rightarrow> bool" where
  "is_bulk_call (BulkIn data) = True"
| "is_bulk_call (BulkOut data) = True"
| "is_bulk_call _ = False"

lemma dfu_device_calls:
  assumes "dfu_device c images current d"
  shows "calls_for 0 d [ev] = dfu_call c ev \<or> dfu_call c ev = [] \<and> (\<exists>x. calls_for 0 d [ev] = [x] \<and> is_bulk_call x)"
  using dfu_device_control [OF assms] by (cases ev) auto

text \<open>One transfer.\<close>

lemma dfu_device_step:
  assumes "dfu_device c images current d" and "quiet ev"
  shows "\<exists>d'. device_step api ev d = Some d' \<and>
    (if list_ex ends_image (dfu_call c ev)
     then dfu_device c (images @ (if current = [] then [] else [current])) [] d'
     else dfu_device c images (current @ concat (map downloaded (dfu_call c ev))) d')"
proof -
  obtain e where e: "m_experts d = [ExpertDFU e]" "m_images e = images" "m_currentImage e = current" and ok: "device_ok d"
    using assms(1) by (auto simp: dfu_device_def)
  obtain d' where d': "device_step api ev d = Some d'" "device_ok d'" "same_identity d d'" "length (m_experts d') = 1"
    and run: "run_opt (virtual_step api) (calls_for 0 d [ev]) (ExpertDFU e) = Some (m_experts d' ! 0)"
    using quiet_step [OF ok assms(2), of api] e(1) by auto
  have dfu: "dfu_device c images' current' d'"
    if "m_experts d' ! 0 = ExpertDFU e'" "m_images e' = images'" "m_currentImage e' = current'" for e' images' current'
  proof -
    have "m_experts d' = [ExpertDFU e']" using that(1) d'(4) by (cases "m_experts d'") auto
    with that d'(2,3) assms(1) show ?thesis by (auto simp: dfu_device_def same_identity_def)
  qed
  have one: "\<exists>e'. dfu_step x e = Some e' \<and> m_experts d' ! 0 = ExpertDFU e'" if "calls_for 0 d [ev] = [x]" for x
  proof -
    have "virtual_step api x (ExpertDFU e) = Some (m_experts d' ! 0)"
      using run unfolding that by (cases "virtual_step api x (ExpertDFU e)") simp_all
    then show ?thesis by (auto simp: virtual_step_eq)
  qed
  consider "calls_for 0 d [ev] = []" "dfu_call c ev = []"
    | x where "calls_for 0 d [ev] = [x]" "dfu_call c ev = [x]" | x where "calls_for 0 d [ev] = [x]" "dfu_call c ev = []" "is_bulk_call x"
  proof -
    have "dfu_call c ev = [] \<or> (\<exists>x. dfu_call c ev = [x])" by (cases ev) auto
    with dfu_device_calls [OF assms(1), of ev] that show thesis by auto
  qed
  then show ?thesis
  proof cases
    case 1
    with run e d'(1) dfu [of e] show ?thesis by auto
  next
    case 2
    obtain e' where e': "dfu_step x e = Some e'" "m_experts d' ! 0 = ExpertDFU e'" using one [OF 2(1)] by blast
    with 2 d'(1) e dfu [of e'] dfu_step_images [OF e'(1)] show ?thesis by auto
  next
    case 3
    obtain e' where e': "dfu_step x e = Some e'" "m_experts d' ! 0 = ExpertDFU e'" using one [OF 3(1)] by blast
    have "\<not> ends_image x" "downloaded x = []" using 3(3) by (cases x; simp)+
    with 3 d'(1) e dfu [of e'] e' dfu_step_images(1) [OF e'(1)] show ?thesis by auto
  qed
qed

text \<open>A run of transfers that ends no image, and the zero length download that completes one.\<close>

lemma dfu_device_run:
  "dfu_device c images current d \<Longrightarrow> list_all quiet evs \<Longrightarrow> list_all (\<lambda>x. \<not> ends_image x) (dfu_calls c evs) \<Longrightarrow>
   \<exists>d'. run_opt (device_step api) evs d = Some d' \<and> dfu_device c images (current @ concat (map downloaded (dfu_calls c evs))) d'"
proof (induction evs arbitrary: current d)
  case Nil
  then show ?case by (simp add: dfu_calls_def)
next
  case (Cons ev evs)
  have none: "\<not> list_ex ends_image (dfu_call c ev)" using Cons.prems(3) by (auto simp: dfu_calls_def list_all_iff list_ex_iff)
  obtain d1 where d1: "device_step api ev d = Some d1" "dfu_device c images (current @ concat (map downloaded (dfu_call c ev))) d1"
    using dfu_device_step [OF Cons.prems(1), of ev api] Cons.prems(2) none by auto
  have "list_all (\<lambda>x. \<not> ends_image x) (dfu_calls c evs)" using Cons.prems(3) by (simp add: dfu_calls_def)
  then obtain d' where "run_opt (device_step api) evs d1 = Some d'"
     "dfu_device c images ((current @ concat (map downloaded (dfu_call c ev))) @ concat (map downloaded (dfu_calls c evs))) d'"
    using Cons.IH [OF d1(2)] Cons.prems(2) by auto
  with d1(1) show ?case by (simp add: dfu_calls_def)
qed

text \<open>The first image of a device, once complete, stays.\<close>

definition holds_image :: "byte list \<Rightarrow> 'p device \<Rightarrow> bool" where
  "holds_image img d \<longleftrightarrow> device_ok d \<and>
     (\<exists>v c i. om_find (m_configurations d) v = Some c \<and> i \<in> set (interfaces c) \<and> iface_expert i = Some 0) \<and>
     (\<exists>e es later. m_experts d = ExpertDFU e # es \<and> m_images e = img # later)"

lemma dfu_device_holds:
  assumes "dfu_device c [img] [] d" and "interfaces c \<noteq> []"
  shows "holds_image img d"
proof -
  obtain v where v: "m_configurations d = [(v, c\<lparr>interfaces := map (set_expert 0) (interfaces c)\<rparr>)]"
    using assms(1) by (auto simp: dfu_device_def)
  have "om_find (m_configurations d) v = Some (c\<lparr>interfaces := map (set_expert 0) (interfaces c)\<rparr>)" by (simp add: v)
  moreover have "set_expert 0 (hd (interfaces c)) \<in> set (interfaces (c\<lparr>interfaces := map (set_expert 0) (interfaces c)\<rparr>))"
    using assms(2) by simp
  ultimately show ?thesis using assms(1) unfolding holds_image_def dfu_device_def by fastforce
qed

lemma dfu_step_keeps_image: "dfu_step x e = Some e' \<Longrightarrow> m_images e = img # later \<Longrightarrow> \<exists>later'. m_images e' = img # later'"
  using dfu_step_images [of x e e'] by (cases "ends_image x") auto

lemma holds_image_step:
  assumes "holds_image img d" and "device_step api ev d = Some d'"
  shows "holds_image img d'"
proof -
  have ok: "device_ok d" using assms(1) by (simp add: holds_image_def)
  obtain e es later where e: "m_experts d = ExpertDFU e # es" "m_images e = img # later"
    using assms(1) by (auto simp: holds_image_def)
  have d': "device_ok d'" "\<And>k c. om_find (m_configurations d) k = Some c \<Longrightarrow> om_find (m_configurations d') k = Some c"
    using device_step_ok [OF ok, of api ev] assms(2) by auto
  have "\<exists>e' es' later'. m_experts d' = ExpertDFU e' # es' \<and> m_images e' = img # later'"
  proof (cases "device_route d ev")
    case None
    then obtain new where "m_experts d' = m_experts d @ new"
      using device_step_own [OF ok None, of api] assms(2) by (auto simp: learns_def)
    with e show ?thesis by simp
  next
    case (Some r)
    obtain q x where r: "r = (q, x)" by (cases r)
    have orig: "origins (m_experts d') = origins (m_experts d)"
      and all: "\<forall>k < length (m_experts d). (if q = Some k then virtual_step api x (m_experts d ! k) else Some (m_experts d ! k)) =
        Some (m_experts d' ! k)"
      using device_step_routed [OF ok Some [unfolded r], of api] assms(2) by (metis option.inject)+
    have len: "length (m_experts d') = length (m_experts d)" using arg_cong [OF orig, of length] by simp
    have upd: "(if q = Some 0 then virtual_step api x (ExpertDFU e) else Some (ExpertDFU e)) = Some (m_experts d' ! 0)"
      using all [rule_format, of 0] e(1) by (cases "q = Some 0") simp_all
    obtain e' later' where "m_experts d' ! 0 = ExpertDFU e'" "m_images e' = img # later'"
    proof (cases "q = Some 0")
      case True
      with upd obtain e' where "dfu_step x e = Some e'" "m_experts d' ! 0 = ExpertDFU e'" by (auto simp: virtual_step_eq)
      with that dfu_step_keeps_image [OF _ e(2)] show thesis by blast
    next
      case False
      then have "m_experts d' ! 0 = ExpertDFU e" using upd by simp
      with that e(2) show thesis by blast
    qed
    with len e(1) show ?thesis by (cases "m_experts d'") auto
  qed
  with assms(1) d' show ?thesis unfolding holds_image_def by blast
qed

lemma holds_image_extracted:
  assumes "holds_image img d"
  shows "\<exists>es e. device_experts d = Some es \<and> e \<in> set es \<and>
    \<lparr>artifact_name = ''dfu-image-0.bin'', artifact_data = img\<rparr> \<in> set (expert_getArtifacts api e)"
proof -
  obtain v c i where i: "om_find (m_configurations d) v = Some c" "i \<in> set (interfaces c)" "iface_expert i = Some 0"
    using assms by (auto simp: holds_image_def)
  obtain e es later where e: "m_experts d = ExpertDFU e # es" "m_images e = img # later"
    using assms by (auto simp: holds_image_def)
  have ok: "device_ok d" using assms by (simp add: holds_image_def)
  have "(v, c) \<in> set (m_configurations d)" by (rule om_find_Some_in) (rule i(1))
  then have "0 \<in> set (attached_pointers d)"
    using i(2,3) by (force simp: attached_pointers_def om_values_def map_filter_def)
  then have "0 \<in> set (getExperts d)" using getExperts_exact by metis
  then have "ExpertDFU e \<in> set (map (\<lambda>p. m_experts d ! p) (getExperts d))" using e(1) by force
  moreover have "dec 0 = ''0''" by code_simp
  then have "dfu_getArtifacts e ! 0 = \<lparr>artifact_name = ''dfu-image-0.bin'', artifact_data = img\<rparr>"
    "0 < length (dfu_getArtifacts e)"
    using e(2) nth_dfu_getArtifacts [of 0 e] by (simp_all add: getImages_def dfu_artifact_def)
  then have "\<lparr>artifact_name = ''dfu-image-0.bin'', artifact_data = img\<rparr> \<in> set (expert_getArtifacts api (ExpertDFU e))"
    using nth_mem by (fastforce simp: expert_getArtifacts_def)
  ultimately show ?thesis using device_experts_ok [OF ok] by blast
qed

section \<open>The transfers of an address\<close>

text \<open>What the handle of an address completes, in order.\<close>

fun completed_transfers :: "(transfer_key, pending) omap \<Rightarrow> transfer_event list \<Rightarrow> device_event list" where
  "completed_transfers m [] = []"
| "completed_transfers m (ev # evs) =
     (case completed m ev of None \<Rightarrow> [] | Some x \<Rightarrow> [x]) @ completed_transfers (inflight_step ev m) evs"

lemma handle_run_sessions:
  "run_opt (handle_step api) evs h = Some h' \<Longrightarrow>
   run_opt (session_step api (m_handle_id h)) (completed_transfers (m_inflight h) evs) (m_sessions h) = Some (m_sessions h')"
proof (induction evs arbitrary: h)
  case Nil
  then show ?case by simp
next
  case (Cons ev evs)
  then obtain h1 where h1: "handle_step api ev h = Some h1" "run_opt (handle_step api) evs h1 = Some h'"
    by (auto elim!: bind_Some_elim)
  show ?case
  proof (cases "completed (m_inflight h) ev")
    case None
    with h1 Cons.IH [OF h1(2)] show ?thesis by (auto simp: handle_step_eq advance_handle_def)
  next
    case (Some x)
    then obtain ds where ds: "session_step api (m_handle_id h) x (m_sessions h) = Some ds"
      "h1 = (advance_handle ev h)\<lparr>m_sessions := ds\<rparr>"
      using h1(1) by (auto simp: handle_step_eq)
    with Some Cons.IH [OF h1(2)] show ?thesis by (simp add: advance_handle_def)
  qed
qed

lemma quiet_no_session: "quiet ev \<Longrightarrow> \<not> opens_session ev d"
  by (cases ev) (auto simp: reenumerates_def isControlDescriptorRead_def gets_descriptor_def USB_DT_DEVICE_SIZE_def)

lemma session_single:
  "device_step api ev d = Some d' \<Longrightarrow> \<not> opens_session ev d \<Longrightarrow> session_step api i ev [d] = Some [d']"
  by (simp add: session_step_def)

lemma session_run_single:
  "list_all quiet evs \<Longrightarrow> run_opt (device_step api) evs d = Some d' \<Longrightarrow> run_opt (session_step api i) evs [d] = Some [d']"
  by (induction evs arbitrary: d) (auto simp: session_single quiet_no_session elim!: bind_Some_elim)

lemma quiet_run_unknown:
  "unknown_device d \<Longrightarrow> list_all quiet evs \<Longrightarrow>
   \<exists>d'. run_opt (device_step api) evs d = Some d' \<and> unknown_device d' \<and> same_identity d d'"
proof (induction evs arbitrary: d)
  case Nil
  then show ?case by (simp add: same_identity_def)
next
  case (Cons ev evs)
  obtain d1 where d1: "device_step api ev d = Some d1" "unknown_device d1" "same_identity d d1"
    using quiet_unknown [OF Cons.prems(1), of ev api] Cons.prems(2) by auto
  with Cons.IH [OF d1(2)] Cons.prems(2) show ?case by (auto simp: same_identity_def)
qed

text \<open>Whatever follows, some session of the address holds the image.\<close>

lemma session_step_holds:
  assumes "session_step api i ev ds = Some ds'" and "\<exists>d \<in> set ds. holds_image img d"
  shows "\<exists>d \<in> set ds'. holds_image img d"
proof (cases "opens_session ev (last ds)")
  case True
  with assms show ?thesis by (auto simp: session_step_def split: if_splits)
next
  case False
  then obtain d' where d': "device_step api ev (last ds) = Some d'" "ds' = butlast ds @ [d']" and ne: "ds \<noteq> []"
    using assms(1) by (auto simp: session_step_def split: if_splits)
  obtain d where d: "d \<in> set ds" "holds_image img d" using assms(2) by blast
  have "d \<in> set (butlast ds) \<or> d = last ds" using d(1) ne by (metis append_butlast_last_id in_set_conv_decomp_last rotate1.simps(2) set_ConsD set_rotate1)
  with d(2) d' holds_image_step [of img d api ev d'] show ?thesis by auto
qed

lemma session_run_holds:
  "run_opt (session_step api i) evs ds = Some ds' \<Longrightarrow> \<exists>d \<in> set ds. holds_image img d \<Longrightarrow> \<exists>d \<in> set ds'. holds_image img d"
proof (induction evs arbitrary: ds)
  case Nil
  then show ?case by simp
next
  case (Cons ev evs)
  then obtain ds1 where ds1: "session_step api i ev ds = Some ds1" "run_opt (session_step api i) evs ds1 = Some ds'"
    by (auto elim!: bind_Some_elim)
  from Cons.IH [OF ds1(2)] session_step_holds [OF ds1(1) Cons.prems(2)] show ?case by blast
qed

text \<open>The transfers of a firmware download: enumeration, blocks, and the zero length download that completes the image.\<close>

lemma firmware_received:
  assumes xs: "xs = before @ [DeviceControlIn ep1 s1 descriptor] @ between @ [DeviceControlIn ep2 s2 conf] @ blocks @
      [DeviceControlOut ep3 z rest] @ afterwards"
    and "list_all quiet before" "list_all quiet between" "list_all quiet blocks"
    and "gets_descriptor 1 s1" "USB_ENDPOINT_ID ep1 = 0" "dfu_mode_descriptor descriptor"
    and "gets_descriptor 2 s2" "USB_ENDPOINT_ID ep2 = 0" "answered_configuration conf = Some c"
    and "list_all (\<lambda>x. \<not> ends_image x) (dfu_calls c blocks)"
    and "img = concat (map downloaded (dfu_calls c blocks))" "img \<noteq> []"
    and "dfu_call c (DeviceControlOut ep3 z rest) = [ControlOut z rest]" "ends_image (ControlOut z rest)"
    and run: "run_opt (session_step api i) xs [new_device i] = Some ds"
  shows "\<exists>d \<in> set ds. holds_image img d"
proof -
  have u0: "unknown_device (new_device i :: 'a device)" "\<not> m_hasDeviceDescriptor (new_device i :: 'a device)"
    by (simp add: unknown_device_def) (simp_all add: new_device_def)
  obtain d1 where d1: "run_opt (device_step api) before (new_device i) = Some d1" "unknown_device d1" "same_identity (new_device i) d1"
    using quiet_run_unknown [OF u0(1) assms(2)] by blast
  obtain d2 where d2: "device_step api (DeviceControlIn ep1 s1 descriptor) d1 = Some d2" "unknown_device d2" "isAppleDFU d2"
    using dfu_descriptor_read [OF d1(2) assms(7,5,6)] by blast
  obtain d3 where d3: "run_opt (device_step api) between d2 = Some d3" "unknown_device d3" "same_identity d2 d3"
    using quiet_run_unknown [OF d2(2) assms(3)] by blast
  have "isAppleDFU d3" using d2(3) d3(3) by (simp add: isAppleDFU_def same_identity_def)
  then obtain d4 where d4: "device_step api (DeviceControlIn ep2 s2 conf) d3 = Some d4" "dfu_device c [] [] d4"
    using dfu_configuration_read [OF d3(2) _ assms(10,8,9)] by blast
  obtain d5 where d5: "run_opt (device_step api) blocks d4 = Some d5" "dfu_device c [] img d5"
    using dfu_device_run [OF d4(2) assms(4,11)] assms(12) by auto
  obtain d6 where d6: "device_step api (DeviceControlOut ep3 z rest) d5 = Some d6" "dfu_device c [img] [] d6"
    using dfu_device_step [OF d5(2), of "DeviceControlOut ep3 z rest" api] assms(13-15) by auto
  have "dfu_calls c blocks \<noteq> []" using assms(12,13) by auto
  then obtain ev where "dfu_call c ev \<noteq> []" by (auto simp: dfu_calls_def)
  then have "interfaces c \<noteq> []" by (cases ev) (auto simp: addressed_def split: if_splits)
  with d6(2) have h: "holds_image img d6" by (rule dfu_device_holds)
  have n1: "\<not> opens_session (DeviceControlIn ep1 s1 descriptor) d1"
    using d1(3) u0(2) by (simp add: same_identity_def reenumerates_def)
  have n2: "\<not> opens_session (DeviceControlIn ep2 s2 conf) d3"
    using assms(8) by (auto simp: gets_descriptor_def reenumerates_def isControlDescriptorRead_def)
  have n3: "\<not> opens_session (DeviceControlOut ep3 z rest) d5" by simp
  have "run_opt (session_step api i) xs [new_device i] = run_opt (session_step api i) afterwards [d6]"
    by (simp add: xs run_opt_append session_run_single [OF assms(2) d1(1)] session_run_single [OF assms(3) d3(1)]
        session_run_single [OF assms(4) d5(1)] session_single [OF d2(1) n1] session_single [OF d4(1) n2] session_single [OF d6(1) n3]
        del: device_step.simps opens_session.simps)
  with run h session_run_holds [of api i afterwards "[d6]" ds] show ?thesis by simp
qed

end
