(* ===== verification/Capture_Traces.thy ===== *)
theory Capture_Traces
  imports Firmware
begin

text \<open>
  From the bytes of a capture to the sessions of one address and back out to the files: the steps every end to end
  theorem goes through, whatever the device is.
\<close>

section \<open>Traces and their captures\<close>

text \<open>A trace is a sequence of transfer events of device addresses; the events of one address.\<close>

definition trace_events :: "u64 \<Rightarrow> (bus_address \<times> transfer_event) list \<Rightarrow> transfer_event list" where
  "trace_events a trace = map snd (filter (\<lambda>x. address_of (fst x) = a) trace)"

text \<open>The packets the driver of a capture writes for a trace.\<close>

definition writes :: "u32 \<Rightarrow> (bus_address \<times> transfer_event) list \<Rightarrow> byte list list \<Rightarrow> bool" where
  "writes linktype trace packets \<longleftrightarrow>
     list_all2 (\<lambda>x p. encode_packet (fst x) (snd x) = Some (linktype, p) \<and> length p \<le> 0xFFFFFF00) trace packets"

lemma writes_events:
  "writes linktype trace packets \<Longrightarrow> events_for a (map (Pair linktype) packets) = trace_events a trace \<and>
     packet_warnings seen (map (Pair linktype) packets) = []"
proof (induction trace arbitrary: packets seen)
  case Nil
  then show ?case by (simp add: writes_def events_for_def trace_events_def)
next
  case (Cons x trace)
  then obtain p ps where ps: "packets = p # ps" "writes linktype trace ps"
    and enc: "encode_packet (fst x) (snd x) = Some (linktype, p)" "length p \<le> 0xFFFFFF00"
    by (auto simp: writes_def list_all2_Cons1)
  have m: "meaning linktype p = Some (Concerns (address_of (fst x)) (Inr (Some (snd x))))"
    by (rule encode_packet_meaning [OF enc(1)]) (use enc(2) in simp)
  have "packet_event a (linktype, p) = (if address_of (fst x) = a then [snd x] else [])"
    by (simp add: packet_event_def m)
  moreover have "packet_warning seen (linktype, p) = []" "packet_linktypes (linktype, p) seen = seen"
    by (simp_all add: packet_warning_def packet_linktypes_def m)
  ultimately show ?case
    using Cons.IH [OF ps(2), of seen] by (simp add: ps(1) events_for_def trace_events_def)
qed

lemma capture_read:
  assumes "linktype < 65536" and "writes linktype trace packets"
  shows "\<exists>f. reader_parse api (format_reader fmt) (write_capture fmt linktype packets) new_input_file = Some (f, None) \<and>
    file_ok f \<and> m_warnings f = [] \<and>
    (\<forall>a. run_opt (handle_step api) (trace_events a trace) (new_device_handle a) = Some (handle_at a f))"
proof -
  have small: "list_all (\<lambda>p. length p \<le> 0xFFFFFF00) packets"
    using assms(2) by (auto simp: writes_def list_all2_conv_all_nth list_all_length)
  from any_format.read_state [OF assms(1) small, of api fmt] obtain f where
    f: "reader_parse api (format_reader fmt) (write_capture fmt linktype packets) new_input_file = Some (f, None)" "file_ok f"
    "warned (packet_warnings {} (map (Pair linktype) packets)) new_input_file f"
    "\<forall>a. run_opt (handle_step api) (events_for a (map (Pair linktype) packets)) (new_device_handle a) = Some (handle_at a f)"
    by blast
  moreover have "m_warnings f = []"
    using f(3) writes_events [OF assms(2)] by (simp add: warned_def new_input_file_def)
  ultimately show ?thesis using writes_events [OF assms(2)] by simp
qed

text \<open>The file at \<open>path\<close> is a capture of the trace, in any format a driver writes.\<close>

definition recorded :: "(string \<Rightarrow> byte list option) \<Rightarrow> string \<Rightarrow> (bus_address \<times> transfer_event) list \<Rightarrow> bool" where
  "recorded contents path trace \<longleftrightarrow> (\<exists>fmt linktype packets. contents path = Some (write_capture fmt linktype packets) \<and>
     linktype < 65536 \<and> writes linktype trace packets)"

section \<open>From a session to its files\<close>

lemma device_files_member:
  assumes "device_experts d = Some es" and "e \<in> set es" and "x \<in> set (expert_getArtifacts api e)" and "device_ok d"
  shows "(path_join (device_directory path_join directory k d) (artifact_name x), artifact_data x)
    \<in> set (device_files api path_join directory k d)"
  using assms by (force simp: device_files_def device_experts_ok)

text \<open>
  When the transfers completed at an address end in sessions of which one satisfies \<open>P\<close>, a property no unused device
  has, the program ends well and writes all the files of a device with \<open>P\<close>.
\<close>

lemma session_files:
  assumes "parse_arguments program arguments new_cli_options = CliRun opts" and "opt_extract opts \<noteq> []"
    and "recorded contents (opt_input opts) trace"
    and sessions: "\<And>ds. run_opt (session_step api a) (completed_transfers om_empty (trace_events a trace)) [new_device a] = Some ds \<Longrightarrow>
      \<exists>d \<in> set ds. P d"
    and unused: "\<not> P (new_device a)"
  shows "\<exists>r k d. run_program api path_join contents program arguments = Some r \<and> exit_status r = 0 \<and> P d \<and> device_ok d \<and>
    m_device_id d = a \<and> set (device_files api path_join (opt_extract opts) k d) \<subseteq> set (written_files r)"
proof -
  obtain fmt linktype packets where capture: "contents (opt_input opts) = Some (write_capture fmt linktype packets)"
      "linktype < 65536" "writes linktype trace packets"
    using assms(3) by (auto simp: recorded_def)
  obtain f where f: "reader_parse api (format_reader fmt) (write_capture fmt linktype packets) new_input_file = Some (f, None)"
      "file_ok f"
      "run_opt (handle_step api) (trace_events a trace) (new_device_handle a) = Some (handle_at a f)"
    using capture_read [OF capture(2,3)] by blast
  have nh: "m_handle_id (new_device_handle a :: 'a device_handle) = a" "m_inflight (new_device_handle a :: 'a device_handle) = om_empty"
    "m_sessions (new_device_handle a :: 'a device_handle) = [new_device a]"
    by (simp_all add: new_device_handle_def)
  have "run_opt (session_step api a) (completed_transfers om_empty (trace_events a trace)) [new_device a] =
      Some (m_sessions (handle_at a f))"
    using handle_run_sessions [OF f(3)] by (simp add: nh)
  then obtain d where d: "d \<in> set (m_sessions (handle_at a f))" "P d" using sessions by blast
  have ok: "device_ok d" "m_device_id d = a"
    using handle_at_ok [OF f(2), of a] d(1) by (auto simp: handle_ok_def sessions_ok_def)
  have "om_find (m_devices f) a \<noteq> None"
  proof
    assume "om_find (m_devices f) a = None"
    then have "d = new_device a" using d(1) by (simp add: handle_at_def nh)
    with d(2) unused show False by simp
  qed
  then have "a \<in> set (m_deviceOrder f)" using f(2) by (simp add: file_ok_def)
  then obtain ds where ds: "getDevices f = Some ds" "d \<in> set ds"
    using getDevices_eq [OF f(2)] d(1) by auto
  have "inputfile_open (opt_input opts) (Some (write_capture fmt linktype packets)) = Inr (format_reader fmt)"
    by (simp add: any_format.chosen)
  from run_program_opened [where path_join = path_join and contents = contents and opts = opts, OF assms(1) capture(1) this f(1,2) ds(1)]
  obtain r where r: "run_program api path_join contents program arguments = Some r" "exit_status r = 0"
      "written_files r = capture_files api path_join (opt_extract opts) ds"
    by blast
  obtain k where k: "k < length ds" "d = ds ! k" using ds(2) by (metis in_set_conv_nth)
  then have "(k, d) \<in> set (List.enumerate 0 ds)" by (force simp: enumerate_eq_zip in_set_zip)
  then have "set (device_files api path_join (opt_extract opts) k d) \<subseteq> set (written_files r)"
    using assms(2) r(3) by (force simp: capture_files_def)
  with r(1,2) d(2) ok show ?thesis by blast
qed

end
