(* ===== verification/Enumeration.thy ===== *)
theory Enumeration
  imports Firmware
begin

text \<open>
  The life of a device on the bus, for devices of every kind: once a device has answered a read of its device
  descriptor and of a configuration, the transfers that follow decide, through the configuration alone, what every
  expert is told.  The lemmas end in a description of the files the program extracts from a whole capture.
\<close>

section \<open>Traffic of an enumerated device\<close>

text \<open>
  Besides quiet transfers, an enumerated device may repeat what it answered: its device descriptor, or the
  configuration \<open>conf\<close>; and the host may select that configuration, whose value is \<open>v\<close>, or none.
\<close>

fun repeats :: "byte list \<Rightarrow> byte list \<Rightarrow> device_event \<Rightarrow> bool" where
  "repeats descriptor conf (DeviceControlIn endpoint setup data) \<longleftrightarrow>
     gets_descriptor 1 setup \<and> 18 \<le> length data \<and> take 18 data = take 18 descriptor \<or> gets_descriptor 2 setup \<and> data = conf"
| "repeats _ _ _ \<longleftrightarrow> False"

fun keeps_configuration :: "u8 \<Rightarrow> device_event \<Rightarrow> bool" where
  "keeps_configuration v (DeviceControlOut endpoint setup data) \<longleftrightarrow>
     \<not> (bmRequestType setup AND USB_RECIP_MASK = USB_RECIP_DEVICE \<and> bRequest setup = USB_REQ_SET_CONFIGURATION \<and>
        (ucast (wValue setup AND 0xFF) :: u8) \<notin> {0, v})"
| "keeps_configuration _ _ \<longleftrightarrow> True"

definition steady :: "byte list \<Rightarrow> byte list \<Rightarrow> u8 \<Rightarrow> device_event \<Rightarrow> bool" where
  "steady descriptor conf v ev \<longleftrightarrow> keeps_configuration v ev \<and> (quiet ev \<or> repeats descriptor conf ev)"

text \<open>What the device is known to be: its descriptor, its configurations and the one the host selected.\<close>

definition known_device :: "byte list \<Rightarrow> (u8, usb_configuration) omap \<Rightarrow> u8 \<Rightarrow> 'p device \<Rightarrow> bool" where
  "known_device descriptor cs v d \<longleftrightarrow> device_ok d \<and> m_hasDeviceDescriptor d \<and>
     m_deviceDescriptor d = decode_device_descriptor (take 18 descriptor) \<and> m_configurations d = cs \<and>
     m_currentConfiguration d \<in> {0, v}"

lemma processDescriptor_current:
  assumes "processDescriptor setup data d = Some d'"
  shows "m_currentConfiguration d' = m_currentConfiguration d"
proof -
  have conf: "m_currentConfiguration d' = m_currentConfiguration d" if c: "process_config_descriptor data d = Some d'"
  proof -
    obtain ok c where "usb_configuration_parse new_usb_configuration
        (take (unat (wTotalLength (decode_config_descriptor (take 9 data)))) data) = Some (ok, c)" "configuration_wf c"
      using usb_configuration_parse_wf by blast
    with c show ?thesis
      by (auto simp: process_config_descriptor_def USB_DT_CONFIG_SIZE_def readStruct_def Let_def attachExperts_eq
          split: if_splits)
  qed
  with assms show ?thesis
    by (auto simp: processDescriptor_def Let_def process_device_descriptor_def process_string_descriptor_def process_bos_descriptor_def
        elim!: bind_Some_elim split: if_splits option.splits)
qed

lemma event_count_current [simp]: "m_currentConfiguration (count_control data d) = m_currentConfiguration d"
  by (simp add: count_control_def)

lemma device_step_current:
  assumes "device_ok d" and "keeps_configuration v ev" and "device_step api ev d = Some d'"
    and "m_currentConfiguration d \<in> {0, v}"
  shows "m_currentConfiguration d' \<in> {0, v}"
proof (cases "device_route d ev")
  case None
  then have own: "device_own ev (event_count ev d) = Some d'" using assms(3) by (simp add: device_step_eq)
  show ?thesis
  proof (cases ev)
    case (DeviceControlIn ep s data)
    with own assms(4) show ?thesis by (auto dest: processDescriptor_current split: if_splits)
  next
    case (DeviceControlOut ep s data)
    with own assms(2,4) show ?thesis
      by (auto simp: standard_request_def Let_def split: if_splits)
  qed (use None in simp_all)
next
  case (Some r)
  obtain q x where r: "r = (q, x)" by (cases r)
  have "d' = (event_count ev d)\<lparr>m_experts := m_experts d'\<rparr>"
    using device_step_routed [OF assms(1) Some [unfolded r], of api] assms(3) by auto
  then have "m_currentConfiguration d' = m_currentConfiguration (event_count ev d)"
    by (metis device.select_convs(7) device.surjective device.update_convs(14))
  with assms(4) show ?thesis by simp
qed

text \<open>Reading again what is known changes nothing but the counters.\<close>

lemma answered_configuration_parse:
  assumes "answered_configuration conf = Some c"
  shows "9 < length conf" and "conf ! 1 = USB_DT_CONFIG" and "configuration_wf c"
    and "process_config_descriptor conf d =
      (let n = unat (wTotalLength (decode_config_descriptor (take 9 conf)));
           d1 = (if snd (split_descriptors (take n conf)) = [] then d else d\<lparr>m_anomalies := m_anomalies d @
             [''Malformed configuration descriptor '' @
               dec (unat (bConfigurationValue (decode_config_descriptor (take 9 conf))))]\<rparr>);
           v = bConfigurationValue (config_descriptor c)
       in if om_contains (m_configurations d1) v then Some d1
          else Some (d1\<lparr>m_experts := snd (attached c d1),
            m_configurations := om_put v (c\<lparr>interfaces := fst (attached c d1)\<rparr>) (m_configurations d1)\<rparr>))"
proof -
  let ?n = "unat (wTotalLength (decode_config_descriptor (take 9 conf)))"
  have n: "9 < ?n" "?n \<le> length conf" and t: "conf ! 1 = USB_DT_CONFIG"
    and c: "c = fold add_descriptor (fst (split_descriptors (take ?n conf))) new_usb_configuration"
    using assms by (auto simp: answered_configuration_def Let_def split: if_splits)
  show "9 < length conf" and "conf ! 1 = USB_DT_CONFIG" using n t by simp_all
  show wf: "configuration_wf c" unfolding c by (simp add: configuration_wf_fold)
  have parse: "usb_configuration_parse new_usb_configuration (take ?n conf) =
      Some (snd (split_descriptors (take ?n conf)) = [], c)"
    by (simp add: c usb_configuration_parse_def parse_loop_correct at_last_def new_usb_configuration_def)
  show "process_config_descriptor conf d =
      (let n = unat (wTotalLength (decode_config_descriptor (take 9 conf)));
           d1 = (if snd (split_descriptors (take n conf)) = [] then d else d\<lparr>m_anomalies := m_anomalies d @
             [''Malformed configuration descriptor '' @
               dec (unat (bConfigurationValue (decode_config_descriptor (take 9 conf))))]\<rparr>);
           v = bConfigurationValue (config_descriptor c)
       in if om_contains (m_configurations d1) v then Some d1
          else Some (d1\<lparr>m_experts := snd (attached c d1),
            m_configurations := om_put v (c\<lparr>interfaces := fst (attached c d1)\<rparr>) (m_configurations d1)\<rparr>))"
    using n by (simp add: process_config_descriptor_def USB_DT_CONFIG_SIZE_def parse Let_def attachExperts_eq [OF wf])
qed

text \<open>A repeated answer is read as what is already known.\<close>

definition known_answer :: "(u8, usb_configuration) omap \<Rightarrow> byte list \<Rightarrow> bool" where
  "known_answer cs conf \<longleftrightarrow> conf = [] \<or>
     (\<exists>c. answered_configuration conf = Some c \<and> om_contains cs (bConfigurationValue (config_descriptor c)))"

lemma repeated_descriptor:
  assumes "known_device descriptor cs v d" and "gets_descriptor 1 setup" and "18 \<le> length data" and "take 18 data = take 18 descriptor"
    and "processDescriptor setup data d = Some d'"
  shows "same_identity d d' \<and> m_experts d' = m_experts d"
proof (cases "data ! 1 = USB_DT_DEVICE")
  case True
  with assms device_descriptor_read [OF assms(2,3), of d]
  have "d' = d\<lparr>m_deviceDescriptor := decode_device_descriptor (take 18 descriptor), m_hasDeviceDescriptor := True\<rparr>"
    by (simp add: process_device_descriptor_def USB_DT_DEVICE_SIZE_def)
  with assms(1) show ?thesis by (simp add: known_device_def same_identity_def)
next
  case False
  have "bDescriptorType (decode_descriptor_header (take 2 data)) = data ! 1" using header_type [of data] assms(3) by simp
  moreover have "ucast (data ! 1) \<noteq> (1 :: u16)"
  proof
    assume "ucast (data ! 1) = (1 :: u16)"
    then have "(ucast (ucast (data ! 1) :: u16) :: u8) = ucast (1 :: u16)" by (rule arg_cong)
    with False show False by (simp add: ucast_index)
  qed
  ultimately show ?thesis
    using assms(2,3,5) by (auto simp: processDescriptor_def descriptor_header_size_def readStruct_def gets_descriptor_def Let_def same_identity_def)
qed

lemma repeated_configuration:
  assumes "known_device descriptor cs v d" and "gets_descriptor 2 setup" and "known_answer cs conf"
    and "processDescriptor setup conf d = Some d'"
  shows "same_identity d d' \<and> m_experts d' = m_experts d"
proof (cases "conf = []")
  case True
  with assms(4) show ?thesis by (simp add: processDescriptor_def readStruct_def descriptor_header_size_def same_identity_def)
next
  case False
  then obtain c where c: "answered_configuration conf = Some c" "om_contains cs (bConfigurationValue (config_descriptor c))"
    using assms(3) by (auto simp: known_answer_def)
  note conf = answered_configuration_parse [OF c(1)]
  have "process_config_descriptor conf d = Some d'"
    using configuration_read [OF assms(2), of conf d] conf(1,2) assms(4) by simp
  then show ?thesis using c(2) assms(1) by (auto simp: conf(4) Let_def known_device_def same_identity_def split: if_splits)
qed

lemma repeats_step:
  assumes "known_device descriptor cs v d" and "repeats descriptor conf ev" and "known_answer cs conf"
  shows "\<exists>d'. device_step api ev d = Some d' \<and> device_ok d' \<and> same_identity d d' \<and> m_experts d' = m_experts d \<and> device_route d ev = None"
proof -
  obtain ep s data where ev: "ev = DeviceControlIn ep s data" using assms(2) by (cases ev) simp_all
  have std: "is_standard s" "bRequest s = USB_REQ_GET_DESCRIPTOR" "bmRequestType s AND USB_RECIP_MASK = USB_RECIP_DEVICE"
    using assms(2) by (auto simp: ev gets_descriptor_def)
  then have none: "device_route d ev = None" by (simp add: ev)
  have known: "known_device descriptor cs v (count_control data d)"
    using assms(1) event_count_ok(1) [of "DeviceControlIn ep s data" d]
    by (simp add: known_device_def) (simp add: count_control_def)
  obtain d' where d': "device_step api ev d = Some d'" "device_ok d'"
    using device_step_ok [of d api ev] assms(1) by (auto simp: known_device_def)
  have "same_identity (count_control data d) d' \<and> m_experts d' = m_experts (count_control data d)"
  proof (cases "USB_ENDPOINT_ID ep = 0")
    case True
    then have own: "processDescriptor s data (count_control data d) = Some d'"
      using d'(1) none std by (simp only: device_step_eq) (simp add: ev)
    show ?thesis
    proof (cases "gets_descriptor 1 s \<and> 18 \<le> length data \<and> take 18 data = take 18 descriptor")
      case True
      with repeated_descriptor [OF known _ _ _ own] show ?thesis by blast
    next
      case False
      with assms(2) have "gets_descriptor 2 s" "data = conf" by (simp_all add: ev)
      with repeated_configuration [OF known _ assms(3)] own show ?thesis by simp
    qed
  next
    case False
    then show ?thesis using d'(1) none by (simp only: device_step_eq) (simp add: ev same_identity_def)
  qed
  with d' none show ?thesis by auto
qed

text \<open>A step of an enumerated device: it stays what it is, its experts take their calls, and no session begins.\<close>

lemma steady_step:
  assumes "known_device descriptor cs v d" and "steady descriptor conf v ev" and "known_answer cs conf" and "18 \<le> length descriptor"
  shows "\<exists>d'. device_step api ev d = Some d' \<and> known_device descriptor cs v d' \<and> length (m_experts d') = length (m_experts d) \<and>
    \<not> opens_session ev d \<and>
    (\<forall>k < length (m_experts d). run_opt (virtual_step api) (calls_for k d [ev]) (m_experts d ! k) = Some (m_experts d' ! k))"
proof -
  have ok: "device_ok d" "m_currentConfiguration d \<in> {0, v}" "keeps_configuration v ev"
    using assms(1,2) by (simp_all add: known_device_def steady_def)
  obtain d' where d': "device_step api ev d = Some d'" "device_ok d'" "same_identity d d'" "length (m_experts d') = length (m_experts d)"
    and run: "\<forall>k < length (m_experts d). run_opt (virtual_step api) (calls_for k d [ev]) (m_experts d ! k) = Some (m_experts d' ! k)"
  proof (cases "quiet ev")
    case True
    from quiet_step [OF ok(1) this, of api] that show thesis by (elim exE conjE)
  next
    case False
    then have "repeats descriptor conf ev" using assms(2) by (simp add: steady_def)
    from repeats_step [OF assms(1) this assms(3), of api] that show thesis by auto
  qed
  have "known_device descriptor cs v d'"
    using device_step_current [OF ok(1,3) d'(1) ok(2)] d'(2,3) assms(1) by (simp add: known_device_def same_identity_def)
  moreover have "\<not> opens_session ev d"
  proof (cases "quiet ev")
    case False
    then have "repeats descriptor conf ev" using assms(2) by (simp add: steady_def)
    then show ?thesis
      using assms(1,4) by (cases ev)
        (auto simp: reenumerates_def isControlDescriptorRead_def gets_descriptor_def USB_DT_DEVICE_SIZE_def known_device_def
          encode_decode_device_descriptor)
  qed (rule quiet_no_session)
  ultimately show ?thesis using d'(1,4) run by blast
qed

section \<open>The calls a configuration decides\<close>

text \<open>
  Of one configuration, alternate settings of one interface may declare the same endpoint, different interfaces may
  not.  Then the configuration alone says which expert a transfer is for, whatever settings are selected.
\<close>

definition unshared :: "usb_configuration \<Rightarrow> bool" where
  "unshared c \<longleftrightarrow> list_all (\<lambda>x. list_all (\<lambda>y. bEndpointAddress (snd x) = bEndpointAddress (snd y) \<longrightarrow>
     number_of (fst x) = number_of (fst y)) (interface_endpoints c)) (interface_endpoints c)"

definition static_control :: "usb_configuration \<Rightarrow> usb_setup_t \<Rightarrow> nat option" where
  "static_control c setup =
     (if bmRequestType setup AND USB_RECIP_MASK = USB_RECIP_INTERFACE
      then interface_expert_of (wIndex setup AND 0xFF) (interfaces c) else first_expert (interfaces c))"

definition static_endpoint :: "usb_configuration \<Rightarrow> u8 \<Rightarrow> nat option" where
  "static_endpoint c endpoint =
     (case find (declares endpoint) (interface_endpoints c) of Some x \<Rightarrow> iface_expert (fst x) | None \<Rightarrow> None)"

fun static_route :: "usb_configuration \<Rightarrow> device_event \<Rightarrow> (nat option \<times> expert_event) option" where
  "static_route c (DeviceControlIn endpoint setup data) =
     (if USB_ENDPOINT_ID endpoint \<noteq> 0 \<or> is_standard setup then None else Some (static_control c setup, ControlIn setup data))"
| "static_route c (DeviceControlOut endpoint setup data) =
     (if USB_ENDPOINT_ID endpoint \<noteq> 0 \<or> is_standard setup then None else Some (static_control c setup, ControlOut setup data))"
| "static_route c (DeviceBulkIn endpoint data) = Some (static_endpoint c (endpoint OR 0x80), BulkIn data)"
| "static_route c (DeviceBulkOut endpoint data) = Some (static_endpoint c (USB_ENDPOINT_ID endpoint), BulkOut data)"

definition static_calls :: "nat \<Rightarrow> usb_configuration \<Rightarrow> device_event list \<Rightarrow> expert_event list" where
  "static_calls p c evs = List.map_filter (\<lambda>ev. case static_route c ev of
     Some (q, x) \<Rightarrow> if q = Some p then Some x else None | None \<Rightarrow> None) evs"

lemma static_calls_simps [simp]:
  "static_calls p c [] = []"
  "static_calls p c (ev # evs) =
     (case static_route c ev of Some (q, x) \<Rightarrow> if q = Some p then [x] else [] | None \<Rightarrow> []) @ static_calls p c evs"
  by (auto simp: static_calls_def map_filter_simps split: option.split)

lemma known_active:
  assumes "known_device descriptor [(v, c)] v d"
  shows "activeConfiguration d = Some c"
  using assms by (auto simp: activeConfiguration_def known_device_def)

text \<open>Interfaces that declare the same endpoint share their expert.\<close>

lemma known_shares:
  assumes "known_device descriptor [(v, c)] v d" and "unshared c"
    and "x \<in> set (interface_endpoints c)" and "y \<in> set (interface_endpoints c)" and "declares ep x" and "declares ep y"
  shows "iface_expert (fst x) = iface_expert (fst y)"
proof -
  have inner: "fst x \<in> set (interfaces c)" if "x \<in> set (interface_endpoints c)" for x
    using that by (auto simp: interface_endpoints_def)
  have "configuration_ok (origins (m_experts d)) v c"
    using assms(1) by (simp add: known_device_def device_ok_def)
  then have share: "shares_experts (interfaces c)" by (simp add: configuration_ok_def)
  have "bEndpointAddress (snd x) = bEndpointAddress (snd y)" using assms(5,6) by (simp add: declares_def)
  with assms(2) [unfolded unshared_def list_all_iff, rule_format, OF assms(3,4)]
  have "number_of (fst x) = number_of (fst y)" .
  then show ?thesis
    using share [unfolded shares_experts_def, rule_format, OF inner [OF assms(3)] inner [OF assms(4)]] by blast
qed

lemma find_none: "find P xs = None \<Longrightarrow> x \<in> set xs \<Longrightarrow> \<not> P x"
  unfolding find_None_iff by blast

lemma known_endpoint:
  assumes "known_device descriptor [(v, c)] v d" and "unshared c"
  shows "getExpertForEndpoint ep d = static_endpoint c ep"
proof -
  let ?xs = "interface_endpoints c"
  let ?sel = "find (\<lambda>x. declares ep x \<and> selected d x) ?xs"
  let ?some = "find (\<lambda>x. declares ep x \<and> iface_expert (fst x) \<noteq> None) ?xs"
  have expert: "getExpertForEndpoint ep d = (case ?sel of Some x \<Rightarrow> iface_expert (fst x)
      | None \<Rightarrow> (case ?some of Some x \<Rightarrow> iface_expert (fst x) | None \<Rightarrow> None))"
    by (cases ?sel) (simp_all add: getExpertForEndpoint_def known_active [OF assms(1)] endpoint_expert_spec)
  show ?thesis
  proof (cases "find (declares ep) ?xs")
    case None
    note no = find_none [OF None]
    have "?sel = None" "?some = None" using no unfolding find_None_iff by blast+
    then show ?thesis unfolding expert static_endpoint_def None by simp
  next
    case (Some y)
    have y: "declares ep y" "y \<in> set ?xs" using find_holds [OF Some] by simp_all
    have same: "iface_expert (fst x) = iface_expert (fst y)" if "x \<in> set ?xs" "declares ep x" for x
      by (rule known_shares [OF assms that(1) y(2) that(2) y(1)])
    have "?sel = Some x \<Longrightarrow> iface_expert (fst x) = iface_expert (fst y)"
      "?some = Some x \<Longrightarrow> iface_expert (fst x) = iface_expert (fst y)" for x
      using same find_holds [of _ ?xs x] by blast+
    moreover have "iface_expert (fst y) = None" if "?some = None"
      using find_none [OF that y(2)] y(1) by simp
    ultimately show ?thesis unfolding expert static_endpoint_def Some by (simp split: option.split)
  qed
qed

lemma known_route:
  assumes "known_device descriptor [(v, c)] v d" and "unshared c"
  shows "device_route d ev = static_route c ev"
  by (cases ev) (simp_all add: known_endpoint [OF assms] getExpertForControl_def control_configuration_def
      known_active [OF assms(1)] static_control_def)

lemma known_calls:
  assumes "known_device descriptor [(v, c)] v d" and "unshared c"
  shows "calls_for p d evs = static_calls p c evs"
  by (simp add: calls_for_def static_calls_def known_route [OF assms])

text \<open>A run of such transfers: every expert has made exactly the calls the configuration decides.\<close>

lemma steady_run:
  assumes "known_device descriptor [(v, c)] v d" and "list_all (steady descriptor conf v) evs" and "known_answer [(v, c)] conf"
    and "18 \<le> length descriptor" and "unshared c"
  shows "\<exists>d'. run_opt (device_step api) evs d = Some d' \<and> run_opt (session_step api i) evs [d] = Some [d'] \<and>
    known_device descriptor [(v, c)] v d' \<and> length (m_experts d') = length (m_experts d) \<and>
    (\<forall>p < length (m_experts d). run_opt (virtual_step api) (static_calls p c evs) (m_experts d ! p) = Some (m_experts d' ! p))"
  using assms(1,2)
proof (induction evs arbitrary: d)
  case Nil
  then show ?case by simp
next
  case (Cons ev evs)
  obtain d1 where d1: "device_step api ev d = Some d1" "known_device descriptor [(v, c)] v d1"
      "length (m_experts d1) = length (m_experts d)" "\<not> opens_session ev d"
      "\<forall>k < length (m_experts d). run_opt (virtual_step api) (calls_for k d [ev]) (m_experts d ! k) = Some (m_experts d1 ! k)"
    using steady_step [OF Cons.prems(1) _ assms(3,4), of ev api] Cons.prems(2) by auto
  obtain d' where d': "run_opt (device_step api) evs d1 = Some d'" "run_opt (session_step api i) evs [d1] = Some [d']"
      "known_device descriptor [(v, c)] v d'" "length (m_experts d') = length (m_experts d1)"
      "\<forall>p < length (m_experts d1). run_opt (virtual_step api) (static_calls p c evs) (m_experts d1 ! p) = Some (m_experts d' ! p)"
    using Cons.IH [OF d1(2)] Cons.prems(2) by auto
  have "run_opt (virtual_step api) (static_calls p c (ev # evs)) (m_experts d ! p) = Some (m_experts d' ! p)"
    if "p < length (m_experts d)" for p
  proof -
    have "static_calls p c (ev # evs) = calls_for p d [ev] @ static_calls p c evs"
      by (simp add: known_route [OF Cons.prems(1) assms(5)])
    with d1(3,5) d'(5) that show ?thesis by (simp only: run_opt_append) simp
  qed
  with d1(1,3,4) d'(1-4) session_single [OF d1(1,4), of i] show ?case
    by (intro exI [of _ d']) (simp del: device_step.simps opens_session.simps)
qed

lemma steady_run_plain:
  assumes "known_device descriptor cs v d" and "list_all (steady descriptor conf v) evs" and "known_answer cs conf"
    and "18 \<le> length descriptor" and "m_experts d = []"
  shows "\<exists>d'. run_opt (session_step api i) evs [d] = Some [d'] \<and> known_device descriptor cs v d' \<and> m_experts d' = []"
  using assms(1,2,5)
proof (induction evs arbitrary: d)
  case Nil
  then show ?case by simp
next
  case (Cons ev evs)
  obtain d1 where d1: "device_step api ev d = Some d1" "known_device descriptor cs v d1"
      "length (m_experts d1) = length (m_experts d)" "\<not> opens_session ev d"
    using steady_step [OF Cons.prems(1) _ assms(3,4), of ev api] Cons.prems(2) by auto
  with Cons.IH [OF d1(2)] Cons.prems session_single [OF d1(1,4), of i] show ?case
    by (simp del: device_step.simps opens_session.simps)
qed

section \<open>Enumeration\<close>

text \<open>
  What reading the descriptor and the configuration \<open>c\<close> gives a device: the configuration with experts attached to its
  interfaces, and the experts.
\<close>

definition described :: "byte list \<Rightarrow> 'p device" where
  "described descriptor = (new_device 0)\<lparr>m_deviceDescriptor := decode_device_descriptor (take 18 descriptor)\<rparr>"

definition enumerated :: "byte list \<Rightarrow> usb_configuration \<Rightarrow> usb_configuration \<times> 'p expert list" where
  "enumerated descriptor c = (c\<lparr>interfaces := fst (attached c (described descriptor :: 'p device))\<rparr>, snd (attached c (described descriptor)))"

lemma attached_cong:
  assumes "m_deviceDescriptor d' = m_deviceDescriptor d" and "m_experts d' = m_experts d"
  shows "attached c d' = attached c d"
proof -
  have "interface_protocol c x d' = interface_protocol c x d" for x
    by (simp add: interface_protocol_def isApple_def assms(1))
  then have "share_step c d' = share_step c d" by (simp add: share_step_def fun_eq_iff)
  then show ?thesis by (simp add: attached_def isAppleDFU_def isAppleRecovery_def assms)
qed

lemma interface_endpoints_map:
  "map (map_prod strip_expert id) (interface_endpoints c) =
     concat (map (\<lambda>i. map (Pair i) (iface_endpoints i)) (map strip_expert (interfaces c)))"
  by (simp add: interface_endpoints_def map_concat comp_def strip_expert_def)

lemma unshared_strip:
  "unshared c \<longleftrightarrow> list_all (\<lambda>x. list_all (\<lambda>y. bEndpointAddress (snd x) = bEndpointAddress (snd y) \<longrightarrow>
     number_of (fst x) = number_of (fst y)) (map (map_prod strip_expert id) (interface_endpoints c)))
     (map (map_prod strip_expert id) (interface_endpoints c))"
  by (simp add: unshared_def list_all_iff strip_expert_def)

lemma unshared_attached: "unshared (c\<lparr>interfaces := fst (attached c d)\<rparr>) \<longleftrightarrow> unshared c"
  by (simp only: unshared_strip interface_endpoints_map) (simp add: attached_strip)

text \<open>Before anything is known of a device, quiet transfers leave it unknown, without experts.\<close>

lemma quiet_run_fresh:
  "unknown_device d \<Longrightarrow> m_currentConfiguration d \<in> {0, v} \<Longrightarrow> list_all (\<lambda>ev. quiet ev \<and> keeps_configuration v ev) evs \<Longrightarrow>
   \<exists>d'. run_opt (session_step api i) evs [d] = Some [d'] \<and> unknown_device d' \<and> same_identity d d' \<and> m_currentConfiguration d' \<in> {0, v}"
proof (induction evs arbitrary: d)
  case Nil
  then show ?case by (simp add: same_identity_def)
next
  case (Cons ev evs)
  have q: "quiet ev" "keeps_configuration v ev" using Cons.prems(3) by simp_all
  obtain d1 where d1: "device_step api ev d = Some d1" "unknown_device d1" "same_identity d d1"
    using quiet_unknown [OF Cons.prems(1) q(1), of api] by blast
  have cur: "m_currentConfiguration d1 \<in> {0, v}"
    using device_step_current [OF _ q(2) d1(1) Cons.prems(2)] Cons.prems(1) by (simp add: unknown_device_def)
  obtain d' where "run_opt (session_step api i) evs [d1] = Some [d']" "unknown_device d'" "same_identity d1 d'"
      "m_currentConfiguration d' \<in> {0, v}"
    using Cons.IH [OF d1(2) cur] Cons.prems(3) by auto
  with d1(3) session_single [OF d1(1) quiet_no_session [OF q(1)], of i] show ?case
    by (auto simp: same_identity_def simp del: device_step.simps opens_session.simps)
qed

lemma first_descriptor:
  assumes "unknown_device d" and "m_currentConfiguration d \<in> {0, v}" and "gets_descriptor 1 setup" and "USB_ENDPOINT_ID ep = 0"
    and "18 \<le> length descriptor" and "descriptor ! 1 = USB_DT_DEVICE"
  shows "\<exists>d'. device_step api (DeviceControlIn ep setup descriptor) d = Some d' \<and> known_device descriptor [] v d' \<and> m_experts d' = []"
proof -
  obtain d' where d': "device_step api (DeviceControlIn ep setup descriptor) d = Some d'" "device_ok d'"
    using unknown_step [OF assms(1)] by blast
  then have "d' = process_device_descriptor descriptor (count_control descriptor d)"
    using device_descriptor_read [OF assms(3,5,6), of "count_control descriptor d"] by (simp add: descriptor_read [OF assms(3,4)])
  with d' assms(1,2,5) show ?thesis
    by (auto simp: process_device_descriptor_def USB_DT_DEVICE_SIZE_def unknown_device_def known_device_def count_control_def om_empty_def)
qed

lemma first_configuration:
  assumes "known_device descriptor [] v d" and "m_experts d = []" and "gets_descriptor 2 setup" and "USB_ENDPOINT_ID ep = 0"
    and "answered_configuration conf = Some c" and "v = bConfigurationValue (config_descriptor c)" and "enumerated descriptor c = (c', es)"
  shows "\<exists>d'. device_step api (DeviceControlIn ep setup conf) d = Some d' \<and> known_device descriptor [(v, c')] v d' \<and> m_experts d' = es"
proof -
  obtain d' where d': "device_step api (DeviceControlIn ep setup conf) d = Some d'" "device_ok d'"
    using device_step_ok [of d api "DeviceControlIn ep setup conf"] assms(1) unfolding known_device_def by blast
  note conf = answered_configuration_parse [OF assms(5)]
  have at: "attached c (count_control conf d\<lparr>m_anomalies := x\<rparr>) = (interfaces c', es)"
      "attached c (count_control conf d) = (interfaces c', es)" for x
    using assms(1,2,7) attached_cong [of "count_control conf d\<lparr>m_anomalies := x\<rparr>" "described descriptor" c]
      attached_cong [of "count_control conf d" "described descriptor" c]
    by (auto simp: enumerated_def described_def known_device_def new_device_def count_control_def)
  have c': "c' = c\<lparr>interfaces := interfaces c'\<rparr>" using assms(7) by (auto simp: enumerated_def)
  have none: "m_configurations (count_control conf d) = []" "m_hasDeviceDescriptor (count_control conf d)"
    "m_deviceDescriptor (count_control conf d) = decode_device_descriptor (take 18 descriptor)"
    "m_currentConfiguration (count_control conf d) \<in> {0, v}"
    using assms(1) by (simp_all add: known_device_def) (simp_all add: count_control_def)
  have "process_config_descriptor conf (count_control conf d) = Some d'"
    using d'(1) conf(1,2) configuration_read [OF assms(3), of conf "count_control conf d"] by (simp add: descriptor_read [OF assms(3,4)])
  then have "m_configurations d' = [(v, c')] \<and> m_experts d' = es \<and> m_hasDeviceDescriptor d' \<and>
      m_deviceDescriptor d' = decode_device_descriptor (take 18 descriptor) \<and> m_currentConfiguration d' \<in> {0, v}"
    using none c' by (auto simp: conf(4) Let_def at om_contains_def assms(6) split: if_splits)
  with d' show ?thesis by (auto simp: known_device_def)
qed

text \<open>
  An enumeration: the transfers in which a device first answers a read of its device descriptor, then of the
  configuration \<open>c\<close>, among quiet ones.
\<close>

definition enumeration :: "byte list \<Rightarrow> byte list \<Rightarrow> usb_configuration \<Rightarrow> device_event list \<Rightarrow> bool" where
  "enumeration descriptor conf c xs \<longleftrightarrow>
     18 \<le> length descriptor \<and> descriptor ! 1 = USB_DT_DEVICE \<and> answered_configuration conf = Some c \<and>
     (\<exists>before ep1 s1 between ep2 s2.
        xs = before @ [DeviceControlIn ep1 s1 descriptor] @ between @ [DeviceControlIn ep2 s2 conf] \<and>
        gets_descriptor 1 s1 \<and> USB_ENDPOINT_ID ep1 = 0 \<and> gets_descriptor 2 s2 \<and> USB_ENDPOINT_ID ep2 = 0 \<and>
        list_all (\<lambda>ev. quiet ev \<and> keeps_configuration (bConfigurationValue (config_descriptor c)) ev) before \<and>
        list_all (steady descriptor [] (bConfigurationValue (config_descriptor c))) between)"

lemma new_device_unknown: "unknown_device (new_device i)" "\<not> m_hasDeviceDescriptor (new_device i)"
    "m_currentConfiguration (new_device i) = 0"
  by (simp add: unknown_device_def) (simp_all add: new_device_def)

lemma enumeration_run:
  assumes "enumeration descriptor conf c xs" and "v = bConfigurationValue (config_descriptor c)"
    and "enumerated descriptor c = (c', es :: 'p expert list)"
  shows "\<exists>d. run_opt (session_step api i) xs [new_device i] = Some [d] \<and> known_device descriptor [(v, c')] v d \<and> m_experts d = es"
proof -
  obtain before ep1 s1 between ep2 s2 where
    xs: "xs = before @ [DeviceControlIn ep1 s1 descriptor] @ between @ [DeviceControlIn ep2 s2 conf]"
    and read: "gets_descriptor 1 s1" "USB_ENDPOINT_ID ep1 = 0" "gets_descriptor 2 s2" "USB_ENDPOINT_ID ep2 = 0"
    and before: "list_all (\<lambda>ev. quiet ev \<and> keeps_configuration v ev) before"
    and between: "list_all (steady descriptor [] v) between"
    and descr: "18 \<le> length descriptor" "descriptor ! 1 = USB_DT_DEVICE" and conf: "answered_configuration conf = Some c"
    using assms(1) unfolding enumeration_def assms(2) [symmetric] by (elim conjE exE)
  let ?n = "new_device i :: 'p device"
  obtain d1 where d1: "run_opt (session_step api i) before [?n] = Some [d1]" "unknown_device d1" "same_identity ?n d1"
      "m_currentConfiguration d1 \<in> {0, v}"
    using quiet_run_fresh [OF new_device_unknown(1) _ before, of i api i] new_device_unknown(3) [of i] by auto
  obtain d2 where d2: "device_step api (DeviceControlIn ep1 s1 descriptor) d1 = Some d2" "known_device descriptor [] v d2" "m_experts d2 = []"
    using first_descriptor [OF d1(2,4) read(1,2) descr, of api] by blast
  have "\<not> m_hasDeviceDescriptor ?n" by (rule new_device_unknown)
  then have n1: "\<not> opens_session (DeviceControlIn ep1 s1 descriptor) d1"
    using d1(3) by (simp add: same_identity_def reenumerates_def)
  obtain d3 where d3: "run_opt (session_step api i) between [d2] = Some [d3]" "known_device descriptor [] v d3" "m_experts d3 = []"
    using steady_run_plain [OF d2(2) between _ descr(1) d2(3), of api i] by (auto simp: known_answer_def)
  obtain d4 where d4: "device_step api (DeviceControlIn ep2 s2 conf) d3 = Some d4" "known_device descriptor [(v, c')] v d4" "m_experts d4 = es"
    using first_configuration [OF d3(2,3) read(3,4) conf assms(2,3), of api] by blast
  have n2: "\<not> opens_session (DeviceControlIn ep2 s2 conf) d3"
    using read(3) by (auto simp: gets_descriptor_def reenumerates_def isControlDescriptorRead_def)
  have "run_opt (session_step api i) xs [?n] = Some [d4]"
    by (simp add: xs run_opt_append d1(1) d3(1) session_single [OF d2(1) n1] session_single [OF d4(1) n2]
        del: device_step.simps opens_session.simps)
  with d4(2,3) show ?thesis by blast
qed

text \<open>
  A whole session of a device: its enumeration, steady traffic, and then nothing more or the descriptor of another
  device, with whatever follows.
\<close>

fun other_device :: "byte list \<Rightarrow> device_event \<Rightarrow> bool" where
  "other_device descriptor (DeviceControlIn endpoint setup data) \<longleftrightarrow>
     isControlDescriptorRead setup \<and> 18 \<le> length data \<and> take 18 data \<noteq> take 18 descriptor"
| "other_device descriptor _ \<longleftrightarrow> False"

definition session_of :: "byte list \<Rightarrow> byte list \<Rightarrow> usb_configuration \<Rightarrow> device_event list \<Rightarrow> device_event list \<Rightarrow> bool" where
  "session_of descriptor conf c traffic xs \<longleftrightarrow> unshared c \<and>
     list_all (steady descriptor conf (bConfigurationValue (config_descriptor c))) traffic \<and>
     (\<exists>start later. xs = start @ traffic @ later \<and> enumeration descriptor conf c start \<and>
        (later = [] \<or> other_device descriptor (hd later)))"

lemma session_run_keeps:
  "run_opt (session_step api i) evs ds = Some ds' \<Longrightarrow> d \<in> set (butlast ds) \<Longrightarrow> d \<in> set (butlast ds')"
proof (induction evs arbitrary: ds)
  case (Cons ev evs)
  then obtain ds1 where ds1: "session_step api i ev ds = Some ds1" "run_opt (session_step api i) evs ds1 = Some ds'"
    by (auto elim!: bind_Some_elim)
  have "d \<in> set (butlast ds1)"
    using ds1(1) Cons.prems(2) by (auto simp: session_step_def dest: in_set_butlastD split: if_splits)
  with Cons.IH [OF ds1(2)] show ?case .
qed simp

lemma enumerated_session:
  assumes "session_of descriptor conf c traffic xs" and "enumerated descriptor c = (c', es :: 'p expert list)"
    and "run_opt (session_step api i) xs [new_device i] = Some ds"
  shows "\<exists>d \<in> set ds. m_configurations d = [(bConfigurationValue (config_descriptor c), c')] \<and> length (m_experts d) = length es \<and>
    (\<forall>p < length es. run_opt (virtual_step api) (static_calls p c' traffic) (es ! p) = Some (m_experts d ! p))"
proof -
  define v where "v = bConfigurationValue (config_descriptor c)"
  obtain start later where xs: "xs = start @ traffic @ later" and start: "enumeration descriptor conf c start"
    and later: "later = [] \<or> other_device descriptor (hd later)" and traffic: "list_all (steady descriptor conf v) traffic" "unshared c"
    using assms(1) unfolding session_of_def v_def by (elim conjE exE)
  obtain d0 where d0: "run_opt (session_step api i) start [new_device i] = Some [d0]" "known_device descriptor [(v, c')] v d0" "m_experts d0 = es"
    using enumeration_run [OF start v_def assms(2), of api i] by blast
  have c': "c' = c\<lparr>interfaces := fst (attached c (described descriptor :: 'p device))\<rparr>" using assms(2) by (simp add: enumerated_def)
  have "unshared c'" unfolding c' unshared_attached by (rule traffic(2))
  moreover have "known_answer [(v, c')] conf" "18 \<le> length descriptor"
    using start by (auto simp: enumeration_def known_answer_def v_def om_contains_def)
  ultimately obtain d where d: "run_opt (session_step api i) traffic [d0] = Some [d]" "known_device descriptor [(v, c')] v d"
      "length (m_experts d) = length (m_experts d0)"
      "\<forall>p < length (m_experts d0). run_opt (virtual_step api) (static_calls p c' traffic) (m_experts d0 ! p) = Some (m_experts d ! p)"
    using steady_run [OF d0(2) traffic(1), of api i] by blast
  have rest: "run_opt (session_step api i) later [d] = Some ds"
    using assms(3) by (simp add: xs run_opt_append d0(1) d(1))
  have "d \<in> set ds"
  proof (cases later)
    case Nil
    with rest show ?thesis by auto
  next
    case (Cons ev evs)
    with later have "other_device descriptor ev" by simp
    then have "opens_session ev d"
      using d(2) \<open>18 \<le> length descriptor\<close> by (cases ev)
        (auto simp: reenumerates_def USB_DT_DEVICE_SIZE_def known_device_def encode_decode_device_descriptor)
    then obtain d1 where "run_opt (session_step api i) evs [d, d1] = Some ds"
      using rest by (auto simp: Cons session_step_def elim!: bind_Some_elim)
    from session_run_keeps [OF this, of d] show ?thesis by (simp add: in_set_butlastD)
  qed
  moreover have "m_configurations d = [(v, c')]" using d(2) by (simp add: known_device_def)
  ultimately show ?thesis using d(3,4) d0(3) by (auto simp: v_def)
qed

end
