(* ===== verification/Mux_Conversations.thy ===== *)
theory Mux_Conversations
  imports USBMUX_Demux
begin

text \<open>
  The usbmux expert from its transfers to the conversations: both directions of its bulk endpoints at once, interleaved
  in any way with each other and with control requests, carry packets; the packets carry TCP segments beside other
  protocols; and the segments of one connection carry its messages.
\<close>

section \<open>Transfers that carry packets\<close>

text \<open>
  \<open>carries bufs evs qs\<close>: when \<open>bufs out\<close> is what has arrived of the next packet of a direction, the transfers complete
  the packets \<open>qs\<close>, in this order.
\<close>

inductive carries :: "(bool \<Rightarrow> byte list) \<Rightarrow> expert_event list \<Rightarrow> (bool \<times> mux_packet) list \<Rightarrow> bool" where
  carries_Nil: "carries bufs [] []"
| carries_bulk: "\<lbrakk>bufs out @ data = concat (map encode_packet ps) @ rest; list_all valid_packet ps; incomplete rest;
     carries (bufs(out := rest)) evs qs\<rbrakk> \<Longrightarrow> carries bufs (USBMUX_Reassembly.transfer out data # evs) (map (Pair out) ps @ qs)"
| carries_control: "\<lbrakk>\<not> is_bulk ev; carries bufs evs qs\<rbrakk> \<Longrightarrow> carries bufs (ev # evs) qs"

text \<open>Whatever its transfer boundaries and its interleaving, encoded traffic is carried.\<close>

fun bulk_of :: "bool \<Rightarrow> expert_event \<Rightarrow> byte list" where
  "bulk_of out (BulkOut data) = (if out then data else [])"
| "bulk_of out (BulkIn data) = (if out then [] else data)"
| "bulk_of out _ = []"

definition in_direction :: "bool \<Rightarrow> (bool \<times> mux_packet) list \<Rightarrow> mux_packet list" where
  "in_direction out qs = map snd (filter (\<lambda>q. fst q = out) qs)"

lemma in_direction_simps [simp]:
  "in_direction out [] = []" "in_direction out (qs @ qs') = in_direction out qs @ in_direction out qs'"
  "in_direction out (map (Pair out') ps) = (if out = out' then ps else [])"
  by (auto simp: in_direction_def filter_map comp_def)

lemma bulk_of_transfer [simp]: "bulk_of out (USBMUX_Reassembly.transfer out' data) = (if out = out' then data else [])"
  by (simp add: transfer_def)

lemma bulk_event: "is_bulk ev \<Longrightarrow> ev = USBMUX_Reassembly.transfer True (event_data ev) \<or> ev = USBMUX_Reassembly.transfer False (event_data ev)"
  by (cases ev) (simp_all add: transfer_def)

lemma no_packet_incomplete:
  assumes "bs = concat (map encode_packet ps) @ rest" and "list_all valid_packet ps" and "incomplete bs"
  shows "ps = []"
proof (cases ps)
  case (Cons p ps')
  have valid: "valid_packet p" using assms(2) Cons by simp
  have "\<not> incomplete (encode_packet p)"
    using packet_size_ge [of p] mux_length_encode [of p "[]"] packet_size_le [OF valid] framing_encode [OF valid, of "[]"]
    by (simp add: incomplete_def unat_size)
  moreover have "incomplete (encode_packet p)"
    by (rule incomplete_prefix) (use assms(1,3) in \<open>simp add: Cons\<close>)
  ultimately show ?thesis by simp
qed

lemma encoded_traffic_carried:
  assumes "\<And>out. bufs out @ concat (map (bulk_of out) evs) = concat (map encode_packet (ps out)) @ rest out"
    and "\<And>out. list_all valid_packet (ps out)" and "\<And>out. incomplete (rest out)" and "\<And>out. incomplete (bufs out)"
  shows "\<exists>qs. carries bufs evs qs \<and> (\<forall>out. in_direction out qs = ps out)"
  using assms
proof (induction evs arbitrary: bufs ps)
  case Nil
  have "ps out = []" for out by (rule no_packet_incomplete [where rest = "rest out"]) (use Nil.prems in simp_all)
  then show ?case using carries_Nil by force
next
  case (Cons ev evs)
  show ?case
  proof (cases "is_bulk ev")
    case False
    then have "bulk_of out ev = []" for out by (cases ev) simp_all
    then obtain qs where "carries bufs evs qs" "\<forall>out. in_direction out qs = ps out"
      using Cons.IH [of bufs ps] Cons.prems by auto
    with carries_control [OF False] show ?thesis by blast
  next
    case True
    then obtain dir data where ev: "ev = USBMUX_Reassembly.transfer dir data" using bulk_event by blast
    from Cons.prems(1) [of dir]
    have "(bufs dir @ data) @ concat (map (bulk_of dir) evs) = concat (map encode_packet (ps dir)) @ rest dir" by (simp add: ev)
    from split_packets [OF this Cons.prems(2,3)] obtain ps1 ps2 part where
      split: "ps dir = ps1 @ ps2" "bufs dir @ data = concat (map encode_packet ps1) @ part" "incomplete part"
        "part @ concat (map (bulk_of dir) evs) = concat (map encode_packet ps2) @ rest dir" by (elim exE conjE)
    have valid: "list_all valid_packet ps1" "list_all valid_packet ps2" using Cons.prems(2) [of dir] by (simp_all add: split(1))
    have "\<exists>qs. carries (bufs(dir := part)) evs qs \<and> (\<forall>out. in_direction out qs = (ps(dir := ps2)) out)"
    proof (rule Cons.IH)
      show "(bufs(dir := part)) out @ concat (map (bulk_of out) evs) = concat (map encode_packet ((ps(dir := ps2)) out)) @ rest out" for out
        using Cons.prems(1) [of out] split(4) by (cases out; cases dir) (simp_all add: ev)
    qed (use Cons.prems(2-4) valid(2) split(3) in \<open>simp_all\<close>)
    then obtain qs where qs: "carries (bufs(dir := part)) evs qs" "\<forall>out. in_direction out qs = (ps(dir := ps2)) out" by blast
    have "carries bufs (ev # evs) (map (Pair dir) ps1 @ qs)"
      unfolding ev by (rule carries_bulk [OF split(2) valid(1) split(3) qs(1)])
    moreover have "in_direction out (map (Pair dir) ps1 @ qs) = ps out" for out using qs(2) split(1) by simp
    ultimately show ?thesis by blast
  qed
qed

section \<open>The packets of both directions\<close>

definition mux_packet_step :: "'p plist_api \<Rightarrow> bool \<times> mux_packet \<Rightarrow> 'p usbmux_expert \<Rightarrow> 'p usbmux_expert option" where
  "mux_packet_step api q e = packet_step api (fst q) (packet_content (snd q)) e"

interpretation mixed: safe_machine usbmux_wf "mux_packet_step api" for api
  by unfold_locales (simp add: mux_packet_step_def packet_step_def processPacket_ok)

lemma run_mixed_direction:
  "run_opt (mux_packet_step api) (map (Pair out) ps) e = run_opt (packet_step api out) (map packet_content ps) e"
  by (induction ps arbitrary: e) (simp_all add: mux_packet_step_def cong: Option.bind_cong)

lemma run_mixed_graft:
  "run_opt (mux_packet_step api) qs (graft e0 e) = map_option (graft e0) (run_opt (mux_packet_step api) qs e)"
proof (induction qs arbitrary: e)
  case (Cons q qs)
  then show ?case
    by (cases "mux_packet_step api q e") (simp_all add: mux_packet_step_def packet_step_def processPacket_graft)
qed simp

lemma run_mixed_core:
  assumes "core e = core e0"
  shows "run_opt (mux_packet_step api) qs e0 = map_option (graft e0) (run_opt (mux_packet_step api) qs e)"
  using run_mixed_graft [of api qs e0 e] by (simp add: graft_core [OF assms])

lemma mux_dir_set_other: "mux_dir dir (set_buffer out buf e) = (if dir = out then (mux_dir out e)\<lparr>mux_buffer := buf\<rparr> else mux_dir dir e)"
  by (simp add: mux_dir_def set_buffer_def)

lemma carries_run:
  "carries bufs evs qs \<Longrightarrow> usbmux_ok e \<Longrightarrow> (\<And>out. mux_buffer (mux_dir out e) = bufs out) \<Longrightarrow>
   \<exists>e' e''. run_opt (usbmux_step api) evs e = Some e' \<and> run_opt (mux_packet_step api) qs e = Some e'' \<and> core e' = core e''"
proof (induction arbitrary: e rule: carries.induct)
  case (carries_Nil bufs)
  then show ?case by simp
next
  case (carries_bulk bufs out data ps rest evs qs)
  let ?c = "counted out data e"
  have okc: "usbmux_ok ?c" using carries_bulk.prems(1) by simp
  then have wfc: "usbmux_wf ?c" unfolding usbmux_ok_def by blast
  obtain e1 where e1: "run_opt (packet_step api out) (map packet_content ps) ?c = Some e1" "usbmux_wf e1"
    using packets.safe_run [OF wfc, where xs = "map packet_content ps"] by blast
  have fed: "feed api out data ?c = Some (set_buffer out rest e1)"
    using feed_packets [OF okc, of out data ps rest api] carries_bulk.hyps(1-3) carries_bulk.prems(2) e1(1) by simp
  have ok1: "usbmux_ok (set_buffer out rest e1)" using feed_ok [OF okc, of api out data] fed by simp
  have dir: "mux_dir dir e1 = mux_dir dir e" for dir using mux_dir_directions [OF run_packets_directions [OF e1(1)]] by simp
  have bufs: "mux_buffer (mux_dir dir (set_buffer out rest e1)) = (bufs(out := rest)) dir" for dir
    using carries_bulk.prems(2) [of dir] by (cases dir; cases out) (simp_all add: mux_dir_set_other dir)
  obtain e' e2 where e': "run_opt (usbmux_step api) evs (set_buffer out rest e1) = Some e'"
      "run_opt (mux_packet_step api) qs (set_buffer out rest e1) = Some e2" "core e' = core e2"
    using carries_bulk.IH [OF ok1 bufs] by blast
  have "run_opt (packet_step api out) (map packet_content ps) e = Some (graft e e1)"
    using run_packets_core [of ?c e api out "map packet_content ps"] e1(1) by simp
  moreover have "run_opt (mux_packet_step api) qs (graft e e1) = Some (graft e e2)"
    using run_mixed_core [of "set_buffer out rest e1" "graft e e1" api qs] e'(2) by simp
  ultimately have "run_opt (mux_packet_step api) (map (Pair out) ps @ qs) e = Some (graft e e2)"
    by (simp add: run_opt_append run_mixed_direction)
  with e' fed show ?case by (simp add: usbmux_step_transfer)
next
  case (carries_control ev bufs evs qs)
  obtain e1 where e1: "usbmux_step api ev e = Some e1" "usbmux_ok e1" "core e1 = core e" "\<And>out. mux_dir out e1 = mux_dir out e"
    using carries_control.hyps(1) carries_control.prems(1)
    by (cases ev) (simp_all add: usbmux_step_def core_def mux_dir_def base_defs usbmux_ok_def usbmux_wf_def indexed_def addressed_def)
  obtain e' e2 where e': "run_opt (usbmux_step api) evs e1 = Some e'" "run_opt (mux_packet_step api) qs e1 = Some e2" "core e' = core e2"
    using carries_control.IH [OF e1(2)] carries_control.prems(2) e1(4) by auto
  with run_mixed_core [OF e1(3), of api qs] e1(1) show ?case by simp
qed

section \<open>The TCP segments among the packets\<close>

definition segment_of :: "bool \<times> mux_packet \<Rightarrow> segment list" where
  "segment_of q = (if fst (packet_content (snd q)) = MUX_PROTO_TCP then [(fst q, snd (packet_content (snd q)))] else [])"

definition segments :: "(bool \<times> mux_packet) list \<Rightarrow> segment list" where
  "segments qs = concat (map segment_of qs)"

lemma segments_simps [simp]: "segments [] = []" "segments (q # qs) = segment_of q @ segments qs"
  by (simp_all add: segments_def)

lemma mux_packet_tcp:
  "fst (packet_content (snd q)) = MUX_PROTO_TCP \<Longrightarrow> mux_packet_step api q e = tcp_step api (fst q, snd (packet_content (snd q))) e"
  by (simp add: mux_packet_step_def packet_step_def processPacket_def tcp_step_def)

lemma mux_packet_other:
  assumes "fst (packet_content (snd q)) \<noteq> MUX_PROTO_TCP" and "mux_packet_step api q e = Some e'"
  shows "m_streams e' = m_streams e" and "m_streamIndex e' = m_streamIndex e"
  using assms by (auto simp: mux_packet_step_def packet_step_def processPacket_def split: if_splits elim!: bind_Some_elim)

lemma segments_cut:
  "segments qs = pre @ seg # segs \<Longrightarrow> \<exists>qs1 q qs2. qs = qs1 @ q # qs2 \<and> segments qs1 = pre \<and> segment_of q = [seg] \<and> segments qs2 = segs"
proof (induction qs arbitrary: pre)
  case Nil
  then show ?case by simp
next
  case (Cons q qs)
  show ?case
  proof (cases "segment_of q = []")
    case True
    with Cons.prems have "segments qs = pre @ seg # segs" by simp
    from Cons.IH [OF this] obtain qs1 q' qs2 where "qs = qs1 @ q' # qs2" "segments qs1 = pre" "segment_of q' = [seg]" "segments qs2 = segs"
      by blast
    with True show ?thesis by (intro exI [of _ "q # qs1"] exI [of _ q'] exI [of _ qs2]) simp
  next
    case False
    then obtain x where x: "segment_of q = [x]" by (auto simp: segment_of_def split: if_splits)
    show ?thesis
    proof (cases pre)
      case Nil
      with Cons.prems x show ?thesis by (intro exI [of _ "[]"] exI [of _ q] exI [of _ qs]) simp
    next
      case (Cons y ys)
      with Cons.prems x have "segments qs = ys @ seg # segs" "y = x" by simp_all
      from Cons.IH [OF this(1)] obtain qs1 q' qs2 where
        "qs = qs1 @ q' # qs2" "segments qs1 = ys" "segment_of q' = [seg]" "segments qs2 = segs" by blast
      with x Cons \<open>y = x\<close> show ?thesis by (intro exI [of _ "q # qs1"] exI [of _ q'] exI [of _ qs2]) simp
    qed
  qed
qed

section \<open>The number of a connection\<close>

text \<open>A SYN of the host, or the first segment of its ports, begins a connection; they are counted from one.\<close>

definition begun_step :: "u16 \<Rightarrow> u16 \<Rightarrow> segment \<Rightarrow> u32 option \<Rightarrow> u32 option" where
  "begun_step h d seg n =
     (if belongs h d seg \<and> (opens seg \<or> n = None) then Some (case n of None \<Rightarrow> 1 | Some k \<Rightarrow> k + 1) else n)"

definition connection_number :: "u16 \<Rightarrow> u16 \<Rightarrow> segment list \<Rightarrow> u32" where
  "connection_number h d segs = (case fold (begun_step h d) segs None of None \<Rightarrow> 1 | Some k \<Rightarrow> k + 1)"

lemma next_index_eq: "next_index h d e = (case om_find (m_streamIndex e) (STREAM_PORT h d) of None \<Rightarrow> 1 | Some k \<Rightarrow> k + 1)"
  by (simp add: next_index_def om_get_def split: option.split)

lemma tcp_step_index:
  assumes "usbmux_wf e" and "tcp_step api seg e = Some e'"
  shows "om_find (m_streamIndex e') (STREAM_PORT h d) = begun_step h d seg (om_find (m_streamIndex e) (STREAM_PORT h d))"
proof (cases "belongs h d seg")
  case True
  show ?thesis
  proof (cases "known seg e")
    case known: True
    then obtain i where i: "om_find (m_streamIndex e) (STREAM_PORT h d) = Some i" "\<not> opens seg"
      using True by (auto simp: known_def om_contains_find belongs_def)
    obtain s where s: "om_find (m_streams e) (STREAM_ID h d i) = Some s"
      using assms(1) i(1) unfolding usbmux_wf_def indexed_def om_contains_find by blast
    from tcp_step_known [OF assms(1) True i(2,1) s, of api] assms(2) have "m_streamIndex e' = m_streamIndex e" by auto
    with i show ?thesis by (simp add: begun_step_def)
  next
    case False
    from tcp_step_fresh [OF assms(1) True False, of api] assms(2)
    have "om_find (m_streamIndex e') (STREAM_PORT h d) = Some (next_index h d e)" by (auto simp: om_find_put)
    moreover have "opens seg \<or> om_find (m_streamIndex e) (STREAM_PORT h d) = None"
      using False True by (auto simp: known_def om_contains_find belongs_def)
    ultimately show ?thesis using True by (simp add: begun_step_def next_index_eq)
  qed
next
  case False
  with tcp_step_other [OF assms(1) False assms(2)] show ?thesis by (simp add: begun_step_def)
qed

lemma run_mixed_index:
  "usbmux_wf e \<Longrightarrow> run_opt (mux_packet_step api) qs e = Some e' \<Longrightarrow>
   om_find (m_streamIndex e') (STREAM_PORT h d) = fold (begun_step h d) (segments qs) (om_find (m_streamIndex e) (STREAM_PORT h d))"
proof (induction qs arbitrary: e)
  case (Cons q qs)
  obtain e1 where e1: "mux_packet_step api q e = Some e1" "run_opt (mux_packet_step api) qs e1 = Some e'"
    using Cons.prems(2) by (auto elim: bind_Some_elim)
  have "usbmux_wf e1" using mixed.safe_step [OF Cons.prems(1), of api q] e1(1) by simp
  from Cons.IH [OF this e1(2)] show ?case
  proof (cases "fst (packet_content (snd q)) = MUX_PROTO_TCP")
    case True
    with Cons.IH [OF \<open>usbmux_wf e1\<close> e1(2)] e1(1) tcp_step_index [OF Cons.prems(1), of api _ e1 h d] show ?thesis
      by (simp add: mux_packet_tcp segment_of_def)
  next
    case False
    with Cons.IH [OF \<open>usbmux_wf e1\<close> e1(2)] mux_packet_other [OF False e1(1)] show ?thesis by (simp add: segment_of_def)
  qed
qed simp

section \<open>One connection among all packets\<close>

lemma mixed_run_connection:
  assumes "usbmux_wf e" and "om_find (m_streamIndex e) (STREAM_PORT h d) = Some i"
    and "om_find (m_streams e) (STREAM_ID h d i) = Some s" and "list_all (\<lambda>seg. \<not> (belongs h d seg \<and> opens seg)) (segments qs)"
  shows "\<exists>e' s'. run_opt (mux_packet_step api) qs e = Some e' \<and>
     run_opt (segment_step api) (filter (belongs h d) (segments qs)) s = Some s' \<and>
     om_find (m_streams e') (STREAM_ID h d i) = Some s'"
  using assms
proof (induction qs arbitrary: e s)
  case (Cons q qs)
  obtain e1 where e1: "mux_packet_step api q e = Some e1" "usbmux_wf e1" using mixed.safe_step [OF Cons.prems(1), of api q] by blast
  have rest: "list_all (\<lambda>seg. \<not> (belongs h d seg \<and> opens seg)) (segments qs)" using Cons.prems(4) by simp
  show ?case
  proof (cases "fst (packet_content (snd q)) = MUX_PROTO_TCP")
    case True
    let ?seg = "(fst q, snd (packet_content (snd q)))"
    have seg: "segment_of q = [?seg]" "tcp_step api ?seg e = Some e1" using True e1(1) by (simp_all add: segment_of_def mux_packet_tcp)
    have "\<not> (belongs h d ?seg \<and> opens ?seg)" using Cons.prems(4) seg(1) by simp
    with tcp_run_connection [OF Cons.prems(1-3), of "[?seg]" api] obtain s1 where
      s1: "run_opt (segment_step api) (filter (belongs h d) [?seg]) s = Some s1"
        "om_find (m_streamIndex e1) (STREAM_PORT h d) = Some i" "om_find (m_streams e1) (STREAM_ID h d i) = Some s1"
      using seg(2) by auto
    from Cons.IH [OF e1(2) s1(2,3) rest] e1(1) s1(1) show ?thesis
      by (auto simp: seg(1) split: if_splits elim!: bind_Some_elim)
  next
    case False
    with mux_packet_other [OF False e1(1)] Cons.IH [OF e1(2) _ _ rest] Cons.prems(2,3) e1(1) show ?thesis
      by (simp add: segment_of_def)
  qed
qed simp

text \<open>The conversation of a connection, from the transfers of the whole expert.\<close>

lemma transfers_conversation:
  assumes "carries (\<lambda>_. []) evs qs" and "segments qs = earlier @ syn # segs" and "belongs h d syn" and "opens syn"
    and "list_all (\<lambda>seg. \<not> (belongs h d seg \<and> opens seg)) segs"
    and "well_framed outs" and "concat (sent (conn_data (filter (belongs h d) (syn # segs)))) = concat (map frame outs)"
    and "well_framed ins" and "concat (received (conn_data (filter (belongs h d) (syn # segs)))) = concat (map frame ins)"
  shows "\<exists>e' s'. run_opt (usbmux_step api) evs (new_usbmux_expert c n) = Some e' \<and>
     om_find (m_streams e') (STREAM_ID h d (connection_number h d earlier)) = Some s' \<and>
     messages_out s' = map (message_of api True) outs \<and> messages_in s' = map (message_of api False) ins"
proof -
  let ?e = "new_usbmux_expert c n :: 'a usbmux_expert"
  obtain e' e'' where run: "run_opt (usbmux_step api) evs ?e = Some e'" "run_opt (mux_packet_step api) qs ?e = Some e''" "core e' = core e''"
    using carries_run [OF assms(1) new_usbmux_expert_ok, of c n api] by auto
  obtain qs1 q qs2 where qs: "qs = qs1 @ q # qs2" "segments qs1 = earlier" "segment_of q = [syn]" "segments qs2 = segs"
    using segments_cut [OF assms(2)] by blast
  obtain e1 where e1: "run_opt (mux_packet_step api) qs1 ?e = Some e1" "usbmux_wf e1"
    using mixed.safe_run [OF new_usbmux_expert_wf, of api qs1] by blast
  have tcp: "fst (packet_content (snd q)) = MUX_PROTO_TCP" "(fst q, snd (packet_content (snd q))) = syn"
    using qs(3) by (auto simp: segment_of_def split: if_splits)
  have "\<not> known syn e1" using assms(4) by (simp add: known_def)
  from tcp_step_fresh [OF e1(2) assms(3) this, of api] obtain e2 s2 where
    e2: "tcp_step api syn e1 = Some e2" "segment_step api syn (fresh_stream h d e1) = Some s2" "usbmux_wf e2"
      "m_streamIndex e2 = om_put (STREAM_PORT h d) (next_index h d e1) (m_streamIndex e1)"
      "om_find (m_streams e2) (STREAM_ID h d (next_index h d e1)) = Some s2" by auto
  have index: "om_find (m_streamIndex e2) (STREAM_PORT h d) = Some (next_index h d e1)" by (simp add: e2(4) om_find_put)
  obtain e3 s3 where e3: "run_opt (mux_packet_step api) qs2 e2 = Some e3"
      "run_opt (segment_step api) (filter (belongs h d) segs) s2 = Some s3"
      "om_find (m_streams e3) (STREAM_ID h d (next_index h d e1)) = Some s3"
    using mixed_run_connection [OF e2(3) index e2(5), of qs2 api] assms(5) by (auto simp: qs(4))
  have "e'' = e3" using run(2) e1(1) e2(1) e3(1) by (simp add: qs(1) run_opt_append mux_packet_tcp [OF tcp(1)] tcp(2))
  then have "m_streams e' = m_streams e3" using run(3) by (simp add: core_def)
  moreover have "run_opt (segment_step api) (filter (belongs h d) (syn # segs)) (fresh_stream h d e1) = Some s3"
    using e2(2) e3(2) assms(3) by simp
  from fresh_run_messages [OF this assms(6-9)]
  have "messages_out s3 = map (message_of api True) outs \<and> messages_in s3 = map (message_of api False) ins" .
  moreover have "om_find (m_streamIndex ?e) (STREAM_PORT h d) = None"
    by (simp add: new_usbmux_expert_def interface_expert.defs usbmux_expert.defs om_find_empty)
  then have "next_index h d e1 = connection_number h d earlier"
    using run_mixed_index [OF new_usbmux_expert_wf e1(1), of h d] by (simp add: next_index_eq connection_number_def qs(2))
  ultimately show ?thesis using run(1) e3(3) by auto
qed

end
