(* ===== verification/Device_Typing.thy ===== *)
theory Device_Typing
  imports Device_Model
begin

text \<open>
  A typing of the experts of a device.  The interfaces of a device hold pointers to experts of three classes in one heap;
  the type of an expert is its class with the configuration and the interface it was created for, and a heap typing
  lists the types of all experts.  Every transfer keeps a device well typed, under a typing that only grows.
\<close>

datatype expert_class = DFUClass | RecoveryClass | USBMUXClass

type_synonym expert_type = "expert_class \<times> u8 \<times> u8"

definition class_of :: "'p expert \<Rightarrow> expert_class" where
  "class_of e = (case e of ExpertDFU d \<Rightarrow> DFUClass | ExpertRecovery r \<Rightarrow> RecoveryClass | ExpertUSBMUX u \<Rightarrow> USBMUXClass)"

definition type_of :: "'p expert \<Rightarrow> expert_type" where
  "type_of e = (class_of e, m_configuration (expert_base e), m_interface (expert_base e))"

text \<open>The protocols of an interface that experts are made for.\<close>

definition usbmux_protocol :: "usb_interface_descriptor \<Rightarrow> bool" where
  "usbmux_protocol x \<longleftrightarrow> bInterfaceClass x = USB_CLASS_APPLICATION_SPECIFIC \<and> bInterfaceSubClass x = APPLE_SUBCLASS_USBMUX \<and>
     bInterfaceProtocol x = APPLE_PROTOCOL_USBMUX2"

definition dfu_protocol :: "usb_interface_descriptor \<Rightarrow> bool" where
  "dfu_protocol x \<longleftrightarrow> bInterfaceClass x = USB_CLASS_DFU \<and> bInterfaceSubClass x = USB_SUBCLASS_DFU"

text \<open>
  A pointer of the interface \<open>i\<close> of a configuration may be of a type when the type names the configuration; names the
  interface, or is the type of all interfaces; and, for a usbmux expert, when a setting of the interface speaks usbmux.
\<close>

definition pointer_type :: "u8 \<Rightarrow> usb_configuration \<Rightarrow> usb_interface \<Rightarrow> nat \<Rightarrow> expert_type \<Rightarrow> bool" where
  "pointer_type k c i p t \<longleftrightarrow> fst (snd t) = k \<and>
     (snd (snd t) = number_of i \<or> (\<forall>j \<in> set (interfaces c). iface_expert j = Some p)) \<and>
     (fst t = USBMUXClass \<longrightarrow> (\<exists>j \<in> set (interfaces c). number_of j = number_of i \<and> usbmux_protocol (iface_descriptor j)))"

definition configuration_typed :: "expert_type list \<Rightarrow> u8 \<Rightarrow> usb_configuration \<Rightarrow> bool" where
  "configuration_typed T k c \<longleftrightarrow>
     (\<forall>i \<in> set (interfaces c). \<forall>p. iface_expert i = Some p \<longrightarrow> p < length T \<and> pointer_type k c i p (T ! p))"

definition well_typed :: "expert_type list \<Rightarrow> 'p device \<Rightarrow> bool" where
  "well_typed T d \<longleftrightarrow> device_ok d \<and> map type_of (m_experts d) = T \<and>
     (\<forall>k c. om_find (m_configurations d) k = Some c \<longrightarrow> configuration_typed T k c)"

section \<open>Calls keep the type of an expert\<close>

lemma virtual_step_type:
  assumes "expert_ok e" and "virtual_step api x e = Some e'"
  shows "type_of e' = type_of e"
proof -
  have "expert_base e' = base_count x (expert_base e)" using virtual_step_ok [OF assms(1), of api x] assms(2) by auto
  moreover have "class_of e' = class_of e" using assms(2) by (cases e) (auto simp: virtual_step_eq class_of_def)
  ultimately show ?thesis by (simp add: type_of_def base_count_counters)
qed

lemma type_of_origins: "map snd (map type_of es) = origins es"
  by (simp add: type_of_def origins_def)

section \<open>Attaching\<close>

lemma configuration_typed_append: "configuration_typed T k c \<Longrightarrow> configuration_typed (T @ T') k c"
  by (auto simp: configuration_typed_def nth_append)

lemma interface_protocol_usbmux: "interface_protocol c x d = Some e \<Longrightarrow> class_of e = USBMUXClass \<Longrightarrow> usbmux_protocol x"
  by (auto simp: interface_protocol_def usbmux_protocol_def class_of_def make_dfu_def Let_def split: if_splits)

lemma expected_expert_usbmux:
  assumes "expected_expert c d i = Some e" and "class_of e = USBMUXClass"
  shows "\<exists>j \<in> set (interfaces c). number_of j = number_of i \<and> usbmux_protocol (iface_descriptor j)"
proof -
  have "\<not> device_wide d" using assms by (auto simp: expected_expert_def class_of_def make_dfu_def Let_def split: if_splits)
  with assms(1) obtain j where j: "find (\<lambda>j. number_of j = number_of i \<and> protocol_of c d j \<noteq> None) (interfaces c) = Some j"
      "protocol_of c d j = Some e"
    by (auto simp: expected_expert_def first_protocol_def split: option.splits)
  from find_holds [OF j(1)] interface_protocol_usbmux [OF j(2) assms(2)] show ?thesis by blast
qed

lemma attached_descriptors:
  assumes "j \<in> set (interfaces c)"
  shows "\<exists>i \<in> set (fst (attached c d)). iface_descriptor i = iface_descriptor j"
proof -
  have same: "iface_descriptor (strip_expert i) = iface_descriptor i" for i by (simp add: strip_expert_def)
  have "strip_expert j \<in> set (map strip_expert (fst (attached c d)))" using assms by (simp add: attached_strip)
  then obtain i where "i \<in> set (fst (attached c d))" "strip_expert i = strip_expert j" by auto
  with same show ?thesis by metis
qed

lemma attached_typed:
  "configuration_typed (map type_of (snd (attached c d))) (bConfigurationValue (config_descriptor c)) (c\<lparr>interfaces := fst (attached c d)\<rparr>)"
proof -
  let ?is = "fst (attached c d)" and ?es = "snd (attached c d)" and ?c = "c\<lparr>interfaces := fst (attached c d)\<rparr>"
  have "p < length ?es \<and> pointer_type (bConfigurationValue (config_descriptor c)) ?c i p (type_of (?es ! p))"
    if i: "i \<in> set ?is" and p: "iface_expert i = Some p" for i p
  proof -
    have len: "p < length ?es" using attached_interface(2) [OF i p] by simp
    have e: "expected_expert c d i = Some (?es ! p)" using attached_interface(1) [OF i] p by simp
    have wide: "\<forall>j \<in> set ?is. iface_expert j = Some p" if "device_wide d"
      using attached_same [OF i] p that by (metis option.discI)
    have "\<exists>j \<in> set ?is. number_of j = number_of i \<and> usbmux_protocol (iface_descriptor j)" if class_u: "class_of (?es ! p) = USBMUXClass"
    proof -
      obtain j where j: "j \<in> set (interfaces c)" "number_of j = number_of i" "usbmux_protocol (iface_descriptor j)"
        using expected_expert_usbmux [OF e class_u] by blast
      then show ?thesis using attached_descriptors [OF j(1), of d] by metis
    qed
    then show ?thesis
      using len expected_expert_new(2,3) [OF e] wide by (auto simp: pointer_type_def type_of_def)
  qed
  then show ?thesis by (simp add: configuration_typed_def)
qed

section \<open>What a device does itself\<close>

lemma process_config_typed:
  assumes "process_config_descriptor data d = Some d'" and "well_typed T d"
  shows "\<forall>k c. om_find (m_configurations d') k = Some c \<longrightarrow> configuration_typed (map type_of (m_experts d')) k c"
proof -
  let ?n = "unat (wTotalLength (decode_config_descriptor (take 9 data)))"
  obtain ok c where parse: "usb_configuration_parse new_usb_configuration (take ?n data) = Some (ok, c)"
    and wf: "configuration_wf c" using usb_configuration_parse_wf by blast
  have old: "\<forall>k c. om_find (m_configurations d) k = Some c \<longrightarrow> configuration_typed (map type_of (m_experts d)) k c"
    using assms(2) by (simp add: well_typed_def)
  define d1 where "d1 = (if ok then d else d\<lparr>m_anomalies := m_anomalies d @
    [''Malformed configuration descriptor '' @ dec (unat (bConfigurationValue (decode_config_descriptor (take 9 data))))]\<rparr>)"
  have d1: "m_configurations d1 = m_configurations d" "m_experts d1 = m_experts d" by (simp_all add: d1_def)
  let ?v = "bConfigurationValue (config_descriptor c)"
  have eq: "process_config_descriptor data d =
      (if length data < 9 \<or> length data < ?n \<or> ?n \<le> 9 then Some d
       else if om_contains (m_configurations d1) ?v then Some d1
       else Some (d1\<lparr>m_experts := snd (attached c d1),
         m_configurations := om_put ?v (c\<lparr>interfaces := fst (attached c d1)\<rparr>) (m_configurations d1)\<rparr>))"
    using parse
    by (simp add: process_config_descriptor_def USB_DT_CONFIG_SIZE_def readStruct_def Let_def attachExperts_eq [OF wf] d1_def)
  define d2 where "d2 = d1\<lparr>m_experts := snd (attached c d1),
      m_configurations := om_put ?v (c\<lparr>interfaces := fst (attached c d1)\<rparr>) (m_configurations d1)\<rparr>"
  obtain new where new: "snd (attached c d1) = m_experts d1 @ new" using attached_heap by blast
  have before: "configuration_typed (map type_of (m_experts d1 @ new)) k x" if "om_find (m_configurations d1) k = Some x" for k x
    using old that by (simp add: d1 configuration_typed_append)
  have "\<forall>k x. om_find (m_configurations d2) k = Some x \<longrightarrow> configuration_typed (map type_of (m_experts d2)) k x"
  proof (intro allI impI)
    fix k x
    assume find: "om_find (m_configurations d2) k = Some x"
    show "configuration_typed (map type_of (m_experts d2)) k x"
    proof (cases "k = ?v")
      case True
      with find have "x = c\<lparr>interfaces := fst (attached c d1)\<rparr>" by (simp add: d2_def om.find_put)
      with attached_typed [of c d1] True show ?thesis by (simp add: d2_def)
    next
      case False
      with find before show ?thesis by (simp add: d2_def om.find_put new)
    qed
  qed
  moreover have "d' = d \<or> d' = d1 \<or> d' = d2"
    using assms(1) unfolding eq d2_def [symmetric]
    by (cases "length data < 9 \<or> length data < ?n \<or> ?n \<le> 9"; cases "om_contains (m_configurations d1) ?v") simp_all
  ultimately show ?thesis using old d1 by (elim disjE) simp_all
qed

lemma processDescriptor_typed:
  assumes "processDescriptor setup data d = Some d'" and "well_typed T d"
  shows "\<forall>k c. om_find (m_configurations d') k = Some c \<longrightarrow> configuration_typed (map type_of (m_experts d')) k c"
proof (cases "process_config_descriptor data d = Some d'")
  case True
  from process_config_typed [OF this assms(2)] show ?thesis .
next
  case False
  then have "m_configurations d' = m_configurations d \<and> m_experts d' = m_experts d"
    using assms(1)
    by (auto simp: processDescriptor_def Let_def process_device_descriptor_def process_string_descriptor_def process_bos_descriptor_def
        elim!: bind_Some_elim split: if_splits option.splits)
  with assms(2) show ?thesis by (simp add: well_typed_def)
qed

lemma well_typed_count [simp]: "well_typed T (event_count ev d) = well_typed T d"
  by (simp add: well_typed_def)

lemma device_own_typed:
  assumes "device_own ev d = Some d'" and "well_typed T d"
  shows "\<forall>k c. om_find (m_configurations d') k = Some c \<longrightarrow> configuration_typed (map type_of (m_experts d')) k c"
proof (cases ev)
  case (DeviceControlIn ep s data)
  with assms processDescriptor_typed [of s data d d' T] show ?thesis by (auto simp: well_typed_def split: if_splits)
next
  case (DeviceControlOut ep s data)
  with assms show ?thesis by (auto simp: well_typed_def standard_request_def Let_def split: if_splits)
qed (use assms in \<open>auto simp: well_typed_def\<close>)

section \<open>Type soundness\<close>

lemma device_step_typed:
  assumes "well_typed T d"
  shows "\<exists>d' T'. device_step api ev d = Some d' \<and> well_typed (T @ T') d'"
proof (cases "device_route d ev")
  case None
  have ok: "device_ok d" using assms by (simp add: well_typed_def)
  obtain d' where d': "device_step api ev d = Some d'" "device_ok d'" "learns (event_count ev d) d'"
    using device_step_own [OF ok None, of api] by blast
  have "device_own ev (event_count ev d) = Some d'" using d'(1) None by (simp add: device_step_eq)
  from device_own_typed [OF this] have "\<forall>k c. om_find (m_configurations d') k = Some c \<longrightarrow> configuration_typed (map type_of (m_experts d')) k c"
    using assms by simp
  moreover obtain new where "m_experts d' = m_experts d @ new" using d'(3) by (auto simp: learns_def)
  ultimately have "well_typed (T @ map type_of new) d'" using d'(2) assms by (simp add: well_typed_def)
  with d'(1) show ?thesis by blast
next
  case (Some r)
  have ok: "device_ok d" using assms by (simp add: well_typed_def)
  obtain q x where r: "r = (q, x)" by (cases r)
  obtain d' where d': "device_step api ev d = Some d'" "device_ok d'" "d' = (event_count ev d)\<lparr>m_experts := m_experts d'\<rparr>"
      "origins (m_experts d') = origins (m_experts d)"
    and upd: "\<forall>k < length (m_experts d). (if q = Some k then virtual_step api x (m_experts d ! k) else Some (m_experts d ! k)) =
       Some (m_experts d' ! k)"
    using device_step_routed [OF ok Some [unfolded r], of api] by (elim exE conjE)
  have len: "length (m_experts d') = length (m_experts d)" using arg_cong [OF d'(4), of length] by simp
  have "type_of (m_experts d' ! k) = type_of (m_experts d ! k)" if "k < length (m_experts d)" for k
  proof -
    have "expert_ok (m_experts d ! k)" using ok that by (simp add: device_ok_def)
    with upd [rule_format, OF that] virtual_step_type [of "m_experts d ! k" api x "m_experts d' ! k"] show ?thesis
      by (cases "q = Some k") simp_all
  qed
  then have "map type_of (m_experts d') = map type_of (m_experts d)" using len by (simp add: list_eq_iff_nth_eq)
  moreover have "m_configurations d' = m_configurations d" by (subst d'(3)) simp
  ultimately have "well_typed (T @ []) d'" using assms d'(2) by (simp add: well_typed_def)
  with d'(1) show ?thesis by blast
qed

lemma new_device_typed [simp]: "well_typed [] (new_device i)"
  by (simp add: well_typed_def) (simp add: new_device_def)

text \<open>
  C26: Type soundness of a device.  Whatever transfers a well typed device is given, it takes them all and is well typed
  again, under a typing that extends the old one: no expert changes its class or what it was created for, no pointer
  dangles, each leads to an expert of its own configuration and interface (or the one of the whole device), and only
  interfaces that speak usbmux lead to a usbmux expert.
\<close>

theorem device_type_soundness:
  assumes "well_typed T d"
  shows "\<exists>d' T'. run_opt (device_step api) evs d = Some d' \<and> well_typed (T @ T') d'"
  using assms
proof (induction evs arbitrary: T d)
  case Nil
  then show ?case by (intro exI [of _ d] exI [of _ "[]"]) simp
next
  case (Cons ev evs)
  obtain d1 T1 where d1: "device_step api ev d = Some d1" "well_typed (T @ T1) d1" using device_step_typed [OF Cons.prems] by blast
  obtain d' T2 where "run_opt (device_step api) evs d1 = Some d'" "well_typed ((T @ T1) @ T2) d'" using Cons.IH [OF d1(2)] by blast
  with d1(1) show ?case by (intro exI [of _ d'] exI [of _ "T1 @ T2"]) simp
qed

lemma sample_device_typed: "well_typed [(USBMUXClass, 1, 0)] sample_device"
proof -
  have "configuration_typed [(USBMUXClass, 1, 0)] 1 (sample_configuration\<lparr>interfaces :=
      [set_expert 0 (interfaces sample_configuration ! 0), interfaces sample_configuration ! 1]\<rparr>)"
    by (simp add: configuration_typed_def pointer_type_def sample_interfaces block_interface_def usbmux_protocol_def
        decode_interface_descriptor_def numeral_eq_Suc field8_Cons)
  moreover have "map type_of (m_experts sample_device) = [(USBMUXClass, 1, 0)]"
    by (simp add: sample_device_def type_of_def class_of_def)
  ultimately show ?thesis by (simp add: well_typed_def) (simp add: sample_device_def)
qed

theorem device_type_soundness_witness:
  "\<exists>d' T'. run_opt (device_step sample_api) [DeviceBulkOut 4 [1, 2], DeviceControlOut 0 sample_class_setup [3, 4], DeviceBulkIn 5 [5]]
     sample_device = Some d' \<and> well_typed ([(USBMUXClass, 1, 0)] @ T') d'"
  by (rule device_type_soundness [OF sample_device_typed])

end
