(* ===== verification/Conversations.thy ===== *)
theory Conversations
  imports Capture_Traces Enumeration Mux_Conversations Device_Typing
begin

text \<open>
  The components composed: what the experts of an enumerated device are told, and the files this becomes, for a
  device in recovery mode and for the usbmux interface of a running one.
\<close>

section \<open>Every expert of a session\<close>

definition pointers :: "usb_configuration \<Rightarrow> nat list" where
  "pointers c = List.map_filter iface_expert (interfaces c)"

lemma pointers_set: "p \<in> set (pointers c) \<longleftrightarrow> (\<exists>i \<in> set (interfaces c). iface_expert i = Some p)"
  by (force simp: pointers_def map_filter_def)

text \<open>The device of a session has made the calls of its traffic on the experts \<open>es\<close>.\<close>

definition served :: "'p plist_api \<Rightarrow> u8 \<Rightarrow> usb_configuration \<Rightarrow> 'p expert list \<Rightarrow> device_event list \<Rightarrow> 'p device \<Rightarrow> bool" where
  "served api v c es traffic d \<longleftrightarrow> m_configurations d = [(v, c)] \<and> length (m_experts d) = length es \<and>
     (\<forall>p < length es. run_opt (virtual_step api) (static_calls p c traffic) (es ! p) = Some (m_experts d ! p))"

lemma served_files:
  assumes "served api v c es traffic d" and "device_ok d" and "p \<in> set (pointers c)"
  shows "\<exists>e. run_opt (virtual_step api) (static_calls p c traffic) (es ! p) = Some e \<and>
    (\<forall>x \<in> set (expert_getArtifacts api e). (path_join (device_directory path_join directory k d) (artifact_name x), artifact_data x)
      \<in> set (device_files api path_join directory k d))"
proof -
  have "p \<in> set (getExperts d)"
    using assms(1,3) getExperts_exact [of d] by (simp add: attached_pointers_def pointers_def served_def om_values_def)
  moreover have "p < length es"
    using getExperts_valid [OF assms(2) calculation] assms(1) by (simp add: served_def)
  moreover have member: "m_experts d ! p \<in> set (map (\<lambda>p. m_experts d ! p) (getExperts d))" using calculation(1) by simp
  note device_files_member [OF device_experts_ok [OF assms(2)] member _ assms(2), of _ api path_join directory k]
  ultimately show ?thesis using assms(1) unfolding served_def by blast
qed

lemma session_served:
  assumes "parse_arguments program arguments new_cli_options = CliRun opts" and "opt_extract opts \<noteq> []"
    and "recorded contents (opt_input opts) trace"
    and "session_of descriptor conf c traffic (completed_transfers om_empty (trace_events a trace))"
    and "enumerated descriptor c = (c', es)"
  shows "\<exists>r k. run_program api path_join contents program arguments = Some r \<and> exit_status r = 0 \<and>
    (\<forall>p \<in> set (pointers c'). \<exists>e. run_opt (virtual_step api) (static_calls p c' traffic) (es ! p) = Some e \<and>
      (\<forall>x \<in> set (expert_getArtifacts api e).
        (path_join (path_join (opt_extract opts) (''device-'' @ dec k @ ''-'' @ hex (unat a))) (artifact_name x), artifact_data x)
          \<in> set (written_files r)))"
proof -
  let ?v = "bConfigurationValue (config_descriptor c)"
  have "\<exists>d \<in> set ds. served api ?v c' es traffic d"
    if "run_opt (session_step api a) (completed_transfers om_empty (trace_events a trace)) [new_device a] = Some ds" for ds
    using enumerated_session [OF assms(4,5) that] by (simp add: served_def)
  moreover have "\<not> served api ?v c' es traffic (new_device a)" by (simp add: served_def new_device_def om_empty_def)
  ultimately obtain r k d where r: "run_program api path_join contents program arguments = Some r" "exit_status r = 0"
      "served api ?v c' es traffic d" "device_ok d" "m_device_id d = a"
      "set (device_files api path_join (opt_extract opts) k d) \<subseteq> set (written_files r)"
    using session_files [where P = "served api ?v c' es traffic" and contents = contents and path_join = path_join and api = api and a = a,
        OF assms(1-3)] by blast
  have "\<exists>e. run_opt (virtual_step api) (static_calls p c' traffic) (es ! p) = Some e \<and>
      (\<forall>x \<in> set (expert_getArtifacts api e).
        (path_join (path_join (opt_extract opts) (''device-'' @ dec k @ ''-'' @ hex (unat a))) (artifact_name x), artifact_data x)
          \<in> set (written_files r))" if "p \<in> set (pointers c')" for p
    using served_files [OF r(3,4) that, of path_join "opt_extract opts" k] r(5,6) by (auto simp: device_directory_def)
  with r(1,2) show ?thesis by blast
qed

section \<open>A device in recovery mode\<close>

text \<open>
  The uploads of a session: an announcement begins one, and the bulk OUT bytes belong to the last one begun; without
  an announcement the first bytes begin one themselves.
\<close>

definition upload_step :: "expert_event \<Rightarrow> byte list list \<Rightarrow> byte list list" where
  "upload_step ev us =
     (if announces ev then us @ [[]]
      else if uploaded ev = [] then us
      else if us = [] then [uploaded ev] else butlast us @ [last us @ uploaded ev])"

lemma recovery_run_uploads:
  "recovery_wf e \<Longrightarrow> run_opt recovery_step evs e = Some e' \<Longrightarrow> uploads (m_payloads e') = fold upload_step evs (uploads (m_payloads e))"
proof (induction evs arbitrary: e)
  case (Cons ev evs)
  obtain e1 where e1: "recovery_step ev e = Some e1" "run_opt recovery_step evs e1 = Some e'"
    using Cons.prems(2) by (auto elim: bind_Some_elim)
  have wf: "recovery_wf e1" using recovery.step_inv Cons.prems(1) e1(1) by blast
  have "uploads (m_payloads e1) = upload_step ev (uploads (m_payloads e))"
    using recovery_step_session(1) [OF Cons.prems(1) e1(1)] Cons.prems(1) by (auto simp: upload_step_def recovery_wf_def)
  with Cons.IH [OF wf e1(2)] show ?case by simp
qed simp

lemma upload_artifacts_eq:
  "upload_artifacts k ps = map (\<lambda>(j, bs). \<lparr>artifact_name = ''recovery-upload-'' @ dec j @ ''.bin'', artifact_data = bs\<rparr>)
     (List.enumerate k (filter (\<lambda>bs. bs \<noteq> []) (uploads ps)))"
  by (induction ps arbitrary: k) (simp_all add: uploads_def)

definition recovery_mode :: "byte list \<Rightarrow> bool" where
  "recovery_mode descriptor \<longleftrightarrow> (let d = decode_device_descriptor (take 18 descriptor) in idVendor d = APPLE_VID \<and>
     idProduct d \<in> {IRECV_K_RECOVERY_MODE_1, IRECV_K_RECOVERY_MODE_2, IRECV_K_RECOVERY_MODE_3, IRECV_K_RECOVERY_MODE_4})"

lemma recovery_enumerated:
  assumes "recovery_mode descriptor"
  shows "enumerated descriptor c = (c\<lparr>interfaces := map (set_expert 0) (interfaces c)\<rparr>,
    [ExpertRecovery (new_recovery_expert (bConfigurationValue (config_descriptor c)) 0)])"
  using assms
  by (auto simp: enumerated_def attached_def isAppleDFU_def isAppleRecovery_def described_def recovery_mode_def new_device_def Let_def)

lemma recovery_files:
  assumes "run_opt (virtual_step api) evs (ExpertRecovery (new_recovery_expert v n)) = Some e"
  shows "\<exists>r. e = ExpertRecovery r \<and> uploads (m_payloads r) = fold upload_step evs [] \<and>
    m_console r = text_of (concat (map console_bytes evs)) \<and> getCommands r = concat (map command_of evs)"
proof -
  have run: "run_opt (virtual_step api) evs (ExpertRecovery r) = map_option ExpertRecovery (run_opt recovery_step evs r)" for r
    by (induction evs arbitrary: r) (simp_all add: virtual_step_eq bind_map_option map_option_bind comp_def)
  with assms obtain r where r: "run_opt recovery_step evs (new_recovery_expert v n) = Some r" "e = ExpertRecovery r" by auto
  have "m_payloads (new_recovery_expert v n) = []" "m_console (new_recovery_expert v n) = []"
    by (simp_all add: new_recovery_expert_def interface_expert.defs recovery_expert.defs new_interface_expert_def)
  with recovery_run_uploads [OF new_recovery_expert_wf r(1)] recovery_run_session [OF new_recovery_expert_wf r(1)] r(2)
  show ?thesis by (simp add: getCommands_def)
qed

text \<open>The one expert of the device gets every request addressed to it or its interfaces and every declared endpoint.\<close>

fun device_call :: "usb_configuration \<Rightarrow> device_event \<Rightarrow> expert_event list" where
  "device_call c (DeviceBulkIn endpoint data) =
     (if list_ex (declares (endpoint OR 0x80)) (interface_endpoints c) then [BulkIn data] else [])"
| "device_call c (DeviceBulkOut endpoint data) =
     (if list_ex (declares (USB_ENDPOINT_ID endpoint)) (interface_endpoints c) then [BulkOut data] else [])"
| "device_call c ev = dfu_call c ev"

definition device_calls :: "usb_configuration \<Rightarrow> device_event list \<Rightarrow> expert_event list" where
  "device_calls c evs = concat (map (device_call c) evs)"

lemma interface_endpoints_set_expert:
  "interface_endpoints (c\<lparr>interfaces := map (set_expert p) (interfaces c)\<rparr>) = map (map_prod (set_expert p) id) (interface_endpoints c)"
  by (simp add: interface_endpoints_def map_concat comp_def)

lemma static_endpoint_shared:
  "static_endpoint (c\<lparr>interfaces := map (set_expert p) (interfaces c)\<rparr>) ep =
     (if list_ex (declares ep) (interface_endpoints c) then Some p else None)"
proof -
  have "find (declares ep) (map (map_prod (set_expert p) id) xs) = map_option (map_prod (set_expert p) id) (find (declares ep) xs)" for xs
    by (induction xs) (auto simp: declares_def)
  moreover have "list_ex (declares ep) xs \<longleftrightarrow> find (declares ep) xs \<noteq> None" for xs
    by (induction xs) auto
  ultimately show ?thesis by (simp add: static_endpoint_def interface_endpoints_set_expert split: option.split)
qed

lemma static_calls_shared:
  "static_calls p (c\<lparr>interfaces := map (set_expert p) (interfaces c)\<rparr>) evs = device_calls c evs"
proof (induction evs)
  case (Cons ev evs)
  have control: "static_control (c\<lparr>interfaces := map (set_expert p) (interfaces c)\<rparr>) s = (if Firmware.addressed c s then Some p else None)" for s
    by (simp add: static_control_def Firmware.addressed_def interface_expert_of_shared first_expert_shared)
  show ?case
    using Cons.IH by (cases ev) (simp_all add: device_calls_def static_endpoint_shared control)
qed (simp add: device_calls_def)

section \<open>The usbmux interface of a running device\<close>

definition normal_mode :: "byte list \<Rightarrow> bool" where
  "normal_mode descriptor \<longleftrightarrow> (let d = decode_device_descriptor (take 18 descriptor) in idVendor d = APPLE_VID \<and>
     idProduct d \<notin> {IRECV_K_DFU_MODE, IRECV_K_WTF_MODE, IRECV_K_RECOVERY_MODE_1, IRECV_K_RECOVERY_MODE_2,
       IRECV_K_RECOVERY_MODE_3, IRECV_K_RECOVERY_MODE_4})"

text \<open>The interface \<open>n\<close> speaks usbmux: the first of its settings with a known protocol does.\<close>

definition usbmux_interface :: "usb_configuration \<Rightarrow> u8 \<Rightarrow> bool" where
  "usbmux_interface c n \<longleftrightarrow>
     (case find (\<lambda>i. number_of i = n \<and> (usbmux_protocol (iface_descriptor i) \<or> dfu_protocol (iface_descriptor i))) (interfaces c) of
        Some i \<Rightarrow> usbmux_protocol (iface_descriptor i) | None \<Rightarrow> False)"

lemma usbmux_expected:
  assumes "normal_mode descriptor" and "usbmux_interface c n" and "number_of i = n"
  shows "expected_expert c (described descriptor :: 'p device) i =
      Some (ExpertUSBMUX (new_usbmux_expert (bConfigurationValue (config_descriptor c)) n))"
    and "\<not> device_wide (described descriptor :: 'p device)"
proof -
  let ?d = "described descriptor :: 'p device"
  have mode: "isApple ?d" "\<not> isAppleDFU ?d" "\<not> isAppleRecovery ?d"
    using assms(1) by (simp_all add: normal_mode_def Let_def described_def isApple_def isAppleDFU_def isAppleRecovery_def)
  have known: "protocol_of c ?d j \<noteq> None \<longleftrightarrow> usbmux_protocol (iface_descriptor j) \<or> dfu_protocol (iface_descriptor j)" for j
    by (simp add: interface_protocol_def usbmux_protocol_def dfu_protocol_def mode)
  obtain j where j: "find (\<lambda>i. number_of i = n \<and> (usbmux_protocol (iface_descriptor i) \<or> dfu_protocol (iface_descriptor i))) (interfaces c) = Some j"
      "usbmux_protocol (iface_descriptor j)"
    using assms(2) by (auto simp: usbmux_interface_def split: option.splits)
  have "number_of j = n" using find_holds [OF j(1)] by simp
  with j(2) have "protocol_of c ?d j = Some (ExpertUSBMUX (new_usbmux_expert (bConfigurationValue (config_descriptor c)) n))"
    by (simp add: interface_protocol_def usbmux_protocol_def mode)
  then show "expected_expert c ?d i = Some (ExpertUSBMUX (new_usbmux_expert (bConfigurationValue (config_descriptor c)) n))"
    unfolding expected_expert_def first_protocol_def known assms(3) j(1) by (simp add: mode)
  show "\<not> device_wide ?d" using mode by simp
qed

text \<open>Its bulk transfers.\<close>

definition interface_declares :: "usb_configuration \<Rightarrow> u8 \<Rightarrow> u8 \<Rightarrow> bool" where
  "interface_declares c n endpoint \<longleftrightarrow> list_ex (\<lambda>x. number_of (fst x) = n \<and> declares endpoint x) (interface_endpoints c)"

fun interface_transfer :: "usb_configuration \<Rightarrow> u8 \<Rightarrow> device_event \<Rightarrow> expert_event list" where
  "interface_transfer c n (DeviceBulkIn endpoint data) = (if interface_declares c n (endpoint OR 0x80) then [BulkIn data] else [])"
| "interface_transfer c n (DeviceBulkOut endpoint data) =
     (if interface_declares c n (USB_ENDPOINT_ID endpoint) then [BulkOut data] else [])"
| "interface_transfer c n _ = []"

definition interface_transfers :: "usb_configuration \<Rightarrow> u8 \<Rightarrow> device_event list \<Rightarrow> expert_event list" where
  "interface_transfers c n evs = concat (map (interface_transfer c n) evs)"

lemma interface_declares_strip:
  "interface_declares c n ep \<longleftrightarrow> list_ex (\<lambda>x. number_of (fst x) = n \<and> declares ep x) (map (map_prod strip_expert id) (interface_endpoints c))"
  by (simp add: interface_declares_def list_ex_iff strip_expert_def declares_def)

lemma interface_declares_attached: "interface_declares (c\<lparr>interfaces := fst (attached c d)\<rparr>) n ep \<longleftrightarrow> interface_declares c n ep"
  by (simp only: interface_declares_strip interface_endpoints_map) (simp add: attached_strip)

lemma static_endpoint_owned:
  assumes "unshared c" and "\<forall>i \<in> set (interfaces c). iface_expert i = Some p \<longleftrightarrow> number_of i = n"
  shows "static_endpoint c ep = Some p \<longleftrightarrow> interface_declares c n ep"
proof (cases "find (declares ep) (interface_endpoints c)")
  case None
  have "\<not> interface_declares c n ep" using find_none [OF None] unfolding interface_declares_def list_ex_iff by blast
  then show ?thesis by (simp add: static_endpoint_def None)
next
  case (Some x)
  have x: "declares ep x" "x \<in> set (interface_endpoints c)" using find_holds [OF Some] by simp_all
  then have "fst x \<in> set (interfaces c)" by (auto simp: interface_endpoints_def)
  with assms(2) have own: "iface_expert (fst x) = Some p \<longleftrightarrow> number_of (fst x) = n" by blast
  have same: "number_of (fst y) = number_of (fst x)" if "y \<in> set (interface_endpoints c)" "declares ep y" for y
  proof -
    have "bEndpointAddress (snd y) = bEndpointAddress (snd x)" using that(2) x(1) by (simp add: declares_def)
    with assms(1) [unfolded unshared_def list_all_iff, rule_format, OF that(1) x(2)] show ?thesis .
  qed
  have "interface_declares c n ep \<longleftrightarrow> number_of (fst x) = n"
    unfolding interface_declares_def list_ex_iff using same x by metis
  then show ?thesis unfolding static_endpoint_def Some by (simp add: own)
qed

lemma static_bulk_calls:
  assumes "unshared c" and "\<forall>i \<in> set (interfaces c). iface_expert i = Some p \<longleftrightarrow> number_of i = n"
  shows "filter is_bulk (static_calls p c evs) = interface_transfers c n evs"
proof (induction evs)
  case (Cons ev evs)
  then show ?case
    by (cases ev) (simp_all add: interface_transfers_def static_endpoint_owned [OF assms])
qed (simp add: interface_transfers_def)

lemma carries_bulk_only: "carries bufs (filter is_bulk evs) qs \<Longrightarrow> carries bufs evs qs"
proof (induction evs arbitrary: bufs qs)
  case (Cons ev evs)
  show ?case
  proof (cases "is_bulk ev")
    case True
    with Cons.prems have "carries bufs (ev # filter is_bulk evs) qs" by simp
    then show ?thesis
    proof cases
      case (carries_bulk out data ps rest qs')
      show ?thesis
        unfolding carries_bulk(1,2) by (rule carries.carries_bulk [OF carries_bulk(3-5) Cons.IH [OF carries_bulk(6)]])
    next
      case carries_control
      with True show ?thesis by simp
    qed
  next
    case False
    with Cons.IH [of bufs qs] Cons.prems show ?thesis by (auto intro: carries_control)
  qed
qed simp

lemma interface_transfers_attached:
  "interface_transfers (c\<lparr>interfaces := fst (attached c d)\<rparr>) n evs = interface_transfers c n evs"
proof -
  have "interface_transfer (c\<lparr>interfaces := fst (attached c d)\<rparr>) n ev = interface_transfer c n ev" for ev
    by (cases ev) (simp_all add: interface_declares_attached)
  then show ?thesis by (simp add: interface_transfers_def cong: map_cong)
qed

text \<open>Where the expert of that interface is, and what it is told.\<close>

lemma attached_number:
  assumes "j \<in> set (interfaces c)"
  shows "\<exists>i \<in> set (fst (attached c d)). number_of i = number_of j"
proof -
  have number: "number_of (strip_expert i) = number_of i" for i by (simp add: strip_expert_def)
  have "strip_expert j \<in> set (map strip_expert (fst (attached c d)))" using assms by (simp add: attached_strip)
  then obtain i where "i \<in> set (fst (attached c d))" "strip_expert i = strip_expert j" by auto
  with number show ?thesis by metis
qed

lemma usbmux_enumerated:
  assumes "normal_mode descriptor" and "usbmux_interface c n" and "unshared c" and "enumerated descriptor c = (c', es :: 'p expert list)"
  shows "\<exists>p \<in> set (pointers c'). es ! p = ExpertUSBMUX (new_usbmux_expert (bConfigurationValue (config_descriptor c)) n) \<and>
    filter is_bulk (static_calls p c' traffic) = interface_transfers c n traffic"
proof -
  let ?d = "described descriptor :: 'p device"
  have c': "c' = c\<lparr>interfaces := fst (attached c ?d)\<rparr>" and es: "es = snd (attached c ?d)"
    using assms(4) by (simp_all add: enumerated_def)
  have is': "interfaces c' = fst (attached c ?d)" by (simp add: c')
  obtain j where j: "j \<in> set (interfaces c)" "number_of j = n"
    using assms(2) by (auto simp: usbmux_interface_def split: option.splits dest!: find_holds)
  from attached_number [OF j(1), of ?d] j(2) obtain i where i: "i \<in> set (fst (attached c ?d))" "number_of i = n" by auto
  have expected: "expected_expert c ?d i = Some (ExpertUSBMUX (new_usbmux_expert (bConfigurationValue (config_descriptor c)) n))"
      "\<not> device_wide ?d"
    by (rule usbmux_expected [OF assms(1,2) i(2)])+
  obtain p where p: "iface_expert i = Some p" "es ! p = ExpertUSBMUX (new_usbmux_expert (bConfigurationValue (config_descriptor c)) n)"
    using attached_interface(1) [OF i(1)] unfolding expected(1) es by (auto simp del: attached_def)
  have own: "iface_expert k = Some p \<longleftrightarrow> number_of k = n" if "k \<in> set (fst (attached c ?d))" for k
  proof -
    have "iface_expert i = iface_expert k \<longleftrightarrow> n = number_of k"
      using attached_same [OF i(1) that] expected(2) unfolding i(2) p(1) by blast
    with p(1) show ?thesis by metis
  qed
  have "unshared c'" unfolding c' unshared_attached by (rule assms(3))
  from static_bulk_calls [OF this, of p n traffic] own
  have "filter is_bulk (static_calls p c' traffic) = interface_transfers c' n traffic" unfolding is' by blast
  moreover have "p \<in> set (pointers c')" using i(1) p(1) unfolding pointers_set is' by blast
  moreover have "interface_transfers c' n traffic = interface_transfers c n traffic" unfolding c' by (rule interface_transfers_attached)
  ultimately show ?thesis using p(2) by auto
qed

text \<open>The conversation, out of the calls of the expert and into its artifact.\<close>

definition conversation_text :: "'p plist_api \<Rightarrow> 'p mux_message list \<Rightarrow> string" where
  "conversation_text api ms = concat (map (\<lambda>m.
     (if outbound m then ''<!-- host -> device -->'' @ [CHR 0x0A] else ''<!-- device -> host -->'' @ [CHR 0x0A]) @
     xml api m) ms)"

lemma transcript_text: "transcript api s = conversation_text api (m_messages s)"
  by (simp add: transcript_def conversation_text_def)

lemma usbmux_files:
  assumes "carries (\<lambda>_. []) (filter is_bulk evs) qs" and "segments qs = earlier @ syn # segs" and "belongs h d syn" and "opens syn"
    and "list_all (\<lambda>seg. \<not> (belongs h d seg \<and> opens seg)) segs"
    and "well_framed outs" and "concat (sent (conn_data (filter (belongs h d) (syn # segs)))) = concat (map frame outs)"
    and "well_framed ins" and "concat (received (conn_data (filter (belongs h d) (syn # segs)))) = concat (map frame ins)"
    and "outs \<noteq> [] \<or> ins \<noteq> []"
    and "run_opt (virtual_step api) evs (ExpertUSBMUX (new_usbmux_expert v n)) = Some e"
  shows "\<exists>ms. \<lparr>artifact_name = ''usbmux-'' @ zero_pad 16 (hex (unat (STREAM_ID h d (connection_number h d earlier)))) @ ''-'' @
        dec (unat h) @ ''-'' @ dec (unat d) @ ''.plist.txt'',
      artifact_data = bytes_of (conversation_text api ms)\<rparr> \<in> set (expert_getArtifacts api e) \<and>
    filter outbound ms = map (message_of api True) outs \<and> filter (\<lambda>m. \<not> outbound m) ms = map (message_of api False) ins"
proof -
  have run: "run_opt (virtual_step api) evs (ExpertUSBMUX u) = map_option ExpertUSBMUX (run_opt (usbmux_step api) evs u)" for u
    by (induction evs arbitrary: u) (simp_all add: virtual_step_eq bind_map_option map_option_bind comp_def)
  obtain e' s' where e': "run_opt (usbmux_step api) evs (new_usbmux_expert v n) = Some e'"
      "om_find (m_streams e') (STREAM_ID h d (connection_number h d earlier)) = Some s'"
      "messages_out s' = map (message_of api True) outs" "messages_in s' = map (message_of api False) ins"
    using transfers_conversation [OF carries_bulk_only [OF assms(1)] assms(2-9), of api v n] by blast
  have e: "e = ExpertUSBMUX e'" using assms(11) e'(1) by (simp add: run)
  have "usbmux_wf e'"
    using usbmux.run_ok [OF new_usbmux_expert_ok, of api evs v n] e'(1) by (auto simp: usbmux_ok_def)
  from wf_stream(2) [OF this e'(2)] have ports: "m_host s' = h" "m_device s' = d" by simp_all
  have "m_messages s' \<noteq> []" using e'(3,4) assms(10) by (auto simp: messages_out_def messages_in_def)
  moreover have "(STREAM_ID h d (connection_number h d earlier), s') \<in> set (m_streams e')" by (rule om_find_Some_in) (rule e'(2))
  ultimately have "stream_artifact api (STREAM_ID h d (connection_number h d earlier)) s' \<in> set (usbmux_getArtifacts api e')"
    by (force simp: usbmux_getArtifacts_def)
  then show ?thesis
    using e'(3,4) by (intro exI [of _ "m_messages s'"])
      (simp add: e expert_getArtifacts_def stream_artifact_def ports transcript_text messages_out_def messages_in_def)
qed

end
