(* ===== verification/Sample_Sessions.thy ===== *)
theory Sample_Sessions
  imports Conversations
begin

text \<open>
  Concrete traffic for the properties of the root theory: a firmware download, a recovery session and a
  lockdownd conversation over usbmux, each with the enumeration of its device, as the trace of the bus, as
  the capture of it and as the transfers that the trace completes.
\<close>

section \<open>Two devices\<close>

definition sample_trace :: "(bus_address \<times> transfer_event) list" where
  "sample_trace = [(Darwin 1 5, BeginControl 0 1 device_read []), (Darwin 2 5, BeginBulk 4 2 [1, 2]),
     (Darwin 1 5, EndControl 0x80 1 [18, 1]), (Darwin 2 5, EndBulk 4 2 [])]"

definition sample_packets :: "byte list list" where
  "sample_packets = map (\<lambda>x. snd (the (encode_packet (fst x) (snd x)))) sample_trace"

section \<open>A firmware download\<close>

text \<open>A download of two bytes with the traffic of another device in between.\<close>

definition dfu_descriptor :: "byte list" where
  "dfu_descriptor = [18, 1, 0, 2, 0, 0, 0, 64, 0xAC, 0x05, 0x27, 0x12, 0, 0, 1, 2, 3, 1]"

definition dfu_conf :: "byte list" where
  "dfu_conf = [9, 2, 18, 0, 1, 1, 0, 0x80, 50, 9, 4, 0, 0, 0, 0xFE, 1, 0, 0]"

definition conf_read :: usb_setup_t where
  "conf_read = device_read\<lparr>wValue := 0x0200\<rparr>"

definition firmware_trace :: "(bus_address \<times> transfer_event) list" where
  "firmware_trace = map (Pair (Darwin 1 5))
     [BeginControl 0x80 1 device_read [], EndControl 0x80 1 dfu_descriptor,
      BeginControl 0x80 2 conf_read [], EndControl 0x80 2 dfu_conf, BeginControl 0 3 (dnload_setup 2) [7, 8]] @
     [(Darwin 2 5, BeginBulk 4 2 [1, 2])] @
     map (Pair (Darwin 1 5)) [EndControl 0 3 [], BeginControl 0 4 (dnload_setup 0) [], EndControl 0 4 []]"

definition firmware_packets :: "byte list list" where
  "firmware_packets = map (\<lambda>x. snd (the (encode_packet (fst x) (snd x)))) firmware_trace"

definition firmware_options :: cli_options where
  "firmware_options = \<lparr>opt_verbose = False, opt_plists = False, opt_warnings = False, opt_extract = ''out'', opt_input = ''in.pcap''\<rparr>"

lemma firmware_trace_completed:
  "completed_transfers om_empty (trace_events (address_of (Darwin 1 5)) firmware_trace) =
     [] @ [DeviceControlIn 0 device_read dfu_descriptor] @ [] @ [DeviceControlIn 0 conf_read dfu_conf] @
     [DeviceControlOut 0 (dnload_setup 2) [7, 8]] @ [DeviceControlOut 0 (dnload_setup 0) []] @ []"
  by (simp add: firmware_trace_def trace_events_def om.find_put om.find_erase control_event_def control_payload_def
      device_read_def conf_read_def dnload_setup_def darwin_address_def dfu_descriptor_def dfu_conf_def)

lemma firmware_writes: "writes LINKTYPE_USB_DARWIN firmware_trace firmware_packets"
  by (simp add: writes_def firmware_packets_def firmware_trace_def dfu_descriptor_def dfu_conf_def)

lemma firmware_configuration:
  "\<exists>c. answered_configuration dfu_conf = Some c \<and> map number_of (interfaces c) = [0]"
proof -
  let ?parts = "[take 9 dfu_conf, drop 9 dfu_conf]"
  have n: "unat (wTotalLength (decode_config_descriptor (take 9 dfu_conf))) = 18"
    by (simp add: dfu_conf_def decode_config_descriptor_def field_def)
  have "\<forall>d \<in> set ?parts. acceptable d \<and> descriptor_length d = length d"
    by (simp add: dfu_conf_def acceptable_def descriptor_length_def)
  then have "split_descriptors (concat ?parts @ []) = (?parts, [])" by (rule split_descriptors_of_parts) simp
  then have "split_descriptors (take 18 dfu_conf) = (?parts, [])" by (simp add: dfu_conf_def)
  then show ?thesis
    using n by (simp add: answered_configuration_def add_descriptor_def new_usb_configuration_def)
      (simp add: dfu_conf_def decode_interface_descriptor_def field_def)
qed

definition slash_join :: "string \<Rightarrow> string \<Rightarrow> string" where
  "slash_join a b = a @ ''/'' @ b"

definition firmware_file :: "string \<Rightarrow> byte list option" where
  "firmware_file path = Some (write_capture (Classic True False) LINKTYPE_USB_DARWIN firmware_packets)"

section \<open>A recovery session\<close>

text \<open>A device with one interface and two bulk endpoints, and its enumeration.\<close>

definition mobile_parts :: "u8 \<Rightarrow> u8 \<Rightarrow> u8 \<Rightarrow> byte list list" where
  "mobile_parts class_code subclass protocol =
     [[9, 2, 32, 0, 1, 1, 0, 0x80, 50], [9, 4, 0, 0, 2, class_code, subclass, protocol, 0], [7, 5, 4, 2, 0, 2, 0], [7, 5, 0x85, 2, 0, 2, 0]]"

definition mobile_conf :: "u8 \<Rightarrow> u8 \<Rightarrow> u8 \<Rightarrow> byte list" where
  "mobile_conf class_code subclass protocol = concat (mobile_parts class_code subclass protocol)"

definition mobile_interface :: "u8 \<Rightarrow> u8 \<Rightarrow> u8 \<Rightarrow> usb_interface" where
  "mobile_interface class_code subclass protocol =
     \<lparr>iface_descriptor = decode_interface_descriptor [9, 4, 0, 0, 2, class_code, subclass, protocol, 0],
      iface_endpoints = [decode_endpoint_descriptor [7, 5, 4, 2, 0, 2, 0, 0, 0], decode_endpoint_descriptor [7, 5, 0x85, 2, 0, 2, 0, 0, 0]], iface_expert = None\<rparr>"

lemma mobile_answered:
  "\<exists>c. answered_configuration (mobile_conf a b p) = Some c \<and> interfaces c = [mobile_interface a b p] \<and> bConfigurationValue (config_descriptor c) = 1"
proof -
  let ?parts = "mobile_parts a b p"
  have n: "unat (wTotalLength (decode_config_descriptor (take 9 (mobile_conf a b p)))) = 32"
    by (simp add: mobile_conf_def mobile_parts_def decode_config_descriptor_def field_def)
  have "\<forall>d \<in> set ?parts. acceptable d \<and> descriptor_length d = length d"
    by (simp add: mobile_parts_def acceptable_def descriptor_length_def)
  then have "split_descriptors (concat ?parts @ []) = (?parts, [])" by (rule split_descriptors_of_parts) simp
  then have "split_descriptors (take 32 (mobile_conf a b p)) = (?parts, [])" by (simp add: mobile_conf_def mobile_parts_def)
  moreover have two: "replicate 2 (0 :: byte) = [0, 0]" by (simp add: numeral_2_eq_2)
  ultimately show ?thesis
    using n by (simp add: answered_configuration_def add_descriptor_def new_usb_configuration_def mobile_parts_def mobile_conf_def mobile_interface_def
        map_last_def add_endpoint_def overlay_def two)
      (simp add: decode_config_descriptor_def field_def)
qed

definition mobile_descriptor :: "byte \<Rightarrow> byte list" where
  "mobile_descriptor product = [18, 1, 0, 2, 0, 0, 0, 64, 0xAC, 0x05, product, 0x12, 0, 0, 1, 2, 3, 1]"

definition mobile_read :: usb_setup_t where
  "mobile_read = conf_read\<lparr>wLength := 32\<rparr>"

definition enumeration_events :: "byte list \<Rightarrow> byte list \<Rightarrow> transfer_event list" where
  "enumeration_events descriptor conf =
     [BeginControl 0x80 1 device_read [], EndControl 0x80 1 descriptor, BeginControl 0x80 2 mobile_read [], EndControl 0x80 2 conf]"

definition recovery_trace :: "(bus_address \<times> transfer_event) list" where
  "recovery_trace = map (Pair (Darwin 1 5)) (enumeration_events (mobile_descriptor 0x81) (mobile_conf 0xFE 1 2)) @
     [(Darwin 1 5, BeginControl 0 3 announce_setup []), (Darwin 2 5, BeginBulk 4 2 [1, 2]), (Darwin 1 5, EndControl 0 3 []),
      (Darwin 1 5, BeginBulk 4 4 [7, 8]), (Darwin 1 5, EndBulk 4 4 []), (Darwin 1 5, BeginBulk 0x85 5 []), (Darwin 1 5, EndBulk 0x85 5 [65])]"

definition recovery_traffic :: "device_event list" where
  "recovery_traffic = [DeviceControlOut 0 announce_setup [], DeviceBulkOut 4 [7, 8], DeviceBulkIn 5 [65]]"

lemma recovery_trace_completed:
  "completed_transfers om_empty (trace_events (address_of (Darwin 1 5)) recovery_trace) =
     ([] @ [DeviceControlIn 0 device_read (mobile_descriptor 0x81)] @ [] @ [DeviceControlIn 0 mobile_read (mobile_conf 0xFE 1 2)]) @ recovery_traffic @ []"
  by (simp add: recovery_trace_def enumeration_events_def recovery_traffic_def trace_events_def om.find_put om.find_erase control_event_def control_payload_def
      bulk_event_def device_read_def conf_read_def mobile_read_def announce_setup_def darwin_address_def mobile_descriptor_def mobile_conf_def mobile_parts_def)

definition captured :: "(bus_address \<times> transfer_event) list \<Rightarrow> byte list list" where
  "captured trace = map (\<lambda>x. snd (the (encode_packet (fst x) (snd x)))) trace"

lemma recovery_writes: "writes LINKTYPE_USB_DARWIN recovery_trace (captured recovery_trace)"
  by (simp add: writes_def captured_def recovery_trace_def enumeration_events_def mobile_descriptor_def mobile_conf_def mobile_parts_def)

lemma mobile_session:
  assumes "answered_configuration (mobile_conf a b p) = Some c" and "interfaces c = [mobile_interface a b p]"
    and "bConfigurationValue (config_descriptor c) = 1" and "list_all (steady (mobile_descriptor k) (mobile_conf a b p) 1) traffic"
  shows "session_of (mobile_descriptor k) (mobile_conf a b p) c traffic
    (([] @ [DeviceControlIn 0 device_read (mobile_descriptor k)] @ [] @ [DeviceControlIn 0 mobile_read (mobile_conf a b p)]) @ traffic @ [])"
proof -
  have "unshared c" by (simp add: unshared_def interface_endpoints_def assms(2) mobile_interface_def)
  moreover have "gets_descriptor 1 device_read" "gets_descriptor 2 mobile_read"
    by (simp_all add: gets_descriptor_def device_read_def mobile_read_def conf_read_def)
  moreover have "18 \<le> length (mobile_descriptor k)" "mobile_descriptor k ! 1 = USB_DT_DEVICE" by (simp_all add: mobile_descriptor_def)
  ultimately have "enumeration (mobile_descriptor k) (mobile_conf a b p) c
      ([] @ [DeviceControlIn 0 device_read (mobile_descriptor k)] @ [] @ [DeviceControlIn 0 mobile_read (mobile_conf a b p)])"
    unfolding enumeration_def using assms(1)
    by (intro conjI exI [of _ "[]"] exI [of _ 0] exI [of _ device_read] exI [of _ mobile_read]) simp_all
  with \<open>unshared c\<close> assms(3,4) show ?thesis unfolding session_of_def by fastforce
qed

definition capture_of :: "(bus_address \<times> transfer_event) list \<Rightarrow> string \<Rightarrow> byte list option" where
  "capture_of trace path = Some (write_capture PcapNG LINKTYPE_USB_DARWIN (captured trace))"

lemma recorded_darwin: "writes LINKTYPE_USB_DARWIN trace (captured trace) \<Longrightarrow> recorded (capture_of trace) path trace"
  unfolding recorded_def capture_of_def by fastforce

lemma recovery_session:
  "\<exists>c. session_of (mobile_descriptor 0x81) (mobile_conf 0xFE 1 2) c recovery_traffic
      (completed_transfers om_empty (trace_events (address_of (Darwin 1 5)) recovery_trace)) \<and>
    interfaces c = [mobile_interface 0xFE 1 2] \<and> bConfigurationValue (config_descriptor c) = 1"
proof -
  obtain c where c: "answered_configuration (mobile_conf 0xFE 1 2) = Some c" "interfaces c = [mobile_interface 0xFE 1 2]"
      "bConfigurationValue (config_descriptor c) = 1"
    using mobile_answered by blast
  have "list_all (steady (mobile_descriptor 0x81) (mobile_conf 0xFE 1 2) 1) recovery_traffic"
    by (simp add: recovery_traffic_def steady_def announce_setup_def)
  from mobile_session [OF c this] c(2,3) show ?thesis unfolding recovery_trace_completed by blast
qed

lemma firmware_arguments:
  "parse_arguments ''demuxusb'' [''-x'', ''out'', ''in.pcap''] new_cli_options = CliRun firmware_options"
  "opt_extract firmware_options \<noteq> []"
  by (simp_all add: firmware_options_def new_cli_options_def)

section \<open>A lockdownd query\<close>

text \<open>A lockdownd query and its answer, the query cut in two transfers, with the version exchange in between.\<close>

definition syn_packet :: mux_packet where
  "syn_packet = V2 6 0xFEEDFACE 1 0 (tcp_segment 50000 62078 2 [])"

definition version_packet :: mux_packet where
  "version_packet = V1 0 [0, 0, 0, 2]"

definition query_packet :: mux_packet where
  "query_packet = V2 6 0xFEEDFACE 2 1 (tcp_segment 50000 62078 16 (frame small_plist))"

definition reply_packet :: mux_packet where
  "reply_packet = V2 6 0xFACEFACE 3 2 (tcp_segment 62078 50000 16 (frame small_plist))"

definition host_first :: "byte list" where
  "host_first = USBMUX_Reassembly.encode_packet syn_packet @ take 5 (USBMUX_Reassembly.encode_packet query_packet)"

definition host_second :: "byte list" where
  "host_second = drop 5 (USBMUX_Reassembly.encode_packet query_packet)"

definition device_first :: "byte list" where
  "device_first = USBMUX_Reassembly.encode_packet version_packet"

definition device_second :: "byte list" where
  "device_second = USBMUX_Reassembly.encode_packet reply_packet @ [0, 0]"

lemma frame_length [simp]: "length (frame small_plist) = 13"
  by (simp add: frame_def small_plist_def)

lemma packet_lengths [simp]: "length host_first = 41" "length host_second = 44" "length device_first = 12" "length device_second = 51"
  by (simp_all add: host_first_def host_second_def device_first_def device_second_def syn_packet_def query_packet_def version_packet_def
      reply_packet_def del: USBMUX_Reassembly.encode_packet.simps)

lemma packet_data_ne [simp]: "host_first \<noteq> []" "host_second \<noteq> []" "device_first \<noteq> []" "device_second \<noteq> []"
  using packet_lengths by fastforce+

definition usbmux_trace :: "(bus_address \<times> transfer_event) list" where
  "usbmux_trace = map (Pair (Darwin 1 5)) (enumeration_events (mobile_descriptor 0xA8) (mobile_conf 0xFF 0xFE 2)) @
     [(Darwin 1 5, BeginBulk 4 3 host_first), (Darwin 1 5, BeginBulk 0x85 4 []), (Darwin 2 5, BeginBulk 4 2 [1, 2]),
      (Darwin 1 5, EndBulk 4 3 []), (Darwin 1 5, EndBulk 0x85 4 device_first),
      (Darwin 1 5, BeginBulk 4 5 host_second), (Darwin 1 5, EndBulk 4 5 []),
      (Darwin 1 5, BeginBulk 0x85 6 []), (Darwin 1 5, EndBulk 0x85 6 device_second)]"

definition usbmux_traffic :: "device_event list" where
  "usbmux_traffic = [DeviceBulkOut 4 host_first, DeviceBulkIn 5 device_first, DeviceBulkOut 4 host_second, DeviceBulkIn 5 device_second]"

lemma usbmux_trace_completed:
  "completed_transfers om_empty (trace_events (address_of (Darwin 1 5)) usbmux_trace) =
     ([] @ [DeviceControlIn 0 device_read (mobile_descriptor 0xA8)] @ [] @ [DeviceControlIn 0 mobile_read (mobile_conf 0xFF 0xFE 2)]) @
     usbmux_traffic @ []"
  by (simp add: usbmux_trace_def enumeration_events_def usbmux_traffic_def trace_events_def om.find_put om.find_erase control_event_def
      control_payload_def bulk_event_def device_read_def conf_read_def mobile_read_def darwin_address_def mobile_descriptor_def
      mobile_conf_def mobile_parts_def)

lemma usbmux_writes: "writes LINKTYPE_USB_DARWIN usbmux_trace (captured usbmux_trace)"
  by (simp add: writes_def captured_def usbmux_trace_def enumeration_events_def mobile_descriptor_def mobile_conf_def mobile_parts_def)

lemma usbmux_valid: "valid_packet syn_packet" "valid_packet version_packet" "valid_packet query_packet" "valid_packet reply_packet"
  by (simp_all add: syn_packet_def version_packet_def query_packet_def reply_packet_def is_magic_def)

lemma usbmux_carried:
  "carries (\<lambda>_. []) [BulkOut host_first, BulkIn device_first, BulkOut host_second, BulkIn device_second]
     [(True, syn_packet), (False, version_packet), (True, query_packet), (False, reply_packet)]"
proof -
  have short: "incomplete bs" if "length bs < 8" for bs using that by (simp add: incomplete_def)
  have last: "carries ((((\<lambda>_. [])(True := take 5 (USBMUX_Reassembly.encode_packet query_packet)))(False := []))(True := []))
      (USBMUX_Reassembly.transfer False device_second # []) (map (Pair False) [reply_packet] @ [])"
    by (rule carries_bulk [OF _ _ _ carries_Nil, where rest = "[0, 0]"])
      (simp_all add: device_second_def usbmux_valid short del: USBMUX_Reassembly.encode_packet.simps)
  have "carries (((\<lambda>_. [])(True := take 5 (USBMUX_Reassembly.encode_packet query_packet)))(False := []))
      (USBMUX_Reassembly.transfer True host_second # [USBMUX_Reassembly.transfer False device_second])
      (map (Pair True) [query_packet] @ map (Pair False) [reply_packet] @ [])"
    by (rule carries_bulk [OF _ _ _ last]) (simp_all add: host_second_def usbmux_valid short del: USBMUX_Reassembly.encode_packet.simps)
  from carries_bulk [OF _ _ _ this, where data = device_first and ps = "[version_packet]"]
  have "carries ((\<lambda>_. [])(True := take 5 (USBMUX_Reassembly.encode_packet query_packet)))
      (USBMUX_Reassembly.transfer False device_first # USBMUX_Reassembly.transfer True host_second # [USBMUX_Reassembly.transfer False device_second])
      (map (Pair False) [version_packet] @ map (Pair True) [query_packet] @ map (Pair False) [reply_packet] @ [])"
    by (simp add: device_first_def usbmux_valid short del: USBMUX_Reassembly.encode_packet.simps)
  from carries_bulk [OF _ _ _ this, where data = host_first and ps = "[syn_packet]"] show ?thesis
    by (simp add: host_first_def usbmux_valid short transfer_def del: USBMUX_Reassembly.encode_packet.simps)
qed

end
