(* ===== verification/File_Mapping.thy ===== *)
theory File_Mapping
  imports Main_Program
begin

text \<open>
  How a capture gets into memory: \<open>InputFile::open\<close> reads the magic number through a stream, and then the
  constructor asks for the size of the file and maps it.  The three accesses are answered by the file system,
  which may refuse any of them, and between which the file may change; so their answers are a parameter.  A
  file system in which the file stays as it is makes the program the \<open>run_contents\<close> on the contents of its files.
\<close>

section \<open>Opening a capture\<close>

text \<open>
  The answers of the file system for a path: the bytes a fresh stream gives when that many are asked for (\<open>None\<close>
  when it does not open), the size or the message of the error, and the mapped bytes or what the exception says.
\<close>

record file_system =
  stream_read :: "string \<Rightarrow> nat \<Rightarrow> byte list option"
  file_size :: "string \<Rightarrow> string + nat"
  map_file :: "string \<Rightarrow> string + byte list"

definition inputfile_construct :: "file_system \<Rightarrow> string \<Rightarrow> string + byte list" where
  "inputfile_construct fs path =
     (case file_size fs path of
        Inl error \<Rightarrow> Inl (''Unable to open '' @ path @ '': '' @ error)
      | Inr n \<Rightarrow>
          if 0 < n then
            (case map_file fs path of
               Inl exception \<Rightarrow> Inl (''Unable to map '' @ path @ '': '' @ exception)
             | Inr data \<Rightarrow> Inr data)
          else Inr [])"

definition inputfile_open_mapped :: "file_system \<Rightarrow> string \<Rightarrow> string + reader \<times> byte list" where
  "inputfile_open_mapped fs path =
     (case inputfile_open path (stream_read fs path 4) of
        Inl message \<Rightarrow> Inl message
      | Inr reader \<Rightarrow>
          (case inputfile_construct fs path of
             Inl message \<Rightarrow> Inl message
           | Inr data \<Rightarrow> Inr (reader, data)))"

definition run_main :: "'p plist_api \<Rightarrow> (string \<Rightarrow> string \<Rightarrow> string) \<Rightarrow> file_system \<Rightarrow> output_system \<Rightarrow> string \<Rightarrow> string list \<Rightarrow>
    program_end option" where
  "run_main api path_join fs out program arguments =
     (case parse_arguments program arguments new_cli_options of
        CliExit status message \<Rightarrow> Some (Returned (exit_with status message))
      | CliRun opts \<Rightarrow>
          (case inputfile_open_mapped fs (opt_input opts) of
             Inl message \<Rightarrow> Some (Returned (exit_with 1 (''Error: '' @ message @ endl)))
           | Inr (reader, data) \<Rightarrow> do {
               (f, failure) \<leftarrow> reader_parse api reader data new_input_file;
               report_input out api path_join opts failure f
             }))"

section \<open>A file that stays as it is\<close>

definition unchanging :: "file_system \<Rightarrow> (string \<Rightarrow> byte list option) \<Rightarrow> string \<Rightarrow> bool" where
  "unchanging fs contents path \<longleftrightarrow>
     (\<forall>n. stream_read fs path n = map_option (take n) (contents path)) \<and>
     (case contents path of
        None \<Rightarrow> True
      | Some data \<Rightarrow> file_size fs path = Inr (length data) \<and> (data = [] \<or> map_file fs path = Inr data))"

lemma open_prefix: "inputfile_open path (map_option (take 4) contents) = inputfile_open path contents"
  by (cases contents) (simp_all add: inputfile_open_def)

lemma open_readable: "inputfile_open path contents = Inr reader \<Longrightarrow> \<exists>data. contents = Some data \<and> 4 \<le> length data"
  by (auto simp: inputfile_open_def split: option.splits if_splits)

lemma open_mapped_unchanging:
  assumes "unchanging fs contents path"
  shows "inputfile_open_mapped fs path = map_sum id (\<lambda>reader. (reader, the (contents path))) (inputfile_open path (contents path))"
proof (cases "inputfile_open path (contents path)")
  case (Inl message)
  then show ?thesis using assms by (simp add: inputfile_open_mapped_def unchanging_def open_prefix)
next
  case (Inr reader)
  from open_readable [OF Inr] obtain data where "contents path = Some data" "data \<noteq> []" by fastforce
  then show ?thesis
    using Inr assms open_prefix [of path "Some data"]
    by (simp add: inputfile_open_mapped_def inputfile_construct_def unchanging_def)
qed

text \<open>
  C24: On a file that stays as it is while the program reads it, \<open>main\<close> with its three accesses to the file system is
  the program on the contents of the file, whatever the file system answers to the extraction: the stream, the size
  and the mapping agree, so neither the choice of the reader nor what it reads depends on how the file came into memory.
\<close>

theorem main_refines_contents:
  assumes "\<forall>path. unchanging fs contents path"
  shows "run_main api path_join fs out program arguments = run_contents out api path_join contents program arguments"
proof (cases "parse_arguments program arguments new_cli_options")
  case (CliRun opts)
  let ?path = "opt_input opts"
  note mapped = open_mapped_unchanging [OF assms [rule_format, of ?path]]
  show ?thesis
  proof (cases "inputfile_open ?path (contents ?path)")
    case (Inr reader)
    with open_readable [OF Inr] CliRun mapped show ?thesis by (auto simp: run_main_def run_contents_def)
  qed (use CliRun mapped in \<open>simp add: run_main_def run_contents_def\<close>)
qed (simp add: run_main_def run_contents_def)

definition disk :: "(string \<Rightarrow> byte list option) \<Rightarrow> file_system" where
  "disk contents = \<lparr>stream_read = \<lambda>path n. map_option (take n) (contents path),
     file_size = \<lambda>path. (case contents path of None \<Rightarrow> Inl ''No such file or directory'' | Some data \<Rightarrow> Inr (length data)),
     map_file = \<lambda>path. (case contents path of None \<Rightarrow> Inl ''failed opening file'' | Some data \<Rightarrow> Inr data)\<rparr>"

lemma disk_unchanging: "unchanging (disk contents) contents path"
  by (simp add: unchanging_def disk_def split: option.split)

theorem main_refines_contents_witness:
  "run_main sample_api (@) (disk [''in.pcap'' \<mapsto> [1, 2, 3]]) accepting ''demuxusb'' [''in.pcap''] =
   run_contents accepting sample_api (@) [''in.pcap'' \<mapsto> [1, 2, 3]] ''demuxusb'' [''in.pcap'']"
  by (rule main_refines_contents) (simp add: disk_unchanging)

text \<open>
  C12: How \<open>main\<close> ends, whatever its arguments, the bytes of the capture and the answers of the file system, even when the
  file is changed between the reading of its magic number and the mapping.  There is never a fault.  It returns one
  when the capture cannot be opened, measured or mapped, and the status of the usage message when it stops at its
  arguments.  Otherwise it goes through the artifacts of all devices: if a directory cannot be created, the first such
  one terminates the program with the exception, which nothing handles, and the artifacts after it are not written;
  if there is none, it returns zero and every artifact was given to the file system.
\<close>

theorem main_ending_exact:
  "\<exists>ended. run_main api path_join fs out program arguments = Some ended \<and>
     (case parse_arguments program arguments new_cli_options of
        CliExit status message \<Rightarrow> ended = Returned (exit_with status message) \<and> status \<le> 1
      | CliRun opts \<Rightarrow>
          (case inputfile_open_mapped fs (opt_input opts) of
             Inl message \<Rightarrow> \<exists>r. ended = Returned r \<and> exit_status r = 1 \<and> written_files r = []
           | Inr (reader, data) \<Rightarrow>
               \<exists>f failure ds. reader_parse api reader data new_input_file = Some (f, failure) \<and> getDevices f = Some ds \<and>
                 (let xs = capture_stores api path_join (opt_extract opts) ds in
                  case first_refused out xs [] of
                    None \<Rightarrow> \<exists>r. ended = Returned r \<and> exit_status r = 0 \<and> written_files r = stored_files out xs []
                  | Some k \<Rightarrow> \<exists>what r. ended = Terminated what r \<and> refusal out xs [] k = Some what \<and>
                      written_files r = stored_files out (take k xs) [])))"
proof (cases "parse_arguments program arguments new_cli_options")
  case (CliExit s m)
  then show ?thesis using parse_arguments_status [OF CliExit] by (simp add: run_main_def)
next
  case (CliRun opts)
  show ?thesis
  proof (cases "inputfile_open_mapped fs (opt_input opts)")
    case (Inl m)
    with CliRun show ?thesis by (simp add: run_main_def exit_with_def)
  next
    case (Inr capture)
    obtain reader data where capture: "capture = (reader, data)" by fastforce
    obtain f failure where f: "reader_parse api reader data new_input_file = Some (f, failure)" "file_ok f"
      using reader_parse_ok by blast
    obtain ds where ds: "getDevices f = Some ds" using getDevices_ok [OF f(2)] by blast
    from report_input_ends [OF f(2) ds, of out api path_join opts failure] CliRun Inr capture f(1) ds show ?thesis
      by (simp add: run_main_def Let_def ends_with_def)
  qed
qed

end
