(* ===== verification/Structure_Layout.thy ===== *)
theory Structure_Layout
  imports Usb_Descriptors
begin

text \<open>
  What it means for a record to be the image of a packed C structure.  The locale \<open>layout\<close> is interpreted
  on every structure of \<open>ext/usb.h\<close> (\<open>Usb_Chapter9\<close>) and of \<open>ext/pcapng.h\<close> and \<open>ext/usbmux.h\<close>
  (\<open>Wire_Formats\<close>); \<open>layout_simps\<close> is what those interpretations compute with.  \<open>laid_out\<close>
  ties a decoder, which picks its fields at offsets, to the declaration of the structure, a list of
  members with their widths.
\<close>

section \<open>Packed structures\<close>

text \<open>
  The contract of a structure that is read with \<open>memcpy\<close>: the values that satisfy \<open>valid\<close> (byte
  arrays have their declared length) and the byte strings of the structure's size are in one to one
  correspondence.
\<close>

locale layout =
  fixes width :: nat
    and encode :: "'r \<Rightarrow> byte list"
    and decode :: "byte list \<Rightarrow> 'r"
    and valid :: "'r \<Rightarrow> bool"
  assumes length_encode: "valid r \<Longrightarrow> length (encode r) = width"
    and valid_decode: "length bs = width \<Longrightarrow> valid (decode bs)"
    and decode_encode: "valid r \<Longrightarrow> decode (encode r) = r"
    and encode_decode: "length bs = width \<Longrightarrow> encode (decode bs) = bs"
begin

lemma representation: "bij_betw decode {bs. length bs = width} {r. valid r}"
  by (rule bij_betw_byWitness [where f' = encode])
    (auto simp: length_encode valid_decode decode_encode encode_decode)

lemma readStruct_iff: "valid r \<Longrightarrow> readStruct width decode bs = Some r \<longleftrightarrow> (\<exists>rest. bs = encode r @ rest)"
proof
  assume "readStruct width decode bs = Some r"
  then have "width \<le> length bs" "r = decode (take width bs)" by (auto simp: readStruct_Some)
  then have "encode r = take width bs" by (simp add: encode_decode)
  then have "bs = encode r @ drop width bs" by simp
  then show "\<exists>rest. bs = encode r @ rest" ..
next
  assume "valid r" "\<exists>rest. bs = encode r @ rest"
  then show "readStruct width decode bs = Some r"
    by (auto simp: readStruct_Some length_encode decode_encode)
qed

lemma encode_inj: "valid r \<Longrightarrow> valid r' \<Longrightarrow> encode r = encode r' \<longleftrightarrow> r = r'"
  by (metis decode_encode)

end

text \<open>A byte array member: \<open>n\<close> bytes at offset \<open>off\<close>.\<close>

definition bytes_at :: "nat \<Rightarrow> nat \<Rightarrow> byte list \<Rightarrow> byte list" where
  "bytes_at off n bs = take n (drop off bs)"

lemma length_bytes_at [simp]: "off + n \<le> length bs \<Longrightarrow> length (bytes_at off n bs) = n"
  by (simp add: bytes_at_def)

lemma bytes_at_here: "length xs = n \<Longrightarrow> bytes_at 0 n (xs @ post) = xs"
  by (simp add: bytes_at_def)

lemma bytes_at_skip: "length pre \<le> off \<Longrightarrow> bytes_at off n (pre @ post) = bytes_at (off - length pre) n post"
  by (simp add: bytes_at_def)

lemma bytes_at_all: "length xs = n \<Longrightarrow> bytes_at 0 n xs = xs"
  by (simp add: bytes_at_def)

lemma bytes_at_glue: "m = k + n \<Longrightarrow> bytes_at k n bs @ drop m bs = drop k bs"
  unfolding bytes_at_def by (rule take_drop_glue)

lemma bytes_at_rest: "length bs = k + n \<Longrightarrow> bytes_at k n bs = drop k bs"
  by (simp add: bytes_at_def)

lemma take_drop_rest: "length bs = k + n \<Longrightarrow> take n (drop k bs) = drop k bs"
  by simp

lemmas layout_simps = field_skip field_here field_here [where post = "[]", simplified] enc_field
  take_drop_glue bytes_at_here bytes_at_skip bytes_at_all bytes_at_glue bytes_at_rest take_drop_rest

section \<open>The declaration of a structure\<close>

text \<open>
  The memory of a structure cut up along its declaration: the bytes of the first member, then those of
  the members after it.
\<close>

fun members :: "nat list \<Rightarrow> byte list \<Rightarrow> byte list list" where
  "members [] bs = []"
| "members (w # ws) bs = take w bs # members ws (drop w bs)"

text \<open>
  A structure of \<open>width\<close> bytes, read by \<open>decode\<close>, whose declaration has members of the given widths:
  \<open>representation\<close> lists the bytes of each member of a value, in the order of the declaration.
\<close>

definition laid_out :: "nat \<Rightarrow> (byte list \<Rightarrow> 'r) \<Rightarrow> nat list \<Rightarrow> ('r \<Rightarrow> byte list list) \<Rightarrow> bool" where
  "laid_out width decode widths representation \<longleftrightarrow>
     sum_list widths = width \<and>
     (\<forall>bs. map_option representation (readStruct width decode bs) =
        (if length bs < width then None else Some (members widths bs)))"

lemma members_take: "sum_list ws \<le> n \<Longrightarrow> members ws (take n bs) = members ws bs"
  by (induction ws arbitrary: n bs) (simp_all add: drop_take)

lemma laid_outI:
  assumes "sum_list widths = width"
    and "\<And>bs. length bs = width \<Longrightarrow> representation (decode bs) = members widths bs"
  shows "laid_out width decode widths representation"
  unfolding laid_out_def
proof (intro conjI allI)
  show "sum_list widths = width" by (rule assms(1))
next
  fix bs :: "byte list"
  show "map_option representation (readStruct width decode bs) =
      (if length bs < width then None else Some (members widths bs))"
  proof (cases "length bs < width")
    case True
    then show ?thesis by (simp only: readStruct_def if_True option.map)
  next
    case False
    then have "representation (decode (take width bs)) = members widths (take width bs)"
      by (intro assms(2)) simp
    also have "\<dots> = members widths bs" using assms(1) by (simp only: members_take)
    finally show ?thesis using False by (simp only: readStruct_def if_False option.map)
  qed
qed

text \<open>No byte of a structure belongs to no member: what is read determines what was read from.\<close>

lemma concat_members: "sum_list ws = length bs \<Longrightarrow> concat (members ws bs) = bs"
  by (induction ws arbitrary: bs) simp_all

lemma laid_out_inj:
  assumes "laid_out width decode widths representation" "length bs = width" "length bs' = width"
    and "representation (decode bs) = representation (decode bs')"
  shows "bs = bs'"
proof -
  have read: "representation (decode xs) = members widths xs" if len: "length xs = width" for xs
  proof -
    have "map_option representation (readStruct width decode xs) = Some (members widths xs)"
      using assms(1) len unfolding laid_out_def by (metis less_irrefl)
    then show ?thesis using len by (simp add: readStruct_def)
  qed
  have total: "sum_list widths = width" using assms(1) unfolding laid_out_def by blast
  have "bs = concat (members widths bs)" "bs' = concat (members widths bs')"
    using total assms(2,3) by (simp_all only: concat_members)
  then show ?thesis using read [OF assms(2)] read [OF assms(3)] assms(4) by metis
qed

lemmas member_simps = enc_field bytes_at_def drop_take min_def

end
