(* ===== verification/Usb_Chapter9.thy ===== *)
theory Usb_Chapter9
  imports Structure_Layout
begin

text \<open>
  The whole of \<open>ext/usb.h\<close>, of which the program itself copies only the descriptors of
  \<open>Usb_Descriptors\<close>: every structure with its size, decoder and encoder, the inline functions on endpoint
  and SuperSpeed companion descriptors, the enumerations, and the numeric codes.  Members that C names
  alike in several structures carry the structure as a suffix here.
\<close>

section \<open>The descriptors the program parses\<close>

definition encode_descriptor_header :: "usb_descriptor_header \<Rightarrow> byte list" where
  "encode_descriptor_header r = enc8 (bLength r) @ enc8 (bDescriptorType r)"

interpretation descriptor_header_layout:
  layout descriptor_header_size encode_descriptor_header decode_descriptor_header "\<lambda>_. True"
  by unfold_locales (auto simp: descriptor_header_size_def decode_descriptor_header_def encode_descriptor_header_def
    layout_simps simp del: One_nat_def intro!: usb_descriptor_header.equality)

interpretation device_descriptor_layout:
  layout USB_DT_DEVICE_SIZE encode_device_descriptor decode_device_descriptor "\<lambda>_. True"
  by unfold_locales (auto simp: USB_DT_DEVICE_SIZE_def decode_device_descriptor_def encode_device_descriptor_def
    layout_simps simp del: One_nat_def intro!: usb_device_descriptor.equality)

definition encode_config_descriptor :: "usb_config_descriptor \<Rightarrow> byte list" where
  "encode_config_descriptor r = enc8 (bLength r) @ enc8 (bDescriptorType r) @ enc16 (wTotalLength r) @
     enc8 (bNumInterfaces r) @ enc8 (bConfigurationValue r) @ enc8 (iConfiguration r) @
     enc8 (bmAttributes_config r) @ enc8 (bMaxPower r)"

interpretation config_descriptor_layout:
  layout USB_DT_CONFIG_SIZE encode_config_descriptor decode_config_descriptor "\<lambda>_. True"
  by unfold_locales (auto simp: USB_DT_CONFIG_SIZE_def decode_config_descriptor_def encode_config_descriptor_def
    layout_simps simp del: One_nat_def intro!: usb_config_descriptor.equality)

definition encode_interface_descriptor :: "usb_interface_descriptor \<Rightarrow> byte list" where
  "encode_interface_descriptor r = enc8 (bLength r) @ enc8 (bDescriptorType r) @
     enc8 (bInterfaceNumber r) @ enc8 (bAlternateSetting r) @ enc8 (bNumEndpoints r) @
     enc8 (bInterfaceClass r) @ enc8 (bInterfaceSubClass r) @ enc8 (bInterfaceProtocol r) @
     enc8 (iInterface r)"

interpretation interface_descriptor_layout:
  layout USB_DT_INTERFACE_SIZE encode_interface_descriptor decode_interface_descriptor "\<lambda>_. True"
  by unfold_locales (auto simp: USB_DT_INTERFACE_SIZE_def decode_interface_descriptor_def encode_interface_descriptor_def
    layout_simps simp del: One_nat_def intro!: usb_interface_descriptor.equality)

definition encode_endpoint_descriptor :: "usb_endpoint_descriptor \<Rightarrow> byte list" where
  "encode_endpoint_descriptor r = enc8 (bLength r) @ enc8 (bDescriptorType r) @
     enc8 (bEndpointAddress r) @ enc8 (bmAttributes_endpoint r) @ enc16 (wMaxPacketSize r) @
     enc8 (bInterval r) @ enc8 (bRefresh r) @ enc8 (bSynchAddress r)"

interpretation endpoint_descriptor_layout:
  layout endpoint_descriptor_sizeof encode_endpoint_descriptor decode_endpoint_descriptor "\<lambda>_. True"
  by unfold_locales (auto simp: endpoint_descriptor_sizeof_def decode_endpoint_descriptor_def encode_endpoint_descriptor_def
    layout_simps simp del: One_nat_def intro!: usb_endpoint_descriptor.equality)

definition encode_bos_descriptor_header :: "usb_bos_descriptor \<Rightarrow> byte list" where
  "encode_bos_descriptor_header r = enc8 (bLength r) @ enc8 (bDescriptorType r) @
     enc16 (bos_wTotalLength r) @ enc8 (bNumDeviceCaps r)"

interpretation bos_descriptor_header_layout:
  layout USB_DT_BOS_SIZE encode_bos_descriptor_header decode_bos_descriptor "\<lambda>_. True"
  by unfold_locales (auto simp: USB_DT_BOS_SIZE_def decode_bos_descriptor_def encode_bos_descriptor_header_def
    layout_simps simp del: One_nat_def intro!: usb_bos_descriptor.equality)

definition encode_dfu_functional :: "usb_dfu_functional_descriptor \<Rightarrow> byte list" where
  "encode_dfu_functional r = enc8 (bLength r) @ enc8 (bDescriptorType r) @ enc8 (bmAttributes_dfu r) @
     enc16 (wDetachTimeOut r) @ enc16 (wTransferSize r)"

interpretation dfu_functional_layout:
  layout dfu_descriptor_sizeof encode_dfu_functional decode_dfu_descriptor "\<lambda>_. True"
  by unfold_locales (auto simp: dfu_descriptor_sizeof_def decode_dfu_descriptor_def encode_dfu_functional_def
    layout_simps simp del: One_nat_def intro!: usb_dfu_functional_descriptor.equality)

section \<open>The other structures\<close>

record usb_ctrlrequest =
  ctrl_bRequestType :: u8
  ctrl_bRequest :: u8
  ctrl_wValue :: u16
  ctrl_wIndex :: u16
  ctrl_wLength :: u16

definition ctrlrequest_sizeof :: nat where "ctrlrequest_sizeof = 8"

definition decode_ctrlrequest :: "byte list \<Rightarrow> usb_ctrlrequest" where
  "decode_ctrlrequest bs = \<lparr>ctrl_bRequestType = field8 0 bs, ctrl_bRequest = field8 1 bs,
     ctrl_wValue = field16 2 bs, ctrl_wIndex = field16 4 bs, ctrl_wLength = field16 6 bs\<rparr>"

definition encode_ctrlrequest :: "usb_ctrlrequest \<Rightarrow> byte list" where
  "encode_ctrlrequest r = enc8 (ctrl_bRequestType r) @ enc8 (ctrl_bRequest r) @ enc16 (ctrl_wValue r) @
     enc16 (ctrl_wIndex r) @ enc16 (ctrl_wLength r)"

interpretation ctrlrequest_layout:
  layout ctrlrequest_sizeof encode_ctrlrequest decode_ctrlrequest "\<lambda>_. True"
  by unfold_locales (auto simp: ctrlrequest_sizeof_def decode_ctrlrequest_def encode_ctrlrequest_def
    layout_simps simp del: One_nat_def intro!: usb_ctrlrequest.equality)

record usb_string_descriptor = usb_descriptor_header +
  wData :: u16

definition string_sizeof :: nat where "string_sizeof = 4"

definition decode_string :: "byte list \<Rightarrow> usb_string_descriptor" where
  "decode_string bs = \<lparr>bLength = field8 0 bs, bDescriptorType = field8 1 bs, wData = field16 2 bs\<rparr>"

definition encode_string :: "usb_string_descriptor \<Rightarrow> byte list" where
  "encode_string r = enc8 (bLength r) @ enc8 (bDescriptorType r) @ enc16 (wData r)"

interpretation string_layout:
  layout string_sizeof encode_string decode_string "\<lambda>_. True"
  by unfold_locales (auto simp: string_sizeof_def decode_string_def encode_string_def
    layout_simps simp del: One_nat_def intro!: usb_string_descriptor.equality)

record usb_ss_ep_comp_descriptor = usb_descriptor_header +
  bMaxBurst :: u8
  bmAttributes_ss :: u8
  wBytesPerInterval :: u16

definition USB_DT_SS_EP_COMP_SIZE :: nat where "USB_DT_SS_EP_COMP_SIZE = 6"

definition decode_ss_ep_comp :: "byte list \<Rightarrow> usb_ss_ep_comp_descriptor" where
  "decode_ss_ep_comp bs = \<lparr>bLength = field8 0 bs, bDescriptorType = field8 1 bs,
     bMaxBurst = field8 2 bs, bmAttributes_ss = field8 3 bs, wBytesPerInterval = field16 4 bs\<rparr>"

definition encode_ss_ep_comp :: "usb_ss_ep_comp_descriptor \<Rightarrow> byte list" where
  "encode_ss_ep_comp r = enc8 (bLength r) @ enc8 (bDescriptorType r) @ enc8 (bMaxBurst r) @
     enc8 (bmAttributes_ss r) @ enc16 (wBytesPerInterval r)"

interpretation ss_ep_comp_layout:
  layout USB_DT_SS_EP_COMP_SIZE encode_ss_ep_comp decode_ss_ep_comp "\<lambda>_. True"
  by unfold_locales (auto simp: USB_DT_SS_EP_COMP_SIZE_def decode_ss_ep_comp_def encode_ss_ep_comp_def
    layout_simps simp del: One_nat_def intro!: usb_ss_ep_comp_descriptor.equality)

record usb_qualifier_descriptor = usb_descriptor_header +
  bcdUSB_qualifier :: u16
  bDeviceClass_qualifier :: u8
  bDeviceSubClass_qualifier :: u8
  bDeviceProtocol_qualifier :: u8
  bMaxPacketSize0_qualifier :: u8
  bNumConfigurations_qualifier :: u8
  bRESERVED :: u8

definition qualifier_sizeof :: nat where "qualifier_sizeof = 10"

definition decode_qualifier :: "byte list \<Rightarrow> usb_qualifier_descriptor" where
  "decode_qualifier bs = \<lparr>bLength = field8 0 bs, bDescriptorType = field8 1 bs,
     bcdUSB_qualifier = field16 2 bs, bDeviceClass_qualifier = field8 4 bs,
     bDeviceSubClass_qualifier = field8 5 bs, bDeviceProtocol_qualifier = field8 6 bs,
     bMaxPacketSize0_qualifier = field8 7 bs, bNumConfigurations_qualifier = field8 8 bs,
     bRESERVED = field8 9 bs\<rparr>"

definition encode_qualifier :: "usb_qualifier_descriptor \<Rightarrow> byte list" where
  "encode_qualifier r = enc8 (bLength r) @ enc8 (bDescriptorType r) @ enc16 (bcdUSB_qualifier r) @
     enc8 (bDeviceClass_qualifier r) @ enc8 (bDeviceSubClass_qualifier r) @
     enc8 (bDeviceProtocol_qualifier r) @ enc8 (bMaxPacketSize0_qualifier r) @
     enc8 (bNumConfigurations_qualifier r) @ enc8 (bRESERVED r)"

interpretation qualifier_layout:
  layout qualifier_sizeof encode_qualifier decode_qualifier "\<lambda>_. True"
  by unfold_locales (auto simp: qualifier_sizeof_def decode_qualifier_def encode_qualifier_def
    layout_simps simp del: One_nat_def intro!: usb_qualifier_descriptor.equality)

record usb_otg_descriptor = usb_descriptor_header +
  bmAttributes_otg :: u8

definition otg_sizeof :: nat where "otg_sizeof = 3"

definition decode_otg :: "byte list \<Rightarrow> usb_otg_descriptor" where
  "decode_otg bs = \<lparr>bLength = field8 0 bs, bDescriptorType = field8 1 bs,
     bmAttributes_otg = field8 2 bs\<rparr>"

definition encode_otg :: "usb_otg_descriptor \<Rightarrow> byte list" where
  "encode_otg r = enc8 (bLength r) @ enc8 (bDescriptorType r) @ enc8 (bmAttributes_otg r)"

interpretation otg_layout:
  layout otg_sizeof encode_otg decode_otg "\<lambda>_. True"
  by unfold_locales (auto simp: otg_sizeof_def decode_otg_def encode_otg_def
    layout_simps simp del: One_nat_def intro!: usb_otg_descriptor.equality)

record usb_debug_descriptor = usb_descriptor_header +
  bDebugInEndpoint :: u8
  bDebugOutEndpoint :: u8

definition debug_sizeof :: nat where "debug_sizeof = 4"

definition decode_debug :: "byte list \<Rightarrow> usb_debug_descriptor" where
  "decode_debug bs = \<lparr>bLength = field8 0 bs, bDescriptorType = field8 1 bs,
     bDebugInEndpoint = field8 2 bs, bDebugOutEndpoint = field8 3 bs\<rparr>"

definition encode_debug :: "usb_debug_descriptor \<Rightarrow> byte list" where
  "encode_debug r = enc8 (bLength r) @ enc8 (bDescriptorType r) @ enc8 (bDebugInEndpoint r) @
     enc8 (bDebugOutEndpoint r)"

interpretation debug_layout:
  layout debug_sizeof encode_debug decode_debug "\<lambda>_. True"
  by unfold_locales (auto simp: debug_sizeof_def decode_debug_def encode_debug_def
    layout_simps simp del: One_nat_def intro!: usb_debug_descriptor.equality)

record usb_interface_assoc_descriptor = usb_descriptor_header +
  bFirstInterface :: u8
  bInterfaceCount :: u8
  bFunctionClass :: u8
  bFunctionSubClass :: u8
  bFunctionProtocol :: u8
  iFunction :: u8

definition interface_assoc_sizeof :: nat where "interface_assoc_sizeof = 8"

definition decode_interface_assoc :: "byte list \<Rightarrow> usb_interface_assoc_descriptor" where
  "decode_interface_assoc bs = \<lparr>bLength = field8 0 bs, bDescriptorType = field8 1 bs,
     bFirstInterface = field8 2 bs, bInterfaceCount = field8 3 bs, bFunctionClass = field8 4 bs,
     bFunctionSubClass = field8 5 bs, bFunctionProtocol = field8 6 bs, iFunction = field8 7 bs\<rparr>"

definition encode_interface_assoc :: "usb_interface_assoc_descriptor \<Rightarrow> byte list" where
  "encode_interface_assoc r = enc8 (bLength r) @ enc8 (bDescriptorType r) @ enc8 (bFirstInterface r) @
     enc8 (bInterfaceCount r) @ enc8 (bFunctionClass r) @ enc8 (bFunctionSubClass r) @
     enc8 (bFunctionProtocol r) @ enc8 (iFunction r)"

interpretation interface_assoc_layout:
  layout interface_assoc_sizeof encode_interface_assoc decode_interface_assoc "\<lambda>_. True"
  by unfold_locales (auto simp: interface_assoc_sizeof_def decode_interface_assoc_def encode_interface_assoc_def
    layout_simps simp del: One_nat_def intro!: usb_interface_assoc_descriptor.equality)

record usb_security_descriptor = usb_descriptor_header +
  wTotalLength_security :: u16
  bNumEncryptionTypes :: u8

definition security_sizeof :: nat where "security_sizeof = 5"

definition decode_security :: "byte list \<Rightarrow> usb_security_descriptor" where
  "decode_security bs = \<lparr>bLength = field8 0 bs, bDescriptorType = field8 1 bs,
     wTotalLength_security = field16 2 bs, bNumEncryptionTypes = field8 4 bs\<rparr>"

definition encode_security :: "usb_security_descriptor \<Rightarrow> byte list" where
  "encode_security r = enc8 (bLength r) @ enc8 (bDescriptorType r) @ enc16 (wTotalLength_security r) @
     enc8 (bNumEncryptionTypes r)"

interpretation security_layout:
  layout security_sizeof encode_security decode_security "\<lambda>_. True"
  by unfold_locales (auto simp: security_sizeof_def decode_security_def encode_security_def
    layout_simps simp del: One_nat_def intro!: usb_security_descriptor.equality)

record usb_key_descriptor = usb_descriptor_header +
  tTKID :: "byte list"
  bReserved_key :: u8

definition key_sizeof :: nat where "key_sizeof = 6"

definition decode_key :: "byte list \<Rightarrow> usb_key_descriptor" where
  "decode_key bs = \<lparr>bLength = field8 0 bs, bDescriptorType = field8 1 bs,
     tTKID = bytes_at 2 3 bs, bReserved_key = field8 5 bs\<rparr>"

definition encode_key :: "usb_key_descriptor \<Rightarrow> byte list" where
  "encode_key r = enc8 (bLength r) @ enc8 (bDescriptorType r) @ tTKID r @ enc8 (bReserved_key r)"

definition valid_key :: "usb_key_descriptor \<Rightarrow> bool" where
  "valid_key r \<longleftrightarrow> length (tTKID r) = 3"

interpretation key_layout:
  layout key_sizeof encode_key decode_key "valid_key"
  by unfold_locales (auto simp: key_sizeof_def decode_key_def encode_key_def valid_key_def
    layout_simps simp del: One_nat_def intro!: usb_key_descriptor.equality)

record usb_encryption_descriptor = usb_descriptor_header +
  bEncryptionType :: u8
  bEncryptionValue :: u8
  bAuthKeyIndex :: u8

definition encryption_sizeof :: nat where "encryption_sizeof = 5"

definition decode_encryption :: "byte list \<Rightarrow> usb_encryption_descriptor" where
  "decode_encryption bs = \<lparr>bLength = field8 0 bs, bDescriptorType = field8 1 bs,
     bEncryptionType = field8 2 bs, bEncryptionValue = field8 3 bs, bAuthKeyIndex = field8 4 bs\<rparr>"

definition encode_encryption :: "usb_encryption_descriptor \<Rightarrow> byte list" where
  "encode_encryption r = enc8 (bLength r) @ enc8 (bDescriptorType r) @ enc8 (bEncryptionType r) @
     enc8 (bEncryptionValue r) @ enc8 (bAuthKeyIndex r)"

interpretation encryption_layout:
  layout encryption_sizeof encode_encryption decode_encryption "\<lambda>_. True"
  by unfold_locales (auto simp: encryption_sizeof_def decode_encryption_def encode_encryption_def
    layout_simps simp del: One_nat_def intro!: usb_encryption_descriptor.equality)

record usb_dev_cap_header = usb_descriptor_header +
  bDevCapabilityType :: u8

definition dev_cap_sizeof :: nat where "dev_cap_sizeof = 3"

definition decode_dev_cap :: "byte list \<Rightarrow> usb_dev_cap_header" where
  "decode_dev_cap bs = \<lparr>bLength = field8 0 bs, bDescriptorType = field8 1 bs,
     bDevCapabilityType = field8 2 bs\<rparr>"

definition encode_dev_cap :: "usb_dev_cap_header \<Rightarrow> byte list" where
  "encode_dev_cap r = enc8 (bLength r) @ enc8 (bDescriptorType r) @ enc8 (bDevCapabilityType r)"

interpretation dev_cap_layout:
  layout dev_cap_sizeof encode_dev_cap decode_dev_cap "\<lambda>_. True"
  by unfold_locales (auto simp: dev_cap_sizeof_def decode_dev_cap_def encode_dev_cap_def
    layout_simps simp del: One_nat_def intro!: usb_dev_cap_header.equality)

record usb_wireless_cap_descriptor = usb_dev_cap_header +
  bmAttributes_wireless :: u8
  wPHYRates :: u16
  bmTFITXPowerInfo :: u8
  bmFFITXPowerInfo :: u8
  bmBandGroup :: u16
  bReserved_wireless :: u8

definition wireless_cap_sizeof :: nat where "wireless_cap_sizeof = 11"

definition decode_wireless_cap :: "byte list \<Rightarrow> usb_wireless_cap_descriptor" where
  "decode_wireless_cap bs = \<lparr>bLength = field8 0 bs, bDescriptorType = field8 1 bs,
     bDevCapabilityType = field8 2 bs, bmAttributes_wireless = field8 3 bs, wPHYRates = field16 4 bs,
     bmTFITXPowerInfo = field8 6 bs, bmFFITXPowerInfo = field8 7 bs, bmBandGroup = field16 8 bs,
     bReserved_wireless = field8 10 bs\<rparr>"

definition encode_wireless_cap :: "usb_wireless_cap_descriptor \<Rightarrow> byte list" where
  "encode_wireless_cap r = enc8 (bLength r) @ enc8 (bDescriptorType r) @ enc8 (bDevCapabilityType r) @
     enc8 (bmAttributes_wireless r) @ enc16 (wPHYRates r) @ enc8 (bmTFITXPowerInfo r) @
     enc8 (bmFFITXPowerInfo r) @ enc16 (bmBandGroup r) @ enc8 (bReserved_wireless r)"

interpretation wireless_cap_layout:
  layout wireless_cap_sizeof encode_wireless_cap decode_wireless_cap "\<lambda>_. True"
  by unfold_locales (auto simp: wireless_cap_sizeof_def decode_wireless_cap_def encode_wireless_cap_def
    layout_simps simp del: One_nat_def intro!: usb_wireless_cap_descriptor.equality)

record usb_ext_cap_descriptor = usb_dev_cap_header +
  bmAttributes_ext :: u32

definition USB_DT_USB_EXT_CAP_SIZE :: nat where "USB_DT_USB_EXT_CAP_SIZE = 7"

definition decode_ext_cap :: "byte list \<Rightarrow> usb_ext_cap_descriptor" where
  "decode_ext_cap bs = \<lparr>bLength = field8 0 bs, bDescriptorType = field8 1 bs,
     bDevCapabilityType = field8 2 bs, bmAttributes_ext = field32 3 bs\<rparr>"

definition encode_ext_cap :: "usb_ext_cap_descriptor \<Rightarrow> byte list" where
  "encode_ext_cap r = enc8 (bLength r) @ enc8 (bDescriptorType r) @ enc8 (bDevCapabilityType r) @
     enc32 (bmAttributes_ext r)"

interpretation ext_cap_layout:
  layout USB_DT_USB_EXT_CAP_SIZE encode_ext_cap decode_ext_cap "\<lambda>_. True"
  by unfold_locales (auto simp: USB_DT_USB_EXT_CAP_SIZE_def decode_ext_cap_def encode_ext_cap_def
    layout_simps simp del: One_nat_def intro!: usb_ext_cap_descriptor.equality)

record usb_ss_cap_descriptor = usb_dev_cap_header +
  bmAttributes_ss_cap :: u8
  wSpeedSupported :: u16
  bFunctionalitySupport :: u8
  bU1devExitLat :: u8
  bU2DevExitLat :: u16

definition USB_DT_USB_SS_CAP_SIZE :: nat where "USB_DT_USB_SS_CAP_SIZE = 10"

definition decode_ss_cap :: "byte list \<Rightarrow> usb_ss_cap_descriptor" where
  "decode_ss_cap bs = \<lparr>bLength = field8 0 bs, bDescriptorType = field8 1 bs,
     bDevCapabilityType = field8 2 bs, bmAttributes_ss_cap = field8 3 bs,
     wSpeedSupported = field16 4 bs, bFunctionalitySupport = field8 6 bs, bU1devExitLat = field8 7 bs,
     bU2DevExitLat = field16 8 bs\<rparr>"

definition encode_ss_cap :: "usb_ss_cap_descriptor \<Rightarrow> byte list" where
  "encode_ss_cap r = enc8 (bLength r) @ enc8 (bDescriptorType r) @ enc8 (bDevCapabilityType r) @
     enc8 (bmAttributes_ss_cap r) @ enc16 (wSpeedSupported r) @ enc8 (bFunctionalitySupport r) @
     enc8 (bU1devExitLat r) @ enc16 (bU2DevExitLat r)"

interpretation ss_cap_layout:
  layout USB_DT_USB_SS_CAP_SIZE encode_ss_cap decode_ss_cap "\<lambda>_. True"
  by unfold_locales (auto simp: USB_DT_USB_SS_CAP_SIZE_def decode_ss_cap_def encode_ss_cap_def
    layout_simps simp del: One_nat_def intro!: usb_ss_cap_descriptor.equality)

record usb_ss_container_id_descriptor = usb_dev_cap_header +
  bReserved_container :: u8
  ContainerID :: "byte list"

definition USB_DT_USB_SS_CONTN_ID_SIZE :: nat where "USB_DT_USB_SS_CONTN_ID_SIZE = 20"

definition decode_container_id :: "byte list \<Rightarrow> usb_ss_container_id_descriptor" where
  "decode_container_id bs = \<lparr>bLength = field8 0 bs, bDescriptorType = field8 1 bs,
     bDevCapabilityType = field8 2 bs, bReserved_container = field8 3 bs, ContainerID = bytes_at 4 16 bs\<rparr>"

definition encode_container_id :: "usb_ss_container_id_descriptor \<Rightarrow> byte list" where
  "encode_container_id r = enc8 (bLength r) @ enc8 (bDescriptorType r) @ enc8 (bDevCapabilityType r) @
     enc8 (bReserved_container r) @ ContainerID r"

definition valid_container_id :: "usb_ss_container_id_descriptor \<Rightarrow> bool" where
  "valid_container_id r \<longleftrightarrow> length (ContainerID r) = 16"

interpretation container_id_layout:
  layout USB_DT_USB_SS_CONTN_ID_SIZE encode_container_id decode_container_id "valid_container_id"
  by unfold_locales (auto simp: USB_DT_USB_SS_CONTN_ID_SIZE_def decode_container_id_def encode_container_id_def valid_container_id_def
    layout_simps simp del: One_nat_def intro!: usb_ss_container_id_descriptor.equality)

record usb_wireless_ep_comp_descriptor = usb_descriptor_header +
  bMaxBurst_wireless :: u8
  bMaxSequence :: u8
  wMaxStreamDelay :: u16
  wOverTheAirPacketSize :: u16
  bOverTheAirInterval :: u8
  bmCompAttributes :: u8

definition wireless_ep_comp_sizeof :: nat where "wireless_ep_comp_sizeof = 10"

definition decode_wireless_ep_comp :: "byte list \<Rightarrow> usb_wireless_ep_comp_descriptor" where
  "decode_wireless_ep_comp bs = \<lparr>bLength = field8 0 bs, bDescriptorType = field8 1 bs,
     bMaxBurst_wireless = field8 2 bs, bMaxSequence = field8 3 bs, wMaxStreamDelay = field16 4 bs,
     wOverTheAirPacketSize = field16 6 bs, bOverTheAirInterval = field8 8 bs,
     bmCompAttributes = field8 9 bs\<rparr>"

definition encode_wireless_ep_comp :: "usb_wireless_ep_comp_descriptor \<Rightarrow> byte list" where
  "encode_wireless_ep_comp r = enc8 (bLength r) @ enc8 (bDescriptorType r) @
     enc8 (bMaxBurst_wireless r) @ enc8 (bMaxSequence r) @ enc16 (wMaxStreamDelay r) @
     enc16 (wOverTheAirPacketSize r) @ enc8 (bOverTheAirInterval r) @ enc8 (bmCompAttributes r)"

interpretation wireless_ep_comp_layout:
  layout wireless_ep_comp_sizeof encode_wireless_ep_comp decode_wireless_ep_comp "\<lambda>_. True"
  by unfold_locales (auto simp: wireless_ep_comp_sizeof_def decode_wireless_ep_comp_def encode_wireless_ep_comp_def
    layout_simps simp del: One_nat_def intro!: usb_wireless_ep_comp_descriptor.equality)

record usb_handshake =
  bMessageNumber :: u8
  bStatus :: u8
  tTKID_handshake :: "byte list"
  bReserved_handshake :: u8
  CDID_handshake :: "byte list"
  nonce :: "byte list"
  MIC :: "byte list"

definition handshake_sizeof :: nat where "handshake_sizeof = 46"

definition decode_handshake :: "byte list \<Rightarrow> usb_handshake" where
  "decode_handshake bs = \<lparr>bMessageNumber = field8 0 bs, bStatus = field8 1 bs,
     tTKID_handshake = bytes_at 2 3 bs, bReserved_handshake = field8 5 bs,
     CDID_handshake = bytes_at 6 16 bs, nonce = bytes_at 22 16 bs, MIC = bytes_at 38 8 bs\<rparr>"

definition encode_handshake :: "usb_handshake \<Rightarrow> byte list" where
  "encode_handshake r = enc8 (bMessageNumber r) @ enc8 (bStatus r) @ tTKID_handshake r @
     enc8 (bReserved_handshake r) @ CDID_handshake r @ nonce r @ MIC r"

definition valid_handshake :: "usb_handshake \<Rightarrow> bool" where
  "valid_handshake r \<longleftrightarrow> length (tTKID_handshake r) = 3 \<and>
     length (CDID_handshake r) = 16 \<and> length (nonce r) = 16 \<and> length (MIC r) = 8"

interpretation handshake_layout:
  layout handshake_sizeof encode_handshake decode_handshake "valid_handshake"
  by unfold_locales (auto simp: handshake_sizeof_def decode_handshake_def encode_handshake_def valid_handshake_def
    layout_simps simp del: One_nat_def intro!: usb_handshake.equality)

record usb_connection_context =
  CHID :: "byte list"
  CDID :: "byte list"
  CK :: "byte list"

definition connection_context_sizeof :: nat where "connection_context_sizeof = 48"

definition decode_connection_context :: "byte list \<Rightarrow> usb_connection_context" where
  "decode_connection_context bs = \<lparr>CHID = bytes_at 0 16 bs, CDID = bytes_at 16 16 bs,
     CK = bytes_at 32 16 bs\<rparr>"

definition encode_connection_context :: "usb_connection_context \<Rightarrow> byte list" where
  "encode_connection_context r = CHID r @ CDID r @ CK r"

definition valid_connection_context :: "usb_connection_context \<Rightarrow> bool" where
  "valid_connection_context r \<longleftrightarrow> length (CHID r) = 16 \<and>
     length (CDID r) = 16 \<and> length (CK r) = 16"

interpretation connection_context_layout:
  layout connection_context_sizeof encode_connection_context decode_connection_context "valid_connection_context"
  by unfold_locales (auto simp: connection_context_sizeof_def decode_connection_context_def encode_connection_context_def valid_connection_context_def
    layout_simps simp del: One_nat_def intro!: usb_connection_context.equality)

section \<open>Endpoints\<close>

abbreviation (input) USB_ENDPOINT_NUMBER_MASK :: u8 where "USB_ENDPOINT_NUMBER_MASK \<equiv> 0x0F"
abbreviation (input) USB_ENDPOINT_DIR_MASK :: u8 where "USB_ENDPOINT_DIR_MASK \<equiv> 0x80"
abbreviation (input) USB_ENDPOINT_XFERTYPE_MASK :: u8 where "USB_ENDPOINT_XFERTYPE_MASK \<equiv> 0x03"
abbreviation (input) USB_ENDPOINT_XFER_CONTROL :: u8 where "USB_ENDPOINT_XFER_CONTROL \<equiv> 0"
abbreviation (input) USB_ENDPOINT_XFER_ISOC :: u8 where "USB_ENDPOINT_XFER_ISOC \<equiv> 1"
abbreviation (input) USB_ENDPOINT_XFER_BULK :: u8 where "USB_ENDPOINT_XFER_BULK \<equiv> 2"
abbreviation (input) USB_ENDPOINT_XFER_INT :: u8 where "USB_ENDPOINT_XFER_INT \<equiv> 3"
abbreviation (input) USB_DIR_OUT :: u8 where "USB_DIR_OUT \<equiv> 0"

text \<open>The functions return \<open>int\<close>: a small number, or a truth value.\<close>

definition usb_endpoint_num :: "usb_endpoint_descriptor \<Rightarrow> int" where
  "usb_endpoint_num epd = uint (bEndpointAddress epd AND USB_ENDPOINT_NUMBER_MASK)"

definition usb_endpoint_type :: "usb_endpoint_descriptor \<Rightarrow> int" where
  "usb_endpoint_type epd = uint (bmAttributes_endpoint epd AND USB_ENDPOINT_XFERTYPE_MASK)"

definition usb_endpoint_dir_in :: "usb_endpoint_descriptor \<Rightarrow> bool" where
  "usb_endpoint_dir_in epd \<longleftrightarrow> bEndpointAddress epd AND USB_ENDPOINT_DIR_MASK = USB_DIR_IN"

definition usb_endpoint_dir_out :: "usb_endpoint_descriptor \<Rightarrow> bool" where
  "usb_endpoint_dir_out epd \<longleftrightarrow> bEndpointAddress epd AND USB_ENDPOINT_DIR_MASK = USB_DIR_OUT"

definition usb_endpoint_xfer_bulk :: "usb_endpoint_descriptor \<Rightarrow> bool" where
  "usb_endpoint_xfer_bulk epd \<longleftrightarrow>
     bmAttributes_endpoint epd AND USB_ENDPOINT_XFERTYPE_MASK = USB_ENDPOINT_XFER_BULK"

definition usb_endpoint_xfer_control :: "usb_endpoint_descriptor \<Rightarrow> bool" where
  "usb_endpoint_xfer_control epd \<longleftrightarrow>
     bmAttributes_endpoint epd AND USB_ENDPOINT_XFERTYPE_MASK = USB_ENDPOINT_XFER_CONTROL"

definition usb_endpoint_xfer_int :: "usb_endpoint_descriptor \<Rightarrow> bool" where
  "usb_endpoint_xfer_int epd \<longleftrightarrow>
     bmAttributes_endpoint epd AND USB_ENDPOINT_XFERTYPE_MASK = USB_ENDPOINT_XFER_INT"

definition usb_endpoint_xfer_isoc :: "usb_endpoint_descriptor \<Rightarrow> bool" where
  "usb_endpoint_xfer_isoc epd \<longleftrightarrow>
     bmAttributes_endpoint epd AND USB_ENDPOINT_XFERTYPE_MASK = USB_ENDPOINT_XFER_ISOC"

definition usb_endpoint_is_bulk_in :: "usb_endpoint_descriptor \<Rightarrow> bool" where
  "usb_endpoint_is_bulk_in epd \<longleftrightarrow> usb_endpoint_xfer_bulk epd \<and> usb_endpoint_dir_in epd"

definition usb_endpoint_is_bulk_out :: "usb_endpoint_descriptor \<Rightarrow> bool" where
  "usb_endpoint_is_bulk_out epd \<longleftrightarrow> usb_endpoint_xfer_bulk epd \<and> usb_endpoint_dir_out epd"

definition usb_endpoint_is_int_in :: "usb_endpoint_descriptor \<Rightarrow> bool" where
  "usb_endpoint_is_int_in epd \<longleftrightarrow> usb_endpoint_xfer_int epd \<and> usb_endpoint_dir_in epd"

definition usb_endpoint_is_int_out :: "usb_endpoint_descriptor \<Rightarrow> bool" where
  "usb_endpoint_is_int_out epd \<longleftrightarrow> usb_endpoint_xfer_int epd \<and> usb_endpoint_dir_out epd"

definition usb_endpoint_is_isoc_in :: "usb_endpoint_descriptor \<Rightarrow> bool" where
  "usb_endpoint_is_isoc_in epd \<longleftrightarrow> usb_endpoint_xfer_isoc epd \<and> usb_endpoint_dir_in epd"

definition usb_endpoint_is_isoc_out :: "usb_endpoint_descriptor \<Rightarrow> bool" where
  "usb_endpoint_is_isoc_out epd \<longleftrightarrow> usb_endpoint_xfer_isoc epd \<and> usb_endpoint_dir_out epd"

lemmas endpoint_kinds = usb_endpoint_is_bulk_in_def usb_endpoint_is_bulk_out_def usb_endpoint_is_int_in_def
  usb_endpoint_is_int_out_def usb_endpoint_is_isoc_in_def usb_endpoint_is_isoc_out_def

lemma and_mask_uint: "uint (w AND mask n :: 'a::len word) = uint w mod 2 ^ n"
  by (simp add: unsigned_take_bit_eq flip: take_bit_eq_mask take_bit_eq_mod)

lemma and_single_bit: "w AND 2 ^ k = (if bit w k then 2 ^ k else 0)" for w :: "'a::len word"
  by (rule bit_eqI) (auto simp: bit_simps)

lemma and_sign_bit: "(w :: u8) AND 0x80 = 0 \<or> w AND 0x80 = 0x80"
  using and_single_bit [of w 7] by (simp split: if_splits)

lemma clear_between: "m \<le> n \<Longrightarrow> uint w mod 2 ^ m = uint w mod 2 ^ n \<longleftrightarrow> w AND (mask n AND NOT (mask m)) = 0"
  for w :: "'a::len word"
proof -
  assume "m \<le> n"
  have "uint w mod 2 ^ m = uint w mod 2 ^ n \<longleftrightarrow> take_bit m w = take_bit n w"
    by (simp only: word_uint_eq_iff unsigned_take_bit_eq) (simp only: take_bit_eq_mod)
  also have "\<dots> \<longleftrightarrow> w AND (mask n AND NOT (mask m)) = 0"
    using \<open>m \<le> n\<close> by (auto simp: bit_eq_iff bit_simps) 
  finally show ?thesis .
qed

lemma reserved_bits: "uint (a :: u8) mod 16 = uint a mod 128 \<longleftrightarrow> a AND 0x70 = 0"
  using clear_between [of 4 7 a] by (simp add: mask_eq_exp_minus_1)
lemma endpoint_num_mod: "usb_endpoint_num epd = uint (bEndpointAddress epd) mod 16"
  using and_mask_uint [of "bEndpointAddress epd" 4] by (simp add: usb_endpoint_num_def mask_eq_exp_minus_1)

lemma endpoint_type_mod: "usb_endpoint_type epd = uint (bmAttributes_endpoint epd) mod 4"
  using and_mask_uint [of "bmAttributes_endpoint epd" 2] by (simp add: usb_endpoint_type_def mask_eq_exp_minus_1)

lemma transfer_types:
  "usb_endpoint_xfer_control epd \<longleftrightarrow> usb_endpoint_type epd = 0"
  "usb_endpoint_xfer_isoc epd \<longleftrightarrow> usb_endpoint_type epd = 1"
  "usb_endpoint_xfer_bulk epd \<longleftrightarrow> usb_endpoint_type epd = 2"
  "usb_endpoint_xfer_int epd \<longleftrightarrow> usb_endpoint_type epd = 3"
  by (simp_all add: usb_endpoint_xfer_control_def usb_endpoint_xfer_isoc_def usb_endpoint_xfer_bulk_def
      usb_endpoint_xfer_int_def usb_endpoint_type_def word_uint_eq_iff)

lemma transfer_type_cases:
  obtains "usb_endpoint_type epd = 0" | "usb_endpoint_type epd = 1" | "usb_endpoint_type epd = 2"
    | "usb_endpoint_type epd = 3"
proof -
  have "0 \<le> usb_endpoint_type epd" "usb_endpoint_type epd < 4" by (simp_all add: endpoint_type_mod)
  then have "usb_endpoint_type epd = 0 \<or> usb_endpoint_type epd = 1 \<or> usb_endpoint_type epd = 2 \<or>
    usb_endpoint_type epd = 3" by arith
  then show ?thesis using that by blast
qed

lemma endpoint_direction: "usb_endpoint_dir_in epd \<longleftrightarrow> \<not> usb_endpoint_dir_out epd"
  using and_sign_bit [of "bEndpointAddress epd"]
  by (auto simp: usb_endpoint_dir_in_def usb_endpoint_dir_out_def)

section \<open>SuperSpeed streams\<close>

text \<open>
  \<open>usb_ss_max_streams\<close> shifts an \<open>int\<close>, which is kept at its 32 bits; the null pointer is \<open>None\<close>.
\<close>

definition usb_ss_max_streams :: "usb_ss_ep_comp_descriptor option \<Rightarrow> u32" where
  "usb_ss_max_streams descriptor = (case descriptor of None \<Rightarrow> 0
   | Some d \<Rightarrow> (let max_streams = unat (bmAttributes_ss d AND 0x1F) in
       if max_streams = 0 then 0 else push_bit max_streams 1))"

definition USB_SS_MULT :: "int \<Rightarrow> int" where
  "USB_SS_MULT p = 1 + (p AND 0x3)"


lemma ss_attribute_bound: "unat ((w :: u8) AND 0x1F) < 32"
  using and_mask_uint [of w 5] by (simp add: mask_eq_exp_minus_1 unat_eq_nat_uint nat_less_iff)

lemma sint_single_bit: "n < 31 \<Longrightarrow> sint (push_bit n (1 :: u32)) = 2 ^ n"
proof -
  assume "n < 31"
  moreover have less: "(2 :: int) ^ n < 2 ^ 31" using \<open>n < 31\<close> by (rule power_strict_increasing) simp
  moreover have "uint (word_of_int (2 ^ n) :: u32) = 2 ^ n" using less by (simp add: uint_word_of_int del: of_int_power)
  moreover have "- (2147483648 :: int) \<le> 2 ^ n" by (rule order_trans [of _ 0]) simp_all
  ultimately show ?thesis by (simp add: sint_uint signed_take_bit_int_eq_self_iff)
qed

lemma sint_sign_bit: "sint (push_bit 31 (1 :: u32)) = - (2 ^ 31)"
  by simp

text \<open>
  The reserved attribute 31 shifts into the sign bit of the \<open>int\<close>, where the function returns a negative
  number of streams; below it the result is the power of two the descriptor declares.
\<close>

lemma max_streams_cases:
  "n = unat (bmAttributes_ss d AND 0x1F) \<Longrightarrow>
   sint (usb_ss_max_streams (Some d)) = (if n = 0 then 0 else if n = 31 then - (2 ^ 31) else 2 ^ n)"
  using ss_attribute_bound [of "bmAttributes_ss d"]
  by (auto simp: usb_ss_max_streams_def Let_def sint_single_bit sint_sign_bit simp del: push_bit_of_1)

section \<open>Speeds and states\<close>

datatype usb_device_speed = USB_SPEED_UNKNOWN | USB_SPEED_LOW | USB_SPEED_FULL | USB_SPEED_HIGH |
  USB_SPEED_WIRELESS | USB_SPEED_SUPER

datatype usb_device_state = USB_STATE_NOTATTACHED | USB_STATE_ATTACHED | USB_STATE_POWERED |
  USB_STATE_RECONNECTING | USB_STATE_UNAUTHENTICATED | USB_STATE_DEFAULT | USB_STATE_ADDRESS |
  USB_STATE_CONFIGURED | USB_STATE_SUSPENDED

section \<open>Numeric codes\<close>

text \<open>The macro groups of \<open>ext/usb.h\<close>, as tables from the macro to its value.\<close>

definition usb_directions :: "(string \<times> nat) list" where
  "usb_directions =
    [(''USB_DIR_OUT'', 0), (''USB_DIR_IN'', 0x80)]"

definition usb_request_types :: "(string \<times> nat) list" where
  "usb_request_types =
    [(''USB_TYPE_MASK'', 96), (''USB_TYPE_STANDARD'', 0), (''USB_TYPE_CLASS'', 32),
     (''USB_TYPE_VENDOR'', 64), (''USB_TYPE_RESERVED'', 96)]"

definition usb_recipients :: "(string \<times> nat) list" where
  "usb_recipients =
    [(''USB_RECIP_MASK'', 0x1f), (''USB_RECIP_DEVICE'', 0x0), (''USB_RECIP_INTERFACE'', 0x1),
     (''USB_RECIP_ENDPOINT'', 0x2), (''USB_RECIP_OTHER'', 0x3), (''USB_RECIP_PORT'', 0x4),
     (''USB_RECIP_RPIPE'', 0x5)]"

definition usb_requests :: "(string \<times> nat) list" where
  "usb_requests =
    [(''USB_REQ_GET_STATUS'', 0x0), (''USB_REQ_CLEAR_FEATURE'', 0x1), (''USB_REQ_SET_FEATURE'', 0x3),
     (''USB_REQ_SET_ADDRESS'', 0x5), (''USB_REQ_GET_DESCRIPTOR'', 0x6),
     (''USB_REQ_SET_DESCRIPTOR'', 0x7), (''USB_REQ_GET_CONFIGURATION'', 0x8),
     (''USB_REQ_SET_CONFIGURATION'', 0x9), (''USB_REQ_GET_INTERFACE'', 0xa),
     (''USB_REQ_SET_INTERFACE'', 0xb), (''USB_REQ_SYNCH_FRAME'', 0xc), (''USB_REQ_SET_SEL'', 0x30),
     (''USB_REQ_SET_ENCRYPTION'', 0xd), (''USB_REQ_GET_ENCRYPTION'', 0xe),
     (''USB_REQ_RPIPE_ABORT'', 0xe), (''USB_REQ_SET_HANDSHAKE'', 0xf), (''USB_REQ_RPIPE_RESET'', 0xf),
     (''USB_REQ_GET_HANDSHAKE'', 0x10), (''USB_REQ_SET_CONNECTION'', 0x11),
     (''USB_REQ_SET_SECURITY_DATA'', 0x12), (''USB_REQ_GET_SECURITY_DATA'', 0x13),
     (''USB_REQ_SET_WUSB_DATA'', 0x14), (''USB_REQ_LOOPBACK_DATA_WRITE'', 0x15),
     (''USB_REQ_LOOPBACK_DATA_READ'', 0x16), (''USB_REQ_SET_INTERFACE_DS'', 0x17)]"

definition usb_device_features :: "(string \<times> nat) list" where
  "usb_device_features =
    [(''USB_DEVICE_SELF_POWERED'', 0), (''USB_DEVICE_REMOTE_WAKEUP'', 1),
     (''USB_DEVICE_TEST_MODE'', 2), (''USB_DEVICE_BATTERY'', 2), (''USB_DEVICE_B_HNP_ENABLE'', 3),
     (''USB_DEVICE_WUSB_DEVICE'', 3), (''USB_DEVICE_A_HNP_SUPPORT'', 4),
     (''USB_DEVICE_A_ALT_HNP_SUPPORT'', 5), (''USB_DEVICE_DEBUG_MODE'', 6)]"

definition usb_descriptor_types :: "(string \<times> nat) list" where
  "usb_descriptor_types =
    [(''USB_DT_DEVICE'', 0x1), (''USB_DT_CONFIG'', 0x2), (''USB_DT_STRING'', 0x3),
     (''USB_DT_INTERFACE'', 0x4), (''USB_DT_ENDPOINT'', 0x5), (''USB_DT_DEVICE_QUALIFIER'', 0x6),
     (''USB_DT_OTHER_SPEED_CONFIG'', 0x7), (''USB_DT_INTERFACE_POWER'', 0x8), (''USB_DT_OTG'', 0x9),
     (''USB_DT_DEBUG'', 0xa), (''USB_DT_INTERFACE_ASSOCIATION'', 0xb), (''USB_DT_SECURITY'', 0xc),
     (''USB_DT_KEY'', 0xd), (''USB_DT_ENCRYPTION_TYPE'', 0xe), (''USB_DT_BOS'', 0xf),
     (''USB_DT_DEVICE_CAPABILITY'', 0x10), (''USB_DT_WIRELESS_ENDPOINT_COMP'', 0x11),
     (''USB_DT_WIRE_ADAPTER'', 0x21), (''USB_DT_DFU_FUNCTIONAL'', 0x21), (''USB_DT_RPIPE'', 0x22),
     (''USB_DT_CS_RADIO_CONTROL'', 0x23), (''USB_DT_PIPE_USAGE'', 0x24),
     (''USB_DT_SS_ENDPOINT_COMP'', 0x30), (''USB_DT_CS_DEVICE'', 33), (''USB_DT_CS_CONFIG'', 34),
     (''USB_DT_CS_STRING'', 35), (''USB_DT_CS_INTERFACE'', 36), (''USB_DT_CS_ENDPOINT'', 37)]"

definition usb_class_codes :: "(string \<times> nat) list" where
  "usb_class_codes =
    [(''USB_CLASS_PER_INTERFACE'', 0), (''USB_CLASS_AUDIO'', 1), (''USB_CLASS_COMM'', 2),
     (''USB_CLASS_HID'', 3), (''USB_CLASS_PHYSICAL'', 5), (''USB_CLASS_STILL_IMAGE'', 6),
     (''USB_CLASS_PRINTER'', 7), (''USB_CLASS_MASS_STORAGE'', 8), (''USB_CLASS_HUB'', 9),
     (''USB_CLASS_CDC_DATA'', 0xa), (''USB_CLASS_CSCID'', 0xb), (''USB_CLASS_CONTENT_SEC'', 0xd),
     (''USB_CLASS_VIDEO'', 0xe), (''USB_CLASS_WIRELESS_CONTROLLER'', 0xe0), (''USB_CLASS_MISC'', 0xef),
     (''USB_CLASS_APP_SPEC'', 0xfe), (''USB_CLASS_VENDOR_SPEC'', 0xff),
     (''USB_SUBCLASS_VENDOR_SPEC'', 0xff)]"

definition usb_config_attributes :: "(string \<times> nat) list" where
  "usb_config_attributes =
    [(''USB_CONFIG_ATT_ONE'', 128), (''USB_CONFIG_ATT_SELFPOWER'', 64),
     (''USB_CONFIG_ATT_WAKEUP'', 32), (''USB_CONFIG_ATT_BATTERY'', 16)]"

definition usb_endpoint_fields :: "(string \<times> nat) list" where
  "usb_endpoint_fields =
    [(''USB_ENDPOINT_NUMBER_MASK'', 0xf), (''USB_ENDPOINT_DIR_MASK'', 0x80),
     (''USB_ENDPOINT_XFERTYPE_MASK'', 0x3), (''USB_ENDPOINT_XFER_CONTROL'', 0),
     (''USB_ENDPOINT_XFER_ISOC'', 1), (''USB_ENDPOINT_XFER_BULK'', 2), (''USB_ENDPOINT_XFER_INT'', 3),
     (''USB_ENDPOINT_MAX_ADJUSTABLE'', 0x80), (''USB_ENDPOINT_SYNCTYPE'', 0xc),
     (''USB_ENDPOINT_SYNC_NONE'', 0), (''USB_ENDPOINT_SYNC_ASYNC'', 4),
     (''USB_ENDPOINT_SYNC_ADAPTIVE'', 8), (''USB_ENDPOINT_SYNC_SYNC'', 12),
     (''USB_ENDPOINT_USAGE_MASK'', 0x30), (''USB_ENDPOINT_USAGE_DATA'', 0x0),
     (''USB_ENDPOINT_USAGE_FEEDBACK'', 0x10), (''USB_ENDPOINT_USAGE_IMPLICIT_FB'', 0x20)]"

text \<open>The names of a code in a table.\<close>

definition names_of :: "nat \<Rightarrow> (string \<times> nat) list \<Rightarrow> string list" where
  "names_of code codes = map fst (filter (\<lambda>e. snd e = code) codes)"

text \<open>
  The values the parser and the routing compare with are those of the tables.
\<close>

lemma parser_codes:
  "map (map_of usb_descriptor_types) [''USB_DT_DEVICE'', ''USB_DT_CONFIG'', ''USB_DT_STRING'',
     ''USB_DT_INTERFACE'', ''USB_DT_ENDPOINT'', ''USB_DT_BOS'', ''USB_DT_DFU_FUNCTIONAL''] =
   map (\<lambda>code. Some (unat code)) [USB_DT_DEVICE, USB_DT_CONFIG, USB_DT_STRING, USB_DT_INTERFACE,
     USB_DT_ENDPOINT, USB_DT_BOS, USB_DT_DFU_FUNCTIONAL]"
  by code_simp

lemma routing_codes:
  "map (map_of usb_requests) [''USB_REQ_GET_DESCRIPTOR'', ''USB_REQ_SET_CONFIGURATION'', ''USB_REQ_SET_INTERFACE''] =
   map (\<lambda>code. Some (unat code)) [USB_REQ_GET_DESCRIPTOR, USB_REQ_SET_CONFIGURATION, USB_REQ_SET_INTERFACE]"
  "map (map_of usb_request_types) [''USB_TYPE_MASK'', ''USB_TYPE_STANDARD'', ''USB_TYPE_CLASS''] =
   map (\<lambda>code. Some (unat code)) [USB_TYPE_MASK, USB_TYPE_STANDARD, USB_TYPE_CLASS]"
  "map (map_of usb_recipients) [''USB_RECIP_MASK'', ''USB_RECIP_DEVICE'', ''USB_RECIP_INTERFACE''] =
   map (\<lambda>code. Some (unat code)) [USB_RECIP_MASK, USB_RECIP_DEVICE, USB_RECIP_INTERFACE]"
  "map_of usb_directions ''USB_DIR_IN'' = Some (unat USB_DIR_IN)"
  by code_simp+

text \<open>
  The types the parser always dispatches on have one name each.  The type of the DFU functional
  descriptor has three, which is why the parser takes it for one only inside a DFU interface.
\<close>

lemma descriptor_type_names:
  "map (\<lambda>code. length (names_of (unat code) usb_descriptor_types))
     [USB_DT_CONFIG, USB_DT_INTERFACE, USB_DT_ENDPOINT] = [1, 1, 1]"
  "names_of (unat USB_DT_DFU_FUNCTIONAL) usb_descriptor_types =
     [''USB_DT_WIRE_ADAPTER'', ''USB_DT_DFU_FUNCTIONAL'', ''USB_DT_CS_DEVICE'']"
  by code_simp+

section \<open>Properties\<close>

text \<open>
  What the inline functions of \<open>ext/usb.h\<close> say of an endpoint descriptor.  The number and the
  transfer type are the low four bits of the address and the low two bits of the attributes; exactly
  one of the four transfer types and exactly one of the two directions holds; a control endpoint is none
  of the six kinds of transfer and direction, and any other endpoint is exactly one of them.  The
  direction is the one that \<open>USB_ENDPOINT_IN\<close> of \<open>demuxusb.hpp\<close> reads, while the identifier by which the
  program routes, \<open>USB_ENDPOINT_ID\<close>, is the endpoint's number only when the reserved bits are clear.
\<close>

theorem usb_endpoint_classification:
  "usb_endpoint_num epd = uint (bEndpointAddress epd) mod 16 \<and>
   usb_endpoint_type epd = uint (bmAttributes_endpoint epd) mod 4 \<and>
   length (filter (\<lambda>kind. kind epd) [usb_endpoint_xfer_control, usb_endpoint_xfer_isoc,
     usb_endpoint_xfer_bulk, usb_endpoint_xfer_int]) = 1 \<and>
   length (filter (\<lambda>direction. direction epd) [usb_endpoint_dir_in, usb_endpoint_dir_out]) = 1 \<and>
   length (filter (\<lambda>kind. kind epd) [usb_endpoint_is_bulk_in, usb_endpoint_is_bulk_out,
     usb_endpoint_is_int_in, usb_endpoint_is_int_out, usb_endpoint_is_isoc_in, usb_endpoint_is_isoc_out]) =
     (if usb_endpoint_xfer_control epd then 0 else 1) \<and>
   usb_endpoint_dir_in epd = USB_ENDPOINT_IN (bEndpointAddress epd) \<and>
   (usb_endpoint_num epd = uint (USB_ENDPOINT_ID (bEndpointAddress epd))) =
     (bEndpointAddress epd AND 0x70 = 0)"
proof -
  have number: "uint (USB_ENDPOINT_ID (bEndpointAddress epd)) = uint (bEndpointAddress epd) mod 128"
    using and_mask_uint [of "bEndpointAddress epd" 7] by (simp add: mask_eq_exp_minus_1)
  have types: "length (filter (\<lambda>kind. kind epd) [usb_endpoint_xfer_control, usb_endpoint_xfer_isoc,
      usb_endpoint_xfer_bulk, usb_endpoint_xfer_int]) = 1"
    by (cases epd rule: transfer_type_cases) (simp_all add: transfer_types)
  have kinds: "length (filter (\<lambda>kind. kind epd) [usb_endpoint_is_bulk_in, usb_endpoint_is_bulk_out,
      usb_endpoint_is_int_in, usb_endpoint_is_int_out, usb_endpoint_is_isoc_in, usb_endpoint_is_isoc_out]) =
      (if usb_endpoint_xfer_control epd then 0 else 1)"
    by (cases epd rule: transfer_type_cases) (simp_all add: endpoint_kinds transfer_types endpoint_direction)
  have out: "usb_endpoint_dir_out epd \<longleftrightarrow> bEndpointAddress epd AND 0x80 = 0"
    by (simp add: usb_endpoint_dir_out_def)
  show ?thesis
    using number types kinds by (simp add: endpoint_num_mod endpoint_type_mod endpoint_direction reserved_bits out)
qed

section \<open>The layouts, member by member\<close>

lemma descriptor_header_laid_out: "laid_out descriptor_header_size decode_descriptor_header [1, 1]
    (\<lambda>r. [enc8 (bLength r), enc8 (bDescriptorType r)])"
  by (rule laid_outI) (simp_all add: decode_descriptor_header_def descriptor_header_size_def member_simps del: One_nat_def)

lemma device_descriptor_laid_out: "laid_out USB_DT_DEVICE_SIZE decode_device_descriptor [1, 1, 2, 1, 1, 1, 1, 2, 2, 2, 1, 1, 1, 1]
    (\<lambda>r. [enc8 (bLength r), enc8 (bDescriptorType r), enc16 (bcdUSB r),
        enc8 (bDeviceClass r), enc8 (bDeviceSubClass r), enc8 (bDeviceProtocol r),
        enc8 (bMaxPacketSize0 r), enc16 (idVendor r), enc16 (idProduct r),
        enc16 (bcdDevice r), enc8 (iManufacturer r), enc8 (iProduct r),
        enc8 (iSerialNumber r), enc8 (bNumConfigurations r)])"
  by (rule laid_outI) (simp_all add: decode_device_descriptor_def USB_DT_DEVICE_SIZE_def member_simps del: One_nat_def)

lemma config_descriptor_laid_out: "laid_out USB_DT_CONFIG_SIZE decode_config_descriptor [1, 1, 2, 1, 1, 1, 1, 1]
    (\<lambda>r. [enc8 (bLength r), enc8 (bDescriptorType r), enc16 (wTotalLength r),
        enc8 (bNumInterfaces r), enc8 (bConfigurationValue r), enc8 (iConfiguration r),
        enc8 (bmAttributes_config r), enc8 (bMaxPower r)])"
  by (rule laid_outI) (simp_all add: decode_config_descriptor_def USB_DT_CONFIG_SIZE_def member_simps del: One_nat_def)

lemma interface_descriptor_laid_out: "laid_out USB_DT_INTERFACE_SIZE decode_interface_descriptor [1, 1, 1, 1, 1, 1, 1, 1, 1]
    (\<lambda>r. [enc8 (bLength r), enc8 (bDescriptorType r), enc8 (bInterfaceNumber r),
        enc8 (bAlternateSetting r), enc8 (bNumEndpoints r), enc8 (bInterfaceClass r),
        enc8 (bInterfaceSubClass r), enc8 (bInterfaceProtocol r), enc8 (iInterface r)])"
  by (rule laid_outI) (simp_all add: decode_interface_descriptor_def USB_DT_INTERFACE_SIZE_def member_simps del: One_nat_def)

lemma endpoint_descriptor_laid_out: "laid_out endpoint_descriptor_sizeof decode_endpoint_descriptor [1, 1, 1, 1, 2, 1, 1, 1]
    (\<lambda>r. [enc8 (bLength r), enc8 (bDescriptorType r), enc8 (bEndpointAddress r),
        enc8 (bmAttributes_endpoint r), enc16 (wMaxPacketSize r), enc8 (bInterval r),
        enc8 (bRefresh r), enc8 (bSynchAddress r)])"
  by (rule laid_outI) (simp_all add: decode_endpoint_descriptor_def endpoint_descriptor_sizeof_def member_simps del: One_nat_def)

lemma bos_descriptor_laid_out: "laid_out USB_DT_BOS_SIZE decode_bos_descriptor [1, 1, 2, 1]
    (\<lambda>r. [enc8 (bLength r), enc8 (bDescriptorType r), enc16 (bos_wTotalLength r),
        enc8 (bNumDeviceCaps r)])"
  by (rule laid_outI) (simp_all add: decode_bos_descriptor_def USB_DT_BOS_SIZE_def member_simps del: One_nat_def)

lemma dfu_descriptor_laid_out: "laid_out dfu_descriptor_sizeof decode_dfu_descriptor [1, 1, 1, 2, 2]
    (\<lambda>r. [enc8 (bLength r), enc8 (bDescriptorType r), enc8 (bmAttributes_dfu r),
        enc16 (wDetachTimeOut r), enc16 (wTransferSize r)])"
  by (rule laid_outI) (simp_all add: decode_dfu_descriptor_def dfu_descriptor_sizeof_def member_simps del: One_nat_def)

lemma ctrlrequest_laid_out: "laid_out ctrlrequest_sizeof decode_ctrlrequest [1, 1, 2, 2, 2]
    (\<lambda>r. [enc8 (ctrl_bRequestType r), enc8 (ctrl_bRequest r), enc16 (ctrl_wValue r),
        enc16 (ctrl_wIndex r), enc16 (ctrl_wLength r)])"
  by (rule laid_outI) (simp_all add: decode_ctrlrequest_def ctrlrequest_sizeof_def member_simps del: One_nat_def)

lemma string_laid_out: "laid_out string_sizeof decode_string [1, 1, 2]
    (\<lambda>r. [enc8 (bLength r), enc8 (bDescriptorType r), enc16 (wData r)])"
  by (rule laid_outI) (simp_all add: decode_string_def string_sizeof_def member_simps del: One_nat_def)

lemma ss_ep_comp_laid_out: "laid_out USB_DT_SS_EP_COMP_SIZE decode_ss_ep_comp [1, 1, 1, 1, 2]
    (\<lambda>r. [enc8 (bLength r), enc8 (bDescriptorType r), enc8 (bMaxBurst r),
        enc8 (bmAttributes_ss r), enc16 (wBytesPerInterval r)])"
  by (rule laid_outI) (simp_all add: decode_ss_ep_comp_def USB_DT_SS_EP_COMP_SIZE_def member_simps del: One_nat_def)

lemma qualifier_laid_out: "laid_out qualifier_sizeof decode_qualifier [1, 1, 2, 1, 1, 1, 1, 1, 1]
    (\<lambda>r. [enc8 (bLength r), enc8 (bDescriptorType r), enc16 (bcdUSB_qualifier r),
        enc8 (bDeviceClass_qualifier r), enc8 (bDeviceSubClass_qualifier r),
        enc8 (bDeviceProtocol_qualifier r), enc8 (bMaxPacketSize0_qualifier r),
        enc8 (bNumConfigurations_qualifier r), enc8 (bRESERVED r)])"
  by (rule laid_outI) (simp_all add: decode_qualifier_def qualifier_sizeof_def member_simps del: One_nat_def)

lemma otg_laid_out: "laid_out otg_sizeof decode_otg [1, 1, 1]
    (\<lambda>r. [enc8 (bLength r), enc8 (bDescriptorType r), enc8 (bmAttributes_otg r)])"
  by (rule laid_outI) (simp_all add: decode_otg_def otg_sizeof_def member_simps del: One_nat_def)

lemma debug_laid_out: "laid_out debug_sizeof decode_debug [1, 1, 1, 1]
    (\<lambda>r. [enc8 (bLength r), enc8 (bDescriptorType r), enc8 (bDebugInEndpoint r),
        enc8 (bDebugOutEndpoint r)])"
  by (rule laid_outI) (simp_all add: decode_debug_def debug_sizeof_def member_simps del: One_nat_def)

lemma interface_assoc_laid_out: "laid_out interface_assoc_sizeof decode_interface_assoc [1, 1, 1, 1, 1, 1, 1, 1]
    (\<lambda>r. [enc8 (bLength r), enc8 (bDescriptorType r), enc8 (bFirstInterface r),
        enc8 (bInterfaceCount r), enc8 (bFunctionClass r), enc8 (bFunctionSubClass r),
        enc8 (bFunctionProtocol r), enc8 (iFunction r)])"
  by (rule laid_outI) (simp_all add: decode_interface_assoc_def interface_assoc_sizeof_def member_simps del: One_nat_def)

lemma security_laid_out: "laid_out security_sizeof decode_security [1, 1, 2, 1]
    (\<lambda>r. [enc8 (bLength r), enc8 (bDescriptorType r), enc16 (wTotalLength_security r),
        enc8 (bNumEncryptionTypes r)])"
  by (rule laid_outI) (simp_all add: decode_security_def security_sizeof_def member_simps del: One_nat_def)

lemma key_laid_out: "laid_out key_sizeof decode_key [1, 1, 3, 1]
    (\<lambda>r. [enc8 (bLength r), enc8 (bDescriptorType r), tTKID r,
        enc8 (bReserved_key r)])"
  by (rule laid_outI) (simp_all add: decode_key_def key_sizeof_def member_simps del: One_nat_def)

lemma encryption_laid_out: "laid_out encryption_sizeof decode_encryption [1, 1, 1, 1, 1]
    (\<lambda>r. [enc8 (bLength r), enc8 (bDescriptorType r), enc8 (bEncryptionType r),
        enc8 (bEncryptionValue r), enc8 (bAuthKeyIndex r)])"
  by (rule laid_outI) (simp_all add: decode_encryption_def encryption_sizeof_def member_simps del: One_nat_def)

lemma dev_cap_laid_out: "laid_out dev_cap_sizeof decode_dev_cap [1, 1, 1]
    (\<lambda>r. [enc8 (bLength r), enc8 (bDescriptorType r), enc8 (bDevCapabilityType r)])"
  by (rule laid_outI) (simp_all add: decode_dev_cap_def dev_cap_sizeof_def member_simps del: One_nat_def)

lemma wireless_cap_laid_out: "laid_out wireless_cap_sizeof decode_wireless_cap [1, 1, 1, 1, 2, 1, 1, 2, 1]
    (\<lambda>r. [enc8 (bLength r), enc8 (bDescriptorType r), enc8 (bDevCapabilityType r),
        enc8 (bmAttributes_wireless r), enc16 (wPHYRates r), enc8 (bmTFITXPowerInfo r),
        enc8 (bmFFITXPowerInfo r), enc16 (bmBandGroup r), enc8 (bReserved_wireless r)])"
  by (rule laid_outI) (simp_all add: decode_wireless_cap_def wireless_cap_sizeof_def member_simps del: One_nat_def)

lemma ext_cap_laid_out: "laid_out USB_DT_USB_EXT_CAP_SIZE decode_ext_cap [1, 1, 1, 4]
    (\<lambda>r. [enc8 (bLength r), enc8 (bDescriptorType r), enc8 (bDevCapabilityType r),
        enc32 (bmAttributes_ext r)])"
  by (rule laid_outI) (simp_all add: decode_ext_cap_def USB_DT_USB_EXT_CAP_SIZE_def member_simps del: One_nat_def)

lemma ss_cap_laid_out: "laid_out USB_DT_USB_SS_CAP_SIZE decode_ss_cap [1, 1, 1, 1, 2, 1, 1, 2]
    (\<lambda>r. [enc8 (bLength r), enc8 (bDescriptorType r), enc8 (bDevCapabilityType r),
        enc8 (bmAttributes_ss_cap r), enc16 (wSpeedSupported r),
        enc8 (bFunctionalitySupport r), enc8 (bU1devExitLat r), enc16 (bU2DevExitLat r)])"
  by (rule laid_outI) (simp_all add: decode_ss_cap_def USB_DT_USB_SS_CAP_SIZE_def member_simps del: One_nat_def)

lemma container_id_laid_out: "laid_out USB_DT_USB_SS_CONTN_ID_SIZE decode_container_id [1, 1, 1, 1, 16]
    (\<lambda>r. [enc8 (bLength r), enc8 (bDescriptorType r), enc8 (bDevCapabilityType r),
        enc8 (bReserved_container r), ContainerID r])"
  by (rule laid_outI) (simp_all add: decode_container_id_def USB_DT_USB_SS_CONTN_ID_SIZE_def member_simps del: One_nat_def)

lemma wireless_ep_comp_laid_out: "laid_out wireless_ep_comp_sizeof decode_wireless_ep_comp [1, 1, 1, 1, 2, 2, 1, 1]
    (\<lambda>r. [enc8 (bLength r), enc8 (bDescriptorType r), enc8 (bMaxBurst_wireless r),
        enc8 (bMaxSequence r), enc16 (wMaxStreamDelay r), enc16 (wOverTheAirPacketSize r),
        enc8 (bOverTheAirInterval r), enc8 (bmCompAttributes r)])"
  by (rule laid_outI) (simp_all add: decode_wireless_ep_comp_def wireless_ep_comp_sizeof_def member_simps del: One_nat_def)

lemma handshake_laid_out: "laid_out handshake_sizeof decode_handshake [1, 1, 3, 1, 16, 16, 8]
    (\<lambda>r. [enc8 (bMessageNumber r), enc8 (bStatus r), tTKID_handshake r,
        enc8 (bReserved_handshake r), CDID_handshake r, nonce r, MIC r])"
  by (rule laid_outI) (simp_all add: decode_handshake_def handshake_sizeof_def member_simps del: One_nat_def)

lemma connection_context_laid_out: "laid_out connection_context_sizeof decode_connection_context [16, 16, 16]
    (\<lambda>r. [CHID r, CDID r, CK r])"
  by (rule laid_outI) (simp_all add: decode_connection_context_def connection_context_sizeof_def member_simps del: One_nat_def)

section \<open>Property\<close>

text \<open>
  C36: The layout of every structure of \<open>ext/usb.h\<close> is that of its declaration.  A read fails exactly
  when there are fewer bytes than the \<open>sizeof\<close>; otherwise each named member holds the little endian
  value (or, for arrays, the bytes) of its own piece of the descriptor, the pieces following one another
  in the order and with the widths of the C declaration and making up the \<open>sizeof\<close>: \<open>idVendor\<close> is
  what stands before \<open>idProduct\<close>, and the maximum packet size of an endpoint what follows its
  attributes.
\<close>

theorem chapter9_structures:
  "laid_out descriptor_header_size decode_descriptor_header [1, 1]
      (\<lambda>r. [enc8 (bLength r), enc8 (bDescriptorType r)]) \<and>
   laid_out USB_DT_DEVICE_SIZE decode_device_descriptor [1, 1, 2, 1, 1, 1, 1, 2, 2, 2, 1, 1, 1, 1]
      (\<lambda>r. [enc8 (bLength r), enc8 (bDescriptorType r), enc16 (bcdUSB r),
          enc8 (bDeviceClass r), enc8 (bDeviceSubClass r), enc8 (bDeviceProtocol r),
          enc8 (bMaxPacketSize0 r), enc16 (idVendor r), enc16 (idProduct r),
          enc16 (bcdDevice r), enc8 (iManufacturer r), enc8 (iProduct r),
          enc8 (iSerialNumber r), enc8 (bNumConfigurations r)]) \<and>
   laid_out USB_DT_CONFIG_SIZE decode_config_descriptor [1, 1, 2, 1, 1, 1, 1, 1]
      (\<lambda>r. [enc8 (bLength r), enc8 (bDescriptorType r), enc16 (wTotalLength r),
          enc8 (bNumInterfaces r), enc8 (bConfigurationValue r), enc8 (iConfiguration r),
          enc8 (bmAttributes_config r), enc8 (bMaxPower r)]) \<and>
   laid_out USB_DT_INTERFACE_SIZE decode_interface_descriptor [1, 1, 1, 1, 1, 1, 1, 1, 1]
      (\<lambda>r. [enc8 (bLength r), enc8 (bDescriptorType r), enc8 (bInterfaceNumber r),
          enc8 (bAlternateSetting r), enc8 (bNumEndpoints r), enc8 (bInterfaceClass r),
          enc8 (bInterfaceSubClass r), enc8 (bInterfaceProtocol r), enc8 (iInterface r)]) \<and>
   laid_out endpoint_descriptor_sizeof decode_endpoint_descriptor [1, 1, 1, 1, 2, 1, 1, 1]
      (\<lambda>r. [enc8 (bLength r), enc8 (bDescriptorType r), enc8 (bEndpointAddress r),
          enc8 (bmAttributes_endpoint r), enc16 (wMaxPacketSize r), enc8 (bInterval r),
          enc8 (bRefresh r), enc8 (bSynchAddress r)]) \<and>
   laid_out USB_DT_BOS_SIZE decode_bos_descriptor [1, 1, 2, 1]
      (\<lambda>r. [enc8 (bLength r), enc8 (bDescriptorType r), enc16 (bos_wTotalLength r),
          enc8 (bNumDeviceCaps r)]) \<and>
   laid_out dfu_descriptor_sizeof decode_dfu_descriptor [1, 1, 1, 2, 2]
      (\<lambda>r. [enc8 (bLength r), enc8 (bDescriptorType r), enc8 (bmAttributes_dfu r),
          enc16 (wDetachTimeOut r), enc16 (wTransferSize r)]) \<and>
   laid_out ctrlrequest_sizeof decode_ctrlrequest [1, 1, 2, 2, 2]
      (\<lambda>r. [enc8 (ctrl_bRequestType r), enc8 (ctrl_bRequest r), enc16 (ctrl_wValue r),
          enc16 (ctrl_wIndex r), enc16 (ctrl_wLength r)]) \<and>
   laid_out string_sizeof decode_string [1, 1, 2]
      (\<lambda>r. [enc8 (bLength r), enc8 (bDescriptorType r), enc16 (wData r)]) \<and>
   laid_out USB_DT_SS_EP_COMP_SIZE decode_ss_ep_comp [1, 1, 1, 1, 2]
      (\<lambda>r. [enc8 (bLength r), enc8 (bDescriptorType r), enc8 (bMaxBurst r),
          enc8 (bmAttributes_ss r), enc16 (wBytesPerInterval r)]) \<and>
   laid_out qualifier_sizeof decode_qualifier [1, 1, 2, 1, 1, 1, 1, 1, 1]
      (\<lambda>r. [enc8 (bLength r), enc8 (bDescriptorType r), enc16 (bcdUSB_qualifier r),
          enc8 (bDeviceClass_qualifier r), enc8 (bDeviceSubClass_qualifier r),
          enc8 (bDeviceProtocol_qualifier r), enc8 (bMaxPacketSize0_qualifier r),
          enc8 (bNumConfigurations_qualifier r), enc8 (bRESERVED r)]) \<and>
   laid_out otg_sizeof decode_otg [1, 1, 1]
      (\<lambda>r. [enc8 (bLength r), enc8 (bDescriptorType r), enc8 (bmAttributes_otg r)]) \<and>
   laid_out debug_sizeof decode_debug [1, 1, 1, 1]
      (\<lambda>r. [enc8 (bLength r), enc8 (bDescriptorType r), enc8 (bDebugInEndpoint r),
          enc8 (bDebugOutEndpoint r)]) \<and>
   laid_out interface_assoc_sizeof decode_interface_assoc [1, 1, 1, 1, 1, 1, 1, 1]
      (\<lambda>r. [enc8 (bLength r), enc8 (bDescriptorType r), enc8 (bFirstInterface r),
          enc8 (bInterfaceCount r), enc8 (bFunctionClass r), enc8 (bFunctionSubClass r),
          enc8 (bFunctionProtocol r), enc8 (iFunction r)]) \<and>
   laid_out security_sizeof decode_security [1, 1, 2, 1]
      (\<lambda>r. [enc8 (bLength r), enc8 (bDescriptorType r),
          enc16 (wTotalLength_security r), enc8 (bNumEncryptionTypes r)]) \<and>
   laid_out key_sizeof decode_key [1, 1, 3, 1]
      (\<lambda>r. [enc8 (bLength r), enc8 (bDescriptorType r), tTKID r,
          enc8 (bReserved_key r)]) \<and>
   laid_out encryption_sizeof decode_encryption [1, 1, 1, 1, 1]
      (\<lambda>r. [enc8 (bLength r), enc8 (bDescriptorType r), enc8 (bEncryptionType r),
          enc8 (bEncryptionValue r), enc8 (bAuthKeyIndex r)]) \<and>
   laid_out dev_cap_sizeof decode_dev_cap [1, 1, 1]
      (\<lambda>r. [enc8 (bLength r), enc8 (bDescriptorType r), enc8 (bDevCapabilityType r)]) \<and>
   laid_out wireless_cap_sizeof decode_wireless_cap [1, 1, 1, 1, 2, 1, 1, 2, 1]
      (\<lambda>r. [enc8 (bLength r), enc8 (bDescriptorType r), enc8 (bDevCapabilityType r),
          enc8 (bmAttributes_wireless r), enc16 (wPHYRates r), enc8 (bmTFITXPowerInfo r),
          enc8 (bmFFITXPowerInfo r), enc16 (bmBandGroup r), enc8 (bReserved_wireless r)]) \<and>
   laid_out USB_DT_USB_EXT_CAP_SIZE decode_ext_cap [1, 1, 1, 4]
      (\<lambda>r. [enc8 (bLength r), enc8 (bDescriptorType r), enc8 (bDevCapabilityType r),
          enc32 (bmAttributes_ext r)]) \<and>
   laid_out USB_DT_USB_SS_CAP_SIZE decode_ss_cap [1, 1, 1, 1, 2, 1, 1, 2]
      (\<lambda>r. [enc8 (bLength r), enc8 (bDescriptorType r), enc8 (bDevCapabilityType r),
          enc8 (bmAttributes_ss_cap r), enc16 (wSpeedSupported r),
          enc8 (bFunctionalitySupport r), enc8 (bU1devExitLat r), enc16 (bU2DevExitLat r)]) \<and>
   laid_out USB_DT_USB_SS_CONTN_ID_SIZE decode_container_id [1, 1, 1, 1, 16]
      (\<lambda>r. [enc8 (bLength r), enc8 (bDescriptorType r), enc8 (bDevCapabilityType r),
          enc8 (bReserved_container r), ContainerID r]) \<and>
   laid_out wireless_ep_comp_sizeof decode_wireless_ep_comp [1, 1, 1, 1, 2, 2, 1, 1]
      (\<lambda>r. [enc8 (bLength r), enc8 (bDescriptorType r), enc8 (bMaxBurst_wireless r),
          enc8 (bMaxSequence r), enc16 (wMaxStreamDelay r), enc16 (wOverTheAirPacketSize r),
          enc8 (bOverTheAirInterval r), enc8 (bmCompAttributes r)]) \<and>
   laid_out handshake_sizeof decode_handshake [1, 1, 3, 1, 16, 16, 8]
      (\<lambda>r. [enc8 (bMessageNumber r), enc8 (bStatus r), tTKID_handshake r,
          enc8 (bReserved_handshake r), CDID_handshake r, nonce r, MIC r]) \<and>
   laid_out connection_context_sizeof decode_connection_context [16, 16, 16]
      (\<lambda>r. [CHID r, CDID r, CK r])"
  by (intro conjI descriptor_header_laid_out device_descriptor_laid_out config_descriptor_laid_out
    interface_descriptor_laid_out endpoint_descriptor_laid_out bos_descriptor_laid_out
    dfu_descriptor_laid_out ctrlrequest_laid_out string_laid_out ss_ep_comp_laid_out
    qualifier_laid_out otg_laid_out debug_laid_out interface_assoc_laid_out security_laid_out
    key_laid_out encryption_laid_out dev_cap_laid_out wireless_cap_laid_out ext_cap_laid_out
    ss_cap_laid_out container_id_laid_out wireless_ep_comp_laid_out handshake_laid_out
    connection_context_laid_out)

end
