(* ===== verification/Wire_Formats.thy ===== *)
theory Wire_Formats
  imports Structure_Layout Input_File USBMUX_Expert
begin

text \<open>
  The structures of \<open>ext/pcapng.h\<close> and \<open>ext/usbmux.h\<close>, those the readers copy out of a capture and those
  the headers declare beside them, as layouts; and the codes of the usbmux protocol and of the usbmuxd
  client protocol.
\<close>

section \<open>Containers\<close>

definition encode_block :: "block_t \<Rightarrow> byte list" where
  "encode_block r = enc32 (block_type r) @ enc32 (block_length r)"

interpretation block_layout:
  layout block_size encode_block decode_block "\<lambda>_. True"
  by unfold_locales (auto simp: block_size_def decode_block_def encode_block_def
    layout_simps simp del: One_nat_def intro!: block_t.equality)

definition encode_shb :: "pcapng_shb_t \<Rightarrow> byte list" where
  "encode_shb r = enc32 (byte_order_magic r) @ enc16 (major_version r) @ enc16 (minor_version r) @
     enc64 (section_length r)"

interpretation shb_layout:
  layout shb_size encode_shb decode_shb "\<lambda>_. True"
  by unfold_locales (auto simp: shb_size_def decode_shb_def encode_shb_def
    layout_simps simp del: One_nat_def intro!: pcapng_shb_t.equality)

definition encode_epb :: "pcapng_epb_t \<Rightarrow> byte list" where
  "encode_epb r = enc32 (interface_id r) @ enc32 (timestamp_high r) @ enc32 (timestamp_low r) @
     enc32 (captured_len r) @ enc32 (epb_packet_len r)"

interpretation epb_layout:
  layout epb_size encode_epb decode_epb "\<lambda>_. True"
  by unfold_locales (auto simp: epb_size_def decode_epb_def encode_epb_def
    layout_simps simp del: One_nat_def intro!: pcapng_epb_t.equality)

definition encode_spb :: "pcapng_spb_t \<Rightarrow> byte list" where
  "encode_spb r = enc32 (packet_len r)"

interpretation spb_layout:
  layout spb_size encode_spb decode_spb "\<lambda>_. True"
  by unfold_locales (auto simp: spb_size_def decode_spb_def encode_spb_def
    layout_simps simp del: One_nat_def intro!: pcapng_spb_t.equality)

definition encode_idb :: "pcap_interface_descriptor_t \<Rightarrow> byte list" where
  "encode_idb r = enc16 (idb_linktype r) @ enc16 (idb_reserved r) @ enc32 (idb_snaplen r)"

interpretation idb_layout:
  layout idb_size encode_idb decode_idb "\<lambda>_. True"
  by unfold_locales (auto simp: idb_size_def decode_idb_def encode_idb_def
    layout_simps simp del: One_nat_def intro!: pcap_interface_descriptor_t.equality)

definition encode_pcap_header :: "pcap_file_header_t \<Rightarrow> byte list" where
  "encode_pcap_header r = enc32 (pcap_magic r) @ enc16 (version_major r) @ enc16 (version_minor r) @
     enc32 (thiszone r) @ enc32 (sigfigs r) @ enc32 (pcap_snaplen r) @ enc32 (pcap_linktype r)"

interpretation pcap_header_layout:
  layout pcap_header_size encode_pcap_header decode_pcap_header "\<lambda>_. True"
  by unfold_locales (auto simp: pcap_header_size_def decode_pcap_header_def encode_pcap_header_def
    layout_simps simp del: One_nat_def intro!: pcap_file_header_t.equality)

definition encode_pcap_record :: "pcap_record_header_t \<Rightarrow> byte list" where
  "encode_pcap_record r = enc32 (ts_sec r) @ enc32 (ts_usec r) @ enc32 (incl_len r) @ enc32 (orig_len r)"

interpretation pcap_record_layout:
  layout pcap_record_size encode_pcap_record decode_pcap_record "\<lambda>_. True"
  by unfold_locales (auto simp: pcap_record_size_def decode_pcap_record_def encode_pcap_record_def
    layout_simps simp del: One_nat_def intro!: pcap_record_header_t.equality)

section \<open>Captured packets\<close>

interpretation setup_layout:
  layout setup_size encode_setup decode_setup "\<lambda>_. True"
  by unfold_locales (auto simp: setup_size_def decode_setup_def encode_setup_def
    layout_simps simp del: One_nat_def intro!: usb_setup_t.equality)

lemmas setup_nested = setup_layout.length_encode [OF TrueI, unfolded setup_size_def]
  setup_layout.decode_encode [OF TrueI] setup_layout.encode_decode [unfolded setup_size_def]

definition encode_darwin_header :: "darwin_usb_header \<Rightarrow> byte list" where
  "encode_darwin_header r = enc16 (darwin_version r) @ enc8 (darwin_headerLength r) @
     enc8 (darwin_type r) @ enc32 (darwin_length r) @ enc32 (darwin_status r) @
     enc32 (darwin_isoFrames r) @ enc64 (darwin_uniqueId r) @ enc32 (darwin_locationId r) @
     enc8 (darwin_speed r) @ enc8 (darwin_deviceId r) @ enc8 (darwin_endpointId r) @
     enc8 (darwin_endpointType r)"

interpretation darwin_header_layout:
  layout darwin_header_size encode_darwin_header decode_darwin_header "\<lambda>_. True"
  by unfold_locales (auto simp: darwin_header_size_def decode_darwin_header_def encode_darwin_header_def
    layout_simps simp del: One_nat_def intro!: darwin_usb_header.equality)

record darwin_usb_header_1_1 = darwin_usb_header +
  darwin_usbClass :: u8
  darwin_usbSubclass :: u8
  darwin_usbInterface :: u8
  darwin_usbInterfaceAlternate :: u8
  darwin_usbVendorId :: u16
  darwin_usbProductId :: u16

definition darwin_header_1_1_sizeof :: nat where "darwin_header_1_1_sizeof = 40"

definition decode_darwin_header_1_1 :: "byte list \<Rightarrow> darwin_usb_header_1_1" where
  "decode_darwin_header_1_1 bs = \<lparr>darwin_version = field16 0 bs,
     darwin_headerLength = field8 2 bs, darwin_type = field8 3 bs, darwin_length = field32 4 bs,
     darwin_status = field32 8 bs, darwin_isoFrames = field32 12 bs, darwin_uniqueId = field64 16 bs,
     darwin_locationId = field32 24 bs, darwin_speed = field8 28 bs, darwin_deviceId = field8 29 bs,
     darwin_endpointId = field8 30 bs, darwin_endpointType = field8 31 bs,
     darwin_usbClass = field8 32 bs, darwin_usbSubclass = field8 33 bs,
     darwin_usbInterface = field8 34 bs, darwin_usbInterfaceAlternate = field8 35 bs,
     darwin_usbVendorId = field16 36 bs, darwin_usbProductId = field16 38 bs\<rparr>"

definition encode_darwin_header_1_1 :: "darwin_usb_header_1_1 \<Rightarrow> byte list" where
  "encode_darwin_header_1_1 r = enc16 (darwin_version r) @ enc8 (darwin_headerLength r) @
     enc8 (darwin_type r) @ enc32 (darwin_length r) @ enc32 (darwin_status r) @
     enc32 (darwin_isoFrames r) @ enc64 (darwin_uniqueId r) @ enc32 (darwin_locationId r) @
     enc8 (darwin_speed r) @ enc8 (darwin_deviceId r) @ enc8 (darwin_endpointId r) @
     enc8 (darwin_endpointType r) @ enc8 (darwin_usbClass r) @ enc8 (darwin_usbSubclass r) @
     enc8 (darwin_usbInterface r) @ enc8 (darwin_usbInterfaceAlternate r) @
     enc16 (darwin_usbVendorId r) @ enc16 (darwin_usbProductId r)"

interpretation darwin_header_1_1_layout:
  layout darwin_header_1_1_sizeof encode_darwin_header_1_1 decode_darwin_header_1_1 "\<lambda>_. True"
  by unfold_locales (auto simp: darwin_header_1_1_sizeof_def decode_darwin_header_1_1_def encode_darwin_header_1_1_def
    layout_simps simp del: One_nat_def intro!: darwin_usb_header_1_1.equality)

definition encode_usbmon :: "usbmon_header \<Rightarrow> byte list" where
  "encode_usbmon r = enc64 (mon_id r) @ enc8 (event_type r) @ enc8 (transfer_type r) @
     enc8 (endpoint_number r) @ enc8 (device_address r) @ enc16 (bus_id r) @ enc8 (setup_flag r) @
     enc8 (data_flag r) @ enc64 (mon_ts_sec r) @ enc32 (mon_ts_usec r) @ enc32 (mon_status r) @
     enc32 (urb_len r) @ enc32 (data_len r) @ encode_setup (mon_setup r)"

interpretation usbmon_layout:
  layout usbmon_header_size encode_usbmon decode_usbmon_header "\<lambda>_. True"
  by unfold_locales (auto simp: usbmon_header_size_def decode_usbmon_header_def encode_usbmon_def setup_nested
    layout_simps simp del: One_nat_def intro!: usbmon_header.equality)

lemmas usbmon_nested = usbmon_layout.length_encode [OF TrueI, unfolded usbmon_header_size_def]
  usbmon_layout.decode_encode [OF TrueI] usbmon_layout.encode_decode [unfolded usbmon_header_size_def]

record usbmon_mmapped_header =
  mmapped_header :: usbmon_header
  mmapped_interval :: u32
  mmapped_start_frame :: u32
  mmapped_xfer_flags :: u32
  mmapped_ndesc :: u32

definition decode_usbmon_mmapped :: "byte list \<Rightarrow> usbmon_mmapped_header" where
  "decode_usbmon_mmapped bs = \<lparr>mmapped_header = decode_usbmon_header (take 48 bs),
     mmapped_interval = field32 48 bs, mmapped_start_frame = field32 52 bs,
     mmapped_xfer_flags = field32 56 bs, mmapped_ndesc = field32 60 bs\<rparr>"

definition encode_usbmon_mmapped :: "usbmon_mmapped_header \<Rightarrow> byte list" where
  "encode_usbmon_mmapped r = encode_usbmon (mmapped_header r) @ enc32 (mmapped_interval r) @
     enc32 (mmapped_start_frame r) @ enc32 (mmapped_xfer_flags r) @ enc32 (mmapped_ndesc r)"

interpretation usbmon_mmapped_layout:
  layout usbmon_mmapped_header_size encode_usbmon_mmapped decode_usbmon_mmapped "\<lambda>_. True"
  by unfold_locales (auto simp: usbmon_mmapped_header_size_def decode_usbmon_mmapped_def encode_usbmon_mmapped_def usbmon_nested
    layout_simps simp del: One_nat_def intro!: usbmon_mmapped_header.equality)

definition encode_usbpcap :: "usbpcap_packet_header \<Rightarrow> byte list" where
  "encode_usbpcap r = enc16 (headerLen r) @ enc64 (irpId r) @ enc32 (pcap_status r) @
     enc16 (pcap_function r) @ enc8 (pcap_info r) @ enc16 (pcap_bus r) @ enc16 (pcap_device r) @
     enc8 (pcap_endpoint r) @ enc8 (pcap_transfer r) @ enc32 (dataLength r)"

interpretation usbpcap_layout:
  layout usbpcap_header_size encode_usbpcap decode_usbpcap_header "\<lambda>_. True"
  by unfold_locales (auto simp: usbpcap_header_size_def decode_usbpcap_header_def encode_usbpcap_def
    layout_simps simp del: One_nat_def intro!: usbpcap_packet_header.equality)

lemmas usbpcap_nested = usbpcap_layout.length_encode [OF TrueI, unfolded usbpcap_header_size_def]
  usbpcap_layout.decode_encode [OF TrueI] usbpcap_layout.encode_decode [unfolded usbpcap_header_size_def]

definition encode_usbpcap_control :: "usbpcap_control_header \<Rightarrow> byte list" where
  "encode_usbpcap_control r = encode_usbpcap (control_header r) @ enc8 (control_stage r)"

interpretation usbpcap_control_layout:
  layout usbpcap_control_header_size encode_usbpcap_control decode_usbpcap_control_header "\<lambda>_. True"
  by unfold_locales (auto simp: usbpcap_control_header_size_def decode_usbpcap_control_header_def encode_usbpcap_control_def usbpcap_nested
    layout_simps simp del: One_nat_def intro!: usbpcap_control_header.equality)

section \<open>usbmux\<close>

record mux_header =
  mux_protocol_field :: u32
  mux_length_field :: u32
  mux_magic_field :: u32
  mux_tx_seq :: u16
  mux_rx_seq :: u16

definition decode_mux_header :: "byte list \<Rightarrow> mux_header" where
  "decode_mux_header bs = \<lparr>mux_protocol_field = field32 0 bs, mux_length_field = field32 4 bs,
     mux_magic_field = field32 8 bs, mux_tx_seq = field16 12 bs, mux_rx_seq = field16 14 bs\<rparr>"

definition encode_mux_header :: "mux_header \<Rightarrow> byte list" where
  "encode_mux_header r = enc32 (mux_protocol_field r) @ enc32 (mux_length_field r) @
     enc32 (mux_magic_field r) @ enc16 (mux_tx_seq r) @ enc16 (mux_rx_seq r)"

interpretation mux_header_layout:
  layout mux_header_size encode_mux_header decode_mux_header "\<lambda>_. True"
  by unfold_locales (auto simp: mux_header_size_def decode_mux_header_def encode_mux_header_def
    layout_simps simp del: One_nat_def intro!: mux_header.equality)

record version_header =
  version_major_field :: u32
  version_minor_field :: u32
  version_padding :: u32

definition version_header_sizeof :: nat where "version_header_sizeof = 12"

definition decode_version_header :: "byte list \<Rightarrow> version_header" where
  "decode_version_header bs = \<lparr>version_major_field = field32 0 bs,
     version_minor_field = field32 4 bs, version_padding = field32 8 bs\<rparr>"

definition encode_version_header :: "version_header \<Rightarrow> byte list" where
  "encode_version_header r = enc32 (version_major_field r) @ enc32 (version_minor_field r) @
     enc32 (version_padding r)"

interpretation version_header_layout:
  layout version_header_sizeof encode_version_header decode_version_header "\<lambda>_. True"
  by unfold_locales (auto simp: version_header_sizeof_def decode_version_header_def encode_version_header_def
    layout_simps simp del: One_nat_def intro!: version_header.equality)

definition encode_tcphdr :: "tcphdr \<Rightarrow> byte list" where
  "encode_tcphdr r = enc16 (tcp_source r) @ enc16 (tcp_dest r) @ enc32 (tcp_seq r) @
     enc32 (tcp_ack_seq r) @ enc16 (tcp_flags r) @ enc16 (tcp_window r) @ enc16 (tcp_check r) @
     enc16 (tcp_urg_ptr r)"

interpretation tcphdr_layout:
  layout tcphdr_size encode_tcphdr decode_tcphdr "\<lambda>_. True"
  by unfold_locales (auto simp: tcphdr_size_def decode_tcphdr_def encode_tcphdr_def
    layout_simps simp del: One_nat_def intro!: tcphdr.equality)

record usbmuxd_header =
  daemon_length :: u32
  daemon_version :: u32
  daemon_message :: u32
  daemon_tag :: u32

definition usbmuxd_header_sizeof :: nat where "usbmuxd_header_sizeof = 16"

definition decode_usbmuxd_header :: "byte list \<Rightarrow> usbmuxd_header" where
  "decode_usbmuxd_header bs = \<lparr>daemon_length = field32 0 bs, daemon_version = field32 4 bs,
     daemon_message = field32 8 bs, daemon_tag = field32 12 bs\<rparr>"

definition encode_usbmuxd_header :: "usbmuxd_header \<Rightarrow> byte list" where
  "encode_usbmuxd_header r = enc32 (daemon_length r) @ enc32 (daemon_version r) @
     enc32 (daemon_message r) @ enc32 (daemon_tag r)"

interpretation usbmuxd_header_layout:
  layout usbmuxd_header_sizeof encode_usbmuxd_header decode_usbmuxd_header "\<lambda>_. True"
  by unfold_locales (auto simp: usbmuxd_header_sizeof_def decode_usbmuxd_header_def encode_usbmuxd_header_def
    layout_simps simp del: One_nat_def intro!: usbmuxd_header.equality)

lemmas usbmuxd_header_nested = usbmuxd_header_layout.length_encode [OF TrueI, unfolded usbmuxd_header_sizeof_def]
  usbmuxd_header_layout.decode_encode [OF TrueI] usbmuxd_header_layout.encode_decode [unfolded usbmuxd_header_sizeof_def]

record usbmuxd_result_msg =
  result_header :: usbmuxd_header
  result_code :: u32

definition usbmuxd_result_msg_sizeof :: nat where "usbmuxd_result_msg_sizeof = 20"

definition decode_usbmuxd_result_msg :: "byte list \<Rightarrow> usbmuxd_result_msg" where
  "decode_usbmuxd_result_msg bs = \<lparr>result_header = decode_usbmuxd_header (take 16 bs),
     result_code = field32 16 bs\<rparr>"

definition encode_usbmuxd_result_msg :: "usbmuxd_result_msg \<Rightarrow> byte list" where
  "encode_usbmuxd_result_msg r = encode_usbmuxd_header (result_header r) @ enc32 (result_code r)"

interpretation usbmuxd_result_msg_layout:
  layout usbmuxd_result_msg_sizeof encode_usbmuxd_result_msg decode_usbmuxd_result_msg "\<lambda>_. True"
  by unfold_locales (auto simp: usbmuxd_result_msg_sizeof_def decode_usbmuxd_result_msg_def encode_usbmuxd_result_msg_def usbmuxd_header_nested
    layout_simps simp del: One_nat_def intro!: usbmuxd_result_msg.equality)

record usbmuxd_connect_request =
  connect_header :: usbmuxd_header
  connect_device_id :: u32
  connect_port :: u16
  connect_reserved :: u16

definition usbmuxd_connect_request_sizeof :: nat where "usbmuxd_connect_request_sizeof = 24"

definition decode_usbmuxd_connect_request :: "byte list \<Rightarrow> usbmuxd_connect_request" where
  "decode_usbmuxd_connect_request bs = \<lparr>connect_header = decode_usbmuxd_header (take 16 bs),
     connect_device_id = field32 16 bs, connect_port = field16 20 bs, connect_reserved = field16 22 bs\<rparr>"

definition encode_usbmuxd_connect_request :: "usbmuxd_connect_request \<Rightarrow> byte list" where
  "encode_usbmuxd_connect_request r = encode_usbmuxd_header (connect_header r) @
     enc32 (connect_device_id r) @ enc16 (connect_port r) @ enc16 (connect_reserved r)"

interpretation usbmuxd_connect_request_layout:
  layout usbmuxd_connect_request_sizeof encode_usbmuxd_connect_request decode_usbmuxd_connect_request "\<lambda>_. True"
  by unfold_locales (auto simp: usbmuxd_connect_request_sizeof_def decode_usbmuxd_connect_request_def encode_usbmuxd_connect_request_def usbmuxd_header_nested
    layout_simps simp del: One_nat_def intro!: usbmuxd_connect_request.equality)

record usbmuxd_listen_request =
  listen_header :: usbmuxd_header

definition usbmuxd_listen_request_sizeof :: nat where "usbmuxd_listen_request_sizeof = 16"

definition decode_usbmuxd_listen_request :: "byte list \<Rightarrow> usbmuxd_listen_request" where
  "decode_usbmuxd_listen_request bs = \<lparr>listen_header = decode_usbmuxd_header (take 16 bs)\<rparr>"

definition encode_usbmuxd_listen_request :: "usbmuxd_listen_request \<Rightarrow> byte list" where
  "encode_usbmuxd_listen_request r = encode_usbmuxd_header (listen_header r)"

interpretation usbmuxd_listen_request_layout:
  layout usbmuxd_listen_request_sizeof encode_usbmuxd_listen_request decode_usbmuxd_listen_request "\<lambda>_. True"
  by unfold_locales (auto simp: usbmuxd_listen_request_sizeof_def decode_usbmuxd_listen_request_def encode_usbmuxd_listen_request_def usbmuxd_header_nested
    layout_simps simp del: One_nat_def intro!: usbmuxd_listen_request.equality)

record usbmuxd_device_record =
  record_device_id :: u32
  record_product_id :: u16
  record_serial_number :: "byte list"
  record_padding :: u16
  record_location :: u32

definition usbmuxd_device_record_sizeof :: nat where "usbmuxd_device_record_sizeof = 268"

definition decode_usbmuxd_device_record :: "byte list \<Rightarrow> usbmuxd_device_record" where
  "decode_usbmuxd_device_record bs = \<lparr>record_device_id = field32 0 bs,
     record_product_id = field16 4 bs, record_serial_number = bytes_at 6 256 bs,
     record_padding = field16 262 bs, record_location = field32 264 bs\<rparr>"

definition encode_usbmuxd_device_record :: "usbmuxd_device_record \<Rightarrow> byte list" where
  "encode_usbmuxd_device_record r = enc32 (record_device_id r) @ enc16 (record_product_id r) @
     record_serial_number r @ enc16 (record_padding r) @ enc32 (record_location r)"

definition valid_usbmuxd_device_record :: "usbmuxd_device_record \<Rightarrow> bool" where
  "valid_usbmuxd_device_record r \<longleftrightarrow> length (record_serial_number r) = 256"

interpretation usbmuxd_device_record_layout:
  layout usbmuxd_device_record_sizeof encode_usbmuxd_device_record decode_usbmuxd_device_record "valid_usbmuxd_device_record"
  by unfold_locales (auto simp: usbmuxd_device_record_sizeof_def decode_usbmuxd_device_record_def encode_usbmuxd_device_record_def valid_usbmuxd_device_record_def
    layout_simps simp del: One_nat_def intro!: usbmuxd_device_record.equality)

section \<open>Codes\<close>

datatype mux_protocol = MUX_PROTO_VERSION_code | MUX_PROTO_CONTROL | MUX_PROTO_SETUP | MUX_PROTO_TCP_code

primrec mux_protocol_value :: "mux_protocol \<Rightarrow> u32" where
  "mux_protocol_value MUX_PROTO_VERSION_code = 0"
| "mux_protocol_value MUX_PROTO_CONTROL = 1"
| "mux_protocol_value MUX_PROTO_SETUP = 2"
| "mux_protocol_value MUX_PROTO_TCP_code = 6"

datatype mux_dev_state = MUXDEV_INIT | MUXDEV_ACTIVE | MUXDEV_DEAD

datatype mux_conn_state = CONN_CONNECTING | CONN_CONNECTED | CONN_REFUSED | CONN_DYING | CONN_DEAD

datatype usbmuxd_result = RESULT_OK | RESULT_BADCOMMAND | RESULT_BADDEV | RESULT_CONNREFUSED | RESULT_BADVERSION

primrec usbmuxd_result_value :: "usbmuxd_result \<Rightarrow> u32" where
  "usbmuxd_result_value RESULT_OK = 0"
| "usbmuxd_result_value RESULT_BADCOMMAND = 1"
| "usbmuxd_result_value RESULT_BADDEV = 2"
| "usbmuxd_result_value RESULT_CONNREFUSED = 3"
| "usbmuxd_result_value RESULT_BADVERSION = 6"

datatype usbmuxd_msgtype = MESSAGE_RESULT | MESSAGE_CONNECT | MESSAGE_LISTEN | MESSAGE_DEVICE_ADD |
  MESSAGE_DEVICE_REMOVE | MESSAGE_DEVICE_PAIRED | MESSAGE_PLIST

primrec usbmuxd_msgtype_value :: "usbmuxd_msgtype \<Rightarrow> u32" where
  "usbmuxd_msgtype_value MESSAGE_RESULT = 1"
| "usbmuxd_msgtype_value MESSAGE_CONNECT = 2"
| "usbmuxd_msgtype_value MESSAGE_LISTEN = 3"
| "usbmuxd_msgtype_value MESSAGE_DEVICE_ADD = 4"
| "usbmuxd_msgtype_value MESSAGE_DEVICE_REMOVE = 5"
| "usbmuxd_msgtype_value MESSAGE_DEVICE_PAIRED = 6"
| "usbmuxd_msgtype_value MESSAGE_PLIST = 8"

lemma mux_protocol_values:
  "mux_protocol_value MUX_PROTO_VERSION_code = MUX_PROTO_VERSION"
  "mux_protocol_value MUX_PROTO_TCP_code = MUX_PROTO_TCP"
  by simp_all

text \<open>
  The protocols a packet is accepted with are bounded by the largest code, and the codes tell messages
  apart.
\<close>

lemma mux_protocol_bound: "mux_protocol_value p \<le> MUX_PROTO_TCP"
  by (cases p) simp_all

lemma codes_injective: "inj mux_protocol_value" "inj usbmuxd_result_value" "inj usbmuxd_msgtype_value"
proof -
  show "inj mux_protocol_value" by (rule injI) (case_tac x; case_tac y; simp)
  show "inj usbmuxd_result_value" by (rule injI) (case_tac x; case_tac y; simp)
  show "inj usbmuxd_msgtype_value" by (rule injI) (case_tac x; case_tac y; simp)
qed

text \<open>The static assertions at the end of \<open>ext/pcapng.h\<close>.\<close>

lemma asserted_sizes:
  "darwin_header_size = 32" "usbmon_header_size = 48" "usbmon_mmapped_header_size = 64"
  "usbpcap_header_size = 27"
  by (simp_all add: packet_sizes)

section \<open>The layouts, member by member\<close>

lemma block_laid_out: "laid_out block_size decode_block [4, 4]
    (\<lambda>r. [enc32 (block_type r), enc32 (block_length r)])"
  by (rule laid_outI) (simp_all add: decode_block_def block_size_def member_simps del: One_nat_def)

lemma shb_laid_out: "laid_out shb_size decode_shb [4, 2, 2, 8]
    (\<lambda>r. [enc32 (byte_order_magic r), enc16 (major_version r),
        enc16 (minor_version r), enc64 (section_length r)])"
  by (rule laid_outI) (simp_all add: decode_shb_def shb_size_def member_simps del: One_nat_def)

lemma epb_laid_out: "laid_out epb_size decode_epb [4, 4, 4, 4, 4]
    (\<lambda>r. [enc32 (interface_id r), enc32 (timestamp_high r), enc32 (timestamp_low r),
        enc32 (captured_len r), enc32 (epb_packet_len r)])"
  by (rule laid_outI) (simp_all add: decode_epb_def epb_size_def member_simps del: One_nat_def)

lemma spb_laid_out: "laid_out spb_size decode_spb [4]
    (\<lambda>r. [enc32 (packet_len r)])"
  by (rule laid_outI) (simp_all add: decode_spb_def spb_size_def member_simps del: One_nat_def)

lemma idb_laid_out: "laid_out idb_size decode_idb [2, 2, 4]
    (\<lambda>r. [enc16 (idb_linktype r), enc16 (idb_reserved r), enc32 (idb_snaplen r)])"
  by (rule laid_outI) (simp_all add: decode_idb_def idb_size_def member_simps del: One_nat_def)

lemma pcap_header_laid_out: "laid_out pcap_header_size decode_pcap_header [4, 2, 2, 4, 4, 4, 4]
    (\<lambda>r. [enc32 (pcap_magic r), enc16 (version_major r), enc16 (version_minor r),
        enc32 (thiszone r), enc32 (sigfigs r), enc32 (pcap_snaplen r),
        enc32 (pcap_linktype r)])"
  by (rule laid_outI) (simp_all add: decode_pcap_header_def pcap_header_size_def member_simps del: One_nat_def)

lemma pcap_record_laid_out: "laid_out pcap_record_size decode_pcap_record [4, 4, 4, 4]
    (\<lambda>r. [enc32 (ts_sec r), enc32 (ts_usec r), enc32 (incl_len r),
        enc32 (orig_len r)])"
  by (rule laid_outI) (simp_all add: decode_pcap_record_def pcap_record_size_def member_simps del: One_nat_def)

lemma setup_laid_out: "laid_out setup_size decode_setup [1, 1, 2, 2, 2]
    (\<lambda>r. [enc8 (bmRequestType r), enc8 (bRequest r), enc16 (wValue r),
        enc16 (wIndex r), enc16 (wLength r)])"
  by (rule laid_outI) (simp_all add: decode_setup_def setup_size_def member_simps del: One_nat_def)

lemma darwin_header_laid_out: "laid_out darwin_header_size decode_darwin_header [2, 1, 1, 4, 4, 4, 8, 4, 1, 1, 1, 1]
    (\<lambda>r. [enc16 (darwin_version r), enc8 (darwin_headerLength r),
        enc8 (darwin_type r), enc32 (darwin_length r), enc32 (darwin_status r),
        enc32 (darwin_isoFrames r), enc64 (darwin_uniqueId r), enc32 (darwin_locationId r),
        enc8 (darwin_speed r), enc8 (darwin_deviceId r), enc8 (darwin_endpointId r),
        enc8 (darwin_endpointType r)])"
  by (rule laid_outI) (simp_all add: decode_darwin_header_def darwin_header_size_def member_simps del: One_nat_def)

lemma darwin_header_1_1_laid_out: "laid_out darwin_header_1_1_sizeof decode_darwin_header_1_1 [2, 1, 1, 4, 4, 4, 8, 4, 1, 1, 1, 1, 1, 1, 1, 1, 2, 2]
    (\<lambda>r. [enc16 (darwin_version r), enc8 (darwin_headerLength r),
        enc8 (darwin_type r), enc32 (darwin_length r), enc32 (darwin_status r),
        enc32 (darwin_isoFrames r), enc64 (darwin_uniqueId r), enc32 (darwin_locationId r),
        enc8 (darwin_speed r), enc8 (darwin_deviceId r), enc8 (darwin_endpointId r),
        enc8 (darwin_endpointType r), enc8 (darwin_usbClass r), enc8 (darwin_usbSubclass r),
        enc8 (darwin_usbInterface r), enc8 (darwin_usbInterfaceAlternate r),
        enc16 (darwin_usbVendorId r), enc16 (darwin_usbProductId r)])"
  by (rule laid_outI) (simp_all add: decode_darwin_header_1_1_def darwin_header_1_1_sizeof_def member_simps del: One_nat_def)

lemma usbmon_header_laid_out: "laid_out usbmon_header_size decode_usbmon_header [8, 1, 1, 1, 1, 2, 1, 1, 8, 4, 4, 4, 4, 1, 1, 2, 2, 2]
    (\<lambda>r. [enc64 (mon_id r), enc8 (event_type r), enc8 (transfer_type r),
        enc8 (endpoint_number r), enc8 (device_address r), enc16 (bus_id r),
        enc8 (setup_flag r), enc8 (data_flag r), enc64 (mon_ts_sec r), enc32 (mon_ts_usec r),
        enc32 (mon_status r), enc32 (urb_len r), enc32 (data_len r),
        enc8 (bmRequestType (mon_setup r)), enc8 (bRequest (mon_setup r)),
        enc16 (wValue (mon_setup r)), enc16 (wIndex (mon_setup r)),
        enc16 (wLength (mon_setup r))])"
  by (rule laid_outI) (simp_all add: decode_usbmon_header_def decode_setup_def usbmon_header_size_def member_simps del: One_nat_def)

lemma usbmon_mmapped_laid_out: "laid_out usbmon_mmapped_header_size decode_usbmon_mmapped [8, 1, 1, 1, 1, 2, 1, 1, 8, 4, 4, 4, 4, 1, 1, 2, 2, 2, 4, 4, 4, 4]
    (\<lambda>r. [enc64 (mon_id (mmapped_header r)), enc8 (event_type (mmapped_header r)),
        enc8 (transfer_type (mmapped_header r)), enc8 (endpoint_number (mmapped_header r)),
        enc8 (device_address (mmapped_header r)), enc16 (bus_id (mmapped_header r)),
        enc8 (setup_flag (mmapped_header r)), enc8 (data_flag (mmapped_header r)),
        enc64 (mon_ts_sec (mmapped_header r)), enc32 (mon_ts_usec (mmapped_header r)),
        enc32 (mon_status (mmapped_header r)), enc32 (urb_len (mmapped_header r)),
        enc32 (data_len (mmapped_header r)),
        enc8 (bmRequestType (mon_setup (mmapped_header r))),
        enc8 (bRequest (mon_setup (mmapped_header r))),
        enc16 (wValue (mon_setup (mmapped_header r))),
        enc16 (wIndex (mon_setup (mmapped_header r))),
        enc16 (wLength (mon_setup (mmapped_header r))), enc32 (mmapped_interval r),
        enc32 (mmapped_start_frame r), enc32 (mmapped_xfer_flags r), enc32 (mmapped_ndesc r)])"
  by (rule laid_outI) (simp_all add: decode_usbmon_mmapped_def decode_usbmon_header_def decode_setup_def usbmon_mmapped_header_size_def member_simps del: One_nat_def)

lemma usbpcap_header_laid_out: "laid_out usbpcap_header_size decode_usbpcap_header [2, 8, 4, 2, 1, 2, 2, 1, 1, 4]
    (\<lambda>r. [enc16 (headerLen r), enc64 (irpId r), enc32 (pcap_status r),
        enc16 (pcap_function r), enc8 (pcap_info r), enc16 (pcap_bus r),
        enc16 (pcap_device r), enc8 (pcap_endpoint r), enc8 (pcap_transfer r),
        enc32 (dataLength r)])"
  by (rule laid_outI) (simp_all add: decode_usbpcap_header_def usbpcap_header_size_def member_simps del: One_nat_def)

lemma usbpcap_control_header_laid_out: "laid_out usbpcap_control_header_size decode_usbpcap_control_header [2, 8, 4, 2, 1, 2, 2, 1, 1, 4, 1]
    (\<lambda>r. [enc16 (headerLen (control_header r)), enc64 (irpId (control_header r)),
        enc32 (pcap_status (control_header r)), enc16 (pcap_function (control_header r)),
        enc8 (pcap_info (control_header r)), enc16 (pcap_bus (control_header r)),
        enc16 (pcap_device (control_header r)), enc8 (pcap_endpoint (control_header r)),
        enc8 (pcap_transfer (control_header r)), enc32 (dataLength (control_header r)),
        enc8 (control_stage r)])"
  by (rule laid_outI) (simp_all add: decode_usbpcap_control_header_def decode_usbpcap_header_def usbpcap_control_header_size_def member_simps del: One_nat_def)

lemma mux_header_laid_out: "laid_out mux_header_size decode_mux_header [4, 4, 4, 2, 2]
    (\<lambda>r. [enc32 (mux_protocol_field r), enc32 (mux_length_field r),
        enc32 (mux_magic_field r), enc16 (mux_tx_seq r), enc16 (mux_rx_seq r)])"
  by (rule laid_outI) (simp_all add: decode_mux_header_def mux_header_size_def member_simps del: One_nat_def)

lemma version_header_laid_out: "laid_out version_header_sizeof decode_version_header [4, 4, 4]
    (\<lambda>r. [enc32 (version_major_field r), enc32 (version_minor_field r),
        enc32 (version_padding r)])"
  by (rule laid_outI) (simp_all add: decode_version_header_def version_header_sizeof_def member_simps del: One_nat_def)

lemma tcphdr_laid_out: "laid_out tcphdr_size decode_tcphdr [2, 2, 4, 4, 2, 2, 2, 2]
    (\<lambda>r. [enc16 (tcp_source r), enc16 (tcp_dest r), enc32 (tcp_seq r),
        enc32 (tcp_ack_seq r), enc16 (tcp_flags r), enc16 (tcp_window r), enc16 (tcp_check r),
        enc16 (tcp_urg_ptr r)])"
  by (rule laid_outI) (simp_all add: decode_tcphdr_def tcphdr_size_def member_simps del: One_nat_def)

lemma usbmuxd_header_laid_out: "laid_out usbmuxd_header_sizeof decode_usbmuxd_header [4, 4, 4, 4]
    (\<lambda>r. [enc32 (daemon_length r), enc32 (daemon_version r), enc32 (daemon_message r),
        enc32 (daemon_tag r)])"
  by (rule laid_outI) (simp_all add: decode_usbmuxd_header_def usbmuxd_header_sizeof_def member_simps del: One_nat_def)

lemma usbmuxd_result_msg_laid_out: "laid_out usbmuxd_result_msg_sizeof decode_usbmuxd_result_msg [4, 4, 4, 4, 4]
    (\<lambda>r. [enc32 (daemon_length (result_header r)),
        enc32 (daemon_version (result_header r)), enc32 (daemon_message (result_header r)),
        enc32 (daemon_tag (result_header r)), enc32 (result_code r)])"
  by (rule laid_outI) (simp_all add: decode_usbmuxd_result_msg_def decode_usbmuxd_header_def usbmuxd_result_msg_sizeof_def member_simps del: One_nat_def)

lemma usbmuxd_connect_request_laid_out: "laid_out usbmuxd_connect_request_sizeof decode_usbmuxd_connect_request [4, 4, 4, 4, 4, 2, 2]
    (\<lambda>r. [enc32 (daemon_length (connect_header r)),
        enc32 (daemon_version (connect_header r)), enc32 (daemon_message (connect_header r)),
        enc32 (daemon_tag (connect_header r)), enc32 (connect_device_id r),
        enc16 (connect_port r), enc16 (connect_reserved r)])"
  by (rule laid_outI) (simp_all add: decode_usbmuxd_connect_request_def decode_usbmuxd_header_def usbmuxd_connect_request_sizeof_def member_simps del: One_nat_def)

lemma usbmuxd_listen_request_laid_out: "laid_out usbmuxd_listen_request_sizeof decode_usbmuxd_listen_request [4, 4, 4, 4]
    (\<lambda>r. [enc32 (daemon_length (listen_header r)),
        enc32 (daemon_version (listen_header r)), enc32 (daemon_message (listen_header r)),
        enc32 (daemon_tag (listen_header r))])"
  by (rule laid_outI) (simp_all add: decode_usbmuxd_listen_request_def decode_usbmuxd_header_def usbmuxd_listen_request_sizeof_def member_simps del: One_nat_def)

lemma usbmuxd_device_record_laid_out: "laid_out usbmuxd_device_record_sizeof decode_usbmuxd_device_record [4, 2, 256, 2, 4]
    (\<lambda>r. [enc32 (record_device_id r), enc16 (record_product_id r),
        record_serial_number r, enc16 (record_padding r), enc32 (record_location r)])"
  by (rule laid_outI) (simp_all add: decode_usbmuxd_device_record_def usbmuxd_device_record_sizeof_def member_simps del: One_nat_def)

section \<open>Property\<close>

text \<open>
  C35: The layout of every structure of the capture formats and of the two mux protocols
  (\<open>ext/pcapng.h\<close> and \<open>ext/usbmux.h\<close>) is that of its declaration: \<open>readStruct\<close> fails exactly when
  there are fewer bytes than the \<open>sizeof\<close>, and otherwise the bytes of the members, listed in the order
  and with the widths of the C declaration (nested structures in place), are the successive pieces of
  memory, without gap or overlap, little endian; together they make up the \<open>sizeof\<close>.
\<close>

theorem wire_structures:
  "laid_out block_size decode_block [4, 4]
      (\<lambda>r. [enc32 (block_type r), enc32 (block_length r)]) \<and>
   laid_out shb_size decode_shb [4, 2, 2, 8]
      (\<lambda>r. [enc32 (byte_order_magic r), enc16 (major_version r),
          enc16 (minor_version r), enc64 (section_length r)]) \<and>
   laid_out epb_size decode_epb [4, 4, 4, 4, 4]
      (\<lambda>r. [enc32 (interface_id r), enc32 (timestamp_high r), enc32 (timestamp_low r),
          enc32 (captured_len r), enc32 (epb_packet_len r)]) \<and>
   laid_out spb_size decode_spb [4]
      (\<lambda>r. [enc32 (packet_len r)]) \<and>
   laid_out idb_size decode_idb [2, 2, 4]
      (\<lambda>r. [enc16 (idb_linktype r), enc16 (idb_reserved r), enc32 (idb_snaplen r)]) \<and>
   laid_out pcap_header_size decode_pcap_header [4, 2, 2, 4, 4, 4, 4]
      (\<lambda>r. [enc32 (pcap_magic r), enc16 (version_major r), enc16 (version_minor r),
          enc32 (thiszone r), enc32 (sigfigs r), enc32 (pcap_snaplen r),
          enc32 (pcap_linktype r)]) \<and>
   laid_out pcap_record_size decode_pcap_record [4, 4, 4, 4]
      (\<lambda>r. [enc32 (ts_sec r), enc32 (ts_usec r), enc32 (incl_len r),
          enc32 (orig_len r)]) \<and>
   laid_out setup_size decode_setup [1, 1, 2, 2, 2]
      (\<lambda>r. [enc8 (bmRequestType r), enc8 (bRequest r), enc16 (wValue r),
          enc16 (wIndex r), enc16 (wLength r)]) \<and>
   laid_out darwin_header_size decode_darwin_header [2, 1, 1, 4, 4, 4, 8, 4, 1, 1, 1, 1]
      (\<lambda>r. [enc16 (darwin_version r), enc8 (darwin_headerLength r),
          enc8 (darwin_type r), enc32 (darwin_length r), enc32 (darwin_status r),
          enc32 (darwin_isoFrames r), enc64 (darwin_uniqueId r), enc32 (darwin_locationId r),
          enc8 (darwin_speed r), enc8 (darwin_deviceId r), enc8 (darwin_endpointId r),
          enc8 (darwin_endpointType r)]) \<and>
   laid_out darwin_header_1_1_sizeof decode_darwin_header_1_1 [2, 1, 1, 4, 4, 4, 8, 4, 1, 1, 1, 1, 1, 1, 1, 1, 2, 2]
      (\<lambda>r. [enc16 (darwin_version r), enc8 (darwin_headerLength r),
          enc8 (darwin_type r), enc32 (darwin_length r), enc32 (darwin_status r),
          enc32 (darwin_isoFrames r), enc64 (darwin_uniqueId r), enc32 (darwin_locationId r),
          enc8 (darwin_speed r), enc8 (darwin_deviceId r), enc8 (darwin_endpointId r),
          enc8 (darwin_endpointType r), enc8 (darwin_usbClass r), enc8 (darwin_usbSubclass r),
          enc8 (darwin_usbInterface r), enc8 (darwin_usbInterfaceAlternate r),
          enc16 (darwin_usbVendorId r), enc16 (darwin_usbProductId r)]) \<and>
   laid_out usbmon_header_size decode_usbmon_header [8, 1, 1, 1, 1, 2, 1, 1, 8, 4, 4, 4, 4, 1, 1, 2, 2, 2]
      (\<lambda>r. [enc64 (mon_id r), enc8 (event_type r), enc8 (transfer_type r),
          enc8 (endpoint_number r), enc8 (device_address r), enc16 (bus_id r),
          enc8 (setup_flag r), enc8 (data_flag r), enc64 (mon_ts_sec r),
          enc32 (mon_ts_usec r), enc32 (mon_status r), enc32 (urb_len r), enc32 (data_len r),
          enc8 (bmRequestType (mon_setup r)), enc8 (bRequest (mon_setup r)),
          enc16 (wValue (mon_setup r)), enc16 (wIndex (mon_setup r)),
          enc16 (wLength (mon_setup r))]) \<and>
   laid_out usbmon_mmapped_header_size decode_usbmon_mmapped [8, 1, 1, 1, 1, 2, 1, 1, 8, 4, 4, 4, 4, 1, 1, 2, 2, 2, 4, 4, 4, 4]
      (\<lambda>r. [enc64 (mon_id (mmapped_header r)), enc8 (event_type (mmapped_header r)),
          enc8 (transfer_type (mmapped_header r)), enc8 (endpoint_number (mmapped_header r)),
          enc8 (device_address (mmapped_header r)), enc16 (bus_id (mmapped_header r)),
          enc8 (setup_flag (mmapped_header r)), enc8 (data_flag (mmapped_header r)),
          enc64 (mon_ts_sec (mmapped_header r)), enc32 (mon_ts_usec (mmapped_header r)),
          enc32 (mon_status (mmapped_header r)), enc32 (urb_len (mmapped_header r)),
          enc32 (data_len (mmapped_header r)),
          enc8 (bmRequestType (mon_setup (mmapped_header r))),
          enc8 (bRequest (mon_setup (mmapped_header r))),
          enc16 (wValue (mon_setup (mmapped_header r))),
          enc16 (wIndex (mon_setup (mmapped_header r))),
          enc16 (wLength (mon_setup (mmapped_header r))), enc32 (mmapped_interval r),
          enc32 (mmapped_start_frame r), enc32 (mmapped_xfer_flags r),
          enc32 (mmapped_ndesc r)]) \<and>
   laid_out usbpcap_header_size decode_usbpcap_header [2, 8, 4, 2, 1, 2, 2, 1, 1, 4]
      (\<lambda>r. [enc16 (headerLen r), enc64 (irpId r), enc32 (pcap_status r),
          enc16 (pcap_function r), enc8 (pcap_info r), enc16 (pcap_bus r),
          enc16 (pcap_device r), enc8 (pcap_endpoint r), enc8 (pcap_transfer r),
          enc32 (dataLength r)]) \<and>
   laid_out usbpcap_control_header_size decode_usbpcap_control_header [2, 8, 4, 2, 1, 2, 2, 1, 1, 4, 1]
      (\<lambda>r. [enc16 (headerLen (control_header r)), enc64 (irpId (control_header r)),
          enc32 (pcap_status (control_header r)), enc16 (pcap_function (control_header r)),
          enc8 (pcap_info (control_header r)), enc16 (pcap_bus (control_header r)),
          enc16 (pcap_device (control_header r)), enc8 (pcap_endpoint (control_header r)),
          enc8 (pcap_transfer (control_header r)), enc32 (dataLength (control_header r)),
          enc8 (control_stage r)]) \<and>
   laid_out mux_header_size decode_mux_header [4, 4, 4, 2, 2]
      (\<lambda>r. [enc32 (mux_protocol_field r), enc32 (mux_length_field r),
          enc32 (mux_magic_field r), enc16 (mux_tx_seq r), enc16 (mux_rx_seq r)]) \<and>
   laid_out version_header_sizeof decode_version_header [4, 4, 4]
      (\<lambda>r. [enc32 (version_major_field r), enc32 (version_minor_field r),
          enc32 (version_padding r)]) \<and>
   laid_out tcphdr_size decode_tcphdr [2, 2, 4, 4, 2, 2, 2, 2]
      (\<lambda>r. [enc16 (tcp_source r), enc16 (tcp_dest r), enc32 (tcp_seq r),
          enc32 (tcp_ack_seq r), enc16 (tcp_flags r), enc16 (tcp_window r),
          enc16 (tcp_check r), enc16 (tcp_urg_ptr r)]) \<and>
   laid_out usbmuxd_header_sizeof decode_usbmuxd_header [4, 4, 4, 4]
      (\<lambda>r. [enc32 (daemon_length r), enc32 (daemon_version r),
          enc32 (daemon_message r), enc32 (daemon_tag r)]) \<and>
   laid_out usbmuxd_result_msg_sizeof decode_usbmuxd_result_msg [4, 4, 4, 4, 4]
      (\<lambda>r. [enc32 (daemon_length (result_header r)),
          enc32 (daemon_version (result_header r)), enc32 (daemon_message (result_header r)),
          enc32 (daemon_tag (result_header r)), enc32 (result_code r)]) \<and>
   laid_out usbmuxd_connect_request_sizeof decode_usbmuxd_connect_request [4, 4, 4, 4, 4, 2, 2]
      (\<lambda>r. [enc32 (daemon_length (connect_header r)),
          enc32 (daemon_version (connect_header r)),
          enc32 (daemon_message (connect_header r)), enc32 (daemon_tag (connect_header r)),
          enc32 (connect_device_id r), enc16 (connect_port r), enc16 (connect_reserved r)]) \<and>
   laid_out usbmuxd_listen_request_sizeof decode_usbmuxd_listen_request [4, 4, 4, 4]
      (\<lambda>r. [enc32 (daemon_length (listen_header r)),
          enc32 (daemon_version (listen_header r)), enc32 (daemon_message (listen_header r)),
          enc32 (daemon_tag (listen_header r))]) \<and>
   laid_out usbmuxd_device_record_sizeof decode_usbmuxd_device_record [4, 2, 256, 2, 4]
      (\<lambda>r. [enc32 (record_device_id r), enc16 (record_product_id r),
          record_serial_number r, enc16 (record_padding r), enc32 (record_location r)])"
  by (intro conjI block_laid_out shb_laid_out epb_laid_out spb_laid_out idb_laid_out pcap_header_laid_out
    pcap_record_laid_out setup_laid_out darwin_header_laid_out darwin_header_1_1_laid_out
    usbmon_header_laid_out usbmon_mmapped_laid_out usbpcap_header_laid_out
    usbpcap_control_header_laid_out mux_header_laid_out version_header_laid_out
    tcphdr_laid_out usbmuxd_header_laid_out usbmuxd_result_msg_laid_out
    usbmuxd_connect_request_laid_out usbmuxd_listen_request_laid_out
    usbmuxd_device_record_laid_out)

end
