(* ===== verification/Capture_Builder.thy ===== *)
theory Capture_Builder
  imports Wire_Formats Capture_Traces
begin

text \<open>
  The capture builder of the test suite (\<open>test/CaptureBuilder.h\<close>): a transcript of USB transfers, its encoding
  as the packets of five capture formats, and the containers.  Reading back what it builds is the round trip
  that the tests sample.
\<close>

section \<open>Transcripts\<close>

record builder_transfer =
  t_control :: bool
  t_endpoint :: u8
  t_setup :: usb_setup_t
  t_data :: "byte list"

type_synonym test_transcript = "builder_transfer list"

definition transcript_control :: "usb_setup_t \<Rightarrow> byte list \<Rightarrow> test_transcript \<Rightarrow> test_transcript" where
  "transcript_control setup data ts =
     ts @ [\<lparr>t_control = True, t_endpoint = bmRequestType setup AND USB_DIR_IN, t_setup = setup, t_data = data\<rparr>]"

definition transcript_bulkOut :: "u8 \<Rightarrow> byte list \<Rightarrow> test_transcript \<Rightarrow> test_transcript" where
  "transcript_bulkOut endpoint data ts =
     ts @ [\<lparr>t_control = False, t_endpoint = endpoint AND 0x7F, t_setup = zero_setup, t_data = data\<rparr>]"

definition transcript_bulkIn :: "u8 \<Rightarrow> byte list \<Rightarrow> test_transcript \<Rightarrow> test_transcript" where
  "transcript_bulkIn endpoint data ts =
     ts @ [\<lparr>t_control = False, t_endpoint = endpoint OR 0x80, t_setup = zero_setup, t_data = data\<rparr>]"

section \<open>Packets\<close>

definition darwinPacket :: "bool \<Rightarrow> u8 \<Rightarrow> u64 \<Rightarrow> u32 \<Rightarrow> u8 \<Rightarrow> u8 \<Rightarrow> u8 \<Rightarrow> byte list \<Rightarrow> byte list" where
  "darwinPacket v11 type i location address endpoint endpointType payload =
     (let header = \<lparr>darwin_version = (if v11 then DARWIN_USB_HEADER_VERSION_1_1 else DARWIN_USB_HEADER_VERSION_1_0),
            darwin_headerLength = word_of_nat (if v11 then darwin_header_1_1_sizeof else darwin_header_size),
            darwin_type = type, darwin_length = word_of_nat (length payload), darwin_status = 0, darwin_isoFrames = 0,
            darwin_uniqueId = i, darwin_locationId = location, darwin_speed = 2, darwin_deviceId = address,
            darwin_endpointId = endpoint, darwin_endpointType = endpointType, darwin_usbClass = 0, darwin_usbSubclass = 0,
            darwin_usbInterface = 0, darwin_usbInterfaceAlternate = 0, darwin_usbVendorId = 0, darwin_usbProductId = 0\<rparr>
      in take (unat (darwin_headerLength header)) (encode_darwin_header_1_1 header) @ payload)"

definition usbpcapPacket :: "u64 \<Rightarrow> u8 \<Rightarrow> u16 \<Rightarrow> u8 \<Rightarrow> u8 \<Rightarrow> int \<Rightarrow> byte list \<Rightarrow> byte list" where
  "usbpcapPacket irp info device endpoint ty stage payload =
     (let header = \<lparr>control_header = \<lparr>headerLen =
              word_of_nat (if 0 \<le> stage then usbpcap_control_header_size else usbpcap_header_size),
              irpId = irp, pcap_status = 0, pcap_function = 0, pcap_info = info, pcap_bus = 1, pcap_device = device,
              pcap_endpoint = endpoint, pcap_transfer = ty, dataLength = word_of_nat (length payload)\<rparr>,
            control_stage = (if 0 \<le> stage then word_of_int stage else 0)\<rparr>
      in take (unat (headerLen (control_header header))) (encode_usbpcap_control header) @ payload)"

definition usbmonPacket :: "bool \<Rightarrow> u8 \<Rightarrow> u64 \<Rightarrow> u8 \<Rightarrow> u8 \<Rightarrow> u8 \<Rightarrow> usb_setup_t option \<Rightarrow> byte list \<Rightarrow> byte list" where
  "usbmonPacket mmapped event i ty endpoint address setup payload =
     (let header = \<lparr>mmapped_header = \<lparr>mon_id = i, event_type = event, transfer_type = ty, endpoint_number = endpoint,
              device_address = address, bus_id = 1, setup_flag = (if setup \<noteq> None then 0 else 45),
              data_flag = (if payload = [] then 60 else 0), mon_ts_sec = 0, mon_ts_usec = 0, mon_status = 0,
              urb_len = word_of_nat (length payload), data_len = word_of_nat (length payload),
              mon_setup = (case setup of None \<Rightarrow> zero_setup | Some s \<Rightarrow> s)\<rparr>,
            mmapped_interval = 0, mmapped_start_frame = 0, mmapped_xfer_flags = 0, mmapped_ndesc = 0\<rparr>
      in take (if mmapped then usbmon_mmapped_header_size else usbmon_header_size) (encode_usbmon_mmapped header) @ payload)"

datatype capture_builder_format = FormatDarwin | FormatDarwin_1_1 | FormatUSBPcap | FormatUsbmon | FormatUsbmonMmapped

primrec format_linktype :: "capture_builder_format \<Rightarrow> u32" where
  "format_linktype FormatDarwin = LINKTYPE_USB_DARWIN"
| "format_linktype FormatDarwin_1_1 = LINKTYPE_USB_DARWIN"
| "format_linktype FormatUSBPcap = LINKTYPE_USBPCAP"
| "format_linktype FormatUsbmon = LINKTYPE_USB_LINUX"
| "format_linktype FormatUsbmonMmapped = LINKTYPE_USB_LINUX_MMAPPED"

text \<open>The packets of one transfer, with the identifier of its request.\<close>

definition builder_packets :: "capture_builder_format \<Rightarrow> u8 \<Rightarrow> u32 \<Rightarrow> u64 \<Rightarrow> builder_transfer \<Rightarrow> byte list list" where
  "builder_packets fmt address location i t =
     (let endpoint = t_endpoint t; is_in = endpoint AND USB_DIR_IN \<noteq> 0;
          outData = (if is_in then [] else t_data t); inData = (if is_in then t_data t else []);
          submit = encode_setup (t_setup t) @ outData;
          darwin = (\<lambda>v11. if t_control t
             then [darwinPacket v11 DARWIN_IO_SUBMIT i location address endpoint USB_EP_CONTROL submit,
                   darwinPacket v11 DARWIN_IO_COMPLETE i location address endpoint USB_EP_CONTROL inData]
             else [darwinPacket v11 DARWIN_IO_SUBMIT i location address endpoint USB_EP_BULK outData,
                   darwinPacket v11 DARWIN_IO_COMPLETE i location address endpoint USB_EP_BULK inData]);
          usbmon = (\<lambda>mmapped. let ty = (if t_control t then USBMON_TRANSFER_CONTROL else USBMON_TRANSFER_BULK) in
            [usbmonPacket mmapped USBMON_EVENT_SUBMIT i ty endpoint address (if t_control t then Some (t_setup t) else None) outData,
             usbmonPacket mmapped USBMON_EVENT_COMPLETE i ty endpoint address None inData])
      in case fmt of
           FormatDarwin \<Rightarrow> darwin False
         | FormatDarwin_1_1 \<Rightarrow> darwin True
         | FormatUSBPcap \<Rightarrow>
             if t_control t
             then [usbpcapPacket i 0 (ucast address) endpoint USBPCAP_TRANSFER_CONTROL (uint USBPCAP_CONTROL_STAGE_SETUP) submit,
                   usbpcapPacket i USBPCAP_INFO_PDO_TO_FDO (ucast address) endpoint USBPCAP_TRANSFER_CONTROL
                     (uint USBPCAP_CONTROL_STAGE_COMPLETE) inData]
             else [usbpcapPacket i 0 (ucast address) endpoint USBPCAP_TRANSFER_BULK (- 1) outData,
                   usbpcapPacket i USBPCAP_INFO_PDO_TO_FDO (ucast address) endpoint USBPCAP_TRANSFER_BULK (- 1) inData]
         | FormatUsbmon \<Rightarrow> usbmon False
         | FormatUsbmonMmapped \<Rightarrow> usbmon True)"

fun encode_transcript :: "capture_builder_format \<Rightarrow> u8 \<Rightarrow> u32 \<Rightarrow> u64 \<Rightarrow> test_transcript \<Rightarrow> byte list list" where
  "encode_transcript fmt address location i [] = []"
| "encode_transcript fmt address location i (t # ts) =
     builder_packets fmt address location (i + 1) t @ encode_transcript fmt address location (i + 1) ts"

section \<open>Containers\<close>

definition appendBlock :: "byte list \<Rightarrow> u32 \<Rightarrow> byte list \<Rightarrow> byte list" where
  "appendBlock file type body =
     (let padded = body @ padding (length body); n = (word_of_nat (length padded + 12) :: u32)
      in file @ enc32 type @ enc32 n @ padded @ enc32 n)"

definition sectionHeaderBody :: "byte list" where
  "sectionHeaderBody = enc32 PCAPNG_BYTE_ORDER_MAGIC @ enc16 1 @ enc16 0 @ enc64 (- 1)"

definition interfaceBody :: "u32 \<Rightarrow> byte list" where
  "interfaceBody linktype = enc16 (ucast linktype) @ enc16 0 @ enc32 0x40000"

definition enhancedPacketBody :: "u32 \<Rightarrow> byte list \<Rightarrow> byte list" where
  "enhancedPacketBody interface packet =
     encode_epb \<lparr>interface_id = interface, timestamp_high = 0, timestamp_low = 0,
       captured_len = word_of_nat (length packet), epb_packet_len = word_of_nat (length packet)\<rparr> @ packet"

definition build_pcapng :: "u32 \<Rightarrow> byte list list \<Rightarrow> byte list" where
  "build_pcapng linktype packets =
     foldl (\<lambda>file packet. appendBlock file TYPE_ENHANCED_PACKET_BLOCK (enhancedPacketBody 0 packet))
       (appendBlock (appendBlock [] TYPE_SECTION_HEADER sectionHeaderBody)
          TIME_INTERFACE_DESCRIPTOR_BLOCK (interfaceBody linktype)) packets"

definition build_pcap :: "u32 \<Rightarrow> byte list list \<Rightarrow> bool \<Rightarrow> bool \<Rightarrow> byte list" where
  "build_pcap linktype packets swapped nanoseconds =
     (let value = (\<lambda>w. if swapped then endian_reverse32 w else w); value16 = (\<lambda>w. if swapped then endian_reverse16 w else w)
      in encode_pcap_header \<lparr>pcap_magic = value (if nanoseconds then PCAP_MAGIC_NANOSECONDS else PCAP_MAGIC_MICROSECONDS),
           version_major = value16 2, version_minor = value16 4, thiszone = 0, sigfigs = 0,
           pcap_snaplen = value 0x40000, pcap_linktype = value linktype\<rparr> @
         concat (map (\<lambda>packet. encode_pcap_record \<lparr>ts_sec = 0, ts_usec = 0, incl_len = value (word_of_nat (length packet)),
           orig_len = value (word_of_nat (length packet))\<rparr> @ packet) packets))"

definition build_capture :: "capture_builder_format \<Rightarrow> u8 \<Rightarrow> u32 \<Rightarrow> test_transcript \<Rightarrow> byte list" where
  "build_capture fmt address location ts =
     build_pcapng (format_linktype fmt) (encode_transcript fmt address location 0x1000 ts)"

text \<open>A test's capture in any container.\<close>

definition build_file :: "file_format \<Rightarrow> capture_builder_format \<Rightarrow> u8 \<Rightarrow> u32 \<Rightarrow> test_transcript \<Rightarrow> byte list" where
  "build_file ff fmt address location ts =
     (let packets = encode_transcript fmt address location 0x1000 ts in
      case ff of PcapNG \<Rightarrow> build_pcapng (format_linktype fmt) packets
      | Classic swapped nano \<Rightarrow> build_pcap (format_linktype fmt) packets swapped nano)"

end
