(* ===== verification/Format_Agreement.thy ===== *)
theory Format_Agreement
  imports Capture_Builder
begin

text \<open>
  Reading back the captures that the builder of the test suite makes (\<open>Capture_Builder\<close>): the meaning of each packet it
  encodes, the transfers a handle completes from them, and the containers.  The theorems are the round trip and the
  agreement of the formats; for the latter, a device does not depend on its identifier.
\<close>


lemma darwin_prefix: "take 32 (encode_darwin_header_1_1 h) = encode_darwin_header (darwin_usb_header.truncate h)"
  by (simp add: encode_darwin_header_1_1_def encode_darwin_header_def darwin_usb_header.truncate_def del: One_nat_def)

lemmas darwin_decoded = darwin_header_layout.decode_encode [OF TrueI]
lemmas darwin_lengths = darwin_header_layout.length_encode [OF TrueI, unfolded darwin_header_size_def]
  darwin_header_1_1_layout.length_encode [OF TrueI, unfolded darwin_header_1_1_sizeof_def]

lemma darwinPacket_meaning:
  assumes "length payload < 4294967296"
  shows "darwin_meaning (darwinPacket v11 ty i location address ep epty payload) =
    Concerns (darwin_address location address)
      (if epty = 0 then
         if ty = 0 then setup_event ''Darwin control submission without a setup packet'' ep i payload
         else if ty = 1 then Inr (Some (EndControl ep i payload)) else Inr None
       else if epty = 2 \<or> epty = 3 then
         if ty = 0 then Inr (Some (BeginBulk ep i payload))
         else if ty = 1 then Inr (Some (EndBulk ep i payload)) else Inr None
       else Inr None)"
  using assms
  by (cases v11)
    (simp_all add: darwin_meaning_def darwinPacket_def Let_def darwin_prefix darwin_decoded darwin_lengths min_def
      darwin_header_size_def darwin_header_1_1_sizeof_def darwin_usb_header.truncate_def darwin_event_def)

lemma usbpcap_prefix: "take 27 (encode_usbpcap_control h) = encode_usbpcap (control_header h)"
  by (simp add: encode_usbpcap_control_def encode_usbpcap_def del: One_nat_def)

lemma usbmon_prefix: "take 48 (encode_usbmon_mmapped h) = encode_usbmon (mmapped_header h)"
  by (simp add: encode_usbmon_mmapped_def encode_usbmon_def encode_setup_def del: One_nat_def)

lemma usbpcap_stage: "field8 27 (encode_usbpcap_control h @ rest) = control_stage h"
  by (simp add: encode_usbpcap_control_def layout_simps usbpcap_nested del: One_nat_def)

lemma usbpcapPacket_meaning:
  assumes "length payload < 4294967296"
  shows "usbpcap_meaning (usbpcapPacket i info device ep ty stage payload) =
    Concerns (usbpcap_address 1 device)
     (if ty = 2 then
        if stage < 0 then Inl ''USBPcap control packet without a stage''
        else if word_of_int stage = (0 :: u8) then setup_event ''USBPcap setup stage without a setup packet'' ep i payload
        else if word_of_int stage = (1 :: u8) then Inr (Some (AppendControl ep i payload))
        else if word_of_int stage = (3 :: u8) then Inr (Some (EndControl ep i payload)) else Inr None
      else if ty = 3 \<or> ty = 1 then
        if info AND 1 \<noteq> 0 then Inr (Some (EndBulk ep i payload)) else Inr (Some (BeginBulk ep i payload))
      else Inr None)"
proof -
  have n: "length (encode_usbpcap_control h) = 28" for h
    using usbpcap_control_layout.length_encode [OF TrueI] by (simp add: usbpcap_control_header_size_def)
  show ?thesis
  proof (cases "stage < 0")
    case True
    then show ?thesis using assms
      by (simp add: usbpcap_meaning_def usbpcapPacket_def Let_def usbpcap_nested usbpcap_header_size_def usbpcap_prefix
          n min_def usbpcap_event_def)
  next
    case False
    then show ?thesis using assms
      by (simp add: usbpcap_meaning_def usbpcapPacket_def Let_def usbpcap_nested usbpcap_control_header_size_def usbpcap_prefix
          usbpcap_stage n min_def usbpcap_event_def del: One_nat_def)
  qed
qed

lemma usbmonPacket_meaning:
  assumes "length payload < 4294967296"
  shows "usbmon_meaning (if mmapped then 64 else 48) (usbmonPacket mmapped ev i ty ep address setup payload) =
    Concerns (usbmon_address 1 address)
     (if ev = 69 then Inr (Some (AbortTransfer ep i))
      else if ty = 2 then
        if ev = 83 then
          (case setup of None \<Rightarrow> Inl ''usbmon control submission without a setup packet''
           | Some s \<Rightarrow> Inr (Some (BeginControl ep i s payload)))
        else if ev = 67 then Inr (Some (EndControl ep i payload)) else Inr None
      else if ty = 3 \<or> ty = 1 then
        if ev = 83 then Inr (Some (BeginBulk ep i payload))
        else if ev = 67 then Inr (Some (EndBulk ep i payload)) else Inr None
      else Inr None)"
proof -
  have n: "length (encode_usbmon_mmapped h) = 64" for h
    using usbmon_mmapped_layout.length_encode [OF TrueI] by (simp add: usbmon_mmapped_header_size_def)
  show ?thesis using assms
    by (cases mmapped; cases "setup")
      (simp_all add: usbmon_meaning_def usbmonPacket_def Let_def usbmon_nested usbmon_header_size_def
        usbmon_mmapped_header_size_def usbmon_prefix n min_def usbmon_event_def del: One_nat_def)
qed



section \<open>Well built transcripts\<close>

text \<open>
  The invariant of the class \<open>Transcript\<close>: a control transfer is on endpoint 0 in the direction of its request.
  Data is bounded so that a packet with its header has a length of 32 bits.
\<close>

definition transcript_ok :: "test_transcript \<Rightarrow> bool" where
  "transcript_ok ts \<longleftrightarrow> list_all (\<lambda>t. (t_control t \<longrightarrow> t_endpoint t = bmRequestType (t_setup t) AND USB_DIR_IN) \<and>
     length (t_data t) \<le> 0xFFFFFE00) ts"

lemma transcript_ok_empty [simp]: "transcript_ok []"
  by (simp add: transcript_ok_def)

lemma transcript_ok_operations [simp]:
  "transcript_ok (transcript_control s data ts) \<longleftrightarrow> length data \<le> 0xFFFFFE00 \<and> transcript_ok ts"
  "transcript_ok (transcript_bulkOut endpoint data ts) \<longleftrightarrow> length data \<le> 0xFFFFFE00 \<and> transcript_ok ts"
  "transcript_ok (transcript_bulkIn endpoint data ts) \<longleftrightarrow> length data \<le> 0xFFFFFE00 \<and> transcript_ok ts"
  by (auto simp: transcript_ok_def transcript_control_def transcript_bulkOut_def transcript_bulkIn_def)

text \<open>What the host and the device exchange, as the device is given it.\<close>

definition exchanged :: "builder_transfer \<Rightarrow> device_event" where
  "exchanged t =
     (if t_control t then control_event 0 (t_setup t) (take (unat (wLength (t_setup t))) (t_data t))
      else if USB_ENDPOINT_IN (t_endpoint t) then DeviceBulkIn (USB_ENDPOINT_ID (t_endpoint t)) (t_data t)
      else DeviceBulkOut (USB_ENDPOINT_ID (t_endpoint t)) (t_data t))"

section \<open>The events of a transfer\<close>

definition request_events :: "u64 \<Rightarrow> builder_transfer \<Rightarrow> transfer_event list" where
  "request_events i t =
     (let ep = t_endpoint t; is_in = ep AND USB_DIR_IN \<noteq> 0;
          out_data = (if is_in then [] else t_data t); in_data = (if is_in then t_data t else [])
      in if t_control t then [BeginControl ep i (t_setup t) out_data, EndControl ep i in_data]
         else [BeginBulk ep i out_data, EndBulk ep i in_data])"

definition builder_address :: "capture_builder_format \<Rightarrow> u8 \<Rightarrow> u32 \<Rightarrow> u64" where
  "builder_address fmt address location =
     (case fmt of FormatDarwin \<Rightarrow> darwin_address location address
      | FormatDarwin_1_1 \<Rightarrow> darwin_address location address
      | FormatUSBPcap \<Rightarrow> usbpcap_address 1 (ucast address)
      | FormatUsbmon \<Rightarrow> usbmon_address 1 address
      | FormatUsbmonMmapped \<Rightarrow> usbmon_address 1 address)"

abbreviation concerns :: "u32 \<Rightarrow> u64 \<Rightarrow> byte list \<Rightarrow> transfer_event \<Rightarrow> bool" where
  "concerns linktype a p ev \<equiv> meaning linktype p = Some (Concerns a (Inr (Some ev)))"

lemma setup_submitted: "setup_event w ep i (encode_setup s @ data) = Inr (Some (BeginControl ep i s data))"
  and setup_submitted': "setup_event w ep i (encode_setup s) = Inr (Some (BeginControl ep i s []))"
  by (simp_all add: setup_event_def setup_nested)

lemma builder_packets_meaning:
  assumes "length (t_data t) \<le> 0xFFFFFE00"
  shows "list_all2 (concerns (format_linktype fmt) (builder_address fmt address location))
    (builder_packets fmt address location i t) (request_events i t)"
proof -
  have small: "length (encode_setup (t_setup t) @ xs) < 4294967296" "length xs < 4294967296" if "xs = [] \<or> xs = t_data t" for xs
    using assms that by (auto simp: setup_nested)
  note mon = usbmonPacket_meaning [where mmapped = True, simplified] usbmonPacket_meaning [where mmapped = False, simplified]
  show ?thesis using small assms
    by (cases fmt; cases "t_control t"; cases "t_endpoint t AND USB_DIR_IN = 0")
      (simp_all add: builder_packets_def request_events_def builder_address_def Let_def meaning_def darwinPacket_meaning
        usbpcapPacket_meaning mon setup_submitted setup_submitted')
qed


lemma built_packet_lengths:
  "length (darwinPacket v11 ty i location address ep epty payload) =
    (if v11 then darwin_header_1_1_sizeof else darwin_header_size) + length payload"
  "length (usbpcapPacket i info device ep ty stage payload) =
    (if 0 \<le> stage then usbpcap_control_header_size else usbpcap_header_size) + length payload"
  "length (usbmonPacket mmapped ev i ty ep address s payload) =
    (if mmapped then usbmon_mmapped_header_size else usbmon_header_size) + length payload"
  using usbmon_mmapped_layout.length_encode [OF TrueI] usbpcap_control_layout.length_encode [OF TrueI]
  by (simp_all add: darwinPacket_def usbpcapPacket_def usbmonPacket_def Let_def darwin_lengths darwin_header_size_def
      darwin_header_1_1_sizeof_def usbpcap_control_header_size_def usbpcap_header_size_def usbmon_mmapped_header_size_def
      usbmon_header_size_def)

lemma builder_packets_small:
  "length (t_data t) \<le> 0xFFFFFE00 \<Longrightarrow> list_all (\<lambda>p. length p \<le> 0xFFFFFF00) (builder_packets fmt address location i t)"
  by (cases fmt; cases "t_control t")
    (simp_all add: builder_packets_def Let_def built_packet_lengths setup_nested darwin_header_size_def
      darwin_header_1_1_sizeof_def usbpcap_control_header_size_def usbpcap_header_size_def usbmon_mmapped_header_size_def
      usbmon_header_size_def)

fun transcript_events :: "u64 \<Rightarrow> test_transcript \<Rightarrow> transfer_event list" where
  "transcript_events i [] = []"
| "transcript_events i (t # ts) = request_events (i + 1) t @ transcript_events (i + 1) ts"

lemma encode_transcript_meaning:
  "list_all (\<lambda>t. length (t_data t) \<le> 0xFFFFFE00) ts \<Longrightarrow>
   list_all2 (concerns (format_linktype fmt) (builder_address fmt address location))
     (encode_transcript fmt address location i ts) (transcript_events i ts) \<and>
   list_all (\<lambda>p. length p \<le> 0xFFFFFF00) (encode_transcript fmt address location i ts)"
  by (induction ts arbitrary: i) (simp_all add: list_all2_appendI builder_packets_meaning builder_packets_small)

lemma concerns_events:
  "list_all2 (concerns linktype a) packets evs \<Longrightarrow>
   events_for b (map (Pair linktype) packets) = (if b = a then evs else []) \<and>
   packet_warnings seen (map (Pair linktype) packets) = [] \<and>
   fold see_address (map (Pair linktype) packets) addresses =
     (if packets = [] \<or> a \<in> set addresses then addresses else addresses @ [a])"
proof (induction packets evs arbitrary: addresses rule: list_all2_induct)
  case Nil
  then show ?case by (simp add: events_for_def)
next
  case (Cons p packets ev evs)
  then have "packet_event b (linktype, p) = (if b = a then [ev] else [])" "packet_warning seen (linktype, p) = []"
    "packet_linktypes (linktype, p) seen = seen"
    "see_address (linktype, p) addresses = (if a \<in> set addresses then addresses else addresses @ [a])"
    by (simp_all add: packet_event_def packet_warning_def packet_linktypes_def see_address_def concerned_def)
  with Cons.IH [of "see_address (linktype, p) addresses"] show ?case by (simp add: events_for_def)
qed

section \<open>The transfers the handle completes\<close>

lemma completed_request:
  "transcript_ok [t] \<Longrightarrow>
   completed_transfers om_empty (request_events i t @ evs) = exchanged t # completed_transfers om_empty evs"
  by (auto simp: transcript_ok_def request_events_def exchanged_def Let_def om_empty_def om_erase_def control_payload_def
      control_event_def bulk_event_def and.assoc)

lemma completed_transcript:
  "transcript_ok ts \<Longrightarrow> completed_transfers om_empty (transcript_events i ts) = map exchanged ts"
proof (induction ts arbitrary: i)
  case (Cons t ts)
  then have "transcript_ok [t]" "transcript_ok ts" by (simp_all add: transcript_ok_def)
  with Cons.IH show ?case by (simp add: completed_request)
qed (simp add: om_empty_def)

section \<open>The containers\<close>

lemma appendBlock_write: "appendBlock file ty body = file @ write_block ty (body @ padding (length body))"
  by (simp add: appendBlock_def write_block_def Let_def add.commute [of _ 12])

lemma build_pcapng_written: "build_pcapng linktype packets = write_pcapng linktype packets"
proof -
  have pads: "padding (length sectionHeaderBody) = []" "padding (length (interfaceBody linktype)) = []"
    by (simp_all add: padding_def sectionHeaderBody_def interfaceBody_def)
  have "padding (length (enhancedPacketBody 0 p)) = padding (length p)" for p
    by (simp add: padding_def enhancedPacketBody_def encode_epb_def mod_add_eq [symmetric])
  then have packet: "enhancedPacketBody 0 p @ padding (length (enhancedPacketBody 0 p)) = packet_body 0 p" for p
    by (simp add: enhancedPacketBody_def encode_epb_def packet_body_def)
  have "foldl (\<lambda>file packet. appendBlock file TYPE_ENHANCED_PACKET_BLOCK (enhancedPacketBody 0 packet)) c packets =
      c @ concat (map (ng_bytes \<circ> NgPacket 0) packets)" for c
    by (induction packets arbitrary: c) (simp_all add: appendBlock_write ng_bytes_def packet)
  then show ?thesis
    by (simp add: build_pcapng_def write_pcapng_def appendBlock_write pads ng_bytes_def)
      (simp add: sectionHeaderBody_def section_body_def interfaceBody_def)
qed

lemma build_pcap_written: "build_pcap linktype packets swapped nanoseconds = write_pcap swapped nanoseconds linktype packets"
proof -
  have w: "pcap_word swapped w = enc32 (if swapped then endian_reverse32 w else w)" for w
    by (simp add: pcap_word_def enc_be32_def enc32_endian_reverse32)
  have two: "le_bytes 2 v = [word_of_nat v, word_of_nat (v div 256)]" for v
    by (simp add: numeral_2_eq_2)
  have v: "pcap_version swapped = enc16 (if swapped then endian_reverse16 2 else 2) @ enc16 (if swapped then endian_reverse16 4 else 4)"
  proof (cases swapped)
    case True
    then show ?thesis by (simp only: enc16_endian_reverse16 if_True) (simp add: pcap_version_def two)
  qed (simp add: pcap_version_def two)
  have "le_bytes n 0 = replicate n 0" "le_nat (replicate n 0) = 0" for n by (induction n) simp_all
  then have z: "endian_reverse32 0 = 0" by (simp add: endian_reverse32_def)
  have "encode_pcap_record \<lparr>ts_sec = 0, ts_usec = 0, incl_len = (if swapped then endian_reverse32 n else n),
      orig_len = (if swapped then endian_reverse32 n else n)\<rparr> = pcap_word swapped 0 @ pcap_word swapped 0 @ pcap_word swapped n @ pcap_word swapped n" for n
    by (simp add: encode_pcap_record_def w z)
  then show ?thesis
    by (simp add: build_pcap_def write_pcap_def write_pcap_header_def write_pcap_record_def [abs_def] Let_def encode_pcap_header_def w v z magic_of_def)
qed


lemma build_file_written:
  "build_file ff fmt address location ts =
     write_capture ff (format_linktype fmt) (encode_transcript fmt address location 0x1000 ts)"
  by (cases ff) (simp_all add: build_file_def build_pcapng_written build_pcap_written)

lemma encode_transcript_empty: "encode_transcript fmt address location i ts = [] \<longleftrightarrow> ts = []"
  by (cases ts) (auto simp: builder_packets_def Let_def split: capture_builder_format.split)

lemma transcript_read:
  assumes "transcript_ok ts" and a: "a = builder_address fmt address location"
  shows "\<exists>f ds. reader_parse api (format_reader ff) (build_file ff fmt address location ts) new_input_file = Some (f, None) \<and>
      m_warnings f = [] \<and> getDevices f = Some ds \<and>
      (if ts = [] then ds = [] else run_opt (session_step api a) (map exchanged ts) [new_device a] = Some ds)"
proof -
  let ?lt = "format_linktype fmt" and ?ps = "encode_transcript fmt address location 0x1000 ts"
  have "list_all (\<lambda>t. length (t_data t) \<le> 0xFFFFFE00) ts"
    using assms(1) by (simp add: transcript_ok_def list_all_iff)
  note enc = encode_transcript_meaning [OF this, where fmt = fmt and address = address and location = location and i = "0x1000", folded a]
  note ev = concerns_events [OF conjunct1 [OF enc]]
  obtain f where f: "process_packets api (map (Pair ?lt) ?ps) new_input_file = Some f" "file_ok f"
      "m_deviceOrder f = fold see_address (map (Pair ?lt) ?ps) []"
      "warned (packet_warnings {} (map (Pair ?lt) ?ps)) new_input_file f"
      "\<forall>b. run_opt (handle_step api) (events_for b (map (Pair ?lt) ?ps)) (new_device_handle b) = Some (handle_at b f)"
    using process_packets_result [OF new_input_file_ok, of api "map (Pair ?lt) ?ps"]
    by (auto simp: new_input_file_def handle_at_def)
  have lt: "?lt < 65536" by (cases fmt) simp_all
  have read: "reader_parse api (format_reader ff) (build_file ff fmt address location ts) new_input_file = Some (f, None)"
    using any_format.read_back [OF lt conjunct2 [OF enc], where fmt = ff and api = api] f(1) by (simp add: build_file_written)
  have quiet: "m_warnings f = []" using f(4) ev by (simp add: warned_def new_input_file_def)
  have order: "m_deviceOrder f = (if ts = [] then [] else [a])"
    using f(3) ev by (simp add: encode_transcript_empty)
  have nh: "m_handle_id (new_device_handle a :: 'a device_handle) = a" "m_inflight (new_device_handle a :: 'a device_handle) = om_empty"
    "m_sessions (new_device_handle a :: 'a device_handle) = [new_device a]"
    by (simp_all add: new_device_handle_def)
  have "run_opt (handle_step api) (transcript_events 0x1000 ts) (new_device_handle a) = Some (handle_at a f)"
    using f(5) ev by metis
  from handle_run_sessions [OF this]
  have "run_opt (session_step api a) (map exchanged ts) [new_device a] = Some (m_sessions (handle_at a f))"
    by (simp add: nh completed_transcript [OF assms(1)])
  with order getDevices_eq [OF f(2)] read quiet show ?thesis by auto
qed



section \<open>Devices do not depend on their identifier\<close>

definition relabel :: "u64 \<Rightarrow> 'p device \<Rightarrow> 'p device" where
  "relabel i d = d\<lparr>m_device_id := i\<rparr>"

lemma relabel_frame [simp]:
  "m_packetCount (relabel i d) = m_packetCount d" "m_byteCount (relabel i d) = m_byteCount d"
  "m_controlPacketCount (relabel i d) = m_controlPacketCount d" "m_controlByteCount (relabel i d) = m_controlByteCount d"
  "m_hasDeviceDescriptor (relabel i d) = m_hasDeviceDescriptor d" "m_deviceDescriptor (relabel i d) = m_deviceDescriptor d"
  "m_currentConfiguration (relabel i d) = m_currentConfiguration d" "m_configurations (relabel i d) = m_configurations d"
  "m_alternates (relabel i d) = m_alternates d" "m_strings (relabel i d) = m_strings d"
  "m_bosDescriptors (relabel i d) = m_bosDescriptors d" "m_anomalies (relabel i d) = m_anomalies d"
  "m_experts (relabel i d) = m_experts d" "relabel i (new_device j) = new_device i"
  by (simp_all add: relabel_def new_device_def)

lemma relabel_swap:
  "(relabel i d)\<lparr>m_packetCount := n\<rparr> = relabel i (d\<lparr>m_packetCount := n\<rparr>)"
  "(relabel i d)\<lparr>m_byteCount := n\<rparr> = relabel i (d\<lparr>m_byteCount := n\<rparr>)"
  "(relabel i d)\<lparr>m_controlPacketCount := n\<rparr> = relabel i (d\<lparr>m_controlPacketCount := n\<rparr>)"
  "(relabel i d)\<lparr>m_controlByteCount := n\<rparr> = relabel i (d\<lparr>m_controlByteCount := n\<rparr>)"
  "(relabel i d)\<lparr>m_hasDeviceDescriptor := b\<rparr> = relabel i (d\<lparr>m_hasDeviceDescriptor := b\<rparr>)"
  "(relabel i d)\<lparr>m_deviceDescriptor := r\<rparr> = relabel i (d\<lparr>m_deviceDescriptor := r\<rparr>)"
  "(relabel i d)\<lparr>m_currentConfiguration := c\<rparr> = relabel i (d\<lparr>m_currentConfiguration := c\<rparr>)"
  "(relabel i d)\<lparr>m_configurations := cs\<rparr> = relabel i (d\<lparr>m_configurations := cs\<rparr>)"
  "(relabel i d)\<lparr>m_alternates := as\<rparr> = relabel i (d\<lparr>m_alternates := as\<rparr>)"
  "(relabel i d)\<lparr>m_strings := ss\<rparr> = relabel i (d\<lparr>m_strings := ss\<rparr>)"
  "(relabel i d)\<lparr>m_bosDescriptors := bs\<rparr> = relabel i (d\<lparr>m_bosDescriptors := bs\<rparr>)"
  "(relabel i d)\<lparr>m_anomalies := ws\<rparr> = relabel i (d\<lparr>m_anomalies := ws\<rparr>)"
  "(relabel i d)\<lparr>m_experts := es\<rparr> = relabel i (d\<lparr>m_experts := es\<rparr>)"
  by (simp_all add: relabel_def)

lemma relabel_kind [simp]:
  "isApple (relabel i d) = isApple d" "isAppleDFU (relabel i d) = isAppleDFU d"
  "isAppleRecovery (relabel i d) = isAppleRecovery d"
  "interface_protocol c x (relabel i d) = interface_protocol c x d"
  "getExpertForEndpoint ep (relabel i d) = getExpertForEndpoint ep d" "getExpertForControl s (relabel i d) = getExpertForControl s d"
  by (simp_all add: isApple_def isAppleDFU_def isAppleRecovery_def interface_protocol_def routing_cong [of "relabel i d" d])

lemma map_bind: "map_option f (Option.bind x g) = Option.bind x (\<lambda>y. map_option f (g y))"
  by (cases x) simp_all

lemma attach_interface_relabel:
  "attach_interface p k (c, by, relabel i d) = map_option (\<lambda>(c, by, d). (c, by, relabel i d)) (attach_interface p k (c, by, d))"
  by (cases "elem_at k (interfaces c)")
    (simp_all add: attach_interface_def make_shared_def Let_def relabel_swap split: option.split)

lemma attach_loop_relabel:
  "run_opt (attach_interface p) ks (c, by, relabel i d) =
     map_option (\<lambda>(c, by, d). (c, by, relabel i d)) (run_opt (attach_interface p) ks (c, by, d))"
proof (induction ks arbitrary: c "by" d)
  case (Cons k ks)
  then show ?case
    by (cases "attach_interface p k (c, by, d)") (auto simp: attach_interface_relabel)
qed simp

lemma attachExperts_relabel: "attachExperts c (relabel i d) = map_option (map_prod id (relabel i)) (attachExperts c d)"
  by (auto simp: attachExperts_def device_expert_def make_shared_def relabel_swap attach_loop_relabel map_bind
    split_beta bind_map_option comp_def)

lemma process_config_descriptor_relabel:
  "process_config_descriptor data (relabel i d) = map_option (relabel i) (process_config_descriptor data d)"
proof -
  let ?h = "decode_config_descriptor (take USB_DT_CONFIG_SIZE data)"
  obtain ok c where parse: "usb_configuration_parse new_usb_configuration (take (unat (wTotalLength ?h)) data) = Some (ok, c)"
    using usb_configuration_parse_wf by blast
  define w where "w = ''Malformed configuration descriptor '' @ dec (unat (bConfigurationValue ?h))"
  show ?thesis
    by (cases ok; cases "om_contains (m_configurations d) (bConfigurationValue (config_descriptor c))")
      (simp_all add: process_config_descriptor_def readStruct_def Let_def parse relabel_swap map_bind attachExperts_relabel
        bind_map_option split_beta comp_def w_def [symmetric])
qed

lemma processDescriptor_relabel: "processDescriptor s data (relabel i d) = map_option (relabel i) (processDescriptor s data d)"
proof -
  have device: "process_device_descriptor data (relabel i d) = relabel i (process_device_descriptor data d)"
    by (simp add: process_device_descriptor_def readStruct_def relabel_swap)
  have str: "process_string_descriptor j h data (relabel i d) = map_option (relabel i) (process_string_descriptor j h data d)" for j h
    by (simp add: process_string_descriptor_def relabel_swap map_bind)
  have bos: "process_bos_descriptor data (relabel i d) = map_option (relabel i) (process_bos_descriptor data d)"
    by (simp add: process_bos_descriptor_def readStruct_def relabel_swap map_bind Let_def)
  show ?thesis
    by (simp add: processDescriptor_def readStruct_def Let_def relabel_swap process_config_descriptor_relabel device str bos)
qed

lemma call_expert_relabel: "call_expert f p (relabel i d) = map_option (relabel i) (call_expert f p d)"
  by (cases p) (simp_all add: call_expert_def relabel_swap map_bind)

lemma device_step_relabel: "device_step api ev (relabel i d) = map_option (relabel i) (device_step api ev d)"
  by (cases ev)
    (auto simp: processControlPacketIn_def processControlPacketOut_def processBulkPacketIn_def processBulkPacketOut_def
      standard_request_def count_bulk_def count_control_def Let_def relabel_swap processDescriptor_relabel call_expert_relabel)

lemma session_step_relabel:
  "session_step api i ev (map (relabel i) ds) = map_option (map (relabel i)) (session_step api j ev ds)"
proof (cases "ds = []")
  case True
  then show ?thesis by (simp add: session_step_def)
next
  case False
  have o: "opens_session ev (relabel i d) = opens_session ev d" for d
    by (cases ev) (simp_all add: reenumerates_def)
  have n: "device_step api ev (new_device i) = map_option (relabel i) (device_step api ev (new_device j))"
    using device_step_relabel [of api ev i "new_device j"] by simp
  show ?thesis using False
    by (simp add: session_step_def last_map o n device_step_relabel option.map_comp comp_def map_butlast)
qed

lemma session_run_relabel:
  "run_opt (session_step api i) evs (map (relabel i) ds) = map_option (map (relabel i)) (run_opt (session_step api j) evs ds)"
proof (induction evs arbitrary: ds)
  case (Cons ev evs)
  then show ?case by (cases "session_step api j ev ds") (simp_all add: session_step_relabel [of api i ev ds j])
qed simp

section \<open>The formats agree\<close>

text \<open>
  C7: What the test suite encodes is read back.  Any transcript the builder makes, in any of the five packet formats,
  in a PCAPNG or classic capture of either byte order and timestamp unit, is opened by the right reader, read
  without an error or a warning, and gives exactly the sessions of a device that is handed the transfers of
  the transcript, in their order, each control transfer cut to the length its request allows.
\<close>

theorem built_capture_read_back:
  assumes "transcript_ok ts"
  shows "inputfile_open path (Some (build_file ff fmt address location ts)) = Inr (format_reader ff) \<and>
    (\<exists>f ds. reader_parse api (format_reader ff) (build_file ff fmt address location ts) new_input_file = Some (f, None) \<and>
      m_warnings f = [] \<and> getDevices f = Some ds \<and>
      (if ts = [] then ds = []
       else run_opt (session_step api (builder_address fmt address location)) (map exchanged ts)
              [new_device (builder_address fmt address location)] = Some ds))"
proof
  show "inputfile_open path (Some (build_file ff fmt address location ts)) = Inr (format_reader ff)"
    by (simp add: build_file_written any_format.chosen)
qed (rule transcript_read [OF assms refl])

definition sample_transcript :: test_transcript where
  "sample_transcript = transcript_bulkIn 1 [7] (transcript_bulkOut 2 [1, 2]
     (transcript_control \<lparr>bmRequestType = 0x80, bRequest = 6, wValue = 0x100, wIndex = 0, wLength = 2\<rparr> [18, 1, 0] []))"

theorem built_capture_read_back_witness:
  "map exchanged sample_transcript =
     [DeviceControlIn 0 \<lparr>bmRequestType = 0x80, bRequest = 6, wValue = 0x100, wIndex = 0, wLength = 2\<rparr> [18, 1],
      DeviceBulkOut 2 [1, 2], DeviceBulkIn 1 [7]] \<and>
   inputfile_open ''a'' (Some (build_file PcapNG FormatUSBPcap 5 0 sample_transcript)) = Inr PcapNGInputFile \<and>
   (\<exists>f ds. reader_parse sample_api PcapNGInputFile (build_file PcapNG FormatUSBPcap 5 0 sample_transcript) new_input_file = Some (f, None) \<and>
      m_warnings f = [] \<and> getDevices f = Some ds \<and>
      run_opt (session_step sample_api 0x10005) (map exchanged sample_transcript) [new_device 0x10005] = Some ds)"
proof -
  have ok: "transcript_ok sample_transcript" by (simp add: sample_transcript_def)
  have "sample_transcript \<noteq> []" "builder_address FormatUSBPcap 5 0 = 0x10005"
    by (simp_all add: sample_transcript_def transcript_bulkIn_def builder_address_def usbpcap_address_def)
  with built_capture_read_back [OF ok, of "''a''" PcapNG FormatUSBPcap 5 0 sample_api] show ?thesis
    by (simp add: sample_transcript_def transcript_control_def transcript_bulkIn_def transcript_bulkOut_def exchanged_def control_event_def)
qed

text \<open>
  C6: The capture formats agree.  However a transcript is captured (by the Darwin, USBPcap or usbmon driver, in
  any version of its packets and any container), the program reports the same devices: the same sessions
  in the same order, equal in their descriptors, counters, anomalies and experts, up to the identifier
  that the driver gives the address.
\<close>

theorem capture_formats_agree:
  assumes "transcript_ok ts"
  shows "\<exists>f ds f' ds'.
    reader_parse api (format_reader ff) (build_file ff fmt address location ts) new_input_file = Some (f, None) \<and>
    reader_parse api (format_reader ff') (build_file ff' fmt' address' location' ts) new_input_file = Some (f', None) \<and>
    getDevices f = Some ds \<and> getDevices f' = Some ds' \<and>
    ds' = map (relabel (builder_address fmt' address' location')) ds"
proof -
  let ?a = "builder_address fmt address location" and ?a' = "builder_address fmt' address' location'"
  obtain f ds where f: "reader_parse api (format_reader ff) (build_file ff fmt address location ts) new_input_file = Some (f, None)"
      "getDevices f = Some ds" "if ts = [] then ds = [] else run_opt (session_step api ?a) (map exchanged ts) [new_device ?a] = Some ds"
    using transcript_read [OF assms refl] by blast
  obtain f' ds' where f': "reader_parse api (format_reader ff') (build_file ff' fmt' address' location' ts) new_input_file = Some (f', None)"
      "getDevices f' = Some ds'" "if ts = [] then ds' = [] else run_opt (session_step api ?a') (map exchanged ts) [new_device ?a'] = Some ds'"
    using transcript_read [OF assms refl] by blast
  have "ds' = map (relabel ?a') ds"
    using f(3) f'(3) session_run_relabel [of api ?a' "map exchanged ts" "[new_device ?a]" ?a] by (simp split: if_splits)
  with f(1,2) f'(1,2) show ?thesis by blast
qed

theorem capture_formats_agree_witness:
  "\<exists>f ds f' ds'.
    reader_parse sample_api PcapNGInputFile (build_file PcapNG FormatDarwin 5 0x14100000 sample_transcript) new_input_file = Some (f, None) \<and>
    reader_parse sample_api PcapInputFile (build_file (Classic True False) FormatUsbmonMmapped 9 0 sample_transcript) new_input_file = Some (f', None) \<and>
    getDevices f = Some ds \<and> getDevices f' = Some ds' \<and> ds' = map (relabel 0x109) ds"
proof -
  have "transcript_ok sample_transcript" by (simp add: sample_transcript_def)
  moreover have "builder_address FormatUsbmonMmapped 9 0 = 0x109" by (simp add: builder_address_def usbmon_address_def)
  ultimately show ?thesis
    using capture_formats_agree [of sample_transcript sample_api PcapNG FormatDarwin 5 "0x14100000" "Classic True False" FormatUsbmonMmapped 9 0]
    by simp
qed

end
