(* ===== verification/Accessors.thy ===== *)
theory Accessors
  imports Main_Program
begin

text \<open>
  The accessors of the classes: what \<open>main\<close>, the reports and the test suite read of the state that the operations
  keep.  \<open>accessor_simps\<close> opens them.
\<close>

text \<open>What the owner of a device reads from it (\<open>src/usb/Device.h\<close>).\<close>

definition getIdentifier :: "'p device \<Rightarrow> u64" where
  "getIdentifier d = m_device_id d"

definition hasDeviceDescriptor :: "'p device \<Rightarrow> bool" where
  "hasDeviceDescriptor d = m_hasDeviceDescriptor d"

definition getDeviceDescriptor :: "'p device \<Rightarrow> usb_device_descriptor" where
  "getDeviceDescriptor d = m_deviceDescriptor d"

definition getVendorId :: "'p device \<Rightarrow> u16" where
  "getVendorId d = idVendor (m_deviceDescriptor d)"

definition getProductId :: "'p device \<Rightarrow> u16" where
  "getProductId d = idProduct (m_deviceDescriptor d)"

definition getPacketCount :: "'p device \<Rightarrow> u64" where
  "getPacketCount d = m_packetCount d"

definition getByteCount :: "'p device \<Rightarrow> u64" where
  "getByteCount d = m_byteCount d"

definition getControlPacketCount :: "'p device \<Rightarrow> u64" where
  "getControlPacketCount d = m_controlPacketCount d"

definition getControlByteCount :: "'p device \<Rightarrow> u64" where
  "getControlByteCount d = m_controlByteCount d"

definition getCurrentConfiguration :: "'p device \<Rightarrow> u8" where
  "getCurrentConfiguration d = m_currentConfiguration d"

definition getConfigurations :: "'p device \<Rightarrow> (u8, usb_configuration) omap" where
  "getConfigurations d = m_configurations d"

definition getBOSDescriptors :: "'p device \<Rightarrow> bos_descriptor list" where
  "getBOSDescriptors d = m_bosDescriptors d"

definition getAnomalies :: "'p device \<Rightarrow> string list" where
  "getAnomalies d = m_anomalies d"

text \<open>\<open>DeviceHandle\<close> and \<open>InputFile\<close> (\<open>src/file/InputFile.h\<close>).\<close>

definition getWarnings :: "'p input_file \<Rightarrow> string list" where
  "getWarnings f = m_warnings f"

definition getWarningCount :: "'p input_file \<Rightarrow> u64" where
  "getWarningCount f = m_warningCount f"

definition file_getPacketCount :: "'p input_file \<Rightarrow> u64" where
  "file_getPacketCount f = m_filePacketCount f"

text \<open>\<open>InterfaceExpert\<close> and its subclasses (\<open>src/protocol/\<close>).\<close>

definition getConfiguration :: "'e interface_expert_scheme \<Rightarrow> u8" where
  "getConfiguration e = m_configuration e"

definition getInterface :: "'e interface_expert_scheme \<Rightarrow> u8" where
  "getInterface e = m_interface e"

definition expert_getControlPacketCount :: "'e interface_expert_scheme \<Rightarrow> u32" where
  "expert_getControlPacketCount e = m_controlPackets e"

definition expert_getPacketCount :: "'e interface_expert_scheme \<Rightarrow> u32" where
  "expert_getPacketCount e = m_packets e"

definition expert_getControlByteCount :: "'e interface_expert_scheme \<Rightarrow> u64" where
  "expert_getControlByteCount e = m_controlBytes e"

definition expert_getByteCount :: "'e interface_expert_scheme \<Rightarrow> u64" where
  "expert_getByteCount e = m_bytes e"

definition dfu_getAnomalies :: "dfu_expert \<Rightarrow> string list" where
  "dfu_getAnomalies e = m_dfuAnomalies e"

definition getLastState :: "dfu_expert \<Rightarrow> int" where
  "getLastState e = m_lastState e"

definition getLastStatus :: "dfu_expert \<Rightarrow> int" where
  "getLastStatus e = m_lastStatus e"

definition getPayloads :: "recovery_expert \<Rightarrow> recovery_payload list" where
  "getPayloads e = m_payloads e"

definition getConsole :: "recovery_expert \<Rightarrow> string" where
  "getConsole e = m_console e"

definition getStreams :: "'p usbmux_expert \<Rightarrow> (u64, 'p mux_stream) omap" where
  "getStreams e = m_streams e"

definition getProtocolVersion :: "'p usbmux_expert \<Rightarrow> u32" where
  "getProtocolVersion e = m_version e"

definition getResyncCount :: "'p usbmux_expert \<Rightarrow> u64" where
  "getResyncCount e = m_resyncs e"

text \<open>\<open>MuxStream\<close> (\<open>src/protocol/MuxStream.h\<close>).\<close>

definition getHostPort :: "'p mux_stream \<Rightarrow> u16" where
  "getHostPort s = m_host s"

definition getDevicePort :: "'p mux_stream \<Rightarrow> u16" where
  "getDevicePort s = m_device s"

definition getBytesIn :: "'p mux_stream \<Rightarrow> u64" where
  "getBytesIn s = dir_bytes (m_in s)"

definition getBytesOut :: "'p mux_stream \<Rightarrow> u64" where
  "getBytesOut s = dir_bytes (m_out s)"

definition getTransactionCount :: "'p mux_stream \<Rightarrow> nat" where
  "getTransactionCount s = length (m_messages s)"

definition getEncodingIn :: "'p mux_stream \<Rightarrow> stream_encoding" where
  "getEncodingIn s = encoding (m_in s)"

definition getEncodingOut :: "'p mux_stream \<Rightarrow> stream_encoding" where
  "getEncodingOut s = encoding (m_out s)"

definition getMessages :: "'p mux_stream \<Rightarrow> 'p mux_message list" where
  "getMessages s = m_messages s"

definition getServiceName :: "'p mux_stream \<Rightarrow> string" where
  "getServiceName s = m_serviceName s"

definition isClosed :: "'p mux_stream \<Rightarrow> bool" where
  "isClosed s = m_closed s"

definition getUnmatchedCount :: "'p device_handle \<Rightarrow> u64" where
  "getUnmatchedCount h = m_unmatched h"

lemmas accessor_simps = getIdentifier_def hasDeviceDescriptor_def getDeviceDescriptor_def getVendorId_def getProductId_def
  getPacketCount_def getByteCount_def getControlPacketCount_def getControlByteCount_def
  getCurrentConfiguration_def getConfigurations_def getBOSDescriptors_def getAnomalies_def
  getWarnings_def getWarningCount_def file_getPacketCount_def getConfiguration_def getInterface_def
  expert_getControlPacketCount_def expert_getPacketCount_def expert_getControlByteCount_def
  expert_getByteCount_def dfu_getAnomalies_def getLastState_def getLastStatus_def getPayloads_def
  getConsole_def getStreams_def getProtocolVersion_def getResyncCount_def getHostPort_def
  getDevicePort_def getBytesIn_def getBytesOut_def getTransactionCount_def getEncodingIn_def
  getEncodingOut_def getMessages_def getServiceName_def isClosed_def getUnmatchedCount_def

end
