(* ===== verification/Test_Fixtures.thy ===== *)
theory Test_Fixtures
  imports Format_Agreement Usb_Chapter9 Accessors
begin

text \<open>
  The devices of the test suite (\<open>test/CaptureBuilder.h\<close>): requests, descriptors and the enumeration of a synthetic
  device, what it is on the bus, and tests of \<open>test_Device.cpp\<close> as transcripts that are evaluated.
\<close>

section \<open>Requests\<close>

definition fixture_setup :: "u8 \<Rightarrow> u8 \<Rightarrow> u16 \<Rightarrow> u16 \<Rightarrow> u16 \<Rightarrow> usb_setup_t" where
  "fixture_setup requestType req value index n =
     \<lparr>bmRequestType = requestType, bRequest = req, wValue = value, wIndex = index, wLength = n\<rparr>"

definition getDescriptor :: "u8 \<Rightarrow> u8 \<Rightarrow> byte list \<Rightarrow> u16 \<Rightarrow> test_transcript \<Rightarrow> test_transcript" where
  "getDescriptor ty index descriptor n =
     (let response = (if length descriptor > unat n then take (unat n) descriptor else descriptor) in
      transcript_control (fixture_setup 0x80 USB_REQ_GET_DESCRIPTOR (push_bit 8 (ucast ty) OR ucast index)
        (if ty = USB_DT_STRING then 0x0409 else 0) n) response)"

definition setConfiguration :: "u8 \<Rightarrow> test_transcript \<Rightarrow> test_transcript" where
  "setConfiguration value = transcript_control (fixture_setup 0x00 USB_REQ_SET_CONFIGURATION (ucast value) 0 0) []"

definition setInterface :: "u8 \<Rightarrow> u8 \<Rightarrow> test_transcript \<Rightarrow> test_transcript" where
  "setInterface interface alternate =
     transcript_control (fixture_setup 0x01 USB_REQ_SET_INTERFACE (ucast alternate) (ucast interface) 0) []"

section \<open>Descriptors\<close>

definition deviceDescriptor :: "u16 \<Rightarrow> u16 \<Rightarrow> u16 \<Rightarrow> u8 \<Rightarrow> byte list" where
  "deviceDescriptor vendor product bcd configurations = encode_device_descriptor
     \<lparr>bLength = word_of_nat USB_DT_DEVICE_SIZE, bDescriptorType = USB_DT_DEVICE, bcdUSB = 0x0200, bDeviceClass = 0,
      bDeviceSubClass = 0, bDeviceProtocol = 0, bMaxPacketSize0 = 64, idVendor = vendor, idProduct = product,
      bcdDevice = bcd, iManufacturer = 1, iProduct = 2, iSerialNumber = 3, bNumConfigurations = configurations\<rparr>"

definition stringDescriptor :: "string \<Rightarrow> byte list" where
  "stringDescriptor value = [word_of_nat (2 + length value * 2), USB_DT_STRING] @ concat (map (\<lambda>c. enc16 (of_char c)) value)"

record fixture_endpoint =
  fx_address :: u8
  fx_attributes :: u8

record fixture_interface =
  fx_number :: u8
  fx_alternate :: u8
  fx_class :: u8
  fx_subclass :: u8
  fx_protocol :: u8
  fx_endpoints :: "fixture_endpoint list"
  fx_extra :: "byte list"

definition fixture_interface_bytes :: "fixture_interface \<Rightarrow> byte list" where
  "fixture_interface_bytes i = encode_interface_descriptor
     \<lparr>bLength = word_of_nat USB_DT_INTERFACE_SIZE, bDescriptorType = USB_DT_INTERFACE, bInterfaceNumber = fx_number i,
      bAlternateSetting = fx_alternate i, bNumEndpoints = word_of_nat (length (fx_endpoints i)), bInterfaceClass = fx_class i,
      bInterfaceSubClass = fx_subclass i, bInterfaceProtocol = fx_protocol i, iInterface = 0\<rparr> @ fx_extra i @
     concat (map (\<lambda>e. [word_of_nat USB_DT_ENDPOINT_SIZE, USB_DT_ENDPOINT, fx_address e, fx_attributes e] @ enc16 512 @ [0]) (fx_endpoints i))"

definition configDescriptor :: "u8 \<Rightarrow> fixture_interface list \<Rightarrow> byte list" where
  "configDescriptor value ifaces =
     (let body = concat (map fixture_interface_bytes ifaces); numbers = remdups (map fx_number ifaces)
      in encode_config_descriptor
           \<lparr>bLength = word_of_nat USB_DT_CONFIG_SIZE, bDescriptorType = USB_DT_CONFIG,
            wTotalLength = word_of_nat (USB_DT_CONFIG_SIZE + length body), bNumInterfaces = word_of_nat (length numbers),
            bConfigurationValue = value, iConfiguration = 0, bmAttributes_config = 0x80, bMaxPower = 250\<rparr> @ body)"

fun indexed :: "u8 \<Rightarrow> (u8 \<Rightarrow> 'a \<Rightarrow> test_transcript \<Rightarrow> test_transcript) \<Rightarrow> 'a list \<Rightarrow> test_transcript \<Rightarrow> test_transcript" where
  "indexed i f [] ts = ts"
| "indexed i f (x # xs) ts = indexed (i + 1) f xs (f i x ts)"

definition fixture_enumerate :: "byte list \<Rightarrow> byte list list \<Rightarrow> string list \<Rightarrow> u8 \<Rightarrow> test_transcript \<Rightarrow> test_transcript" where
  "fixture_enumerate device configurations strings configuration ts =
     (let ts = getDescriptor USB_DT_DEVICE 0 device 8 ts;
          ts = getDescriptor USB_DT_DEVICE 0 device (word_of_nat USB_DT_DEVICE_SIZE) ts;
          ts = indexed 0 (\<lambda>i c. getDescriptor USB_DT_CONFIG i c (word_of_nat (length c)) \<circ>
                                getDescriptor USB_DT_CONFIG i c (word_of_nat USB_DT_CONFIG_SIZE)) configurations ts;
          ts = getDescriptor USB_DT_STRING 0 [4, USB_DT_STRING, 0x09, 0x04] 255 ts;
          ts = indexed 0 (\<lambda>i s. getDescriptor USB_DT_STRING (i + 1) (stringDescriptor s) 255) strings ts
      in if configuration \<noteq> 0 then setConfiguration configuration ts else ts)"

section \<open>Enumeration on the bus\<close>

lemma getDescriptor_ok [simp]: "transcript_ok (getDescriptor ty i descriptor n ts) \<longleftrightarrow> transcript_ok ts"
proof -
  have "unat n < 65536" using unat_bound [of n] by simp
  then show ?thesis by (auto simp: getDescriptor_def Let_def)
qed

lemma indexed_ok:
  "(\<And>i x ts. transcript_ok ts \<Longrightarrow> transcript_ok (g i x ts)) \<Longrightarrow> transcript_ok ts \<Longrightarrow> transcript_ok (indexed i g xs ts)"
  by (induction xs arbitrary: i ts) simp_all

lemma enumerate_ok: "transcript_ok ts \<Longrightarrow> transcript_ok (fixture_enumerate device configurations strings v ts)"
  by (simp add: fixture_enumerate_def Let_def setConfiguration_def indexed_ok)

definition descriptor_read_setup :: "u8 \<Rightarrow> u8 \<Rightarrow> u16 \<Rightarrow> usb_setup_t" where
  "descriptor_read_setup ty index n = fixture_setup 0x80 USB_REQ_GET_DESCRIPTOR (push_bit 8 (ucast ty) OR ucast index)
     (if ty = USB_DT_STRING then 0x0409 else 0) n"

definition descriptor_event :: "u8 \<Rightarrow> u8 \<Rightarrow> byte list \<Rightarrow> u16 \<Rightarrow> device_event" where
  "descriptor_event ty index descriptor n = DeviceControlIn 0 (descriptor_read_setup ty index n) (take (unat n) descriptor)"

fun string_events :: "u8 \<Rightarrow> string list \<Rightarrow> device_event list" where
  "string_events i [] = []"
| "string_events i (s # ss) = descriptor_event USB_DT_STRING (i + 1) (stringDescriptor s) 255 # string_events (i + 1) ss"

definition enumeration_tail :: "string list \<Rightarrow> u8 \<Rightarrow> device_event list" where
  "enumeration_tail strings v = descriptor_event USB_DT_STRING 0 [4, USB_DT_STRING, 0x09, 0x04] 255 # string_events 0 strings @
     (if v \<noteq> 0 then [DeviceControlOut 0 (fixture_setup 0 USB_REQ_SET_CONFIGURATION (ucast v) 0 0) []] else [])"

lemma exchanged_control:
  "map exchanged (transcript_control s data ts) = map exchanged ts @ [control_event 0 s (take (unat (wLength s)) data)]"
  by (simp add: transcript_control_def exchanged_def)

lemma exchanged_descriptor:
  "map exchanged (getDescriptor ty i descriptor n ts) = map exchanged ts @ [descriptor_event ty i descriptor n]"
  by (simp add: getDescriptor_def Let_def exchanged_control descriptor_event_def descriptor_read_setup_def fixture_setup_def control_event_def)

lemma take_whole: "descriptor_event ty i descriptor (word_of_nat (length descriptor)) =
    DeviceControlIn 0 (descriptor_read_setup ty i (word_of_nat (length descriptor))) descriptor"
  if "length descriptor < 65536"
  using that by (simp add: descriptor_event_def unat_of_nat)

lemma exchanged_strings:
  "map exchanged (indexed i (\<lambda>i s. getDescriptor USB_DT_STRING (i + 1) (stringDescriptor s) 255) ss ts) =
     map exchanged ts @ string_events i ss"
  by (induction ss arbitrary: i ts) (simp_all add: exchanged_descriptor)

lemma exchanged_enumerate:
  "map exchanged (fixture_enumerate device [conf] strings v ts) =
     (map exchanged ts @ [descriptor_event USB_DT_DEVICE 0 device 8]) @
     [descriptor_event USB_DT_DEVICE 0 device (word_of_nat USB_DT_DEVICE_SIZE)] @
     [descriptor_event USB_DT_CONFIG 0 conf (word_of_nat USB_DT_CONFIG_SIZE)] @
     [descriptor_event USB_DT_CONFIG 0 conf (word_of_nat (length conf))] @ enumeration_tail strings v"
  by (simp add: fixture_enumerate_def Let_def exchanged_descriptor exchanged_strings setConfiguration_def exchanged_control
      enumeration_tail_def) (simp add: fixture_setup_def control_event_def)

lemma descriptor_type: "drop_bit 8 (push_bit 8 (ucast ty) OR ucast index :: u16) = ucast (ty :: u8)" for index :: u8
  by (rule bit_word_eqI) (auto simp: bit_simps dest: bit_imp_le_length)

lemma reads_descriptor:
  "gets_descriptor t (descriptor_read_setup ty index n) \<longleftrightarrow> t = ucast ty"
  by (auto simp: gets_descriptor_def descriptor_read_setup_def fixture_setup_def descriptor_type [simplified])

lemma descriptor_event_quiet:
  "ty = USB_DT_STRING \<or> ty = USB_DT_DEVICE \<and> n < 18 \<or> ty = USB_DT_CONFIG \<and> n \<le> 9 \<Longrightarrow> quiet (descriptor_event ty index descriptor n)"
  by (auto simp: descriptor_event_def reads_descriptor word_less_nat_alt word_le_nat_alt)

lemma standard_no_call: "dfu_call c (descriptor_event ty index descriptor n) = []"
  by (simp add: descriptor_event_def descriptor_read_setup_def fixture_setup_def)

lemma enumeration_tail_quiet: "list_all quiet (enumeration_tail strings v)" "dfu_calls c (enumeration_tail strings v) = []"
proof -
  have "list_all quiet (string_events i strings) \<and> dfu_calls c (string_events i strings) = []" for i
    by (induction strings arbitrary: i) (simp_all add: descriptor_event_quiet standard_no_call dfu_calls_def)
  then show "list_all quiet (enumeration_tail strings v)" "dfu_calls c (enumeration_tail strings v) = []"
    by (simp_all add: enumeration_tail_def descriptor_event_quiet dfu_calls_def standard_no_call fixture_setup_def)
qed

section \<open>Tests of descriptors\<close>

text \<open>
  \<open>test_Device.cpp\<close>: what the session of an address shows after the transcripts of three of its tests.  A string that is
  read again in part keeps its value, a BOS descriptor is kept when it is complete, and an answer of the wrong type is
  flagged.
\<close>

definition test_strings :: test_transcript where
  "test_strings =
     (let product = [12, USB_DT_STRING, 105, 0, 0xE9, 0x00, 0x3C, 0xD8, 0x4E, 0xDF, 33, 0];
          ts = getDescriptor USB_DT_DEVICE 0 (deviceDescriptor APPLE_VID 0x12A8 0x0100 1) (word_of_nat USB_DT_DEVICE_SIZE) [];
          ts = getDescriptor USB_DT_STRING 2 product 255 ts
      in getDescriptor USB_DT_STRING 2 product 2 ts)"

definition test_bos :: test_transcript where
  "test_bos =
     (let bos = [5, USB_DT_BOS, 12, 0, 1, 7, 16, 2, 0x06, 0, 0, 0];
          ts = getDescriptor USB_DT_DEVICE 0 (deviceDescriptor APPLE_VID 0x12A8 0x0100 1) (word_of_nat USB_DT_DEVICE_SIZE) [];
          ts = getDescriptor USB_DT_BOS 0 bos 5 ts
      in getDescriptor USB_DT_BOS 0 bos 12 ts)"

definition test_mismatched :: test_transcript where
  "test_mismatched = transcript_control (fixture_setup 0x80 USB_REQ_GET_DESCRIPTOR (push_bit 8 (ucast USB_DT_DEVICE)) 0 18)
     (stringDescriptor ''not a device descriptor'') []"

definition sessions_of :: "'p plist_api \<Rightarrow> test_transcript \<Rightarrow> 'p device list option" where
  "sessions_of api ts = run_opt (session_step api 5) (map exchanged ts) [new_device 5]"

lemma test_strings_decode_utf16:
  "map_option (map (\<lambda>d. (map of_char (getProduct d) :: byte list, getManufacturer d))) (sessions_of api test_strings) =
     Some [([105, 0xC3, 0xA9, 0xF0, 0x9F, 0x8D, 0x8E, 33], ''<unknown>'')]"
  by code_simp

lemma test_bos_descriptor_is_kept:
  "map_option (map (\<lambda>d. map (\<lambda>b. (bNumDeviceCaps (bos_header b), length (bos_data b))) (getBOSDescriptors d)))
     (sessions_of api test_bos) = Some [[(1, 7)]]"
  by code_simp

lemma test_mismatched_descriptor_type_is_flagged:
  "map_option (map (\<lambda>d. (length (getAnomalies d), hasDeviceDescriptor d, getIdentifier d, getControlPacketCount d)))
     (sessions_of api test_mismatched) = Some [(1, False, 5, 1)]"
  by code_simp

end
