(* ===== verification/Test_DFU.thy ===== *)
theory Test_DFU
  imports Test_Fixtures
begin

text \<open>
  The firmware test of the suite (\<open>test_DFU.cpp\<close>), proved for every image: the download it scripts, the events of its
  capture, and what the expert of the device has learnt at the end.
\<close>

section \<open>The firmware test\<close>

text \<open>\<open>test_DFU.cpp\<close>: a device in DFU mode, and a download in blocks of its transfer size.\<close>

definition TRANSFER_SIZE :: nat where "TRANSFER_SIZE = 0x800"

definition dfuFunctionalDescriptor :: "u16 \<Rightarrow> byte list" where
  "dfuFunctionalDescriptor transferSize = [9, USB_DT_DFU_FUNCTIONAL, 0x0B] @ enc16 0x0A @ enc16 transferSize @ enc16 0x0110"

definition dfuDevice :: test_transcript where
  "dfuDevice = fixture_enumerate (deviceDescriptor APPLE_VID IRECV_K_DFU_MODE 0x0100 1)
     [configDescriptor 1 [\<lparr>fx_number = 0, fx_alternate = 0, fx_class = USB_CLASS_DFU, fx_subclass = USB_SUBCLASS_DFU, fx_protocol = 0,
        fx_endpoints = [], fx_extra = dfuFunctionalDescriptor (word_of_nat TRANSFER_SIZE)\<rparr>]]
     [''Apple Inc.'', ''Apple Mobile Device (DFU Mode)'',
      ''CPID:8101 CPRV:10 CPFM:03 SCEP:01 BDID:0C ECID:001234567890001E IBFL:3C SRTG:[iBoot-4479.0.0.100.4]''] 1 []"

definition getStatusResponse :: "u8 \<Rightarrow> u8 \<Rightarrow> byte list" where
  "getStatusResponse status state = [status, 0, 0, 0, state, 0]"

definition get_status :: "u8 \<Rightarrow> test_transcript \<Rightarrow> test_transcript" where
  "get_status state = transcript_control (fixture_setup 0xA1 DFU_GETSTATUS 0 0 6) (getStatusResponse 0 state)"

function download_loop :: "byte list \<Rightarrow> nat \<Rightarrow> nat \<Rightarrow> test_transcript \<Rightarrow> test_transcript" where
  "download_loop img offset block ts =
     (if offset < length img then
        let stop = min (length img) (offset + TRANSFER_SIZE); chunk = take (stop - offset) (drop offset img) in
        download_loop img (offset + TRANSFER_SIZE) (block + 1)
          (get_status 5 (transcript_control (fixture_setup 0x21 DFU_DNLOAD (word_of_nat block) 0 (word_of_nat (length chunk))) chunk ts))
      else ts)"
  by pat_completeness auto
termination
  by (relation "measure (\<lambda>(img, offset, block, ts). length img - offset)") (auto simp: TRANSFER_SIZE_def)

declare download_loop.simps [simp del]

definition download :: "byte list \<Rightarrow> test_transcript \<Rightarrow> test_transcript" where
  "download img ts =
     (let ts = download_loop img 0 0 ts; ts = transcript_control (fixture_setup 0x21 DFU_DNLOAD 0 0 0) [] ts
      in get_status 8 (get_status 7 (get_status 6 ts)))"

section \<open>Blocks\<close>

definition dfu_test_conf :: "byte list" where
  "dfu_test_conf = configDescriptor 1 [\<lparr>fx_number = 0, fx_alternate = 0, fx_class = USB_CLASS_DFU, fx_subclass = USB_SUBCLASS_DFU,
     fx_protocol = 0, fx_endpoints = [], fx_extra = dfuFunctionalDescriptor (word_of_nat TRANSFER_SIZE)\<rparr>]"

lemma dfu_test_conf: "dfu_test_conf = [9, 2, 27, 0, 1, 1, 0, 0x80, 250, 9, 4, 0, 0, 0, 0xFE, 1, 0, 0, 9, 0x21, 0x0B, 0x0A, 0, 0, 8, 0x10, 1]"
  by code_simp

lemma dfu_test_configuration:
  "\<exists>c. answered_configuration dfu_test_conf = Some c \<and> map number_of (interfaces c) = [0] \<and>
    has_dfu_descriptor c \<and> wTransferSize (decode_dfu_descriptor (dfu_descriptor c)) = 0x800"
proof -
  let ?parts = "[take 9 dfu_test_conf, take 9 (drop 9 dfu_test_conf), drop 18 dfu_test_conf]"
  have n: "unat (wTotalLength (decode_config_descriptor (take 9 dfu_test_conf))) = 27"
    by (simp add: dfu_test_conf decode_config_descriptor_def field_def)
  have "\<forall>d \<in> set ?parts. acceptable d \<and> descriptor_length d = length d"
    by (simp add: dfu_test_conf acceptable_def descriptor_length_def)
  then have "split_descriptors (concat ?parts @ []) = (?parts, [])" by (rule split_descriptors_of_parts) simp
  then have "split_descriptors (take 27 dfu_test_conf) = (?parts, [])" by (simp add: dfu_test_conf)
  then show ?thesis
    using n by (simp add: answered_configuration_def add_descriptor_def new_usb_configuration_def)
      (simp add: dfu_test_conf decode_interface_descriptor_def decode_dfu_descriptor_def field_def overlay_def is_dfu_interface_def)
qed

definition status_event :: "u8 \<Rightarrow> device_event" where
  "status_event state = DeviceControlIn 0 (fixture_setup 0xA1 DFU_GETSTATUS 0 0 6) (getStatusResponse 0 state)"

definition dnload_event :: "nat \<Rightarrow> byte list \<Rightarrow> device_event" where
  "dnload_event block chunk = DeviceControlOut 0 (fixture_setup 0x21 DFU_DNLOAD (word_of_nat block) 0 (word_of_nat (length chunk))) chunk"

function block_events :: "byte list \<Rightarrow> nat \<Rightarrow> device_event list" where
  "block_events img block =
     (if img = [] then []
      else [dnload_event block (take TRANSFER_SIZE img), status_event 5] @ block_events (drop TRANSFER_SIZE img) (block + 1))"
  by pat_completeness auto
termination
  by (relation "measure (\<lambda>(img, block). length img)") (auto simp: TRANSFER_SIZE_def)

declare block_events.simps [simp del]

lemma exchanged_status: "map exchanged (get_status state ts) = map exchanged ts @ [status_event state]"
  by (simp add: get_status_def exchanged_control status_event_def fixture_setup_def control_event_def getStatusResponse_def)

lemma exchanged_dnload:
  "length chunk < 65536 \<Longrightarrow>
   map exchanged (transcript_control (fixture_setup 0x21 DFU_DNLOAD (word_of_nat block) 0 (word_of_nat (length chunk))) chunk ts) =
     map exchanged ts @ [dnload_event block chunk]"
  by (simp add: exchanged_control dnload_event_def fixture_setup_def control_event_def take_bit_nat_eq_self unat_of_nat)

lemma download_loop_step:
  assumes "offset < length img"
  defines "chunk \<equiv> take TRANSFER_SIZE (drop offset img)"
  shows "download_loop img offset block ts = download_loop img (offset + TRANSFER_SIZE) (block + 1)
    (get_status 5 (transcript_control (fixture_setup 0x21 DFU_DNLOAD (word_of_nat block) 0 (word_of_nat (length chunk))) chunk ts))"
proof -
  have "take (min (length img) (offset + TRANSFER_SIZE) - offset) (drop offset img) = chunk"
    by (simp add: chunk_def min_def)
  with assms(1) show ?thesis by (subst download_loop.simps) (simp only: if_True Let_def)
qed

lemma small_chunk: "length (take TRANSFER_SIZE xs) < 65536" "length (take TRANSFER_SIZE xs) \<le> 0xFFFFFE00"
  by (simp_all add: TRANSFER_SIZE_def min_def)

lemma exchanged_loop:
  "map exchanged (download_loop img offset block ts) = map exchanged ts @ block_events (drop offset img) block"
proof (induction "length img - offset" arbitrary: offset block ts rule: less_induct)
  case less
  show ?case
  proof (cases "offset < length img")
    case True
    then have "length img - (offset + TRANSFER_SIZE) < length img - offset" by (simp add: TRANSFER_SIZE_def)
    from less [OF this] True show ?thesis
      by (simp add: download_loop_step exchanged_status exchanged_dnload small_chunk del: length_take)
        (simp add: block_events.simps [of "drop offset img"] add.commute)
  next
    case False
    then show ?thesis by (simp add: download_loop.simps block_events.simps)
  qed
qed

lemma exchanged_download:
  "map exchanged (download img ts) =
     map exchanged ts @ block_events img 0 @ [dnload_event 0 []] @ [status_event 6, status_event 7, status_event 8]"
  using exchanged_dnload [of "[]" 0]
  by (simp add: download_def Let_def exchanged_status exchanged_loop)

lemma download_ok: "transcript_ok (download img ts) \<longleftrightarrow> transcript_ok ts"
proof -
  have status: "transcript_ok (get_status state ts) = transcript_ok ts" for state ts
    by (simp add: get_status_def getStatusResponse_def)
  have "transcript_ok (download_loop img offset block ts) = transcript_ok ts" for offset block ts
  proof (induction "length img - offset" arbitrary: offset block ts rule: less_induct)
    case less
    show ?case
    proof (cases "offset < length img")
      case True
      then have "length img - (offset + TRANSFER_SIZE) < length img - offset" by (simp add: TRANSFER_SIZE_def)
      from less [OF this] True show ?thesis
        by (simp add: download_loop_step status small_chunk del: length_take)
    qed (simp add: download_loop.simps)
  qed
  then show ?thesis by (simp add: download_def Let_def status)
qed

text \<open>What the expert of a device with one interface is told.\<close>

lemma download_calls:
  assumes "map number_of (interfaces c) = [0]"
  shows "dfu_call c (dnload_event block chunk) =
      [ControlOut (fixture_setup 0x21 DFU_DNLOAD (word_of_nat block) 0 (word_of_nat (length chunk))) chunk]"
    and "dfu_call c (status_event state) = [ControlIn (fixture_setup 0xA1 DFU_GETSTATUS 0 0 6) (getStatusResponse 0 state)]"
proof -
  have "addressed c (fixture_setup rt r v 0 n)" for rt r v n
    using assms by (auto simp: addressed_def fixture_setup_def)
  then show "dfu_call c (dnload_event block chunk) =
      [ControlOut (fixture_setup 0x21 DFU_DNLOAD (word_of_nat block) 0 (word_of_nat (length chunk))) chunk]"
    "dfu_call c (status_event state) = [ControlIn (fixture_setup 0xA1 DFU_GETSTATUS 0 0 6) (getStatusResponse 0 state)]"
    by (simp_all add: dnload_event_def status_event_def) (simp_all add: fixture_setup_def)
qed

fun is_control :: "device_event \<Rightarrow> bool" where
  "is_control (DeviceControlIn endpoint s data) = True"
| "is_control (DeviceControlOut endpoint s data) = True"
| "is_control _ = False"

lemma download_quiet: "quiet (dnload_event block chunk)" "quiet (status_event state)"
    "is_control (dnload_event block chunk)" "is_control (status_event state)"
  by (simp_all add: dnload_event_def status_event_def gets_descriptor_def) (simp add: fixture_setup_def)

lemma fixture_class_request [simp]:
  "is_class_request (fixture_setup 0x21 r v i k)" "bRequest (fixture_setup rt r v i k) = r" "wLength (fixture_setup rt r v i k) = k"
  by (simp_all add: is_class_request_def fixture_setup_def)

definition closing_events :: "device_event list" where
  "closing_events = [status_event 6, status_event 7, status_event 8]"

lemma chunk_length:
  assumes "img \<noteq> []"
  shows "unat (word_of_nat (length (take TRANSFER_SIZE img)) :: u16) = length (take TRANSFER_SIZE img)"
    and "(word_of_nat (length (take TRANSFER_SIZE img)) :: u16) \<noteq> 0"
    and "(word_of_nat (length (take TRANSFER_SIZE img)) :: u16) \<le> 0x800"
proof -
  let ?n = "length (take TRANSFER_SIZE img)"
  have n: "?n < 65536" "?n \<le> 0x800" "?n \<noteq> 0" using assms by (simp_all add: TRANSFER_SIZE_def min_def)
  then show u: "unat (word_of_nat ?n :: u16) = ?n" by (simp only: unat_of_nat) simp
  then show "(word_of_nat ?n :: u16) \<noteq> 0" using n(3) by (metis unsigned_0)
  have "unat (word_of_nat ?n :: u16) \<le> unat (0x800 :: u16)" unfolding u using n(2) by simp
  then show "(word_of_nat ?n :: u16) \<le> 0x800" by (simp only: word_le_nat_alt)
qed

lemma dfu_calls_append: "dfu_calls c (xs @ ys) = dfu_calls c xs @ dfu_calls c ys"
  by (simp add: dfu_calls_def)

lemma block_calls:
  assumes "map number_of (interfaces c) = [0]"
  shows "list_all quiet (block_events img block) \<and> list_all is_control (block_events img block) \<and>
    list_all (\<lambda>x. \<not> ends_image x) (dfu_calls c (block_events img block)) \<and>
    concat (map downloaded (dfu_calls c (block_events img block))) = img"
proof (induction img block rule: block_events.induct)
  case (1 img block)
  show ?case
  proof (cases "img = []")
    case True
    then show ?thesis by (simp add: block_events.simps dfu_calls_def)
  next
    case False
    with 1 [OF False] chunk_length(2) [OF False] download_calls [OF assms] show ?thesis
      by (simp add: block_events.simps [of img] dfu_calls_def download_quiet)
  qed
qed

section \<open>The expert on its own\<close>

lemma dfu_control_step:
  assumes "dfu_device c images current d" and "m_experts d = [ExpertDFU e]" and "quiet ev" and "is_control ev"
  shows "\<exists>d' e'. device_step api ev d = Some d' \<and> m_experts d' = [ExpertDFU e'] \<and> run_opt dfu_step (dfu_call c ev) e = Some e'"
proof -
  have ok: "device_ok d" using assms(1) by (simp add: dfu_device_def)
  obtain d' where d': "device_step api ev d = Some d'" "length (m_experts d') = 1"
    and run: "run_opt (virtual_step api) (calls_for 0 d [ev]) (ExpertDFU e) = Some (m_experts d' ! 0)"
    using quiet_step [OF ok assms(3), of api] assms(2) by auto
  have "\<not> is_bulk_call x" if "calls_for 0 d [ev] = [x]" for x
    using that assms(4) by (cases ev) (auto split: if_splits)
  then have calls: "calls_for 0 d [ev] = dfu_call c ev"
    using dfu_device_calls [OF assms(1), of ev] by auto
  have experts: "m_experts d' = [m_experts d' ! 0]" using d'(2) by (cases "m_experts d'") auto
  show ?thesis
  proof (cases "dfu_call c ev")
    case Nil
    with run calls d'(1) experts show ?thesis by auto
  next
    case (Cons x xs)
    then have one: "dfu_call c ev = [x]" by (cases ev) (auto split: if_splits)
    with run calls obtain e' where "dfu_step x e = Some e'" "m_experts d' ! 0 = ExpertDFU e'"
      by (cases "dfu_step x e") (simp_all add: virtual_step_eq)
    with one d'(1) experts show ?thesis by auto
  qed
qed

lemma dfu_control_run:
  "dfu_device c images current d \<Longrightarrow> m_experts d = [ExpertDFU e] \<Longrightarrow> list_all quiet evs \<Longrightarrow> list_all is_control evs \<Longrightarrow>
   \<exists>d' e'. run_opt (device_step api) evs d = Some d' \<and> m_experts d' = [ExpertDFU e'] \<and> run_opt dfu_step (dfu_calls c evs) e = Some e'"
proof (induction evs arbitrary: images current d e)
  case Nil
  then show ?case by (simp add: dfu_calls_def)
next
  case (Cons ev evs)
  have ev: "quiet ev" "is_control ev" using Cons.prems by simp_all
  obtain d1 e1 where d1: "device_step api ev d = Some d1" "m_experts d1 = [ExpertDFU e1]" "run_opt dfu_step (dfu_call c ev) e = Some e1"
    using dfu_control_step [OF Cons.prems(1,2) ev] by blast
  have "\<exists>images' current'. dfu_device c images' current' d1"
    using dfu_device_step [OF Cons.prems(1) ev(1), of api] d1(1) by (auto split: if_splits)
  then obtain images' current' where "dfu_device c images' current' d1" by blast
  with Cons.IH [OF this d1(2)] Cons.prems(3,4) d1 show ?case by (simp add: dfu_calls_def run_opt_append)
qed

text \<open>A download within the transfer size is no anomaly, and the last status is kept.\<close>

lemma within_transfer_size:
  assumes "dfu_step (ControlOut (fixture_setup 0x21 DFU_DNLOAD v 0 n) data) e = Some e'" and "length data = unat n"
    and "n \<le> m_transferSize e"
  shows "m_dfuAnomalies e' = m_dfuAnomalies e \<and> m_transferSize e' = m_transferSize e"
  using assms
  by (auto simp: dfu_step_def dfu_processControlOut_def fixture_setup_def is_class_request_def count_request_def
      base_processControlOut_def Let_def)

lemma status_received:
  assumes "dfu_step (ControlIn (fixture_setup 0xA1 DFU_GETSTATUS 0 0 6) (getStatusResponse 0 state)) e = Some e'"
  shows "m_dfuAnomalies e' = m_dfuAnomalies e \<and> m_transferSize e' = m_transferSize e \<and>
    m_lastState e' = uint state \<and> m_lastStatus e' = 0"
  using assms
  by (auto simp: dfu_step_def dfu_processControlIn_def fixture_setup_def is_class_request_def count_request_def
      base_processControlIn_def getStatusResponse_def Let_def)

lemma blocks_received:
  assumes "map number_of (interfaces c) = [0]"
  shows "run_opt dfu_step (dfu_calls c (block_events img block)) e = Some e' \<Longrightarrow> m_transferSize e = 0x800 \<Longrightarrow>
    m_dfuAnomalies e' = m_dfuAnomalies e \<and> m_transferSize e' = 0x800"
proof (induction img block arbitrary: e rule: block_events.induct)
  case (1 img block)
  show ?case
  proof (cases "img = []")
    case True
    with 1(2,3) show ?thesis by (simp add: block_events.simps dfu_calls_def)
  next
    case False
    let ?chunk = "take TRANSFER_SIZE img"
    have "dfu_calls c (block_events img block) =
        [ControlOut (fixture_setup 0x21 DFU_DNLOAD (word_of_nat block) 0 (word_of_nat (length ?chunk))) ?chunk,
         ControlIn (fixture_setup 0xA1 DFU_GETSTATUS 0 0 6) (getStatusResponse 0 5)] @
        dfu_calls c (block_events (drop TRANSFER_SIZE img) (block + 1))"
      using False download_calls [OF assms] by (simp add: block_events.simps [of img] dfu_calls_def)
    with 1(2) obtain e1 e2 where e1: "dfu_step (ControlOut (fixture_setup 0x21 DFU_DNLOAD (word_of_nat block) 0 (word_of_nat (length ?chunk))) ?chunk) e = Some e1"
      and e2: "dfu_step (ControlIn (fixture_setup 0xA1 DFU_GETSTATUS 0 0 6) (getStatusResponse 0 5)) e1 = Some e2"
      and rest: "run_opt dfu_step (dfu_calls c (block_events (drop TRANSFER_SIZE img) (block + 1))) e2 = Some e'"
      by (auto elim!: bind_Some_elim simp del: length_take)
    from within_transfer_size [OF e1] status_received [OF e2] chunk_length [OF False] 1(3)
    have "m_dfuAnomalies e2 = m_dfuAnomalies e \<and> m_transferSize e2 = 0x800" by simp
    with 1(1) [OF False rest] show ?thesis by simp
  qed
qed

lemma closing_received:
  assumes "map number_of (interfaces c) = [0]" and "run_opt dfu_step (dfu_calls c (dnload_event 0 [] # closing_events)) e = Some e'"
  shows "m_dfuAnomalies e' = m_dfuAnomalies e \<and> m_lastState e' = 8 \<and> m_lastStatus e' = 0"
proof -
  let ?status = "\<lambda>state. ControlIn (fixture_setup 0xA1 DFU_GETSTATUS 0 0 6) (getStatusResponse 0 state)"
  have "dfu_calls c (dnload_event 0 [] # closing_events) =
      [ControlOut (fixture_setup 0x21 DFU_DNLOAD 0 0 0) [], ?status 6, ?status 7, ?status 8]"
    using download_calls [OF assms(1)] by (simp add: dfu_calls_def closing_events_def)
  with assms(2) obtain e1 e2 e3 where "dfu_step (ControlOut (fixture_setup 0x21 DFU_DNLOAD 0 0 0) []) e = Some e1"
      "dfu_step (?status 6) e1 = Some e2" "dfu_step (?status 7) e2 = Some e3" "dfu_step (?status 8) e3 = Some e'"
    by (auto elim!: bind_Some_elim)
  then show ?thesis
    using within_transfer_size [of 0 0 "[]" e e1] status_received [of 6 e1 e2] status_received [of 7 e2 e3] status_received [of 8 e3 e']
    by simp
qed

lemma dfu_device_single:
  assumes "dfu_device c [img] [] d" and "map number_of (interfaces c) = [0]"
  shows "\<exists>e. device_experts d = Some [ExpertDFU e] \<and> m_experts d = [ExpertDFU e] \<and> getImages e = [img] \<and>
    dfu_getArtifacts e = [\<lparr>artifact_name = ''dfu-image-0.bin'', artifact_data = img\<rparr>]"
proof -
  obtain i where i: "interfaces c = [i]" using assms(2) by auto
  obtain v e where d: "device_ok d" "m_configurations d = [(v, c\<lparr>interfaces := [set_expert 0 i]\<rparr>)]" "m_experts d = [ExpertDFU e]"
    "m_images e = [img]" "m_currentImage e = []"
    using assms(1) i by (auto simp: dfu_device_def)
  have "getExperts d = [0]"
    by (simp add: getExperts_def om_values_def d(2) see_expert_def set_expert_def)
  then have "device_experts d = Some [ExpertDFU e]" using device_experts_ok [OF d(1)] d(3) by simp
  moreover have "dec 0 = ''0''" by code_simp
  ultimately show ?thesis using d(3-5)
    by (simp add: dfu_getArtifacts_def getImages_def dfu_artifact_def)
qed

lemma quiet_run_identity:
  "device_ok d \<Longrightarrow> list_all quiet evs \<Longrightarrow> run_opt (device_step api) evs d = Some d' \<Longrightarrow> same_identity d d'"
proof (induction evs arbitrary: d)
  case Nil
  then show ?case by (simp add: same_identity_def)
next
  case (Cons ev evs)
  then obtain d1 where d1: "device_step api ev d = Some d1" "run_opt (device_step api) evs d1 = Some d'"
    by (auto elim!: bind_Some_elim)
  moreover have "device_ok d1 \<and> same_identity d d1"
    using quiet_step [OF Cons.prems(1), of ev api] Cons.prems(2) d1(1) by auto
  ultimately show ?case using Cons.IH [OF _ _ d1(2)] Cons.prems(2) by (auto simp: same_identity_def)
qed


lemma device_descriptor_kept:
  assumes "dfu_mode_descriptor data" and "gets_descriptor 1 s" and "USB_ENDPOINT_ID ep = 0"
    and "device_step api (DeviceControlIn ep s data) d = Some d'"
  shows "m_hasDeviceDescriptor d' \<and> m_deviceDescriptor d' = decode_device_descriptor (take 18 data)"
  using assms(4) device_descriptor_read [OF assms(2), of data "count_control data d"] assms(1)
  by (auto simp: descriptor_read [OF assms(2,3)] dfu_mode_descriptor_def process_device_descriptor_def USB_DT_DEVICE_SIZE_def)

lemma configuration_keeps_identity:
  assumes "gets_descriptor 2 s" and "USB_ENDPOINT_ID ep = 0" and "answered_configuration data = Some c" and "device_ok d"
    and "device_step api (DeviceControlIn ep s data) d = Some d'"
  shows "m_hasDeviceDescriptor d' = m_hasDeviceDescriptor d \<and> m_deviceDescriptor d' = m_deviceDescriptor d"
proof -
  have n: "9 \<le> length data" "data ! 1 = USB_DT_CONFIG"
    using assms(3) by (auto simp: answered_configuration_def Let_def split: if_splits)
  have ok: "device_ok (count_control data d)" using assms(4) by (simp add: device_ok_def count_control_def)
  show ?thesis
    using assms(5) configuration_read [OF assms(1) n, of "count_control data d"] process_config_descriptor_ok [OF ok, of data]
    by (auto simp: descriptor_read [OF assms(1,2)] count_control_def)
qed

definition dfu_test_descriptor :: "byte list" where
  "dfu_test_descriptor = deviceDescriptor APPLE_VID IRECV_K_DFU_MODE 0x0100 1"

lemma dfu_test_descriptor: "dfu_test_descriptor = [18, 1, 0, 2, 0, 0, 0, 64, 0xAC, 0x05, 0x27, 0x12, 0, 1, 1, 2, 3, 1]"
  by code_simp

lemma dfu_test_mode: "dfu_mode_descriptor dfu_test_descriptor"
    "idVendor (decode_device_descriptor (take 18 dfu_test_descriptor)) = APPLE_VID"
    "idProduct (decode_device_descriptor (take 18 dfu_test_descriptor)) = IRECV_K_DFU_MODE"
  by (simp_all add: dfu_mode_descriptor_def dfu_test_descriptor decode_device_descriptor_def field_def)

text \<open>The answers that matter: the whole device descriptor and the whole configuration.\<close>

definition dfu_test_reads :: "usb_setup_t \<times> usb_setup_t" where
  "dfu_test_reads = (descriptor_read_setup USB_DT_DEVICE 0 (word_of_nat USB_DT_DEVICE_SIZE),
     descriptor_read_setup USB_DT_CONFIG 0 (word_of_nat (length dfu_test_conf)))"

lemma dfu_test_reads: "gets_descriptor 1 (fst dfu_test_reads)" "gets_descriptor 2 (snd dfu_test_reads)"
  by (simp_all add: dfu_test_reads_def reads_descriptor)

definition dfu_test_tail :: "device_event list" where
  "dfu_test_tail = enumeration_tail [''Apple Inc.'', ''Apple Mobile Device (DFU Mode)'',
      ''CPID:8101 CPRV:10 CPFM:03 SCEP:01 BDID:0C ECID:001234567890001E IBFL:3C SRTG:[iBoot-4479.0.0.100.4]''] 1"

lemma dfu_test_exchanged:
  "\<exists>e1 e3. quiet e1 \<and> quiet e3 \<and> map exchanged (download img dfuDevice) =
     [e1] @ [DeviceControlIn 0 (fst dfu_test_reads) dfu_test_descriptor] @ [e3] @
     [DeviceControlIn 0 (snd dfu_test_reads) dfu_test_conf] @ (dfu_test_tail @ block_events img 0) @
     [dnload_event 0 []] @ closing_events"
proof (intro exI conjI)
  let ?e1 = "descriptor_event USB_DT_DEVICE 0 dfu_test_descriptor 8"
  let ?e3 = "descriptor_event USB_DT_CONFIG 0 dfu_test_conf (word_of_nat USB_DT_CONFIG_SIZE)"
  show "quiet ?e1" "quiet ?e3" by (simp_all add: descriptor_event_quiet USB_DT_CONFIG_SIZE_def)
  have "length dfu_test_descriptor = USB_DT_DEVICE_SIZE" "length dfu_test_conf < 65536" "USB_DT_DEVICE_SIZE < 65536"
    by (simp_all add: dfu_test_descriptor dfu_test_conf USB_DT_DEVICE_SIZE_def)
  then have e: "descriptor_event USB_DT_DEVICE 0 dfu_test_descriptor (word_of_nat USB_DT_DEVICE_SIZE) =
      DeviceControlIn 0 (fst dfu_test_reads) dfu_test_descriptor"
    "descriptor_event USB_DT_CONFIG 0 dfu_test_conf (word_of_nat (length dfu_test_conf)) = DeviceControlIn 0 (snd dfu_test_reads) dfu_test_conf"
    using take_whole [of dfu_test_descriptor] take_whole [of dfu_test_conf] by (simp_all add: dfu_test_reads_def)
  show "map exchanged (download img dfuDevice) =
     [?e1] @ [DeviceControlIn 0 (fst dfu_test_reads) dfu_test_descriptor] @ [?e3] @
     [DeviceControlIn 0 (snd dfu_test_reads) dfu_test_conf] @ (dfu_test_tail @ block_events img 0) @
     [dnload_event 0 []] @ closing_events"
    by (simp only: exchanged_download closing_events_def dfuDevice_def exchanged_enumerate dfu_test_conf_def [symmetric] dfu_test_descriptor_def [symmetric]
        dfu_test_tail_def [symmetric] e list.map append_assoc append_Nil)
qed


lemma closing_calls:
  assumes "map number_of (interfaces c) = [0]"
  shows "list_ex ends_image (dfu_call c (dnload_event 0 []))"
    and "list_all quiet closing_events" "list_all is_control closing_events"
    and "\<forall>x \<in> set (dfu_calls c closing_events). downloaded x = [] \<and> \<not> ends_image x"
  using download_calls [OF assms] by (simp_all add: closing_events_def download_quiet dfu_calls_def)

lemma enumerated_in_dfu_mode:
  assumes "quiet e1" "quiet e3" and "gets_descriptor 1 s1" "dfu_mode_descriptor descriptor"
    and "gets_descriptor 2 s2" "answered_configuration conf = Some c"
  shows "\<exists>d. run_opt (session_step api i) [e1, DeviceControlIn 0 s1 descriptor, e3, DeviceControlIn 0 s2 conf] [new_device i] = Some [d] \<and>
    dfu_device c [] [] d \<and> m_experts d = [make_dfu c 0] \<and> m_hasDeviceDescriptor d \<and> m_deviceDescriptor d = decode_device_descriptor (take 18 descriptor)"
proof -
  define new where "new = (new_device i :: 'a device)"
  have u0: "unknown_device new" "\<not> m_hasDeviceDescriptor new"
    by (simp add: unknown_device_def new_def) (simp_all add: new_def new_device_def)
  obtain d1 where d1: "device_step api e1 new = Some d1" "unknown_device d1" "same_identity new d1"
    using quiet_unknown [OF u0(1) assms(1)] by blast
  obtain d2 where d2: "device_step api (DeviceControlIn 0 s1 descriptor) d1 = Some d2" "unknown_device d2" "isAppleDFU d2"
    using dfu_descriptor_read [OF d1(2) assms(4,3), of 0 api] by auto
  obtain d3 where d3: "device_step api e3 d2 = Some d3" "unknown_device d3" "same_identity d2 d3"
    using quiet_unknown [OF d2(2) assms(2)] by blast
  have "isAppleDFU d3" using d2(3) d3(3) by (simp add: isAppleDFU_def same_identity_def)
  then obtain d4 where d4: "device_step api (DeviceControlIn 0 s2 conf) d3 = Some d4" "dfu_device c [] [] d4" "m_experts d4 = [make_dfu c 0]"
    using dfu_configuration_read [OF d3(2) _ assms(6,5), of 0 api] by auto
  have "\<not> opens_session (DeviceControlIn 0 s1 descriptor) d1" "\<not> opens_session (DeviceControlIn 0 s2 conf) d3"
    using d1(3) u0(2) assms(5) by (auto simp: same_identity_def gets_descriptor_def reenumerates_def isControlDescriptorRead_def)
  note steps = session_single [OF d1(1) quiet_no_session [OF assms(1)], of i] session_single [OF d2(1) this(1), of i]
    session_single [OF d3(1) quiet_no_session [OF assms(2)], of i] session_single [OF d4(1) this(2), of i]
  have "m_hasDeviceDescriptor d3 \<and> m_deviceDescriptor d3 = decode_device_descriptor (take 18 descriptor)"
    using device_descriptor_kept [OF assms(4,3) _ d2(1)] d3(3) by (simp add: same_identity_def)
  then have "m_hasDeviceDescriptor d4 \<and> m_deviceDescriptor d4 = decode_device_descriptor (take 18 descriptor)"
    using configuration_keeps_identity [OF assms(5) _ assms(6) _ d4(1)] d3(2) by (simp add: unknown_device_def)
  with d4(2,3) show ?thesis by (simp add: steps new_def [symmetric])
qed

lemma image_sent:
  assumes "dfu_device c [] [] d" and "list_all quiet blocks" "list_all (\<lambda>x. \<not> ends_image x) (dfu_calls c blocks)"
    and "img = concat (map downloaded (dfu_calls c blocks))" "img \<noteq> []"
    and "quiet final" "list_ex ends_image (dfu_call c final)"
    and "list_all quiet afterwards" "\<forall>x \<in> set (dfu_calls c afterwards). downloaded x = [] \<and> \<not> ends_image x"
    and "m_experts d = [ExpertDFU e]" "list_all is_control (blocks @ [final] @ afterwards)"
  shows "\<exists>d'. run_opt (session_step api i) (blocks @ [final] @ afterwards) [d] = Some [d'] \<and>
    dfu_device c [img] [] d' \<and> same_identity d d' \<and>
    (\<exists>e'. m_experts d' = [ExpertDFU e'] \<and> run_opt dfu_step (dfu_calls c (blocks @ [final] @ afterwards)) e = Some e')"
proof -
  obtain d1 where d1: "run_opt (device_step api) blocks d = Some d1" "dfu_device c [] img d1"
    using dfu_device_run [OF assms(1-3), of api] assms(4) by auto
  obtain d2 where d2: "device_step api final d1 = Some d2" "dfu_device c [img] [] d2"
    using dfu_device_step [OF d1(2) assms(6), of api] assms(5,7) by auto
  have calls: "list_all (\<lambda>x. \<not> ends_image x) (dfu_calls c afterwards)" "concat (map downloaded (dfu_calls c afterwards)) = []"
    using assms(9) by (auto simp: list_all_iff)
  obtain d3 where d3: "run_opt (device_step api) afterwards d2 = Some d3" "dfu_device c [img] [] d3"
    using dfu_device_run [OF d2(2) assms(8) calls(1), of api] calls(2) by auto
  have quiet: "list_all quiet (blocks @ [final] @ afterwards)" using assms(2,6,8) by simp
  have run: "run_opt (device_step api) (blocks @ [final] @ afterwards) d = Some d3"
    using d1(1) d2(1) d3(1) by (simp add: run_opt_append)
  have "device_ok d" using assms(1) by (simp add: dfu_device_def)
  with quiet_run_identity [OF _ quiet run] session_run_single [OF quiet run] d3(2)
    dfu_control_run [OF assms(1,10) quiet assms(11), of api] run show ?thesis by auto
qed

lemma enumeration_tail_control: "list_all is_control (enumeration_tail strings v)"
proof -
  have "list_all is_control (string_events i strings)" for i
    by (induction strings arbitrary: i) (simp_all add: descriptor_event_def)
  then show ?thesis by (simp add: enumeration_tail_def descriptor_event_def)
qed

lemma test_expert:
  assumes "map number_of (interfaces c) = [0]" "has_dfu_descriptor c" "wTransferSize (decode_dfu_descriptor (dfu_descriptor c)) = 0x800"
  obtains e where "make_dfu c 0 = (ExpertDFU e :: 'p expert)"
    and "\<And>e'. run_opt dfu_step (dfu_calls c ((dfu_test_tail @ block_events img 0) @ [dnload_event 0 []] @ closing_events)) e = Some e' \<Longrightarrow>
      m_dfuAnomalies e' = [] \<and> m_lastState e' = 8 \<and> m_lastStatus e' = 0"
proof -
  obtain e where e: "make_dfu c 0 = (ExpertDFU e :: 'p expert)" "m_transferSize e = 0x800" "m_dfuAnomalies e = []"
    using assms(2,3) by (simp add: make_dfu_def Let_def setTransferSize_def new_dfu_expert_def interface_expert.defs dfu_expert.defs
        new_interface_expert_def)
  have tail: "dfu_calls c dfu_test_tail = []" unfolding dfu_test_tail_def by (rule enumeration_tail_quiet)
  have final: "m_dfuAnomalies e' = [] \<and> m_lastState e' = 8 \<and> m_lastStatus e' = 0"
    if run: "run_opt dfu_step (dfu_calls c ((dfu_test_tail @ block_events img 0) @ [dnload_event 0 []] @ closing_events)) e = Some e'" for e'
  proof -
    have "dfu_calls c ((dfu_test_tail @ block_events img 0) @ [dnload_event 0 []] @ closing_events) =
        dfu_calls c (block_events img 0) @ dfu_calls c (dnload_event 0 [] # closing_events)"
      using tail by (simp add: dfu_calls_def)
    with run obtain e1 where "run_opt dfu_step (dfu_calls c (block_events img 0)) e = Some e1"
        "run_opt dfu_step (dfu_calls c (dnload_event 0 [] # closing_events)) e1 = Some e'"
      by (auto simp: run_opt_append elim!: bind_Some_elim)
    then show ?thesis
      using blocks_received [OF assms(1), of img 0 e e1] closing_received [OF assms(1), of e1 e'] e(2,3) by simp
  qed
  show thesis
  proof (rule that [OF e(1)])
    fix e' assume "run_opt dfu_step (dfu_calls c ((dfu_test_tail @ block_events img 0) @ [dnload_event 0 []] @ closing_events)) e = Some e'"
    then show "m_dfuAnomalies e' = [] \<and> m_lastState e' = 8 \<and> m_lastStatus e' = 0" by (rule final)
  qed
qed

lemma dfu_test_session:
  assumes "img \<noteq> []"
  shows "\<exists>d c e. run_opt (session_step api a) (map exchanged (download img dfuDevice)) [new_device a] = Some [d] \<and>
    dfu_device c [img] [] d \<and> map number_of (interfaces c) = [0] \<and> getMode d = ''DFU'' \<and> m_experts d = [ExpertDFU e] \<and>
    m_dfuAnomalies e = [] \<and> m_lastState e = 8 \<and> m_lastStatus e = 0"
proof -
  let ?read = "DeviceControlIn 0 (fst dfu_test_reads) dfu_test_descriptor" and ?conf = "DeviceControlIn 0 (snd dfu_test_reads) dfu_test_conf"
  let ?blocks = "dfu_test_tail @ block_events img 0"
  obtain c where c: "answered_configuration dfu_test_conf = Some c" "map number_of (interfaces c) = [0]"
      "has_dfu_descriptor c" "wTransferSize (decode_dfu_descriptor (dfu_descriptor c)) = 0x800"
    using dfu_test_configuration by (elim exE conjE)
  obtain e where e: "make_dfu c 0 = (ExpertDFU e :: 'a expert)"
    "\<And>e'. run_opt dfu_step (dfu_calls c (?blocks @ [dnload_event 0 []] @ closing_events)) e = Some e' \<Longrightarrow>
      m_dfuAnomalies e' = [] \<and> m_lastState e' = 8 \<and> m_lastStatus e' = 0"
    using test_expert [OF c(2-4), where img = img and 'p = 'a] by blast
  obtain e1 e3 where quiet: "quiet e1" "quiet e3"
    and xs: "map exchanged (download img dfuDevice) = [e1, ?read, e3, ?conf] @ ?blocks @ [dnload_event 0 []] @ closing_events"
    using dfu_test_exchanged [of img] by (elim exE conjE) simp
  have tail: "list_all quiet dfu_test_tail" "dfu_calls c dfu_test_tail = []" "list_all is_control dfu_test_tail"
    unfolding dfu_test_tail_def by (rule enumeration_tail_quiet enumeration_tail_control)+
  have blocks: "list_all quiet ?blocks" "list_all (\<lambda>x. \<not> ends_image x) (dfu_calls c ?blocks)"
    "img = concat (map downloaded (dfu_calls c ?blocks))" "list_all is_control (?blocks @ [dnload_event 0 []] @ closing_events)"
    using block_calls [OF c(2), of img 0] closing_calls(3) [OF c(2)] tail by (simp_all add: dfu_calls_append download_quiet)
  have last: "quiet (dnload_event 0 [])" "list_ex ends_image (dfu_call c (dnload_event 0 []))"
    by (simp_all add: download_quiet closing_calls [OF c(2)])
  obtain d where d: "run_opt (session_step api a) [e1, ?read, e3, ?conf] [new_device a] = Some [d]" "dfu_device c [] [] d"
    "m_experts d = [make_dfu c 0]" "m_hasDeviceDescriptor d" "m_deviceDescriptor d = decode_device_descriptor (take 18 dfu_test_descriptor)"
    using enumerated_in_dfu_mode [OF quiet dfu_test_reads(1) dfu_test_mode(1) dfu_test_reads(2) c(1), of api a] by (elim exE conjE)
  obtain d' e' where d': "run_opt (session_step api a) (?blocks @ [dnload_event 0 []] @ closing_events) [d] = Some [d']"
    "dfu_device c [img] [] d'" "same_identity d d'" "m_experts d' = [ExpertDFU e']"
    "run_opt dfu_step (dfu_calls c (?blocks @ [dnload_event 0 []] @ closing_events)) e = Some e'"
    using image_sent [OF d(2) blocks(1-3) assms last closing_calls(2,4) [OF c(2)] d(3) [unfolded e(1)] blocks(4), of api a]
    by (elim exE conjE)
  have "run_opt (session_step api a) (map exchanged (download img dfuDevice)) [new_device a] = Some [d']"
    unfolding xs run_opt_append [of _ "[e1, ?read, e3, ?conf]"] d(1) by (simp only: bind.bind_lunit d'(1))
  moreover have "getMode d' = ''DFU''"
    using d(4,5) d'(3) dfu_test_mode(2,3) by (simp add: getMode_def isApple_def same_identity_def)
  ultimately show ?thesis using d'(2,4) c(2) e(2) [OF d'(5)] by (intro exI conjI; (elim conjE)?)
qed

text \<open>
  C8: The firmware test of the suite, for every image.  An enumerated device in DFU mode that is sent an image in blocks
  of its transfer size, with the status requests and the final empty block of the protocol, is reported without
  a warning as one device in mode DFU with one expert: its only image is the one sent, under the name of a complete
  image, it saw no anomaly, and the last state is the one reported last.  So it is whatever the image, the capture
  format, the container and the address.
\<close>

theorem dfu_test_images_are_reassembled:
  assumes "img \<noteq> []"
  shows "\<exists>f d e. reader_parse api (format_reader ff) (build_file ff fmt address location (download img dfuDevice)) new_input_file = Some (f, None) \<and>
    getWarnings f = [] \<and> getDevices f = Some [d] \<and> getMode d = ''DFU'' \<and> device_experts d = Some [ExpertDFU e] \<and>
    getImages e = [img] \<and> dfu_getArtifacts e = [\<lparr>artifact_name = ''dfu-image-0.bin'', artifact_data = img\<rparr>] \<and>
    dfu_getAnomalies e = [] \<and> stateName (getLastState e) = ''dfuMANIFEST-WAIT-RESET'' \<and> getLastStatus e = 0"
proof -
  have ok: "transcript_ok (download img dfuDevice)"
    by (simp add: download_ok dfuDevice_def enumerate_ok)
  let ?a = "builder_address fmt address location"
  obtain f ds where f: "reader_parse api (format_reader ff) (build_file ff fmt address location (download img dfuDevice)) new_input_file = Some (f, None)"
    "m_warnings f = []" "getDevices f = Some ds"
    "if download img dfuDevice = [] then ds = [] else run_opt (session_step api ?a) (map exchanged (download img dfuDevice)) [new_device ?a] = Some ds"
    using transcript_read [OF ok refl] by blast
  obtain d c e where d: "run_opt (session_step api ?a) (map exchanged (download img dfuDevice)) [new_device ?a] = Some [d]"
      "dfu_device c [img] [] d" "map number_of (interfaces c) = [0]" "getMode d = ''DFU''"
      "m_experts d = [ExpertDFU e]" "m_dfuAnomalies e = []" "m_lastState e = 8" "m_lastStatus e = 0"
    using dfu_test_session [OF assms, of api ?a] by (elim exE conjE)
  have "download img dfuDevice \<noteq> []" by (simp add: download_def Let_def get_status_def transcript_control_def)
  with f(4) d(1) have ds: "ds = [d]" by simp
  have "device_experts d = Some [ExpertDFU e] \<and> getImages e = [img] \<and>
      dfu_getArtifacts e = [\<lparr>artifact_name = ''dfu-image-0.bin'', artifact_data = img\<rparr>]"
    using dfu_device_single [OF d(2,3)] d(5) by auto
  with f(1-3) ds d(4,6-8) show ?thesis by (auto simp: accessor_simps stateName_def)
qed

theorem dfu_test_images_are_reassembled_witness:
  "\<exists>f d e. reader_parse sample_api PcapNGInputFile (build_file PcapNG FormatUsbmon 5 0x14100000 (download [1, 2, 3] dfuDevice)) new_input_file = Some (f, None) \<and>
    getWarnings f = [] \<and> getDevices f = Some [d] \<and> getMode d = ''DFU'' \<and> device_experts d = Some [ExpertDFU e] \<and>
    getImages e = [[1, 2, 3]] \<and> dfu_getArtifacts e = [\<lparr>artifact_name = ''dfu-image-0.bin'', artifact_data = [1, 2, 3]\<rparr>] \<and>
    dfu_getAnomalies e = [] \<and> stateName (getLastState e) = ''dfuMANIFEST-WAIT-RESET'' \<and> getLastStatus e = 0"
  using dfu_test_images_are_reassembled [of "[1, 2, 3]" sample_api PcapNG FormatUsbmon 5 "0x14100000"] by simp

end
