(* ===== verification/Test_USBMUX.thy ===== *)
theory Test_USBMUX
  imports Test_Fixtures Sample_Sessions
begin

text \<open>
  The usbmux tests of the suite (\<open>test_USBMUX.cpp\<close>): the iPhone of \<open>test/CaptureBuilder.h\<close>, its packets and segments, and
  the test of messages cut across packets and transfers, proved for every message and every cut.
\<close>

section \<open>Packets and messages\<close>

definition muxPacket :: "u32 \<Rightarrow> byte list \<Rightarrow> bool \<Rightarrow> bool \<Rightarrow> u16 \<Rightarrow> u16 \<Rightarrow> byte list" where
  "muxPacket protocol payload out v2 txSeq rxSeq =
     (let headerLength = (if v2 then mux_header_size else 8)
      in enc_be32 protocol @ enc_be32 (word_of_nat (headerLength + length payload)) @
         (if v2 then enc_be32 (if out then USBMUX_MAGIC_OUT else USBMUX_MAGIC_IN) @ enc_be16 txSeq @ enc_be16 rxSeq else []) @
         payload)"

definition muxVersion :: "u32 \<Rightarrow> bool \<Rightarrow> byte list" where
  "muxVersion major out = muxPacket MUX_PROTO_VERSION (enc_be32 major @ enc_be32 0 @ enc_be32 0) out False 0 0"

definition tcpSegment :: "u16 \<Rightarrow> u16 \<Rightarrow> u16 \<Rightarrow> byte list \<Rightarrow> byte list" where
  "tcpSegment source dest flags data = enc_be16 source @ enc_be16 dest @ enc_be32 0 @ enc_be32 0 @
     enc_be16 (push_bit 12 5 OR flags) @ enc_be16 0x0200 @ enc_be16 0 @ enc_be16 0 @ data"

definition xmlPlist :: "string \<Rightarrow> byte list" where
  "xmlPlist dictionaryBody = bytes_of (
     ''<?xml version='' @ [CHR 0x22] @ ''1.0'' @ [CHR 0x22] @ '' encoding='' @ [CHR 0x22] @ ''UTF-8'' @ [CHR 0x22] @ ''?>'' @ [CHR 0x0A] @
     ''<!DOCTYPE plist PUBLIC '' @ [CHR 0x22] @ ''-//Apple//DTD PLIST 1.0//EN'' @ [CHR 0x22] @ '' '' @
     [CHR 0x22] @ ''http://www.apple.com/DTDs/PropertyList-1.0.dtd'' @ [CHR 0x22] @ ''>'' @ [CHR 0x0A] @
     ''<plist version='' @ [CHR 0x22] @ ''1.0'' @ [CHR 0x22] @ ''><dict>'' @ dictionaryBody @ ''</dict></plist>'' @ [CHR 0x0A])"

definition lengthPrefixed :: "byte list \<Rightarrow> byte list" where
  "lengthPrefixed message = enc_be32 (word_of_nat (length message)) @ message"

text \<open>The traffic of the host and of the device, and a request of the host.\<close>

definition mux_out :: "u16 \<Rightarrow> u16 \<Rightarrow> u16 \<Rightarrow> byte list \<Rightarrow> byte list" where
  "mux_out host dev flags data = muxPacket MUX_PROTO_TCP (tcpSegment host dev flags data) True True 0 0"

definition mux_in :: "u16 \<Rightarrow> u16 \<Rightarrow> u16 \<Rightarrow> byte list \<Rightarrow> byte list" where
  "mux_in host dev flags data = muxPacket MUX_PROTO_TCP (tcpSegment dev host flags data) False True 0 0"

definition mux_request :: "string \<Rightarrow> byte list" where
  "mux_request name = lengthPrefixed (xmlPlist (''<key>Request</key><string>'' @ name @ ''</string>''))"

section \<open>The device\<close>

definition iphoneUsbmuxConfiguration :: "u8 \<Rightarrow> bool \<Rightarrow> byte list" where
  "iphoneUsbmuxConfiguration value withAlternate = configDescriptor value (
     \<lparr>fx_number = 0, fx_alternate = 0, fx_class = 0x06, fx_subclass = 0x01, fx_protocol = 0x01,
      fx_endpoints = [\<lparr>fx_address = 0x81, fx_attributes = 2\<rparr>, \<lparr>fx_address = 0x02, fx_attributes = 2\<rparr>, \<lparr>fx_address = 0x83, fx_attributes = 3\<rparr>],
      fx_extra = []\<rparr> #
     (if withAlternate then
        [\<lparr>fx_number = 1, fx_alternate = 0, fx_class = USB_CLASS_APPLICATION_SPECIFIC, fx_subclass = APPLE_SUBCLASS_USBMUX,
          fx_protocol = APPLE_PROTOCOL_USBMUX2, fx_endpoints = [], fx_extra = []\<rparr>,
         \<lparr>fx_number = 1, fx_alternate = 1, fx_class = USB_CLASS_APPLICATION_SPECIFIC, fx_subclass = APPLE_SUBCLASS_USBMUX,
          fx_protocol = APPLE_PROTOCOL_USBMUX2,
          fx_endpoints = [\<lparr>fx_address = 0x85, fx_attributes = 2\<rparr>, \<lparr>fx_address = 0x04, fx_attributes = 2\<rparr>], fx_extra = []\<rparr>]
      else
        [\<lparr>fx_number = 1, fx_alternate = 0, fx_class = USB_CLASS_APPLICATION_SPECIFIC, fx_subclass = APPLE_SUBCLASS_USBMUX,
          fx_protocol = APPLE_PROTOCOL_USBMUX2,
          fx_endpoints = [\<lparr>fx_address = 0x85, fx_attributes = 2\<rparr>, \<lparr>fx_address = 0x04, fx_attributes = 2\<rparr>], fx_extra = []\<rparr>]))"

definition iphone :: "bool \<Rightarrow> test_transcript" where
  "iphone withAlternate =
     (let ts = fixture_enumerate (deviceDescriptor APPLE_VID 0x12A8 0x0100 1) [iphoneUsbmuxConfiguration 1 withAlternate]
                 [''Apple Inc.'', ''iPhone'', ''00008101-001234567890001E''] 1 []
      in if withAlternate then setInterface 1 1 ts else ts)"

section \<open>The packets of the fixture are packets\<close>

lemma muxPacket_encode:
  "muxPacket protocol payload out v2 tx rx = USBMUX_Reassembly.encode_packet
     (if v2 then V2 protocol (if out then USBMUX_MAGIC_OUT else USBMUX_MAGIC_IN) tx rx payload else V1 protocol payload)"
  by (simp add: muxPacket_def mux_header_size_def)

lemma lengthPrefixed_frame: "lengthPrefixed = frame"
  by (simp add: fun_eq_iff lengthPrefixed_def frame_def)

lemma length_tcpSegment [simp]: "length (tcpSegment s d f data) = 20 + length data"
  by (simp add: tcpSegment_def)

lemma tcpSegment_fields:
  assumes "f AND 0x3F = f"
  shows "segment_source (tcpSegment s d f data) = s" "segment_dest (tcpSegment s d f data) = d"
    "segment_flags (tcpSegment s d f data) = f" "segment_data (tcpSegment s d f data) = data"
proof -
  define word where "word = (0x5000 OR f :: u16)"
  have hdr: "field16 0 (tcpSegment s d f data) = endian_reverse16 s" "field16 2 (tcpSegment s d f data) = endian_reverse16 d"
    "field16 12 (tcpSegment s d f data) = endian_reverse16 word"
    by (simp_all add: tcpSegment_def word_def [symmetric] enc_be16_le field_skip field_here)
  have "word = 0x5000 OR (f AND 0x3F)" using assms by (simp add: word_def)
  then have flags: "word AND 0x3F = f AND 0x3F" "drop_bit 12 word = 5"
    by (simp_all only:) (rule bit_word_eqI; auto simp: bit_simps numeral_eq_Suc less_Suc_eq)+
  show "segment_source (tcpSegment s d f data) = s" "segment_dest (tcpSegment s d f data) = d"
    "segment_flags (tcpSegment s d f data) = f" "segment_data (tcpSegment s d f data) = data"
    by (simp_all add: segment_source_def segment_dest_def segment_flags_def segment_data_def decode_tcphdr_def tcphdr_size_def
        field_take hdr flags assms) (simp add: tcpSegment_def)
qed

text \<open>A version packet tells the expert its version, unless the version is one of the two magics.\<close>

lemma muxVersion_read:
  assumes "\<not> is_magic major"
  shows "\<exists>e'. run_opt (usbmux_step api) [USBMUX_Reassembly.transfer out (muxVersion major out)] (new_usbmux_expert c i) = Some e' \<and>
     getProtocolVersion e' = major \<and> getResyncCount e' = 0"
proof -
  let ?e = "new_usbmux_expert c i :: 'a usbmux_expert"
  let ?p = "V1 0 (enc_be32 major @ enc_be32 0 @ enc_be32 0)"
  have valid: "list_all valid_packet [?p]" using assms by simp
  have bytes: "mux_buffer (mux_dir out ?e) @ concat [muxVersion major out] = concat (map USBMUX_Reassembly.encode_packet [?p]) @ []"
    by (simp add: muxVersion_def muxPacket_encode)
  obtain e' e'' where e': "run_opt (usbmux_step api) [USBMUX_Reassembly.transfer out (muxVersion major out)] ?e = Some e'"
      "USBMUX_Reassembly.packet_step api out (packet_content ?p) ?e = Some e''" "core e' = core e''" "m_resyncs e' = m_resyncs ?e"
    using usbmux_transfers [OF new_usbmux_expert_ok valid _ bytes, of api] by (auto simp: incomplete_def elim!: bind_Some_elim)
  have "m_version e'' = major"
    using e'(2) by (auto simp: USBMUX_Reassembly.packet_step_def processPacket_def)
  with e' show ?thesis
    by (auto simp: getProtocolVersion_def getResyncCount_def core_def new_usbmux_expert_def interface_expert.defs usbmux_expert.defs)
qed

section \<open>What the device is found to be\<close>

definition iphone_conf :: "bool \<Rightarrow> byte list" where
  "iphone_conf alt = iphoneUsbmuxConfiguration 1 alt"

definition iphone_descriptor :: "byte list" where
  "iphone_descriptor = deviceDescriptor APPLE_VID 0x12A8 0x0100 1"

lemma iphone_descriptor: "iphone_descriptor = [18, 1, 0, 2, 0, 0, 0, 64, 0xAC, 0x05, 0xA8, 0x12, 0, 1, 1, 2, 3, 1]"
  by code_simp

text \<open>The settings of its interfaces, as the configuration is read.\<close>

definition iphone_setting :: "u8 \<Rightarrow> u8 \<Rightarrow> u8 \<times> u8 \<times> u8 \<Rightarrow> (u8 \<times> u8) list \<Rightarrow> usb_interface" where
  "iphone_setting number alternate codes endpoints =
     \<lparr>iface_descriptor = \<lparr>bLength = 9, bDescriptorType = 4, bInterfaceNumber = number, bAlternateSetting = alternate,
        bNumEndpoints = word_of_nat (length endpoints), bInterfaceClass = fst codes, bInterfaceSubClass = fst (snd codes),
        bInterfaceProtocol = snd (snd codes), iInterface = 0\<rparr>,
      iface_endpoints = map (\<lambda>(address, attributes). \<lparr>bLength = 7, bDescriptorType = 5, bEndpointAddress = address,
        bmAttributes_endpoint = attributes, wMaxPacketSize = 512, bInterval = 0, bRefresh = 0, bSynchAddress = 0\<rparr>) endpoints,
      iface_expert = None\<rparr>"

definition iphone_known :: "bool \<Rightarrow> usb_configuration" where
  "iphone_known alt =
     \<lparr>config_descriptor = \<lparr>bLength = 9, bDescriptorType = 2, wTotalLength = (if alt then 71 else 62), bNumInterfaces = 2,
        bConfigurationValue = 1, iConfiguration = 0, bmAttributes_config = 128, bMaxPower = 250\<rparr>,
      dfu_descriptor = [0, 0, 0, 0, 0, 0, 0], has_dfu_descriptor = False,
      interfaces = iphone_setting 0 0 (6, 1, 1) [(0x81, 2), (0x02, 2), (0x83, 3)] #
        (if alt then [iphone_setting 1 0 (0xFF, 0xFE, 2) [], iphone_setting 1 1 (0xFF, 0xFE, 2) [(0x85, 2), (0x04, 2)]]
         else [iphone_setting 1 0 (0xFF, 0xFE, 2) [(0x85, 2), (0x04, 2)]])\<rparr>"

lemma iphone_answered: "answered_configuration (iphone_conf alt) = Some (iphone_known alt)"
proof -
  have "answered_configuration (iphone_conf True) = Some (iphone_known True)" by code_simp
  moreover have "answered_configuration (iphone_conf False) = Some (iphone_known False)" by code_simp
  ultimately show ?thesis by (cases alt) simp_all
qed

lemma iphone_value: "bConfigurationValue (config_descriptor (iphone_known alt)) = 1"
  by (simp add: iphone_known_def)

lemma iphone_interface: "usbmux_interface (iphone_known alt) 1"
  by (simp add: iphone_known_def usbmux_interface_def usbmux_protocol_def dfu_protocol_def iphone_setting_def)

lemma iphone_endpoints: "unshared (iphone_known alt)" "interface_declares (iphone_known alt) 1 4"
  by (simp_all add: iphone_known_def unshared_def interface_declares_def interface_endpoints_def iphone_setting_def declares_def)

lemma iphone_normal: "normal_mode iphone_descriptor" "18 \<le> length iphone_descriptor" "iphone_descriptor ! 1 = USB_DT_DEVICE"
  by (simp_all add: normal_mode_def iphone_descriptor decode_device_descriptor_def field_def)

lemma iphone_experts:
  assumes "enumerated iphone_descriptor (iphone_known alt) = (c', es :: 'p expert list)"
  shows "map iface_expert (interfaces c') = None # (if alt then [Some 0, Some 0] else [Some 0]) \<and>
    es = [ExpertUSBMUX (new_usbmux_expert 1 1)]"
proof -
  have d: "idVendor (decode_device_descriptor (take 18 iphone_descriptor)) = APPLE_VID"
    "idProduct (decode_device_descriptor (take 18 iphone_descriptor)) = 0x12A8"
    by (simp_all add: iphone_descriptor decode_device_descriptor_def field_def)
  have "m_experts (described iphone_descriptor :: 'p device) = []" by (simp add: described_def new_device_def)
  with assms d show ?thesis
    by (cases alt) (auto simp: enumerated_def attached_def described_def isAppleDFU_def isAppleRecovery_def share_step_def interface_protocol_def
      isApple_def with_experts_def iphone_known_def iphone_setting_def)
qed

section \<open>Transfers of the host\<close>

definition host_sends :: "byte list list \<Rightarrow> test_transcript \<Rightarrow> test_transcript" where
  "host_sends chunks ts = fold (transcript_bulkOut 4) chunks ts"

lemma host_sends_ok:
  "transcript_ok (host_sends chunks ts) \<longleftrightarrow> list_all (\<lambda>x. length x \<le> 0xFFFFFE00) chunks \<and> transcript_ok ts"
  by (induction chunks arbitrary: ts) (auto simp: host_sends_def)

lemma exchanged_host_sends: "map exchanged (host_sends chunks ts) = map exchanged ts @ map (DeviceBulkOut 4) chunks"
proof -
  have "map exchanged (transcript_bulkOut 4 data ts) = map exchanged ts @ [DeviceBulkOut 4 data]" for data ts
    by (simp add: transcript_bulkOut_def exchanged_def)
  then show ?thesis by (induction chunks arbitrary: ts) (simp_all add: host_sends_def)
qed

definition iphone_tail :: "bool \<Rightarrow> device_event list" where
  "iphone_tail alt = enumeration_tail [''Apple Inc.'', ''iPhone'', ''00008101-001234567890001E''] 1 @
     (if alt then [DeviceControlOut 0 (fixture_setup 0x01 USB_REQ_SET_INTERFACE 1 1 0) []] else [])"

definition iphone_start :: "bool \<Rightarrow> device_event list" where
  "iphone_start alt =
     [descriptor_event USB_DT_DEVICE 0 iphone_descriptor 8,
      DeviceControlIn 0 (descriptor_read_setup USB_DT_DEVICE 0 (word_of_nat USB_DT_DEVICE_SIZE)) iphone_descriptor] @
     [descriptor_event USB_DT_CONFIG 0 (iphone_conf alt) (word_of_nat USB_DT_CONFIG_SIZE)] @
     [DeviceControlIn 0 (descriptor_read_setup USB_DT_CONFIG 0 (word_of_nat (length (iphone_conf alt)))) (iphone_conf alt)]"

lemma iphone_ok: "transcript_ok (iphone alt)"
  by (simp add: iphone_def Let_def enumerate_ok setInterface_def)

lemma iphone_conf_length: "length (iphone_conf alt) < 65536"
proof -
  have "iphone_conf True = [9, 2, 71, 0, 2, 1, 0, 128, 250, 9, 4, 0, 0, 3, 6, 1, 1, 0, 7, 5, 129, 2, 0, 2, 0, 7, 5, 2, 2, 0, 2, 0, 7, 5,
      131, 3, 0, 2, 0, 9, 4, 1, 0, 0, 255, 254, 2, 0, 9, 4, 1, 1, 2, 255, 254, 2, 0, 7, 5, 133, 2, 0, 2, 0, 7, 5, 4,
      2, 0, 2, 0]"
    by code_simp
  moreover have "iphone_conf False = [9, 2, 62, 0, 2, 1, 0, 128, 250, 9, 4, 0, 0, 3, 6, 1, 1, 0, 7, 5, 129, 2, 0, 2, 0, 7, 5, 2, 2, 0, 2, 0, 7, 5,
      131, 3, 0, 2, 0, 9, 4, 1, 0, 2, 255, 254, 2, 0, 7, 5, 133, 2, 0, 2, 0, 7, 5, 4, 2, 0, 2, 0]"
    by code_simp
  ultimately show ?thesis by (cases alt) simp_all
qed

lemma exchanged_iphone: "map exchanged (iphone alt) = iphone_start alt @ iphone_tail alt"
proof -
  have "length iphone_descriptor = USB_DT_DEVICE_SIZE" "USB_DT_DEVICE_SIZE < 65536"
    by (simp_all add: iphone_descriptor USB_DT_DEVICE_SIZE_def)
  then have e: "descriptor_event USB_DT_DEVICE 0 iphone_descriptor (word_of_nat USB_DT_DEVICE_SIZE) =
      DeviceControlIn 0 (descriptor_read_setup USB_DT_DEVICE 0 (word_of_nat USB_DT_DEVICE_SIZE)) iphone_descriptor"
    using take_whole [of iphone_descriptor] by simp
  note conf = take_whole [OF iphone_conf_length, of USB_DT_CONFIG 0]
  show ?thesis
    by (simp add: iphone_def Let_def setInterface_def exchanged_control exchanged_enumerate iphone_start_def iphone_tail_def
        iphone_descriptor_def [symmetric] iphone_conf_def [symmetric] e conf)
      (simp add: fixture_setup_def control_event_def)
qed

lemma tail_keeps: "list_all (keeps_configuration 1) (enumeration_tail strings 1)"
proof -
  have "list_all (keeps_configuration 1) (string_events i strings)" for i
    by (induction strings arbitrary: i) (simp_all add: descriptor_event_def)
  then show ?thesis by (simp add: enumeration_tail_def descriptor_event_def fixture_setup_def)
qed

lemma iphone_traffic_steady: "list_all (steady descriptor conf 1) (iphone_tail alt @ map (DeviceBulkOut 4) chunks)"
proof -
  let ?tail = "enumeration_tail [''Apple Inc.'', ''iPhone'', ''00008101-001234567890001E''] 1"
  have "list_all (steady descriptor conf 1) ?tail"
    using enumeration_tail_quiet(1) [of "[''Apple Inc.'', ''iPhone'', ''00008101-001234567890001E'']" 1]
      tail_keeps [of "[''Apple Inc.'', ''iPhone'', ''00008101-001234567890001E'']"]
    by (auto simp: list_all_iff steady_def)
  moreover have "list_all (steady descriptor conf 1) (map (DeviceBulkOut 4) chunks)"
    by (simp add: list_all_iff steady_def)
  ultimately show ?thesis by (simp add: iphone_tail_def steady_def fixture_setup_def)
qed

lemma iphone_enumeration: "enumeration iphone_descriptor (iphone_conf alt) (iphone_known alt) (iphone_start alt)"
  unfolding enumeration_def iphone_value
proof (intro conjI exI)
  show "iphone_start alt = [descriptor_event USB_DT_DEVICE 0 iphone_descriptor 8] @
      [DeviceControlIn 0 (descriptor_read_setup USB_DT_DEVICE 0 (word_of_nat USB_DT_DEVICE_SIZE)) iphone_descriptor] @
      [descriptor_event USB_DT_CONFIG 0 (iphone_conf alt) (word_of_nat USB_DT_CONFIG_SIZE)] @
      [DeviceControlIn 0 (descriptor_read_setup USB_DT_CONFIG 0 (word_of_nat (length (iphone_conf alt)))) (iphone_conf alt)]"
    by (simp add: iphone_start_def)
  have "quiet (descriptor_event USB_DT_DEVICE 0 iphone_descriptor 8)"
    "quiet (descriptor_event USB_DT_CONFIG 0 (iphone_conf alt) (word_of_nat USB_DT_CONFIG_SIZE))"
    by (simp_all add: descriptor_event_quiet USB_DT_CONFIG_SIZE_def)
  moreover have "keeps_configuration 1 (descriptor_event ty i d n)" for ty i d n by (simp add: descriptor_event_def)
  ultimately show "list_all (\<lambda>ev. quiet ev \<and> keeps_configuration 1 ev) [descriptor_event USB_DT_DEVICE 0 iphone_descriptor 8]"
    "list_all (steady iphone_descriptor [] 1) [descriptor_event USB_DT_CONFIG 0 (iphone_conf alt) (word_of_nat USB_DT_CONFIG_SIZE)]"
    by (simp_all add: steady_def)
qed (simp_all add: iphone_normal iphone_normal(3) [simplified] iphone_answered reads_descriptor)

text \<open>The device of the capture: one usbmux expert, told exactly the transfers.\<close>

lemma iphone_session:
  "\<exists>d evs. run_opt (session_step api i) (map exchanged (host_sends chunks (iphone alt))) [new_device i] = Some [d] \<and>
     filter is_bulk evs = map (USBMUX_Reassembly.transfer True) chunks \<and> device_ok d \<and> getExperts d = [0] \<and> length (m_experts d) = 1 \<and>
     run_opt (virtual_step api) evs (ExpertUSBMUX (new_usbmux_expert 1 1)) = Some (m_experts d ! 0)"
proof -
  let ?traffic = "iphone_tail alt @ map (DeviceBulkOut 4) chunks"
  obtain c' and es :: "'a expert list" where enum: "enumerated iphone_descriptor (iphone_known alt) = (c', es)" by fastforce
  note experts = iphone_experts [OF enum]
  obtain d0 where d0: "run_opt (session_step api i) (iphone_start alt) [new_device i] = Some [d0]"
      "known_device iphone_descriptor [(1, c')] 1 d0" "m_experts d0 = es"
    using enumeration_run [OF iphone_enumeration iphone_value [symmetric] enum, where api = api and i = i] by blast
  have c': "c' = (iphone_known alt)\<lparr>interfaces := fst (attached (iphone_known alt) (described iphone_descriptor :: 'a device))\<rparr>"
    using enum by (simp add: enumerated_def)
  have un: "unshared c'" unfolding c' unshared_attached by (rule iphone_endpoints)
  have known: "known_answer [(1, c')] (iphone_conf alt)"
    by (auto simp: known_answer_def iphone_answered om_contains_def iphone_value)
  obtain d where d: "run_opt (session_step api i) ?traffic [d0] = Some [d]" "known_device iphone_descriptor [(1, c')] 1 d"
      "length (m_experts d) = 1" "run_opt (virtual_step api) (static_calls 0 c' ?traffic) (es ! 0) = Some (m_experts d ! 0)"
    using steady_run [OF d0(2) iphone_traffic_steady known iphone_normal(2) un, where api = api and i = i] d0(3) experts by auto
  obtain p where p: "p \<in> set (pointers c')" "filter is_bulk (static_calls p c' ?traffic) = interface_transfers (iphone_known alt) 1 ?traffic"
    using usbmux_enumerated [OF iphone_normal(1) iphone_interface iphone_endpoints(1) enum, of ?traffic] by blast
  have iface: "\<forall>i \<in> set (interfaces c'). iface_expert i \<in> {None, Some 0}"
    using arg_cong [OF conjunct1 [OF experts], of set] by (auto split: if_splits)
  have "p = 0" using p(1) iface by (auto simp: pointers_set)
  have quiet_tail: "interface_transfers c 1 (iphone_tail alt) = []" for c
  proof -
    have "interface_transfers c 1 (string_events i ss) = []" for i ss
      by (induction ss arbitrary: i) (simp_all add: interface_transfers_def descriptor_event_def)
    then show ?thesis by (simp add: iphone_tail_def enumeration_tail_def interface_transfers_def descriptor_event_def)
  qed
  have "interface_transfers (iphone_known alt) 1 (map (DeviceBulkOut 4) chunks) = map (USBMUX_Reassembly.transfer True) chunks"
    by (induction chunks) (simp_all add: interface_transfers_def iphone_endpoints USBMUX_Reassembly.transfer_def)
  with p(2) \<open>p = 0\<close> quiet_tail have calls: "filter is_bulk (static_calls 0 c' ?traffic) = map (USBMUX_Reassembly.transfer True) chunks"
    by (simp add: interface_transfers_def)
  have "m_configurations d = [(1, c')]" using d(2) by (simp add: known_device_def)
  moreover have "fold see_expert (interfaces c') [] = [0]"
    using conjunct1 [OF experts] by (cases alt) (auto simp: map_eq_Cons_conv see_expert_def)
  ultimately have "getExperts d = [0]" by (simp add: getExperts_def om_values_def)
  moreover have "device_ok d" using d(2) by (simp add: known_device_def)
  moreover have "run_opt (session_step api i) (map exchanged (host_sends chunks (iphone alt))) [new_device i] = Some [d]"
    using d0(1) d(1) by (simp add: exchanged_host_sends exchanged_iphone run_opt_append)
  ultimately show ?thesis using d(3,4) experts calls by auto
qed

section \<open>The messages of a connection\<close>

definition test_segments :: "u16 \<Rightarrow> u16 \<Rightarrow> byte list list \<Rightarrow> segment list" where
  "test_segments host dev parts = map (\<lambda>part. (True, tcpSegment host dev USB_TCP_FLAG_ACK part)) parts"

definition test_packet :: "segment \<Rightarrow> mux_packet" where
  "test_packet seg = V2 MUX_PROTO_TCP USBMUX_MAGIC_OUT 0 0 (snd seg)"

lemma mux_out_packet: "mux_out host dev flags data = USBMUX_Reassembly.encode_packet (test_packet (True, tcpSegment host dev flags data))"
  by (simp add: mux_out_def muxPacket_encode test_packet_def)

lemma only_direction: "in_direction False qs = [] \<Longrightarrow> qs = map (Pair True) (in_direction True qs)"
  by (induction qs) (auto simp: in_direction_def split: if_splits)

lemma test_packets_segments: "\<forall>seg \<in> set segs. fst seg \<Longrightarrow> segments (map (Pair True) (map test_packet segs)) = segs"
  by (induction segs) (auto simp: segment_of_def test_packet_def)

lemma segment_fields:
  "segment_source (tcpSegment s d USB_TCP_FLAG_ACK x) = s" "segment_dest (tcpSegment s d USB_TCP_FLAG_ACK x) = d"
  "segment_flags (tcpSegment s d USB_TCP_FLAG_ACK x) = USB_TCP_FLAG_ACK" "segment_data (tcpSegment s d USB_TCP_FLAG_ACK x) = x"
  "segment_source (tcpSegment s d USB_TCP_FLAG_SYN x) = s" "segment_dest (tcpSegment s d USB_TCP_FLAG_SYN x) = d"
  "segment_flags (tcpSegment s d USB_TCP_FLAG_SYN x) = USB_TCP_FLAG_SYN" "segment_data (tcpSegment s d USB_TCP_FLAG_SYN x) = x"
  by (simp_all add: tcpSegment_fields)

lemma test_conversation:
  assumes "well_framed bodies" and "concat parts = concat (map frame bodies)" and "list_all (\<lambda>part. length part \<le> 1048540) parts"
    and "concat chunks = mux_out host dev USB_TCP_FLAG_SYN [] @ concat (map (mux_out host dev USB_TCP_FLAG_ACK) parts)"
    and "filter is_bulk evs = map (USBMUX_Reassembly.transfer True) chunks"
  shows "\<exists>e s. run_opt (usbmux_step api) evs (new_usbmux_expert c i) = Some e \<and> om_find (m_streams e) (STREAM_ID host dev 1) = Some s \<and>
    m_messages s = map (message_of api True) bodies"
proof -
  let ?syn = "(True, tcpSegment host dev USB_TCP_FLAG_SYN [])" and ?segs = "test_segments host dev parts"
  let ?ps = "map test_packet (?syn # ?segs)"
  have valid: "list_all valid_packet ?ps"
    using assms(3) by (auto simp: test_packet_def test_segments_def list_all_iff is_magic_def)
  have "mux_out host dev USB_TCP_FLAG_ACK = (\<lambda>x. USBMUX_Reassembly.encode_packet (test_packet (True, tcpSegment host dev USB_TCP_FLAG_ACK x)))"
    by (rule ext) (rule mux_out_packet)
  then have bytes: "concat chunks = concat (map USBMUX_Reassembly.encode_packet ?ps)"
    by (simp add: assms(4) mux_out_packet test_segments_def comp_def del: USBMUX_Reassembly.encode_packet.simps)
  have sent: "concat (map (bulk_of dir) (map (USBMUX_Reassembly.transfer True) chunks)) = (if dir then concat chunks else [])" for dir
    by (induction chunks) simp_all
  have "\<exists>qs. carries (\<lambda>_. []) (map (USBMUX_Reassembly.transfer True) chunks) qs \<and> (\<forall>dir. in_direction dir qs = (if dir then ?ps else []))"
    by (rule encoded_traffic_carried [where rest = "\<lambda>_. []"])
      (use valid bytes sent in \<open>auto simp: incomplete_def simp del: USBMUX_Reassembly.encode_packet.simps\<close>)
  then obtain qs where qs: "carries (\<lambda>_. []) (map (USBMUX_Reassembly.transfer True) chunks) qs"
      "in_direction True qs = ?ps" "in_direction False qs = []" by auto
  from only_direction [OF qs(3)] qs(2) have q: "qs = map (Pair True) ?ps" by simp
  have seg: "segments qs = [] @ ?syn # ?segs"
    unfolding q by (subst test_packets_segments) (auto simp: test_segments_def)
  have all: "filter (belongs host dev) (?syn # ?segs) = ?syn # ?segs"
    by (auto simp: belongs_def host_port_def device_port_def segment_fields test_segments_def filter_id_conv)
  have data: "sent (conn_data (?syn # ?segs)) = [] # parts" "received (conn_data (?syn # ?segs)) = []"
    by (simp_all add: conn_data_def sent_def received_def test_segments_def segment_fields filter_map comp_def)
  have carried: "carries (\<lambda>_. []) evs qs" by (rule carries_bulk_only) (simp only: assms(5) qs(1))
  have syn: "belongs host dev ?syn" "opens ?syn" "list_all (\<lambda>seg. \<not> (belongs host dev seg \<and> opens seg)) ?segs"
    by (auto simp: belongs_def host_port_def device_port_def opens_def segment_fields test_segments_def list_all_iff)
  have out: "concat (sent (conn_data (filter (belongs host dev) (?syn # ?segs)))) = concat (map frame bodies)"
    unfolding all data using assms(2) by simp
  have none: "well_framed []" "concat (received (conn_data (filter (belongs host dev) (?syn # ?segs)))) = concat (map frame [])"
    unfolding all data by (simp_all add: well_framed_def)
  obtain e s where e: "run_opt (usbmux_step api) evs (new_usbmux_expert c i) = Some e"
      "om_find (m_streams e) (STREAM_ID host dev (connection_number host dev [])) = Some s"
      "messages_out s = map (message_of api True) bodies" "messages_in s = map (message_of api False) []"
    using transfers_conversation [OF carried seg syn assms(1) out none, of api c i] by blast
  have "filter outbound (m_messages s) = m_messages s"
    using e(4) by (simp add: messages_in_def filter_empty_conv filter_id_conv)
  with e show ?thesis by (simp add: messages_out_def connection_number_def)
qed

text \<open>
  C9: The usbmux test of the suite, for every well framed conversation, format, container, address and cut: an iPhone is
  enumerated, with its bulk endpoints in the first or in the alternate setting of the usbmux interface; the host opens a
  connection and sends the messages \<open>bodies\<close>, each behind its length, cut into segments of at most 1048540 bytes anywhere,
  and the packets of the segments cut into transfers anywhere.  Well framed means that every body has from one byte to
  64 MiB, and that the first has at least eight and begins with the signature of a property list: a stream that begins
  otherwise is kept as raw bytes, not as messages.  The capture is read without error or warning and shows one device with
  one usbmux expert, whose stream for the connection holds exactly these messages, in order and decoded.
\<close>

theorem usbmux_test_messages_are_reassembled:
  assumes "well_framed bodies" and "concat parts = concat (map lengthPrefixed bodies)" and "list_all (\<lambda>part. length part \<le> 1048540) parts"
    and "concat chunks = mux_out host dev USB_TCP_FLAG_SYN [] @ concat (map (mux_out host dev USB_TCP_FLAG_ACK) parts)"
    and "list_all (\<lambda>x. length x \<le> 0xFFFFFE00) chunks"
  shows "\<exists>f d e s. reader_parse api (format_reader ff) (build_file ff fmt address location (host_sends chunks (iphone alt))) new_input_file = Some (f, None) \<and>
    getWarnings f = [] \<and> getDevices f = Some [d] \<and> device_experts d = Some [ExpertUSBMUX e] \<and>
    om_find (getStreams e) (STREAM_ID host dev 1) = Some s \<and> getMessages s = map (message_of api True) bodies"
proof -
  let ?ts = "host_sends chunks (iphone alt)" and ?a = "builder_address fmt address location"
  have ok: "transcript_ok ?ts" using assms(5) by (simp add: host_sends_ok iphone_ok)
  obtain f ds where f: "reader_parse api (format_reader ff) (build_file ff fmt address location ?ts) new_input_file = Some (f, None)"
      "m_warnings f = []" "getDevices f = Some ds"
      "if ?ts = [] then ds = [] else run_opt (session_step api ?a) (map exchanged ?ts) [new_device ?a] = Some ds"
    using transcript_read [OF ok refl] by blast
  obtain d evs where d: "run_opt (session_step api ?a) (map exchanged ?ts) [new_device ?a] = Some [d]"
      "filter is_bulk evs = map (USBMUX_Reassembly.transfer True) chunks" "device_ok d" "getExperts d = [0]" "length (m_experts d) = 1"
      "run_opt (virtual_step api) evs (ExpertUSBMUX (new_usbmux_expert 1 1)) = Some (m_experts d ! 0)"
    using iphone_session by blast
  have "map exchanged ?ts \<noteq> []" by (simp only: exchanged_host_sends exchanged_iphone iphone_start_def) simp
  then have "?ts \<noteq> []" by auto
  with f(4) d(1) have ds: "ds = [d]" by simp
  obtain e s where e: "run_opt (usbmux_step api) evs (new_usbmux_expert 1 1) = Some e"
      "om_find (m_streams e) (STREAM_ID host dev 1) = Some s" "m_messages s = map (message_of api True) bodies"
    using test_conversation [OF assms(1) _ assms(3,4) d(2), of api 1 1] assms(2) by (auto simp: lengthPrefixed_frame)
  have virtual: "run_opt (virtual_step api) evs (ExpertUSBMUX u) = map_option ExpertUSBMUX (run_opt (usbmux_step api) evs u)" for u
    by (induction evs arbitrary: u) (auto simp: virtual_step_eq bind_map_option map_option_bind comp_def)
  have "m_experts d ! 0 = ExpertUSBMUX e" using d(6) e(1) by (simp add: virtual)
  then have "device_experts d = Some [ExpertUSBMUX e]" using device_experts_ok [OF d(3)] d(4) by simp
  with f(1-3) ds e(2,3) show ?thesis by (auto simp: accessor_simps)
qed

definition split_packet :: "byte list" where
  "split_packet = mux_out 49152 62078 USB_TCP_FLAG_ACK (mux_request ''GetValue'')"

theorem usbmux_test_messages_are_reassembled_witness:
  "\<exists>f d e s. reader_parse sample_api PcapInputFile (build_file (Classic False False) FormatDarwin 5 0x14100000 (host_sends
       [mux_out 49152 62078 USB_TCP_FLAG_SYN [], take 5 split_packet, take 35 (drop 5 split_packet), drop 40 split_packet] (iphone False)))
       new_input_file = Some (f, None) \<and>
    getWarnings f = [] \<and> getDevices f = Some [d] \<and> device_experts d = Some [ExpertUSBMUX e] \<and>
    om_find (getStreams e) (STREAM_ID 49152 62078 1) = Some s \<and>
    getMessages s = map (message_of sample_api True) [xmlPlist ''<key>Request</key><string>GetValue</string>'']"
proof -
  let ?body = "xmlPlist ''<key>Request</key><string>GetValue</string>''"
  have parts: "concat [mux_request ''GetValue''] = concat (map lengthPrefixed [?body])" by (simp add: mux_request_def)
  have len: "length ?body = 228" by (simp add: xmlPlist_def bytes_of_def)
  have framed: "well_framed [?body]" using len by (simp add: well_framed_def plausible_def signature_def xmlPlist_def bytes_of_def
      BINARY_PLIST_PREFIX_def XML_PLIST_PREFIX_def byte_of_char_def)
  have small: "list_all (\<lambda>part. length part \<le> 1048540) [mux_request ''GetValue'']"
    using len by (simp add: mux_request_def lengthPrefixed_def)
  have "take 35 (drop 5 split_packet) @ drop 40 split_packet = drop 5 split_packet"
    using append_take_drop_id [of 35 "drop 5 split_packet"] by simp
  then have chunks: "concat [mux_out 49152 62078 USB_TCP_FLAG_SYN [], take 5 split_packet, take 35 (drop 5 split_packet), drop 40 split_packet] =
      mux_out 49152 62078 USB_TCP_FLAG_SYN [] @ concat (map (mux_out 49152 62078 USB_TCP_FLAG_ACK) [mux_request ''GetValue''])"
    using append_take_drop_id [of 5 split_packet] by (simp add: split_packet_def)
  have "length split_packet = 268" "length (mux_out 49152 62078 USB_TCP_FLAG_SYN []) = 36"
    using len by (simp_all add: split_packet_def mux_out_def muxPacket_def mux_header_size_def mux_request_def lengthPrefixed_def)
  then have short: "list_all (\<lambda>x. length x \<le> 0xFFFFFE00)
      [mux_out 49152 62078 USB_TCP_FLAG_SYN [], take 5 split_packet, take 35 (drop 5 split_packet), drop 40 split_packet]" by simp
  show ?thesis
    using usbmux_test_messages_are_reassembled [OF framed parts small chunks short, of sample_api "Classic False False" FormatDarwin 5 "0x14100000" False]
    by simp
qed

end
