(* ===== verification/Spec2Isabelle.thy ===== *)
theory Spec2Isabelle
  imports Sample_Sessions File_Mapping Usb_Chapter9 Wire_Formats Test_DFU Test_USBMUX
begin

text \<open>
  demuxusb reads a capture of USB traffic (pcapng or classic pcap, recorded on macOS, Windows or Linux), follows every
  device address in it, learns the descriptors of each device, reassembles what the host and Apple mobile devices said
  to each other over DFU, recovery mode and usbmux, and prints or extracts it.  This development models the whole
  program, from the bytes of the capture and the command line arguments to the standard streams, the files
  written and the exit status.

  \<^bold>\<open>The program and the theories.\<close>  A capture is read block by block by a reader, which hands every packet to
  \<open>InputFile::processPacket\<close>; the packet is decoded by its link type into an event of a transfer of a device
  address; the handle of the address pairs submissions with completions and hands complete transfers to the
  current \<open>Device\<close>; the device reads descriptors, attaches experts to its interfaces and routes the other transfers to
  them; \<open>main\<close> reports what the devices and experts collected.

  \<^item> Prelude: machine words, checked access to memory (\<open>None\<close> is an access out of bounds), endian codecs,
    \<open>readStruct\<close> (\<open>src/demuxusb.hpp\<close>).
  \<^item> Ordered_Map: \<open>std::map\<close>, with the locale \<open>ordered_map\<close> of the laws its clients rely on and its interpretation.
  \<^item> Text_Format: decimal and hexadecimal numbers as \<open>boost::format\<close> prints them in the formats the code uses.
  \<^item> Utf16: \<open>utf16leToUtf8\<close> (\<open>src/demuxusb.hpp\<close>) with its safety and round trip.
  \<^item> Layouts, Usb_Descriptors: the packed structures of \<open>ext/pcapng.h\<close>, \<open>ext/usb.h\<close> and \<open>ext/usbmux.h\<close> that the program
    reads, as records with decoders at the offsets of the C layout, and the constants it compares them with.
  \<^item> Usb_Configuration: \<open>usb_configuration::parse\<close> (\<open>src/usb/Device.cpp\<close>) against a reference parser.
  \<^item> Interface_Expert, DFU_Expert, Recovery_Expert: the base class and the experts of \<open>src/protocol/\<close>; the locale
    \<open>interface_expert_contract\<close> states what every expert promises (no fault on any transfer, exact counters) and is
    interpreted on the base class, on each expert and on the virtual dispatch.
  \<^item> Mux_Stream, Mux_Framing: one tunnelled TCP connection, its length-prefixed messages and what their recovery
    guarantees (\<open>src/protocol/MuxStream.cpp\<close>).
  \<^item> USBMUX_Expert, USBMUX_Reassembly, USBMUX_Demux: the usbmux expert (\<open>src/protocol/USBMUXInterfaceExpert.cpp\<close>), the
    recovery of usbmux packets from bulk transfers, and the separation of connections.
  \<^item> Experts: the class hierarchy as a datatype, with the dispatch of the virtual functions.
  \<^item> Device_Model: the class \<open>Device\<close> (\<open>src/usb/Device.cpp\<close>).  Its experts are shared by pointer, so they live in a list of
    the device and a pointer is a position in it.
  \<^item> Device_Handle: the class \<open>DeviceHandle\<close>, the transfers in flight and the sessions of one address.
  \<^item> Input_File: the class \<open>InputFile\<close> (\<open>src/file/InputFile.cpp\<close>): the packet formats of Darwin, USBPcap and usbmon, the
    warnings and the handles of all addresses.
  \<^item> Capture_Readers: \<open>PcapInputFile::parse\<close>, \<open>PcapNGInputFile::parse\<close>, \<open>InputFile::open\<close>.
  \<^item> Main_Program: \<open>main\<close> (\<open>src/main.cpp\<close>): options, report, extraction and how the program ends, on the contents of the
    capture (\<open>run_contents\<close>; \<open>run_program\<close> is that run on a file system that accepts what is extracted to it).
  \<^item> File_Mapping: the constructor of \<open>InputFile\<close>, and \<open>open\<close> and \<open>main\<close> with their accesses to the file system.
  \<^item> Structure_Layout, Usb_Chapter9, Wire_Formats: what it means for a record to be a packed structure (the locale
    \<open>layout\<close>, and the predicate \<open>laid_out\<close> for a declaration, member by member), and everything else of \<open>ext/usb.h\<close>, \<open>ext/pcapng.h\<close> and \<open>ext/usbmux.h\<close>: the structures, the inline
    functions on endpoints, the enumerations and the codes.
  \<^item> Accessors: the getters of the classes.
  \<^item> Capture_Builder, Test_Fixtures, Test_DFU, Test_USBMUX: the synthetic captures of the test suite
    (\<open>test/CaptureBuilder.h\<close>), the devices in them, its firmware test (\<open>test/test_DFU.cpp\<close>) for every image, and its test
    of usbmux messages cut across packets and transfers (\<open>test/test_USBMUX.cpp\<close>) for all messages and cuts.

  The remaining theories model no further code.  They follow traffic through the components:

  \<^item> Capture_Traces: from the transfers of a trace to the files the program writes for the sessions of an address.
  \<^item> Format_Agreement: reading back what the capture builder makes, and the agreement of the capture formats.
  \<^item> Enumeration: what a device enumerated on the bus becomes (descriptor, configuration, experts), and how it serves the
    traffic after that as long as nothing changes its configuration: each expert runs on the calls which the
    configuration assigns to it, and no others.
  \<^item> Mux_Conversations: how usbmux packets are cut into the transfers of both directions (the relation \<open>carries\<close>), and
    from there the packets, the segments and the messages of one connection.
  \<^item> Device_Typing: the typing of the experts of a device by class, configuration and interface, and its soundness.
  \<^item> Firmware, Conversations: a DFU download, a recovery session and a usbmux conversation from the transfers of a device
    to the artifacts of its expert.
  \<^item> Sample_Sessions: concrete traffic on which the properties of this theory are applied.

  \<^bold>\<open>How state and operations correspond.\<close>  A class is a record with the members of the class, a method is a function on
  the record that returns it updated.  A method that can read outside an object, use a null pointer or subtract below
  zero returns an option, \<open>None\<close> being that fault, so that a theorem with \<open>Some\<close> in its conclusion states the absence of
  faults.  A \<open>ParseError\<close> is a value next to the state, which \<open>main\<close> still reports; the \<open>filesystem_error\<close> of a directory
  that cannot be created is not handled by \<open>main\<close>, and the program ends \<open>Terminated\<close> with what it had written.  Machine integers have
  their width and wrap around as in C++; \<open>size_t\<close> is \<open>nat\<close> where it counts bytes of one file.
  Fields copied out of packets are read little endian, as on the hosts the program is built for.

  \<^bold>\<open>What the lemmas show.\<close>  For every component: no operation faults on any input (safety, down to \<open>main\<close> as a
  whole), its invariant is preserved, and what it computes equals a specification that does not mention how it is
  computed.  The specifications compose: a capture written by a driver for a trace of transfers is decoded back to the trace
  (\<open>packet_roundtrip\<close>, \<open>pcap_read_back\<close>, \<open>pcapng_read_back\<close>, \<open>capture_refines_transfers\<close> below), and what is captured does not
  depend on the driver that captured it (\<open>capture_formats_agree\<close>, \<open>built_capture_read_back\<close>); the trace of an address
  decides its devices (\<open>capture_demultiplexed\<close>); a completed control transfer is delivered once and whole
  (\<open>control_transfer_delivered\<close>); a device hands every expert its own transfers in order (\<open>device_demultiplexes\<close>); and the
  experts recover what was sent: firmware images, recovery uploads and commands, and the property lists of every
  usbmux connection, whatever the segmentation and interleaving.  The properties below go through all of them, from the
  bytes of a capture to the written files: \<open>session_extracted\<close> for any device that enumerates, \<open>firmware_extracted\<close>,
  \<open>recovery_extracted\<close> and \<open>conversation_extracted\<close> for what is said to a device in each of its modes.

  \<^bold>\<open>The interfaces.\<close>  What a component promises its callers is a locale: \<open>safe_machine\<close> (every operation succeeds in every
  state that is in order and leaves one; the streams, the usbmux packets, the device, the handle, its sessions and
  the file keep it), \<open>ordered_map\<close>, \<open>interface_expert_contract\<close> (which gives \<open>safe_machine\<close>), \<open>capture_format\<close> (what was
  written in a format is read back by the reader chosen for it; both formats keep it) and \<open>layout\<close> (a structure and the
  bytes of its size determine each other; every structure of the three headers keeps it).

  \<^bold>\<open>Loops.\<close>  No fuel is used.  The loops over a file, over a descriptor set and over buffered bytes are functions with
  a termination proof (the unread bytes decrease); the others recurse on a list.

  \<^bold>\<open>What is not modelled.\<close>  libplist is third-party code, the record \<open>plist_api\<close> of its functions, a parameter of
  every definition that uses it; nothing is assumed of it.  The joining of paths (\<open>boost::filesystem\<close>) is a parameter,
  and so is the file system: \<open>run_program\<close> and \<open>run_contents\<close> take the contents of its files, \<open>run_main\<close> the answers to the
  stream, the size and the mapping, errors included; \<open>output_system\<close> gives its answers to the extraction, a directory
  that cannot be created (an exception) and a file that does not open or keeps only some bytes (which the streams
  pass over in silence).  \<open>written_files\<close> lists the files in the order they were stored; on disk, a path holds what
  was stored there last, which matters when two experts of a device have artifacts of one name.  Of \<open>ext/usb.h\<close> the test selectors and the link power
  management bits are left out, which no code uses.  Of the test suite the capture builder with its fixtures, the firmware test, a usbmux test and three
  tests of descriptors are modelled; the other tests and the build files are left out.
\<close>

section \<open>From the bytes of a capture to the transfers of its devices\<close>

text \<open>
  C2: The whole path from a capture file to the devices refines the transfers themselves.  A capture in any format,
  classic in either byte order or PCAPNG, of the packets that the Darwin, USBPcap or usbmon driver wrote for any
  interleaving of transfers on any device addresses is read without error or warning, and every address ends with
  exactly the handle, sessions and experts that its own transfer events produce.
\<close>

theorem capture_refines_transfers:
  assumes "linktype < 65536" and "writes linktype trace packets"
  shows "\<exists>f. reader_parse api (format_reader fmt) (write_capture fmt linktype packets) new_input_file = Some (f, None) \<and>
    m_warnings f = [] \<and>
    (\<forall>a. run_opt (handle_step api) (trace_events a trace) (new_device_handle a) = Some (handle_at a f))"
  using capture_read [OF assms] by blast

theorem capture_refines_transfers_witness:
  "\<exists>f. reader_parse sample_api PcapNGInputFile (write_capture PcapNG LINKTYPE_USB_DARWIN sample_packets) new_input_file =
      Some (f, None) \<and> m_warnings f = [] \<and>
    (\<forall>a. run_opt (handle_step sample_api) (trace_events a sample_trace) (new_device_handle a) = Some (handle_at a f))"
  using capture_refines_transfers [of LINKTYPE_USB_DARWIN sample_trace sample_packets sample_api PcapNG]
  by (simp add: writes_def sample_trace_def sample_packets_def)

section \<open>A firmware image, from the bus to its file\<close>

text \<open>
  C1: A firmware image is recovered.  When, whatever else happens on the bus and however transfers interleave, the
  transfers completed at one address are the enumeration of an Apple device in DFU mode, then transfers that
  neither abort nor complete a download, then a zero length download, the program run with an extraction directory on
  the capture writes a file with exactly the bytes of the downloaded blocks, in order, as the first image of that
  device, whatever comes afterwards.
\<close>

theorem firmware_extracted:
  assumes "parse_arguments program arguments new_cli_options = CliRun opts" and "opt_extract opts \<noteq> []"
    and "contents (opt_input opts) = Some (write_capture fmt linktype packets)" and "linktype < 65536" and "writes linktype trace packets"
    and "completed_transfers om_empty (trace_events a trace) =
      before @ [DeviceControlIn 0 s1 descriptor] @ between @ [DeviceControlIn 0 s2 conf] @ blocks @
      [DeviceControlOut 0 z rest] @ afterwards"
    and "list_all quiet before" "list_all quiet between" "list_all quiet blocks"
    and "gets_descriptor 1 s1" "dfu_mode_descriptor descriptor"
    and "gets_descriptor 2 s2" "answered_configuration conf = Some c"
    and "list_all (\<lambda>x. \<not> ends_image x) (dfu_calls c blocks)"
    and "img = concat (map downloaded (dfu_calls c blocks))" "img \<noteq> []"
    and "is_class_request z" "bRequest z = DFU_DNLOAD" "wLength z = 0" "addressed c z"
  shows "\<exists>r k. run_program api path_join contents program arguments = Some r \<and> exit_status r = 0 \<and>
    (path_join (path_join (opt_extract opts) (''device-'' @ dec k @ ''-'' @ hex (unat a))) ''dfu-image-0.bin'', img)
      \<in> set (written_files r)"
proof -
  have "bmRequestType z AND USB_TYPE_MASK \<noteq> USB_TYPE_STANDARD" using assms(17) by (simp add: is_class_request_def)
  then have final: "dfu_call c (DeviceControlOut 0 z rest) = [ControlOut z rest]" "ends_image (ControlOut z rest)"
    using assms(17-20) by simp_all
  have received: "\<exists>d \<in> set ds. holds_image img d"
    if "run_opt (session_step api a) (completed_transfers om_empty (trace_events a trace)) [new_device a] = Some ds" for ds
    using firmware_received [OF assms(6-10) _ assms(11,12) _ assms(13-16) final that] by auto
  have "\<not> holds_image img (new_device a)" by (simp add: holds_image_def new_device_def)
  moreover have "recorded contents (opt_input opts) trace" unfolding recorded_def using assms(3-5) by blast
  ultimately obtain r k d where r: "run_program api path_join contents program arguments = Some r" "exit_status r = 0" "holds_image img d"
      "device_ok d" "m_device_id d = a" "set (device_files api path_join (opt_extract opts) k d) \<subseteq> set (written_files r)"
    using session_files [where P = "holds_image img" and contents = contents and path_join = path_join and api = api and a = a,
        OF assms(1,2)] received by blast
  obtain es e where e: "device_experts d = Some es" "e \<in> set es"
    "\<lparr>artifact_name = ''dfu-image-0.bin'', artifact_data = img\<rparr> \<in> set (expert_getArtifacts api e)"
    using holds_image_extracted [OF r(3)] by blast
  have "(path_join (device_directory path_join (opt_extract opts) k d) ''dfu-image-0.bin'', img)
      \<in> set (device_files api path_join (opt_extract opts) k d)"
    using device_files_member [OF e r(4)] by simp
  with r show ?thesis unfolding device_directory_def by blast
qed

theorem firmware_extracted_witness:
  "\<exists>r k. run_program sample_api slash_join firmware_file ''demuxusb'' [''-x'', ''out'', ''in.pcap''] = Some r \<and> exit_status r = 0 \<and>
    (slash_join (slash_join (opt_extract firmware_options) (''device-'' @ dec k @ ''-'' @ hex (unat (address_of (Darwin 1 5)))))
       ''dfu-image-0.bin'', [7, 8]) \<in> set (written_files r)"
proof -
  obtain c where c: "answered_configuration dfu_conf = Some c" "map number_of (interfaces c) = [0]"
    using firmware_configuration by (elim exE conjE)
  have a: "addressed c (dnload_setup n)" for n using c(2) by (auto simp: addressed_def dnload_setup_def)
  have args: "parse_arguments ''demuxusb'' [''-x'', ''out'', ''in.pcap''] new_cli_options = CliRun firmware_options"
    "opt_extract firmware_options \<noteq> []"
    by (simp_all add: firmware_options_def new_cli_options_def)
  have reads: "gets_descriptor 1 device_read" "gets_descriptor 2 conf_read" "dfu_mode_descriptor dfu_descriptor"
    by (simp_all add: gets_descriptor_def device_read_def conf_read_def)
      (simp add: dfu_mode_descriptor_def dfu_descriptor_def decode_device_descriptor_def field_def)
  have calls: "dfu_calls c [DeviceControlOut 0 (dnload_setup 2) [7, 8]] = [ControlOut (dnload_setup 2) [7, 8]]"
    using a [of 2] by (simp add: dfu_calls_def) (simp add: dnload_setup_def)
  have img: "[7, 8] = concat (map downloaded (dfu_calls c [DeviceControlOut 0 (dnload_setup 2) [7, 8]]))"
    "list_all (\<lambda>x. \<not> ends_image x) (dfu_calls c [DeviceControlOut 0 (dnload_setup 2) [7, 8]])"
    unfolding calls by (simp_all add: dnload_setup_def is_class_request_def)
  have last: "is_class_request (dnload_setup 0)" "bRequest (dnload_setup 0) = DFU_DNLOAD" "wLength (dnload_setup 0) = 0"
    by (simp_all add: dnload_setup_def is_class_request_def)
  have mask: "(LINKTYPE_USB_DARWIN :: u32) < 65536" by simp
  have quiet: "list_all quiet []" "list_all quiet [DeviceControlOut 0 (dnload_setup 2) [7, 8]]" "[7, 8] \<noteq> ([] :: byte list)" by simp_all
  show ?thesis
    by (rule firmware_extracted [OF args firmware_file_def mask firmware_writes firmware_trace_completed quiet(1,1,2)
          reads(1,3,2) c(1) img(2,1) quiet(3) last a])
qed

section \<open>Every session, and what its experts recovered\<close>

text \<open>
  C3: A session on the bus decides its files.  When the transfers completed at an address are the enumeration of a
  device, any traffic that leaves its configuration alone, and nothing more or the appearance of another device, the
  program writes, for every expert the configuration attaches, all artifacts of the state that this expert reaches by
  itself on the calls which the configuration assigns to it.
\<close>

theorem session_extracted:
  assumes "parse_arguments program arguments new_cli_options = CliRun opts" and "opt_extract opts \<noteq> []"
    and "recorded contents (opt_input opts) trace"
    and "session_of descriptor conf c traffic (completed_transfers om_empty (trace_events a trace))"
    and "enumerated descriptor c = (c', es)"
  shows "\<exists>r k. run_program api path_join contents program arguments = Some r \<and> exit_status r = 0 \<and>
    (\<forall>p \<in> set (pointers c'). \<exists>e. run_opt (virtual_step api) (static_calls p c' traffic) (es ! p) = Some e \<and>
      (\<forall>x \<in> set (expert_getArtifacts api e).
        (path_join (path_join (opt_extract opts) (''device-'' @ dec k @ ''-'' @ hex (unat a))) (artifact_name x), artifact_data x)
          \<in> set (written_files r)))"
  by (rule session_served [OF assms])

theorem session_extracted_witness:
  "\<exists>c es r k e. enumerated (mobile_descriptor 0x81) c = (c\<lparr>interfaces := [set_expert 0 (mobile_interface 0xFE 1 2)]\<rparr>, es) \<and>
    run_program sample_api slash_join (capture_of recovery_trace) ''demuxusb'' [''-x'', ''out'', ''in.pcap''] = Some r \<and> exit_status r = 0 \<and>
    run_opt (virtual_step sample_api) (static_calls 0 (c\<lparr>interfaces := [set_expert 0 (mobile_interface 0xFE 1 2)]\<rparr>) recovery_traffic) (es ! 0) = Some e \<and>
    list_all (\<lambda>x. (slash_join (slash_join (opt_extract firmware_options) (''device-'' @ dec k @ ''-'' @ hex (unat (address_of (Darwin 1 5)))))
      (artifact_name x), artifact_data x) \<in> set (written_files r)) (expert_getArtifacts sample_api e)"
proof -
  obtain c where c: "session_of (mobile_descriptor 0x81) (mobile_conf 0xFE 1 2) c recovery_traffic
      (completed_transfers om_empty (trace_events (address_of (Darwin 1 5)) recovery_trace))" "interfaces c = [mobile_interface 0xFE 1 2]"
    using recovery_session by blast
  let ?c = "c\<lparr>interfaces := [set_expert 0 (mobile_interface 0xFE 1 2)]\<rparr>"
  have "recovery_mode (mobile_descriptor 0x81)"
    by (simp add: recovery_mode_def mobile_descriptor_def decode_device_descriptor_def field_def)
  from recovery_enumerated [OF this, of c] obtain es where
    enum: "enumerated (mobile_descriptor 0x81) c = (?c, es :: sample_node expert list)" by (simp add: c(2))
  have p: "0 \<in> set (pointers ?c)" by (simp add: pointers_def map_filter_simps)
  obtain r k where "run_program sample_api slash_join (capture_of recovery_trace) ''demuxusb'' [''-x'', ''out'', ''in.pcap''] = Some r"
      "exit_status r = 0" and files: "\<forall>p \<in> set (pointers ?c). \<exists>e. run_opt (virtual_step sample_api) (static_calls p ?c recovery_traffic) (es ! p) = Some e \<and>
        (\<forall>x \<in> set (expert_getArtifacts sample_api e).
          (slash_join (slash_join (opt_extract firmware_options) (''device-'' @ dec k @ ''-'' @ hex (unat (address_of (Darwin 1 5)))))
            (artifact_name x), artifact_data x) \<in> set (written_files r))"
    using session_extracted [OF firmware_arguments recorded_darwin [OF recovery_writes] c(1) enum, of sample_api slash_join] by (elim exE conjE)
  with enum bspec [OF files p] show ?thesis unfolding list_all_iff by blast
qed

text \<open>
  C5: A recovery session is extracted whole.  From a device in recovery mode, in any capture, the program writes one
  file for each upload with exactly the bytes sent between its announcement and the next, numbered in order, and the
  console with exactly the bytes the device answered.
\<close>

theorem recovery_extracted:
  assumes "parse_arguments program arguments new_cli_options = CliRun opts" and "opt_extract opts \<noteq> []"
    and "recorded contents (opt_input opts) trace"
    and "session_of descriptor conf c traffic (completed_transfers om_empty (trace_events a trace))"
    and "recovery_mode descriptor" and "interfaces c \<noteq> []"
    and "ups = filter (\<lambda>bs. bs \<noteq> []) (fold upload_step (device_calls c traffic) [])"
    and "console = concat (map console_bytes (device_calls c traffic))"
  shows "\<exists>r k. run_program api path_join contents program arguments = Some r \<and> exit_status r = 0 \<and>
    (\<forall>j < length ups.
       (path_join (path_join (opt_extract opts) (''device-'' @ dec k @ ''-'' @ hex (unat a))) (''recovery-upload-'' @ dec j @ ''.bin''), ups ! j)
         \<in> set (written_files r)) \<and>
    (console \<noteq> [] \<longrightarrow>
       (path_join (path_join (opt_extract opts) (''device-'' @ dec k @ ''-'' @ hex (unat a))) ''recovery-console.txt'', console)
         \<in> set (written_files r))"
proof -
  let ?v = "bConfigurationValue (config_descriptor c)" and ?c = "c\<lparr>interfaces := map (set_expert 0) (interfaces c)\<rparr>"
  have "0 \<in> set (pointers ?c)" using assms(6) by (cases "interfaces c") (simp_all add: pointers_def map_filter_simps)
  with session_served [OF assms(1-4) recovery_enumerated [OF assms(5)], of api path_join] obtain r k e where
    r: "run_program api path_join contents program arguments = Some r" "exit_status r = 0"
      "run_opt (virtual_step api) (device_calls c traffic) (ExpertRecovery (new_recovery_expert ?v 0)) = Some e"
      "\<forall>x \<in> set (expert_getArtifacts api e).
        (path_join (path_join (opt_extract opts) (''device-'' @ dec k @ ''-'' @ hex (unat a))) (artifact_name x), artifact_data x)
          \<in> set (written_files r)"
    by (auto simp: static_calls_shared)
  obtain e' where e': "e = ExpertRecovery e'" "uploads (m_payloads e') = fold upload_step (device_calls c traffic) []"
      "m_console e' = text_of console"
    using recovery_files [OF r(3)] assms(8) by blast
  have "\<lparr>artifact_name = ''recovery-upload-'' @ dec j @ ''.bin'', artifact_data = ups ! j\<rparr> \<in> set (expert_getArtifacts api e)"
    if "j < length ups" for j
  proof -
    have "(j, ups ! j) \<in> set (List.enumerate 0 ups)" using that by (force simp: enumerate_eq_zip in_set_zip)
    then show ?thesis
      by (force simp: e'(1) expert_getArtifacts_def recovery_getArtifacts_def upload_artifacts_eq e'(2) assms(7))
  qed
  moreover have "\<lparr>artifact_name = ''recovery-console.txt'', artifact_data = console\<rparr> \<in> set (expert_getArtifacts api e)" if "console \<noteq> []"
  proof -
    have "m_console e' \<noteq> []" using that e'(3) by (simp add: text_of_def)
    then show ?thesis by (simp add: e'(1) expert_getArtifacts_def recovery_getArtifacts_def) (simp add: e'(3))
  qed
  ultimately show ?thesis using r(1,2,4) by (intro exI [of _ r] exI [of _ k]) fastforce
qed

theorem recovery_extracted_witness:
  "\<exists>r k. run_program sample_api slash_join (capture_of recovery_trace) ''demuxusb'' [''-x'', ''out'', ''in.pcap''] = Some r \<and> exit_status r = 0 \<and>
    (slash_join (slash_join (opt_extract firmware_options) (''device-'' @ dec k @ ''-'' @ hex (unat (address_of (Darwin 1 5)))))
       (''recovery-upload-'' @ dec 0 @ ''.bin''), [7, 8]) \<in> set (written_files r) \<and>
    (slash_join (slash_join (opt_extract firmware_options) (''device-'' @ dec k @ ''-'' @ hex (unat (address_of (Darwin 1 5)))))
       ''recovery-console.txt'', [65]) \<in> set (written_files r)"
proof -
  obtain c where c: "session_of (mobile_descriptor 0x81) (mobile_conf 0xFE 1 2) c recovery_traffic
      (completed_transfers om_empty (trace_events (address_of (Darwin 1 5)) recovery_trace))" "interfaces c = [mobile_interface 0xFE 1 2]"
    using recovery_session by blast
  have mode: "recovery_mode (mobile_descriptor 0x81)"
    by (simp add: recovery_mode_def mobile_descriptor_def decode_device_descriptor_def field_def)
  have calls: "device_calls c recovery_traffic = [ControlOut announce_setup [], BulkOut [7, 8], BulkIn [65]]"
    by (simp add: device_calls_def recovery_traffic_def interface_endpoints_def c(2) mobile_interface_def declares_def
        decode_endpoint_descriptor_def field_def Firmware.addressed_def announce_setup_def decode_interface_descriptor_def)
  have ups: "[[7, 8]] = filter (\<lambda>bs. bs \<noteq> []) (fold upload_step (device_calls c recovery_traffic) [])"
    "[65] = concat (map console_bytes (device_calls c recovery_traffic))" "interfaces c \<noteq> []"
    by (simp_all add: calls upload_step_def announce_setup_def c(2))
  obtain r k where r: "run_program sample_api slash_join (capture_of recovery_trace) ''demuxusb'' [''-x'', ''out'', ''in.pcap''] = Some r"
      "exit_status r = 0" and files: "\<forall>j < length [[7, 8 :: byte]].
       (slash_join (slash_join (opt_extract firmware_options) (''device-'' @ dec k @ ''-'' @ hex (unat (address_of (Darwin 1 5)))))
         (''recovery-upload-'' @ dec j @ ''.bin''), [[7, 8]] ! j) \<in> set (written_files r)"
      and console: "[65 :: byte] \<noteq> [] \<longrightarrow>
       (slash_join (slash_join (opt_extract firmware_options) (''device-'' @ dec k @ ''-'' @ hex (unat (address_of (Darwin 1 5)))))
         ''recovery-console.txt'', [65]) \<in> set (written_files r)"
    using recovery_extracted [OF firmware_arguments recorded_darwin [OF recovery_writes] c(1) mode ups(3,1,2), of sample_api slash_join]
    by (elim exE conjE)
  have "(slash_join (slash_join (opt_extract firmware_options) (''device-'' @ dec k @ ''-'' @ hex (unat (address_of (Darwin 1 5)))))
       (''recovery-upload-'' @ dec 0 @ ''.bin''), [7, 8]) \<in> set (written_files r)"
    using files [rule_format, of 0] by simp
  with r console [rule_format] show ?thesis by blast
qed

text \<open>
  C4: The conversations of a device are extracted.  Through the usbmux interface of a running device, in any capture,
  with both directions cut into transfers and interleaved in any way, beside other protocols and other connections: a
  connection the host opens and does not reopen, over which the framed property lists \<open>outs\<close> and \<open>ins\<close> are exchanged in
  segments of any size, becomes a file named after its ports and its number, which holds each message once, in the
  order of its direction, decoded.
\<close>

theorem conversation_extracted:
  assumes "parse_arguments program arguments new_cli_options = CliRun opts" and "opt_extract opts \<noteq> []"
    and "recorded contents (opt_input opts) trace"
    and "session_of descriptor conf c traffic (completed_transfers om_empty (trace_events a trace))"
    and "normal_mode descriptor" and "usbmux_interface c n"
    and "carries (\<lambda>_. []) (interface_transfers c n traffic) qs" and "segments qs = earlier @ syn # segs"
    and "belongs h d syn" and "opens syn" and "list_all (\<lambda>seg. \<not> (belongs h d seg \<and> opens seg)) segs"
    and "well_framed outs" and "concat (sent (conn_data (filter (belongs h d) (syn # segs)))) = concat (map frame outs)"
    and "well_framed ins" and "concat (received (conn_data (filter (belongs h d) (syn # segs)))) = concat (map frame ins)"
    and "outs \<noteq> [] \<or> ins \<noteq> []"
  shows "\<exists>r k ms. run_program api path_join contents program arguments = Some r \<and> exit_status r = 0 \<and>
    filter outbound ms = map (message_of api True) outs \<and> filter (\<lambda>m. \<not> outbound m) ms = map (message_of api False) ins \<and>
    (path_join (path_join (opt_extract opts) (''device-'' @ dec k @ ''-'' @ hex (unat a)))
       (''usbmux-'' @ zero_pad 16 (hex (unat (STREAM_ID h d (connection_number h d earlier)))) @ ''-'' @ dec (unat h) @ ''-'' @
        dec (unat d) @ ''.plist.txt''),
     bytes_of (conversation_text api ms)) \<in> set (written_files r)"
proof -
  let ?v = "bConfigurationValue (config_descriptor c)"
  obtain c' and es :: "'a expert list" where enum: "enumerated descriptor c = (c', es)" by fastforce
  have "unshared c" using assms(4) by (simp add: session_of_def)
  from usbmux_enumerated [OF assms(5,6) this enum, of traffic] obtain p where
    p: "p \<in> set (pointers c')" "es ! p = ExpertUSBMUX (new_usbmux_expert ?v n)"
      "filter is_bulk (static_calls p c' traffic) = interface_transfers c n traffic" by blast
  from session_served [OF assms(1-4) enum, of api path_join] p(1,2) obtain r k e where
    r: "run_program api path_join contents program arguments = Some r" "exit_status r = 0"
      "run_opt (virtual_step api) (static_calls p c' traffic) (ExpertUSBMUX (new_usbmux_expert ?v n)) = Some e"
      "\<forall>x \<in> set (expert_getArtifacts api e).
        (path_join (path_join (opt_extract opts) (''device-'' @ dec k @ ''-'' @ hex (unat a))) (artifact_name x), artifact_data x)
          \<in> set (written_files r)" by fastforce
  from usbmux_files [OF assms(7) [folded p(3)] assms(8-16) r(3)] r show ?thesis by fastforce
qed

theorem conversation_extracted_witness:
  "\<exists>r k ms. run_program sample_api slash_join (capture_of usbmux_trace) ''demuxusb'' [''-x'', ''out'', ''in.pcap''] = Some r \<and> exit_status r = 0 \<and>
    filter outbound ms = map (message_of sample_api True) [small_plist] \<and>
    filter (\<lambda>m. \<not> outbound m) ms = map (message_of sample_api False) [small_plist] \<and>
    (slash_join (slash_join (opt_extract firmware_options) (''device-'' @ dec k @ ''-'' @ hex (unat (address_of (Darwin 1 5)))))
       (''usbmux-'' @ zero_pad 16 (hex (unat (STREAM_ID 50000 62078 (connection_number 50000 62078 [])))) @ ''-'' @ dec (unat (50000 :: u16)) @
        ''-'' @ dec (unat (62078 :: u16)) @ ''.plist.txt''),
     bytes_of (conversation_text sample_api ms)) \<in> set (written_files r)"
proof -
  obtain c where c: "answered_configuration (mobile_conf 0xFF 0xFE 2) = Some c" "interfaces c = [mobile_interface 0xFF 0xFE 2]"
      "bConfigurationValue (config_descriptor c) = 1"
    using mobile_answered by blast
  have "list_all (steady (mobile_descriptor 0xA8) (mobile_conf 0xFF 0xFE 2) 1) usbmux_traffic"
    by (simp add: usbmux_traffic_def steady_def)
  from mobile_session [OF c this] have session: "session_of (mobile_descriptor 0xA8) (mobile_conf 0xFF 0xFE 2) c usbmux_traffic
      (completed_transfers om_empty (trace_events (address_of (Darwin 1 5)) usbmux_trace))"
    unfolding usbmux_trace_completed .
  have mode: "normal_mode (mobile_descriptor 0xA8)"
    by (simp add: normal_mode_def mobile_descriptor_def decode_device_descriptor_def field_def)
  have mux: "usbmux_interface c 0"
    by (simp add: usbmux_interface_def c(2) mobile_interface_def usbmux_protocol_def decode_interface_descriptor_def field_def)
  have calls: "interface_transfers c 0 usbmux_traffic = [BulkOut host_first, BulkIn device_first, BulkOut host_second, BulkIn device_second]"
    by (simp add: interface_transfers_def usbmux_traffic_def interface_declares_def interface_endpoints_def c(2) mobile_interface_def
        declares_def decode_endpoint_descriptor_def decode_interface_descriptor_def field_def)
  let ?qs = "[(True, syn_packet), (False, version_packet), (True, query_packet), (False, reply_packet)]"
  let ?syn = "(True, tcp_segment 50000 62078 2 [])"
  let ?segs = "[(True, tcp_segment 50000 62078 16 (frame small_plist)), (False, tcp_segment 62078 50000 16 (frame small_plist))]"
  have segs: "segments ?qs = [] @ ?syn # ?segs"
    by (simp add: segment_of_def syn_packet_def version_packet_def query_packet_def reply_packet_def)
  have conn: "belongs 50000 62078 ?syn" "opens ?syn" "list_all (\<lambda>seg. \<not> (belongs 50000 62078 seg \<and> opens seg)) ?segs"
    by (simp_all add: belongs_def host_port_def device_port_def opens_def)
  have framed: "well_framed [small_plist]" by (simp add: small_plist_def well_framed_def plausible_def signature_def BINARY_PLIST_PREFIX_def)
  have bytes: "concat (sent (conn_data (filter (belongs 50000 62078) (?syn # ?segs)))) = concat (map frame [small_plist])"
    "concat (received (conn_data (filter (belongs 50000 62078) (?syn # ?segs)))) = concat (map frame [small_plist])"
    by (simp_all add: belongs_def host_port_def device_port_def conn_data_def sent_def received_def)
  have some: "[small_plist] \<noteq> [] \<or> [small_plist] \<noteq> []" by simp
  show ?thesis
    by (rule conversation_extracted [OF firmware_arguments recorded_darwin [OF usbmux_writes] session mode mux usbmux_carried [folded calls]
          segs conn framed bytes(1) framed bytes(2) some])
qed

end
